(* ===== verification/Forme_Prelude.thy ===== *)
theory Forme_Prelude
  imports Main "HOL-Library.Word" "HOL-Library.Char_ord" "HOL-Library.List_Lexorder"
begin

text \<open>
  What every component shares: the result type of the fallible functions with the sequencing that
  Rust writes with a question mark, the unsigned machine integers with their checked and saturating
  additions, and the string operations of the standard library that the guards of the runtime use.

  A Rust \<open>String\<close> is the list of its UTF-8 bytes, so \<open>length\<close> is \<open>str::len\<close>, the list order is
  \<open>Ord for String\<close>, and a prefix of the byte list is a prefix of the string. The string newtypes of
  \<open>protocol/src/primitives.rs\<close> (\<open>Scope\<close>, \<open>RunId\<close>, ...) are type synonyms of \<^typ>\<open>string\<close>.
\<close>

named_theorems result_simps \<open>unfolding of the error-or-value plumbing\<close>

subsection \<open>Errors and results\<close>

datatype error = Error string

type_synonym 'a result = "error + 'a"

definition fails :: "string \<Rightarrow> 'a result" where
  "fails msg = Inl (Error msg)"

definition and_then :: "'a result \<Rightarrow> ('a \<Rightarrow> 'b result) \<Rightarrow> 'b result" where
  "and_then r f = (case r of Inl e \<Rightarrow> Inl e | Inr v \<Rightarrow> f v)"

definition ensure :: "bool \<Rightarrow> string \<Rightarrow> unit result" where
  "ensure ok msg = (if ok then Inr () else fails msg)"

definition is_ok :: "'a result \<Rightarrow> bool" where
  "is_ok r = (case r of Inl _ \<Rightarrow> False | Inr _ \<Rightarrow> True)"

definition ok_or :: "'a option \<Rightarrow> string \<Rightarrow> 'a result" where
  "ok_or o' msg = (case o' of None \<Rightarrow> fails msg | Some v \<Rightarrow> Inr v)"

fun try_map :: "('a \<Rightarrow> 'b result) \<Rightarrow> 'a list \<Rightarrow> 'b list result" where
  "try_map f [] = Inr []"
| "try_map f (x # xs) = and_then (f x) (\<lambda>y. and_then (try_map f xs) (\<lambda>ys. Inr (y # ys)))"

definition try_all :: "('a \<Rightarrow> unit result) \<Rightarrow> 'a list \<Rightarrow> unit result" where
  "try_all f xs = and_then (try_map f xs) (\<lambda>_. Inr ())"

lemma and_then_simps [simp]:
  "and_then (Inl e) f = Inl e"
  "and_then (Inr v) f = f v"
  by (simp_all add: and_then_def)

lemma and_then_Inr_iff [result_simps]:
  "and_then r f = Inr w \<longleftrightarrow> (\<exists>v. r = Inr v \<and> f v = Inr w)"
  by (cases r) auto

lemma ensure_Inr_iff [simp]: "ensure ok msg = Inr u \<longleftrightarrow> ok"
  by (cases u) (simp add: ensure_def fails_def)

lemma ensure_True [simp]: "ensure True msg = Inr ()"
  by (simp add: ensure_def)

lemma ensure_False [simp]: "ensure False msg = fails msg"
  by (simp add: ensure_def)

lemma fails_neq_Inr [simp]: "fails msg \<noteq> Inr v" "Inr v \<noteq> fails msg"
  by (simp_all add: fails_def)

lemma and_then_fails [simp]: "and_then (fails msg) f = fails msg"
  by (simp add: fails_def)

lemma case_fails [simp]: "(case fails msg of Inl e \<Rightarrow> f e | Inr v \<Rightarrow> g v) = f (Error msg)"
  by (simp add: fails_def)

lemma ok_or_simps [simp]: "ok_or None msg = fails msg" "ok_or (Some v) msg = Inr v"
  by (simp_all add: ok_or_def)

lemma ok_or_Inr_iff [simp]: "ok_or o' msg = Inr v \<longleftrightarrow> o' = Some v"
  by (cases o') simp_all

lemma is_ok_simps [simp]: "is_ok (Inr v)" "\<not> is_ok (Inl e)" "\<not> is_ok (fails msg)"
  by (simp_all add: is_ok_def fails_def)

lemma is_ok_and_then [simp]:
  "is_ok (and_then r f) \<longleftrightarrow> (\<exists>v. r = Inr v \<and> is_ok (f v))"
  by (cases r) auto

lemma is_ok_unit: "is_ok (r :: unit result) \<longleftrightarrow> r = Inr ()"
  by (cases r) auto

lemma is_ok_ensure [simp]: "is_ok (ensure ok msg) \<longleftrightarrow> ok"
  by (simp add: ensure_def)

lemma try_map_Inr_iff:
  "try_map f xs = Inr ys \<longleftrightarrow> list_all2 (\<lambda>x y. f x = Inr y) xs ys"
proof (induction xs arbitrary: ys)
  case Nil
  show ?case by auto
next
  case (Cons x xs)
  then show ?case by (cases ys) (auto simp: and_then_Inr_iff)
qed

lemma try_map_source:
  "try_map f xs = Inr ys \<Longrightarrow> y \<in> set ys \<Longrightarrow> \<exists>x\<in>set xs. f x = Inr y"
  by (induction xs arbitrary: ys) (auto simp: and_then_Inr_iff)

lemma try_map_length: "try_map f xs = Inr ys \<Longrightarrow> length ys = length xs"
  by (auto simp: try_map_Inr_iff dest: list_all2_lengthD)

lemma try_all_Inr_iff [simp]: "try_all f xs = Inr u \<longleftrightarrow> (\<forall>x\<in>set xs. f x = Inr ())"
proof (induction xs)
  case Nil
  show ?case by (simp add: try_all_def)
next
  case (Cons x xs)
  then show ?case by (cases u) (auto simp: try_all_def and_then_Inr_iff)
qed

subsection \<open>Machine integers\<close>

type_synonym u8 = "8 word"
type_synonym u16 = "16 word"
type_synonym u32 = "32 word"
type_synonym u64 = "64 word"

text \<open>An \<open>i64\<close> time stamp in milliseconds, as an integer; its sums saturate.\<close>

type_synonym timestamp = int

definition saturating_add :: "'a::len word \<Rightarrow> 'a word \<Rightarrow> 'a word" where
  "saturating_add a b = (if unat a + unat b < 2 ^ LENGTH('a) then a + b else - 1)"

definition saturating_sub :: "'a::len word \<Rightarrow> 'a word \<Rightarrow> 'a word" where
  "saturating_sub a b = (if b \<le> a then a - b else 0)"

definition checked_add :: "'a::len word \<Rightarrow> 'a word \<Rightarrow> 'a word option" where
  "checked_add a b = (if unat a + unat b < 2 ^ LENGTH('a) then Some (a + b) else None)"

lemma unat_add_no_wrap:
  fixes a b :: "'a::len word"
  assumes "unat a + unat b < 2 ^ LENGTH('a)"
  shows "unat (a + b) = unat a + unat b"
  using assms by (simp add: unat_word_ariths)

lemma unat_max_word: "unat (- 1 :: 'a::len word) = 2 ^ LENGTH('a) - 1"
  by (simp add: unsigned_minus_1_eq_mask mask_eq_exp_minus_1)

text \<open>\<open>i64::saturating_add\<close>, on time stamps.\<close>

definition i64_max :: int where
  "i64_max = 2 ^ 63 - 1"

definition timestamp_add :: "int \<Rightarrow> int \<Rightarrow> int" where
  "timestamp_add a b = max (- (2 ^ 63)) (min i64_max (a + b))"

lemma unat_saturating_add:
  fixes a b :: "'a::len word"
  shows "unat (saturating_add a b) = min (unat a + unat b) (2 ^ LENGTH('a) - 1)"
  by (auto simp: saturating_add_def unat_add_no_wrap unat_max_word min_def not_less)

lemma saturating_add_ge:
  fixes a b :: "'a::len word"
  shows "a \<le> saturating_add a b"
proof -
  have "unat a \<le> 2 ^ LENGTH('a) - 1"
    using unsigned_less [of a, where ?'a = nat] by linarith
  then show ?thesis by (simp add: word_le_nat_alt unat_saturating_add)
qed

lemma unat_saturating_sub:
  "unat (saturating_sub a b) = unat a - unat b"
  by (auto simp: saturating_sub_def word_le_nat_alt unat_sub)

lemma checked_add_Some:
  "checked_add a b = Some c \<Longrightarrow> unat c = unat a + unat b"
  by (auto simp: checked_add_def unat_add_no_wrap split: if_splits)

end
