(* ===== verification/Rust_Strings.thy ===== *)
theory Rust_Strings
  imports Forme_Prelude
begin

text \<open>
  The operations of \<open>str\<close> that the guards of the runtime call, on the UTF-8 bytes of a string:
  \<open>trim\<close> (Unicode white space), \<open>is_empty\<close> of a trimmed string, \<open>strip_prefix\<close>, \<open>starts_with\<close>,
  \<open>ends_with\<close>, \<open>contains\<close>, \<open>split\<close>, \<open>join\<close>, \<open>to_ascii_lowercase\<close>, \<open>char::is_control\<close> and
  \<open>parse::<u64>\<close>.
\<close>

abbreviation byte :: "char \<Rightarrow> nat" where
  "byte c \<equiv> of_char c"

subsection \<open>White space and trimming\<close>

text \<open>
  The number of bytes of the white-space character a string starts with, 0 when it starts with
  another character: the code points with the Unicode property White_Space, in UTF-8.
\<close>

definition ws_len :: "string \<Rightarrow> nat" where
  "ws_len s = (case map byte (take 3 s) of
     [] \<Rightarrow> 0
   | b1 # r1 \<Rightarrow>
       if (9 \<le> b1 \<and> b1 \<le> 13) \<or> b1 = 32 then 1
       else (case r1 of
         [] \<Rightarrow> 0
       | b2 # r2 \<Rightarrow>
           if b1 = 194 \<and> (b2 = 133 \<or> b2 = 160) then 2
           else (case r2 of
             [] \<Rightarrow> 0
           | b3 # _ \<Rightarrow>
               if (b1 = 225 \<and> b2 = 154 \<and> b3 = 128)
                 \<or> (b1 = 226 \<and> b2 = 128 \<and> (128 \<le> b3 \<and> b3 \<le> 138 \<or> b3 = 168 \<or> b3 = 169 \<or> b3 = 175))
                 \<or> (b1 = 226 \<and> b2 = 129 \<and> b3 = 159)
                 \<or> (b1 = 227 \<and> b2 = 128 \<and> b3 = 128)
               then 3 else 0)))"

lemma ws_len_Nil [simp]: "ws_len [] = 0"
  by (simp add: ws_len_def)

function trim_start :: "string \<Rightarrow> string" where
  "trim_start s = (if ws_len s = 0 then s else trim_start (drop (ws_len s) s))"
  by pat_completeness auto
termination
proof (relation "measure length")
  fix s :: string
  assume "ws_len s \<noteq> 0"
  moreover from this have "s \<noteq> []" by auto
  ultimately show "(drop (ws_len s) s, s) \<in> measure length" by simp
qed simp

declare trim_start.simps [simp del]

text \<open>The white-space character a string ends with, found from its last one, two or three bytes.\<close>

definition ws_end_len :: "string \<Rightarrow> nat" where
  "ws_end_len s =
     (if ws_len (drop (length s - 1) s) = 1 \<and> 1 \<le> length s then 1
      else if ws_len (drop (length s - 2) s) = 2 \<and> 2 \<le> length s then 2
      else if ws_len (drop (length s - 3) s) = 3 \<and> 3 \<le> length s then 3
      else 0)"

lemma ws_end_len_Nil [simp]: "ws_end_len [] = 0"
  by (simp add: ws_end_len_def)

function trim_end :: "string \<Rightarrow> string" where
  "trim_end s = (if ws_end_len s = 0 then s else trim_end (take (length s - ws_end_len s) s))"
  by pat_completeness auto
termination
proof (relation "measure length")
  fix s :: string
  assume "ws_end_len s \<noteq> 0"
  moreover from this have "s \<noteq> []" by auto
  ultimately show "(take (length s - ws_end_len s) s, s) \<in> measure length" by simp
qed simp

declare trim_end.simps [simp del]

definition trim :: "string \<Rightarrow> string" where
  "trim s = trim_end (trim_start s)"

definition blank :: "string \<Rightarrow> bool" where
  "blank s \<longleftrightarrow> trim s = []"

lemma trim_start_no_ws: "ws_len s = 0 \<Longrightarrow> trim_start s = s"
  by (subst trim_start.simps) simp

lemma trim_end_no_ws: "ws_end_len s = 0 \<Longrightarrow> trim_end s = s"
  by (subst trim_end.simps) simp

lemma trim_Nil [simp]: "trim [] = []"
  by (simp add: trim_def trim_start_no_ws trim_end_no_ws)

lemma blank_Nil [simp]: "blank []"
  by (simp add: blank_def)

lemma ws_end_len_char:
  "ws_end_len s \<noteq> 0 \<Longrightarrow>
    ws_end_len s \<le> length s \<and> ws_len (drop (length s - ws_end_len s) s) = ws_end_len s"
  by (simp add: ws_end_len_def split: if_splits)

text \<open>
  Trimming the end never removes the first byte when that byte is a visible ASCII character; so a
  string that starts with one is not blank. This decides \<open>blank\<close> on the concrete identifiers of the
  witnesses.
\<close>

lemma ws_end_len_visible:
  assumes "33 \<le> byte c" "byte c < 127"
  shows "ws_end_len (c # cs) \<le> length cs"
proof -
  have not_ws: "ws_len (c # ds) = 0" for ds
    using assms by (auto simp: ws_len_def split: list.splits)
  show ?thesis
  proof (rule ccontr)
    assume long: "\<not> ?thesis"
    then have "ws_end_len (c # cs) \<noteq> 0" by linarith
    then have le: "ws_end_len (c # cs) \<le> length (c # cs)"
      and w: "ws_len (drop (length (c # cs) - ws_end_len (c # cs)) (c # cs)) = ws_end_len (c # cs)"
      using ws_end_len_char [of "c # cs"] by simp_all
    from le long have "length (c # cs) - ws_end_len (c # cs) = 0" by simp
    with w not_ws show False using \<open>ws_end_len (c # cs) \<noteq> 0\<close> by (metis drop0)
  qed
qed

lemma trim_end_visible:
  "33 \<le> byte c \<Longrightarrow> byte c < 127 \<Longrightarrow> trim_end (c # cs) \<noteq> []"
proof (induction "length cs" arbitrary: cs rule: less_induct)
  case less
  show ?case
  proof (cases "ws_end_len (c # cs) = 0")
    case True
    then show ?thesis by (simp add: trim_end_no_ws)
  next
    case False
    let ?k = "ws_end_len (c # cs)"
    have le: "?k \<le> length cs" by (rule ws_end_len_visible) (use less.prems in auto)
    with False have "length cs > 0" by linarith
    have eq: "take (length (c # cs) - ?k) (c # cs) = c # take (length cs - ?k) cs"
      using le by (simp add: Suc_diff_le)
    have "trim_end (c # take (length cs - ?k) cs) \<noteq> []"
      by (rule less.hyps) (use False le \<open>length cs > 0\<close> less.prems in auto)
    then show ?thesis
      using False eq by (subst trim_end.simps) simp
  qed
qed

lemma blank_visible [simp]:
  "33 \<le> byte c \<Longrightarrow> byte c < 127 \<Longrightarrow> \<not> blank (c # cs)"
proof -
  assume c: "33 \<le> byte c" "byte c < 127"
  then have "ws_len (c # cs) = 0"
    by (auto simp: ws_len_def split: list.splits)
  then show ?thesis
    using trim_end_visible [OF c] by (simp add: blank_def trim_def trim_start_no_ws)
qed

lemma not_blank_not_Nil: "\<not> blank s \<Longrightarrow> s \<noteq> []"
  by auto

subsection \<open>Prefixes, splitting and joining\<close>

fun strip_prefix :: "string \<Rightarrow> string \<Rightarrow> string option" where
  "strip_prefix [] s = Some s"
| "strip_prefix (p # ps) [] = None"
| "strip_prefix (p # ps) (c # cs) = (if p = c then strip_prefix ps cs else None)"

definition starts_with :: "string \<Rightarrow> string \<Rightarrow> bool" where
  "starts_with p s \<longleftrightarrow> strip_prefix p s \<noteq> None"

definition ends_with :: "string \<Rightarrow> string \<Rightarrow> bool" where
  "ends_with p s \<longleftrightarrow> starts_with (rev p) (rev s)"

fun contains_str :: "string \<Rightarrow> string \<Rightarrow> bool" where
  "contains_str p [] \<longleftrightarrow> p = []"
| "contains_str p (c # cs) \<longleftrightarrow> starts_with p (c # cs) \<or> contains_str p cs"

lemma strip_prefix_Some [simp]: "strip_prefix p s = Some r \<longleftrightarrow> s = p @ r"
  by (induction p s rule: strip_prefix.induct) auto

lemma strip_prefix_append [simp]: "strip_prefix p (p @ r) = Some r"
  by simp

lemma starts_with_iff: "starts_with p s \<longleftrightarrow> (\<exists>r. s = p @ r)"
  by (auto simp: starts_with_def)

text \<open>\<open>str::split(sep)\<close> on one byte: never empty, \<open>n\<close> separators give \<open>n + 1\<close> pieces.\<close>

fun split_on :: "char \<Rightarrow> string \<Rightarrow> string list" where
  "split_on sep [] = [[]]"
| "split_on sep (c # cs) =
     (if c = sep then [] # split_on sep cs
      else (case split_on sep cs of [] \<Rightarrow> [[c]] | p # ps \<Rightarrow> (c # p) # ps))"

fun join_with :: "string \<Rightarrow> string list \<Rightarrow> string" where
  "join_with sep [] = []"
| "join_with sep [x] = x"
| "join_with sep (x # y # ys) = x @ sep @ join_with sep (y # ys)"

lemma split_on_not_Nil [simp]: "split_on sep s \<noteq> []"
  by (induction s) (auto split: list.splits)

lemma split_on_no_sep: "p \<in> set (split_on sep s) \<Longrightarrow> sep \<notin> set p"
proof (induction s arbitrary: p)
  case Nil
  then show ?case by simp
next
  case (Cons c cs)
  then show ?case by (cases "split_on sep cs") (auto split: if_splits)
qed

lemma join_split_on [simp]: "join_with [sep] (split_on sep s) = s"
proof (induction s)
  case Nil
  show ?case by simp
next
  case (Cons c cs)
  then show ?case
    by (cases "split_on sep cs" rule: list.exhaust; cases "tl (split_on sep cs)") auto
qed

lemma split_on_plain: "sep \<notin> set s \<Longrightarrow> split_on sep s = [s]"
  by (induction s) auto

lemma split_on_append_sep:
  "sep \<notin> set x \<Longrightarrow> split_on sep (x @ sep # s) = x # split_on sep s"
  by (induction x) auto

lemma split_on_join_with:
  "xs \<noteq> [] \<Longrightarrow> \<forall>x\<in>set xs. sep \<notin> set x \<Longrightarrow> split_on sep (join_with [sep] xs) = xs"
proof (induction "[sep]" xs rule: join_with.induct)
  case (2 x)
  then show ?case by (simp add: split_on_plain)
next
  case (3 x y ys)
  then show ?case by (simp add: split_on_append_sep)
qed simp

lemma join_with_append:
  "xs \<noteq> [] \<Longrightarrow> ys \<noteq> [] \<Longrightarrow> join_with sep (xs @ ys) = join_with sep xs @ sep @ join_with sep ys"
proof (induction sep xs rule: join_with.induct)
  case (2 sep x)
  then show ?case by (cases ys) auto
qed auto

subsection \<open>Characters\<close>

definition ascii_lower :: "char \<Rightarrow> char" where
  "ascii_lower c = (if 65 \<le> byte c \<and> byte c \<le> 90 then char_of (byte c + 32) else c)"

definition to_ascii_lowercase :: "string \<Rightarrow> string" where
  "to_ascii_lowercase = map ascii_lower"

definition is_ascii_alphabetic :: "char \<Rightarrow> bool" where
  "is_ascii_alphabetic c \<longleftrightarrow> 65 \<le> byte c \<and> byte c \<le> 90 \<or> 97 \<le> byte c \<and> byte c \<le> 122"

definition is_ascii_digit :: "char \<Rightarrow> bool" where
  "is_ascii_digit c \<longleftrightarrow> 48 \<le> byte c \<and> byte c \<le> 57"

definition is_ascii_alphanumeric :: "char \<Rightarrow> bool" where
  "is_ascii_alphanumeric c \<longleftrightarrow> is_ascii_alphabetic c \<or> is_ascii_digit c"

text \<open>Whether some character is a control character: U+0000-001F, U+007F, or U+0080-009F (two bytes).\<close>

fun has_control :: "string \<Rightarrow> bool" where
  "has_control [] = False"
| "has_control (c # cs) \<longleftrightarrow>
     byte c < 32 \<or> byte c = 127
     \<or> (byte c = 194 \<and> (case cs of [] \<Rightarrow> False | d # _ \<Rightarrow> 128 \<le> byte d \<and> byte d \<le> 159))
     \<or> has_control cs"

definition replace_char :: "char \<Rightarrow> char \<Rightarrow> string \<Rightarrow> string" where
  "replace_char a b = map (\<lambda>c. if c = a then b else c)"

text \<open>\<open>parse::<u64>\<close>: an optional plus sign, then at least one digit, and no overflow.\<close>

fun digits_value :: "nat \<Rightarrow> string \<Rightarrow> nat option" where
  "digits_value acc [] = Some acc"
| "digits_value acc (c # cs) =
     (if is_ascii_digit c then digits_value (acc * 10 + (byte c - 48)) cs else None)"

definition parse_u64 :: "string \<Rightarrow> u64 option" where
  "parse_u64 s =
     (let ds = (case s of c # cs \<Rightarrow> if c = CHR ''+'' then cs else s | [] \<Rightarrow> s)
      in if ds = [] then None
         else case digits_value 0 ds of
           None \<Rightarrow> None
         | Some n \<Rightarrow> if n < 2 ^ 64 then Some (of_nat n) else None)"

text \<open>Decimal rendering of an unsigned integer, as \<open>format!\<close> prints it.\<close>

fun show_nat :: "nat \<Rightarrow> string" where
  "show_nat n = (if n < 10 then [char_of (48 + n)] else show_nat (n div 10) @ [char_of (48 + n mod 10)])"

declare show_nat.simps [simp del]


lemma digits_value_append:
  "digits_value acc (xs @ ys) = (case digits_value acc xs of None \<Rightarrow> None | Some a \<Rightarrow> digits_value a ys)"
  by (induction xs arbitrary: acc) simp_all

lemma byte_digit: "d < 10 \<Longrightarrow> byte (char_of (48 + d)) = 48 + d" for d :: nat
  by simp

lemma is_ascii_digit_digit: "d < 10 \<Longrightarrow> is_ascii_digit (char_of (48 + d))" for d :: nat
  by (simp add: is_ascii_digit_def)

lemma show_nat_digits: "show_nat n \<noteq> [] \<and> (\<forall>c\<in>set (show_nat n). 48 \<le> byte c \<and> byte c \<le> 57)"
proof (induction n rule: show_nat.induct)
  case (1 n)
  have "n mod 10 < 10" by simp
  with 1 show ?case by (subst (1 2) show_nat.simps) (auto simp: byte_digit)
qed

lemma digits_value_show_nat: "digits_value 0 (show_nat n) = Some n"
proof (induction n rule: show_nat.induct)
  case (1 n)
  show ?case
  proof (cases "n < 10")
    case True
    then show ?thesis by (subst show_nat.simps) (simp add: is_ascii_digit_digit byte_digit)
  next
    case False
    have "n mod 10 < 10" by simp
    then show ?thesis
      using 1 False by (subst show_nat.simps) (simp add: digits_value_append is_ascii_digit_digit byte_digit)
  qed
qed

lemma show_nat_inj: "show_nat m = show_nat n \<longleftrightarrow> m = n"
  by (metis digits_value_show_nat option.inject)

text \<open>Parsing what was printed gives the number back.\<close>

lemma parse_u64_show_nat: "n < 2 ^ 64 \<Longrightarrow> parse_u64 (show_nat n) = Some (of_nat n)"
proof -
  assume n: "n < 2 ^ 64"
  obtain c cs where c: "show_nat n = c # cs" "48 \<le> byte c"
    using show_nat_digits [of n] by (cases "show_nat n") auto
  then have "c \<noteq> CHR ''+''" by auto
  then show ?thesis
    using n c digits_value_show_nat [of n] unfolding parse_u64_def Let_def by simp
qed

lemma ws_end_len_snoc:
  "33 \<le> byte c \<Longrightarrow> byte c < 127 \<Longrightarrow> ws_end_len (xs @ [c]) = 0"
proof -
  assume c: "33 \<le> byte c" "byte c < 127"
  have one: "ws_len [c] = 0" and two: "ws_len [a, c] \<noteq> 2" and three: "ws_len [a, b, c] \<noteq> 3" for a b
    using c by (auto simp: ws_len_def split: if_splits)
  have "ws_len (drop (length xs - 1) (xs @ [c])) \<noteq> 2" if len: "1 \<le> length xs"
  proof -
    obtain ys a where "xs = ys @ [a]" using len by (cases xs rule: rev_cases) auto
    then show ?thesis using two by simp
  qed
  moreover have "ws_len (drop (length xs - 2) (xs @ [c])) \<noteq> 3" if len: "2 \<le> length xs"
  proof -
    obtain ys b where ys: "xs = ys @ [b]" using len by (cases xs rule: rev_cases) auto
    then obtain zs a where "ys = zs @ [a]" using len by (cases ys rule: rev_cases) auto
    then show ?thesis using three ys by simp
  qed
  ultimately show ?thesis using one by (auto simp: ws_end_len_def)
qed

lemma trim_visible:
  assumes "33 \<le> byte c" "byte c < 127" "33 \<le> byte d" "byte d < 127"
  shows "trim (c # xs @ [d]) = c # xs @ [d]"
proof -
  have "ws_len (c # xs @ [d]) = 0" using assms(1,2) by (auto simp: ws_len_def split: list.splits)
  moreover have "ws_end_len ((c # xs) @ [d]) = 0" by (rule ws_end_len_snoc [OF assms(3,4)])
  ultimately show ?thesis by (simp add: trim_def trim_start_no_ws trim_end_no_ws)
qed

end
