(* ===== verification/Primitives.thy ===== *)
theory Primitives
  imports Rust_Strings
begin

text \<open>
  The protocol vocabulary of \<open>crates/protocol/src/primitives.rs\<close> that the modelled components
  exchange: provenance, the decision and risk enumerations, the action parameters of every backend
  with the normalised action intent, and the autonomy envelope. Constructors keep their Rust names;
  where two enumerations share one, the Isabelle name is qualified by the type as in Rust.
\<close>

subsection \<open>Newtypes\<close>

type_synonym scope = string
type_synonym run_id = string
type_synonym event_id = string
type_synonym session_id = string
type_synonym action_id = string
type_synonym approval_id = string
type_synonym capability_ref = string
type_synonym permission_ref = string
type_synonym participant_id = string
type_synonym schema_digest = string
type_synonym plan_digest = string
type_synonym rollback_boundary = string
type_synonym schema_version = nat
type_synonym version = nat
type_synonym duration_ms = u64

text \<open>A JSON value of \<open>serde_json\<close>: only carried and compared.\<close>

datatype json =
    JNull
  | JBool bool
  | JNumber string
  | JString string
  | JArray "json list"
  | JObject "(string \<times> json) list"

subsection \<open>Provenance\<close>

datatype source =
    UserTurn | ProactiveJob | Schedule | Subagent | Communication | Internal | Replay | Simulation
  | OwnerControl

datatype actor =
    Owner
  | Agent
  | SubagentActor run_id
  | External participant_id
  | System

datatype trust_tier = Untrusted | ApprovedSource | VerifiedProcess | OwnerInput

record provenance =
  prov_source :: source
  prov_actor :: actor
  prov_trust_tier :: trust_tier
  prov_caused_by :: "event_id option"

subsection \<open>Decision, risk and effect enumerations\<close>

datatype run_status = Accepted | Running | Waiting | Complete | Aborted | Failed | Limited

datatype context_source = Rules | History | MemorySummary | SkillsMetadata | ToolSchema

record model_usage =
  input_tokens :: u64
  output_tokens :: u64

datatype output_kind = Final | Tool | Handoff

datatype policy_decision = Allow | Ask | Deny

datatype risk = Low | Medium | High

datatype approval_outcome = Granted | Denied | Expired

datatype backend_kind = Shell | File | Mcp | Notification | Browser | Computer | Pty | AppApi | Remote

datatype action_type = Observe | Analyze | Prepare | Write | Execute | Deliver | ExternalCommit

datatype approval_rule = Allow | Ask | Deny

datatype file_operation = Read | Write | Delete

datatype mcp_transport = Stdio

record mcp_stdio_spec =
  mcp_spec_schema_version :: schema_version
  mcp_command :: string
  mcp_args :: "string list"
  mcp_env :: "(string \<times> string) list"

datatype expected_effect = Internal | Outward

datatype verification_outcome = Pass | Fail | Unverifiable string

text \<open>\<open>Risk\<close> derives its order from the order of its variants.\<close>

instantiation risk :: linorder
begin

fun risk_rank :: "risk \<Rightarrow> nat" where
  "risk_rank Low = 0"
| "risk_rank Medium = 1"
| "risk_rank High = 2"

definition less_eq_risk :: "risk \<Rightarrow> risk \<Rightarrow> bool" where
  "less_eq_risk a b \<longleftrightarrow> risk_rank a \<le> risk_rank b"

definition less_risk :: "risk \<Rightarrow> risk \<Rightarrow> bool" where
  "less_risk a b \<longleftrightarrow> risk_rank a < risk_rank b"

instance
proof
  show "a = b" if "a \<le> b" "b \<le> a" for a b :: risk
    using that by (cases a; cases b; simp add: less_eq_risk_def)
qed (auto simp: less_eq_risk_def less_risk_def)

end

lemmas risk_order_simps = less_eq_risk_def less_risk_def

subsection \<open>External actions\<close>

datatype external_input = Literal string | Content string | Secret string

datatype browser_operation =
    Navigate
  | ReadText "string option"
  | Click string
  | Type string external_input
  | Screenshot bool

record browser_action_spec =
  br_schema_version :: schema_version
  br_driver :: string
  br_target_url :: string
  br_allowed_origins :: "string list"
  br_operation :: browser_operation
  br_artifact_scope :: scope

text \<open>Coordinates are \<open>i32\<close>; they are compared, never computed with.\<close>

record coordinate_bounds =
  cb_schema_version :: schema_version
  min_x :: int
  min_y :: int
  max_x_exclusive :: int
  max_y_exclusive :: int

definition bounds_contains :: "coordinate_bounds \<Rightarrow> int \<Rightarrow> int \<Rightarrow> bool" where
  "bounds_contains b x y \<longleftrightarrow>
     min_x b \<le> x \<and> x < max_x_exclusive b \<and> min_y b \<le> y \<and> y < max_y_exclusive b"

definition bounds_validate :: "coordinate_bounds \<Rightarrow> unit result" where
  "bounds_validate b =
     (if cb_schema_version b = 0 \<or> max_x_exclusive b \<le> min_x b \<or> max_y_exclusive b \<le> min_y b
      then fails ''computer coordinate bounds are invalid'' else Inr ())"

datatype pointer_button = Primary | Secondary | Middle

datatype key_code =
    Enter | Escape | Tab | Backspace | KeyDelete | ArrowUp | ArrowDown | ArrowLeft | ArrowRight

datatype computer_operation =
    Move int int
  | ClickAt int int pointer_button
  | TypeInput external_input
  | Key key_code
  | Scroll int int
  | ScreenshotAll

record computer_action_spec =
  co_schema_version :: schema_version
  co_driver :: string
  co_surface :: string
  co_bounds :: coordinate_bounds
  co_operation :: computer_operation
  co_artifact_scope :: scope

record secret_binding =
  sb_schema_version :: schema_version
  sb_name :: string
  sb_value :: string

record pty_action_spec =
  pty_schema_version :: schema_version
  pty_program :: string
  pty_args :: "string list"
  pty_cwd :: string
  pty_cols :: nat
  pty_rows :: nat
  pty_input :: "external_input option"
  pty_environment :: "secret_binding list"

datatype mutation_method = Post | Put | Patch | DeleteMethod

datatype app_api_operation =
    ReadApi
  | Mutation mutation_method "external_input option" string

datatype representation = AgentVoice | AgentRepresentingOwner

record app_api_action_spec =
  api_schema_version :: schema_version
  api_connector :: string
  api_endpoint :: string
  api_schema_digest :: schema_digest
  api_credential :: "string option"
  api_operation :: app_api_operation
  api_timeout :: duration_ms
  api_participant :: "participant_id option"
  api_representation :: "representation option"
  api_disclosure_request :: "string option"

subsection \<open>Action parameters and remote placements\<close>

text \<open>
  \<open>ActionParameters\<close> is recursive through \<open>Remote\<close>: a remote action carries the placement of an
  operation, which carries parameters again. The three structs of \<open>protocol/src/m4.rs\<close> on that cycle
  are therefore datatypes of one constructor, with selectors for their fields.
\<close>

datatype action_parameters =
    Shell (sh_program: string) (sh_args: "string list") (sh_cwd: "string option") (sh_network: bool)
  | File (fl_operation: file_operation) (fl_path: string) (fl_content: "char list option")
  | Mcp (mc_server: string) (mc_tool: string) (mc_arguments: json)
      (mc_schema_digest: "schema_digest option") (mc_transport: mcp_transport)
      (mc_stdio: mcp_stdio_spec) (mc_timeout: duration_ms)
  | Notification (nt_surface: string) (nt_target: participant_id) (nt_title: string) (nt_body_ref: string)
  | Browser browser_action_spec
  | Computer computer_action_spec
  | Pty pty_action_spec
  | AppApi app_api_action_spec
  | Remote remote_action_spec
and remote_operation = RemoteOperation
    (op_schema_version: schema_version) (op_backend: backend_kind)
    (op_parameters: action_parameters) (op_capability: capability_ref) (op_scope: scope)
    (op_action_type: action_type) (op_expected_effect: expected_effect)
    (op_rollback_boundary: rollback_boundary) (op_credential_slot: "string option")
    (op_digest: schema_digest)
and remote_placement_plan = RemotePlacementPlan
    (pl_schema_version: schema_version) (pl_executor: string) (pl_peer_grant: string)
    (pl_grant_version: u64) (pl_authority_epoch: u64) (pl_executor_profile: string)
    (pl_operation: remote_operation) (pl_digest: schema_digest)
and remote_action_spec = RemoteActionSpec
    (ra_schema_version: schema_version) (ra_placement: remote_placement_plan)

record action_intent =
  in_schema_version :: schema_version
  intent_id :: action_id
  in_source :: source
  in_goal :: string
  backend_hint :: backend_kind
  in_capability_ref :: capability_ref
  in_action_type :: action_type
  in_scope :: scope
  risk_hint :: risk
  in_expected_effect :: expected_effect
  rollback_expectation :: rollback_boundary
  parameters :: action_parameters
  requested_permissions :: "permission_ref list"
  requested_at :: timestamp
  estimated_output_bytes :: u64
  estimated_duration :: duration_ms

subsection \<open>Autonomy envelopes\<close>

record capability_set =
  cs_schema_version :: schema_version
  capabilities :: "capability_ref list"
  permissions :: "permission_ref list"

record timebox =
  tb_schema_version :: schema_version
  tb_starts_at :: timestamp
  tb_expires_at :: timestamp
  tb_max_turns :: nat

record rollback_req =
  rb_schema_version :: schema_version
  rb_required :: bool
  rb_boundary :: "rollback_boundary option"

record autonomy_envelope =
  env_schema_version :: schema_version
  env_scope :: scope
  env_capability :: capability_set
  env_action_type :: "action_type list"
  env_risk_limit :: risk
  env_approval_rule :: approval_rule
  env_budget :: string
  env_timebox :: timebox
  env_rollback :: rollback_req

record capability_evidence =
  ce_schema_version :: schema_version
  ce_capability :: capability_ref
  ce_outcome :: string
  ce_reliability :: string


text \<open>A small intent, the input of the worked examples of later theories.\<close>

definition read_notes_intent :: action_intent where
  "read_notes_intent =
     \<lparr>in_schema_version = 1, intent_id = ''a1'', in_source = UserTurn, in_goal = ''read notes'',
      backend_hint = backend_kind.File, in_capability_ref = ''file'', in_action_type = Observe,
      in_scope = ''ws:notes'', risk_hint = Low, in_expected_effect = Internal,
      rollback_expectation = ''none'', parameters = File file_operation.Read ''/ws/notes/a'' None,
      requested_permissions = [''fs:read''], requested_at = 5, estimated_output_bytes = 10,
      estimated_duration = 10\<rparr>"

end
