(* ===== verification/Containment.thy ===== *)
theory Containment
  imports Primitives
begin

text \<open>
  The two containment relations every boundary check of the runtime rests on: \<open>scope_contains\<close> on
  hierarchical scopes (\<open>workspace:a\<close> contains \<open>workspace:a/b\<close>), and \<open>path_within\<close> on file paths after
  lexical normalisation (both in \<open>crates/policy/src/lib.rs\<close>; the capability crate repeats the scope
  check). What a client needs of such a relation is stated once, as a locale.
\<close>

subsection \<open>The interface of a containment check\<close>

locale containment =
  fixes contains :: "'a \<Rightarrow> 'a \<Rightarrow> bool"
  assumes contains_trans: "contains a b \<Longrightarrow> contains b c \<Longrightarrow> contains a c"
begin

text \<open>An allow list that admits a request admits every narrower one.\<close>

lemma allowed_narrower:
  "\<exists>a\<in>set allowed. contains a b \<Longrightarrow> contains b c \<Longrightarrow> \<exists>a\<in>set allowed. contains a c"
  by (blast intro: contains_trans)

text \<open>Replacing every entry of an allow list by one inside it admits nothing new.\<close>

lemma narrowed_list:
  assumes "\<forall>n\<in>set narrow. \<exists>w\<in>set wide. contains w n" and "\<exists>n\<in>set narrow. contains n r"
  shows "\<exists>w\<in>set wide. contains w r"
  using assms by (blast intro: contains_trans)

end

locale containment_order = containment +
  assumes contains_refl: "contains a a"
    and contains_antisym: "contains a b \<Longrightarrow> contains b a \<Longrightarrow> a = b"
begin

lemma self_allowed: "a \<in> set allowed \<Longrightarrow> \<exists>b\<in>set allowed. contains b a"
  by (blast intro: contains_refl)

lemma mutual_iff: "contains a b \<and> contains b a \<longleftrightarrow> a = b"
  by (blast intro: contains_refl contains_antisym)

end

subsection \<open>Scopes\<close>

definition scope_contains :: "scope \<Rightarrow> scope \<Rightarrow> bool" where
  "scope_contains granted requested \<longleftrightarrow>
     (if granted = ''*'' \<or> granted = requested then True
      else case strip_prefix granted requested of
        None \<Rightarrow> False
      | Some suffix \<Rightarrow> starts_with '':'' suffix \<or> starts_with ''/'' suffix)"

lemma scope_contains_iff:
  "scope_contains g r \<longleftrightarrow> g = ''*'' \<or> g = r \<or> (\<exists>t. r = g @ CHR '':'' # t \<or> r = g @ CHR ''/'' # t)"
proof -
  have "(case strip_prefix g r of None \<Rightarrow> False
      | Some s \<Rightarrow> starts_with '':'' s \<or> starts_with ''/'' s)
    \<longleftrightarrow> (\<exists>t. r = g @ CHR '':'' # t \<or> r = g @ CHR ''/'' # t)"
    by (cases "strip_prefix g r") (auto simp: starts_with_iff simp flip: strip_prefix_Some)
  then show ?thesis by (simp add: scope_contains_def)
qed

lemma scope_contains_star [simp]: "scope_contains ''*'' r"
  by (simp add: scope_contains_def)

lemma scope_contains_refl [simp]: "scope_contains s s"
  by (simp add: scope_contains_def)

lemma scope_contains_only_star: "scope_contains g ''*'' \<Longrightarrow> g = ''*''"
  by (auto simp: scope_contains_iff Cons_eq_append_conv)

lemma scope_contains_length: "scope_contains g r \<Longrightarrow> g = ''*'' \<or> g = r \<or> length g < length r"
  unfolding scope_contains_iff by auto

interpretation scopes: containment_order scope_contains
proof
  fix a b c
  assume ab: "scope_contains a b" and bc: "scope_contains b c"
  show "scope_contains a c"
  proof (cases "b = ''*''")
    case True
    with ab have "a = ''*''" by (auto dest: scope_contains_only_star)
    then show ?thesis by simp
  next
    case False
    with ab bc show ?thesis by (auto simp: scope_contains_iff)
  qed
next
  fix a b
  assume "scope_contains a b" and "scope_contains b a"
  then show "a = b"
    using scope_contains_length [of a b] scope_contains_length [of b a]
    by (auto dest: scope_contains_only_star)
qed simp

subsection \<open>Path normalisation\<close>

abbreviation slash :: char where
  "slash \<equiv> CHR ''/''"

abbreviation backslash :: char where
  "backslash \<equiv> CHR 0x5C"

text \<open>One turn of the loop over the components: \<open>None\<close> is the early return.\<close>

definition normalize_component :: "string list \<Rightarrow> string \<Rightarrow> string list option" where
  "normalize_component comps c =
     (if c = [] \<and> comps = [] then Some (comps @ [[]])
      else if c = [] \<or> c = ''.'' then Some comps
      else if c = ''..'' then
        (if comps = [] then None
         else if last comps = [] \<or> ends_with '':'' (last comps) then None
         else Some (butlast comps))
      else Some (comps @ [c]))"

fun normalize_components :: "string list \<Rightarrow> string list \<Rightarrow> string list option" where
  "normalize_components comps [] = Some comps"
| "normalize_components comps (c # cs) =
     (case normalize_component comps c of None \<Rightarrow> None | Some comps' \<Rightarrow> normalize_components comps' cs)"

definition path_pieces :: "string \<Rightarrow> string list" where
  "path_pieces path = split_on slash (to_ascii_lowercase (replace_char backslash slash path))"

definition path_components :: "string \<Rightarrow> string list option" where
  "path_components path = normalize_components [] (path_pieces path)"

definition normalized_path :: "string \<Rightarrow> string option" where
  "normalized_path path =
     (case path_components path of
        None \<Rightarrow> None
      | Some comps \<Rightarrow> if comps = [] then None else Some (join_with ''/'' comps))"

definition path_within :: "string \<Rightarrow> string \<Rightarrow> bool" where
  "path_within root path =
     (case normalized_path root of
        None \<Rightarrow> False
      | Some root' \<Rightarrow>
        (case normalized_path path of
           None \<Rightarrow> False
         | Some path' \<Rightarrow>
             path' = root' \<or>
             (case strip_prefix root' path' of None \<Rightarrow> False | Some rest \<Rightarrow> starts_with ''/'' rest)))"

subsection \<open>What normalisation yields\<close>

text \<open>
  A normal form has no dot or dot-dot component, no separator inside a component, and an empty
  component at the front only (the mark of an absolute path).
\<close>

definition plain_component :: "string \<Rightarrow> bool" where
  "plain_component c \<longleftrightarrow> c \<noteq> [] \<and> c \<noteq> ''.'' \<and> c \<noteq> ''..'' \<and> slash \<notin> set c"

definition normal_components :: "string list \<Rightarrow> bool" where
  "normal_components cs \<longleftrightarrow>
     (case cs of [] \<Rightarrow> True
      | c # cs' \<Rightarrow> (c = [] \<or> plain_component c) \<and> (\<forall>d\<in>set cs'. plain_component d))"

lemma normal_components_butlast: "normal_components cs \<Longrightarrow> normal_components (butlast cs)"
  by (cases cs) (auto simp: normal_components_def dest: in_set_butlastD split: list.splits)

lemma normal_components_snoc:
  "normal_components cs \<Longrightarrow> plain_component c \<Longrightarrow> normal_components (cs @ [c])"
  by (cases cs) (auto simp: normal_components_def)

lemma normalize_component_normal:
  "normalize_component comps c = Some comps' \<Longrightarrow> normal_components comps \<Longrightarrow> slash \<notin> set c
    \<Longrightarrow> normal_components comps'"
  unfolding normalize_component_def
  by (auto simp: normal_components_butlast plain_component_def split: if_splits
      intro!: normal_components_snoc) (simp add: normal_components_def)

lemma normalize_components_normal:
  "normalize_components comps cs = Some comps' \<Longrightarrow> normal_components comps
    \<Longrightarrow> \<forall>c\<in>set cs. slash \<notin> set c \<Longrightarrow> normal_components comps'"
  by (induction comps cs rule: normalize_components.induct)
    (auto split: option.splits dest: normalize_component_normal)

lemma path_components_normal: "path_components path = Some cs \<Longrightarrow> normal_components cs"
  unfolding path_components_def path_pieces_def
  by (rule normalize_components_normal) (auto simp: normal_components_def dest: split_on_no_sep)

lemma normal_components_member:
  "normal_components cs \<Longrightarrow> c \<in> set cs \<Longrightarrow> c = [] \<or> plain_component c"
  by (cases cs) (auto simp: normal_components_def)

lemma plain_component_no_slash: "plain_component c \<Longrightarrow> slash \<notin> set c"
  unfolding plain_component_def by (elim conjE)

lemma normal_components_no_slash:
  assumes "normal_components cs" "c \<in> set cs"
  shows "slash \<notin> set c"
  using normal_components_member [OF assms] plain_component_no_slash [of c] by fastforce

lemma split_normal:
  assumes "normal_components cs" "cs \<noteq> []"
  shows "split_on slash (join_with ''/'' cs) = cs"
proof (rule split_on_join_with)
  show "\<forall>x\<in>set cs. slash \<notin> set x"
    using normal_components_no_slash [OF assms(1)] by (rule ballI)
qed (rule assms(2))

lemma split_on_append: "split_on sep (a @ sep # b) = split_on sep a @ split_on sep b"
proof (induction a)
  case (Cons c a)
  then show ?case by (cases "split_on sep a") simp_all
qed simp

lemma join_prefix_iff:
  assumes "normal_components r" "r \<noteq> []" "normal_components p" "p \<noteq> []"
  shows "(\<exists>t. join_with ''/'' p = join_with ''/'' r @ slash # t) \<longleftrightarrow> (\<exists>t. t \<noteq> [] \<and> p = r @ t)"
proof
  assume "\<exists>t. join_with ''/'' p = join_with ''/'' r @ slash # t"
  then obtain t where t: "join_with ''/'' p = join_with ''/'' r @ slash # t" by blast
  have "p = split_on slash (join_with ''/'' p)" using assms by (simp add: split_normal)
  also have "\<dots> = r @ split_on slash t" using assms by (simp add: t split_on_append split_normal)
  finally show "\<exists>t. t \<noteq> [] \<and> p = r @ t" using split_on_not_Nil by blast
next
  assume "\<exists>t. t \<noteq> [] \<and> p = r @ t"
  then show "\<exists>t. join_with ''/'' p = join_with ''/'' r @ slash # t"
    using assms by (auto simp: join_with_append)
qed

lemma join_eq_iff:
  "normal_components r \<Longrightarrow> r \<noteq> [] \<Longrightarrow> normal_components p \<Longrightarrow> p \<noteq> []
    \<Longrightarrow> join_with ''/'' p = join_with ''/'' r \<longleftrightarrow> p = r"
  by (metis split_normal)

text \<open>
  The string test of \<open>path_within\<close> (equal, or a prefix followed by a slash) decides exactly the prefix
  order on component lists: \<open>/data\<close> does not contain \<open>/database\<close>.
\<close>

lemma path_within_components:
  "path_within root path \<longleftrightarrow>
     (\<exists>r p t. path_components root = Some r \<and> path_components path = Some p \<and> r \<noteq> [] \<and> p = r @ t)"
proof (cases "\<exists>r p. path_components root = Some r \<and> r \<noteq> [] \<and> path_components path = Some p \<and> p \<noteq> []")
  case True
  then obtain r p where rp: "path_components root = Some r" "r \<noteq> []"
    "path_components path = Some p" "p \<noteq> []" by blast
  then have n: "normal_components r" "normal_components p"
    by (auto dest: path_components_normal)
  have "path_within root path \<longleftrightarrow> join_with ''/'' p = join_with ''/'' r
      \<or> (\<exists>t. join_with ''/'' p = join_with ''/'' r @ slash # t)"
    using rp by (auto simp: path_within_def normalized_path_def starts_with_iff
        split: option.splits simp flip: strip_prefix_Some)
  also have "\<dots> \<longleftrightarrow> (\<exists>t. p = r @ t)"
    using n rp by (auto simp: join_prefix_iff join_eq_iff)
  finally show ?thesis using rp by auto
next
  case False
  then show ?thesis
    by (auto simp: path_within_def normalized_path_def split: option.splits)
qed

interpretation paths: containment path_within
  by unfold_locales (auto simp: path_within_components)

subsection \<open>Absolute paths\<close>

text \<open>
  The reference: walking a rooted tree. An empty component and a dot stay, dot-dot goes up (and fails
  at the root, or at a drive such as \<open>c:\<close>), any other name goes down.
\<close>

fun walk :: "string list \<Rightarrow> string list \<Rightarrow> string list option" where
  "walk at [] = Some at"
| "walk at (c # cs) =
     (if c = [] \<or> c = ''.'' then walk at cs
      else if c = ''..'' then
        (if at = [] \<or> ends_with '':'' (last at) then None else walk (butlast at) cs)
      else walk (at @ [c]) cs)"

lemma normalize_absolute:
  "[] \<notin> set at \<Longrightarrow>
    normalize_components ([] # at) cs = map_option (\<lambda>at'. [] # at') (walk at cs)"
proof (induction at cs rule: walk.induct)
  case (2 at c cs)
  have "last at \<noteq> []" if "at \<noteq> []" using 2 that by (metis last_in_set)
  with 2 show ?case
    by (auto simp: normalize_component_def dest: in_set_butlastD split: if_splits)
qed simp


lemma path_pieces_slash: "path_pieces (slash # p) = [] # path_pieces p"
proof -
  have "ascii_lower slash = slash" by (simp add: ascii_lower_def)
  moreover have "replace_char backslash slash (slash # p) = slash # replace_char backslash slash p"
    by (simp add: replace_char_def)
  ultimately show ?thesis by (simp add: path_pieces_def to_ascii_lowercase_def)
qed

lemma path_components_absolute:
  "path_components (slash # p) = map_option (\<lambda>cs. [] # cs) (walk [] (path_pieces p))"
  using normalize_absolute [of "[]" "path_pieces p"]
  by (simp add: path_components_def path_pieces_slash normalize_component_def)

text \<open>A path is inside a root exactly when both normalise and the components of the root are a
  prefix of the components of the path: \<open>/data\<close> contains \<open>/data/x\<close> and not \<open>/database\<close>.\<close>

theorem path_within_exact:
  "path_within root path \<longleftrightarrow>
     (\<exists>r p t. path_components root = Some r \<and> path_components path = Some p \<and> r \<noteq> [] \<and> p = r @ t)"
  by (rule path_within_components)

text \<open>For absolute paths the check is that of walking the tree: both walks from the root succeed
  (dot-dot above the root fails) and the node reached for the path lies below the node reached for
  the root, so no sequence of dot-dot, dot and empty components leaves the root unnoticed.\<close>

theorem path_within_absolute:
  "path_within (slash # a) (slash # b) \<longleftrightarrow>
     (\<exists>r t. walk [] (path_pieces a) = Some r \<and> walk [] (path_pieces b) = Some (r @ t))"
  unfolding path_within_components path_components_absolute by auto

text \<open>A relative path whose first component is a dot and whose second is empty is treated as an
  absolute path: \<open>.//data/x\<close>, which names a file below the working directory, passes for a path
  inside the root \<open>/data\<close>. The dot is dropped, and the empty component that follows then looks like
  the mark of an absolute path because no component was kept before it.\<close>

theorem path_within_relative_escape:
  "path_within root (''.//'' @ b) = path_within root (slash # b)"
proof -
  have dot: "ascii_lower CHR ''.'' = CHR ''.''" by (simp add: ascii_lower_def)
  have sl: "ascii_lower slash = slash" by (simp add: ascii_lower_def)
  have "path_pieces (''.//'' @ b) = ''.'' # [] # path_pieces b"
    by (simp add: path_pieces_def replace_char_def to_ascii_lowercase_def dot sl)
  then have "path_components (''.//'' @ b) = path_components (slash # b)"
    by (simp add: path_components_def path_pieces_slash normalize_component_def)
  then show ?thesis unfolding path_within_components by simp
qed

end
