(* ===== verification/Remote_Plan.thy ===== *)
theory Remote_Plan
  imports Primitives
begin

text \<open>
  Validation of remote placements (\<open>crates/protocol/src/m4.rs\<close>): what may leave the authority. A
  digest is the canonical digest of a wire object with its own digest field cleared; serialisation
  (\<open>serde_json\<close>) and hashing (\<open>sha2\<close>) are third-party code, so the digest function is a parameter.
\<close>

record digest_env =
  digest_operation :: "remote_operation \<Rightarrow> schema_digest result"
  digest_placement :: "remote_placement_plan \<Rightarrow> schema_digest result"

definition required :: "string \<Rightarrow> string \<Rightarrow> unit result" where
  "required v nm = (if blank v then fails (nm @ '' is incomplete'') else Inr ())"

definition required_digest :: "schema_digest \<Rightarrow> string \<Rightarrow> unit result" where
  "required_digest v nm = required v nm"

lemma required_Inr_iff [simp]: "required v nm = Inr u \<longleftrightarrow> \<not> blank v"
  by (cases u) (simp add: required_def)

lemma required_digest_Inr_iff [simp]: "required_digest v nm = Inr u \<longleftrightarrow> \<not> blank v"
  by (simp add: required_digest_def)

primrec parameters_match_backend :: "backend_kind \<Rightarrow> action_parameters \<Rightarrow> bool" where
  "parameters_match_backend k (Shell u1 u2 u3 u4) = (k = backend_kind.Shell)"
| "parameters_match_backend k (File u1 u2 u3) = (k = backend_kind.File)"
| "parameters_match_backend k (Mcp u1 u2 u3 u4 u5 u6 u7) = (k = backend_kind.Mcp)"
| "parameters_match_backend k (Notification u1 u2 u3 u4) = (k = backend_kind.Notification)"
| "parameters_match_backend k (Browser u1) = (k = backend_kind.Browser)"
| "parameters_match_backend k (Computer u1) = (k = backend_kind.Computer)"
| "parameters_match_backend k (Pty u1) = (k = backend_kind.Pty)"
| "parameters_match_backend k (AppApi u1) = (k = backend_kind.AppApi)"
| "parameters_match_backend k (Remote u1) = False"

fun input_has_secret :: "external_input \<Rightarrow> bool" where
  "input_has_secret (Secret _) = True"
| "input_has_secret _ = False"

definition option_has_secret :: "external_input option \<Rightarrow> bool" where
  "option_has_secret o' = (case o' of None \<Rightarrow> False | Some i \<Rightarrow> input_has_secret i)"

fun contains_secret :: "action_parameters \<Rightarrow> bool" where
  "contains_secret (Shell _ _ _ _) = False"
| "contains_secret (File _ _ _) = False"
| "contains_secret (Notification _ _ _ _) = False"
| "contains_secret (Browser spec) =
     (case br_operation spec of Type _ input \<Rightarrow> input_has_secret input | _ \<Rightarrow> False)"
| "contains_secret (Computer spec) =
     (case co_operation spec of TypeInput input \<Rightarrow> input_has_secret input | _ \<Rightarrow> False)"
| "contains_secret (Pty spec) = (option_has_secret (pty_input spec) \<or> pty_environment spec \<noteq> [])"
| "contains_secret (AppApi spec) =
     (api_credential spec \<noteq> None
      \<or> (case api_operation spec of ReadApi \<Rightarrow> False | Mutation _ body _ \<Rightarrow> option_has_secret body))"
| "contains_secret (Mcp _ _ _ _ _ _ _) = False"
| "contains_secret (Remote (RemoteActionSpec _ (RemotePlacementPlan _ _ _ _ _ _
     (RemoteOperation _ _ inner _ _ _ _ _ _ _) _))) = contains_secret inner"

text \<open>
  \<open>std::path\<close> on the runtime's declared host (Windows, \<open>rust-toolchain.toml\<close>): both slashes separate,
  a path is unsafe when it has a drive or other prefix, a root, or a parent component.
\<close>

definition path_separator :: "char \<Rightarrow> bool" where
  "path_separator c \<longleftrightarrow> c = CHR ''/'' \<or> c = CHR 0x5C"

definition has_drive_prefix :: "string \<Rightarrow> bool" where
  "has_drive_prefix v =
     (case v of d # c # _ \<Rightarrow> is_ascii_alphabetic d \<and> c = CHR '':'' | _ \<Rightarrow> False)"

definition unsafe_path :: "string \<Rightarrow> bool" where
  "unsafe_path v \<longleftrightarrow>
     has_drive_prefix v
     \<or> (case v of c # _ \<Rightarrow> path_separator c | [] \<Rightarrow> False)
     \<or> ''..'' \<in> set (split_on CHR ''/'' (replace_char CHR 0x5C CHR ''/'' v))"

fun contains_host_path :: "action_parameters \<Rightarrow> bool" where
  "contains_host_path (Shell _ _ cwd _) = (case cwd of None \<Rightarrow> False | Some path \<Rightarrow> unsafe_path path)"
| "contains_host_path (File _ path _) = unsafe_path path"
| "contains_host_path (Pty spec) = unsafe_path (pty_cwd spec)"
| "contains_host_path (Remote (RemoteActionSpec _ (RemotePlacementPlan _ _ _ _ _ _
     (RemoteOperation _ _ inner _ _ _ _ _ _ _) _))) = contains_host_path inner"
| "contains_host_path _ = False"

fun clear_operation_digest :: "remote_operation \<Rightarrow> remote_operation" where
  "clear_operation_digest (RemoteOperation v b ps c s a e r slot _) =
     RemoteOperation v b ps c s a e r slot []"

fun clear_placement_digest :: "remote_placement_plan \<Rightarrow> remote_placement_plan" where
  "clear_placement_digest (RemotePlacementPlan v ex g gv ep pr op _) =
     RemotePlacementPlan v ex g gv ep pr op []"

definition operation_validate :: "digest_env \<Rightarrow> remote_operation \<Rightarrow> unit result" where
  "operation_validate env op =
     and_then (ensure (op_schema_version op \<noteq> 0 \<and> op_backend op \<noteq> backend_kind.Remote)
       ''remote operation backend is invalid'') (\<lambda>_.
     and_then (required (op_capability op) ''remote operation capability'') (\<lambda>_.
     and_then (required (op_scope op) ''remote operation scope'') (\<lambda>_.
     and_then (required (op_rollback_boundary op) ''remote rollback boundary'') (\<lambda>_.
     and_then (required_digest (op_digest op) ''remote operation digest'') (\<lambda>_.
     and_then (ensure (parameters_match_backend (op_backend op) (op_parameters op))
       ''remote operation backend and parameters disagree'') (\<lambda>_.
     and_then (ensure (\<not> contains_secret (op_parameters op))
       ''remote operation contains a central secret reference'') (\<lambda>_.
     and_then (ensure (\<not> contains_host_path (op_parameters op))
       ''remote operation contains a host path'') (\<lambda>_.
     and_then (ensure (\<not> (op_expected_effect op = expected_effect.Outward
         \<and> (op_action_type op = Observe \<or> op_action_type op = Analyze)))
       ''remote observation cannot declare an outward effect'') (\<lambda>_.
     and_then (digest_operation env (clear_operation_digest op)) (\<lambda>expected.
     ensure (op_digest op = expected)
       ''remote operation digest does not match its contents''))))))))))"

definition grant_version_validate :: "u64 \<Rightarrow> unit result" where
  "grant_version_validate v = (if v = 0 then fails ''peer grant version must be non-zero'' else Inr ())"

definition placement_validate :: "digest_env \<Rightarrow> remote_placement_plan \<Rightarrow> unit result" where
  "placement_validate env plan =
     and_then (ensure (pl_schema_version plan \<noteq> 0 \<and> pl_authority_epoch plan \<noteq> 0)
       ''remote placement plan is incomplete'') (\<lambda>_.
     and_then (required (pl_executor plan) ''remote executor'') (\<lambda>_.
     and_then (required (pl_peer_grant plan) ''remote peer grant'') (\<lambda>_.
     and_then (required (pl_executor_profile plan) ''executor profile'') (\<lambda>_.
     and_then (grant_version_validate (pl_grant_version plan)) (\<lambda>_.
     and_then (operation_validate env (pl_operation plan)) (\<lambda>_.
     and_then (required_digest (pl_digest plan) ''remote placement digest'') (\<lambda>_.
     and_then (digest_placement env (clear_placement_digest plan)) (\<lambda>expected.
     ensure (pl_digest plan = expected)
       ''remote placement digest does not match its contents''))))))))"

definition remote_spec_validate :: "digest_env \<Rightarrow> remote_action_spec \<Rightarrow> unit result" where
  "remote_spec_validate env spec =
     (if ra_schema_version spec = 0 then fails ''remote action schema is invalid''
      else placement_validate env (ra_placement spec))"

text \<open>An operation that validates stays on its backend, carries no secret and names no host path.\<close>

lemma operation_validate_ok:
  "operation_validate env op = Inr () \<Longrightarrow>
     op_backend op \<noteq> backend_kind.Remote \<and> parameters_match_backend (op_backend op) (op_parameters op)
     \<and> \<not> contains_secret (op_parameters op) \<and> \<not> contains_host_path (op_parameters op)
     \<and> digest_operation env (clear_operation_digest op) = Inr (op_digest op)"
  by (auto simp: operation_validate_def and_then_Inr_iff)

lemma remote_spec_validate_operation:
  "remote_spec_validate env spec = Inr () \<Longrightarrow>
     operation_validate env (pl_operation (ra_placement spec)) = Inr ()"
  by (auto simp: remote_spec_validate_def placement_validate_def and_then_Inr_iff split: if_splits)

end
