(* ===== verification/External_Policy.thy ===== *)
theory External_Policy
  imports Containment Remote_Plan
begin

text \<open>
  The policy context and the boundary checks of the external backends (\<open>crates/policy/src/lib.rs\<close>):
  browser origins, computer surfaces, PTY programs and App API connectors. The \<open>url\<close> crate is
  third-party: a parsed URL is the record of the components the checks read, and the parser is a
  parameter; so is the classification of an IP address literal as loopback.
\<close>

record url =
  url_scheme :: string
  url_host :: "string option"
  url_port_or_default :: "nat option"
  url_username :: string
  url_password :: "string option"
  url_path :: string
  url_query :: "string option"
  url_fragment :: "string option"
  url_origin :: string

record host_env = digest_env +
  parse_url :: "string \<Rightarrow> url option"
  ip_is_loopback :: "string \<Rightarrow> bool"

subsection \<open>Limits\<close>

record computer_surface_limit =
  csl_schema_version :: schema_version
  csl_surface :: string
  csl_bounds :: coordinate_bounds

record app_api_connector_limit =
  acl_schema_version :: schema_version
  acl_connector :: string
  acl_base_url :: string
  acl_schema_digest :: schema_digest
  acl_credential_ref :: "string option"
  acl_allowed_mutations :: "mutation_method list"
  acl_max_timeout :: duration_ms

record external_policy_limits =
  xl_schema_version :: schema_version
  browser_origins :: "string list"
  computer_surfaces :: "computer_surface_limit list"
  pty_programs :: "string list"
  pty_roots :: "string list"
  app_api_connectors :: "app_api_connector_limit list"

definition default_external_limits :: external_policy_limits where
  "default_external_limits =
     \<lparr>xl_schema_version = 1, browser_origins = [], computer_surfaces = [], pty_programs = [],
      pty_roots = [], app_api_connectors = []\<rparr>"

subsection \<open>Input bounds\<close>

definition validate_external_input :: "external_input \<Rightarrow> unit result" where
  "validate_external_input input =
     ensure (case input of
         Literal v \<Rightarrow> v \<noteq> [] \<and> length v \<le> 16384 \<and> CHR 0x00 \<notin> set v
       | Content r \<Rightarrow> \<not> blank r
       | Secret r \<Rightarrow> \<not> blank r)
       ''external input is empty or exceeds its boundary''"

definition invalid_external_input :: "external_input \<Rightarrow> bool" where
  "invalid_external_input input =
     (case input of
        Literal v \<Rightarrow> length v > 64 * 1024
      | Content r \<Rightarrow> blank r
      | Secret r \<Rightarrow> blank r)"

definition safe_header_component :: "string \<Rightarrow> bool" where
  "safe_header_component v \<longleftrightarrow>
     v \<noteq> [] \<and> length v \<le> 256 \<and>
     (\<forall>c\<in>set v. is_ascii_alphanumeric c \<or> c = CHR ''-'' \<or> c = CHR ''_'' \<or> c = CHR ''.''
        \<or> c = CHR '':'' \<or> c = CHR ''/'')"

definition validate_selector :: "string \<Rightarrow> unit result" where
  "validate_selector selector =
     (if blank selector \<or> length selector > 512 \<or> has_control selector
      then fails ''browser selector is outside the bounded grammar'' else Inr ())"

definition valid_environment_name :: "string \<Rightarrow> bool" where
  "valid_environment_name nm \<longleftrightarrow>
     (case nm of
        [] \<Rightarrow> False
      | c # cs \<Rightarrow> (c = CHR ''_'' \<or> is_ascii_alphabetic c)
          \<and> (\<forall>d\<in>set cs. d = CHR ''_'' \<or> is_ascii_alphanumeric d)
          \<and> length nm \<le> 128)"

subsection \<open>App API\<close>

definition safe_app_api_url :: "('h) host_env_scheme \<Rightarrow> url \<Rightarrow> bool" where
  "safe_app_api_url env u \<longleftrightarrow>
     (let loopback = (case url_host u of None \<Rightarrow> False
          | Some host \<Rightarrow> host = ''localhost'' \<or> ip_is_loopback env host)
      in (url_scheme u = ''https'' \<or> (url_scheme u = ''http'' \<and> loopback))
         \<and> url_host u \<noteq> None \<and> url_port_or_default u \<noteq> None
         \<and> url_username u = [] \<and> url_password u = None)"

definition ensure_app_api_endpoint :: "('h) host_env_scheme \<Rightarrow> string \<Rightarrow> string \<Rightarrow> unit result" where
  "ensure_app_api_endpoint env base endpoint =
     and_then (ok_or (parse_url env base) ''App API base URL cannot be parsed'') (\<lambda>b.
     and_then (ok_or (parse_url env endpoint) ''App API endpoint cannot be parsed'') (\<lambda>e.
     if \<not> safe_app_api_url env b \<or> \<not> safe_app_api_url env e
        \<or> \<not> ends_with ''/'' (url_path b)
        \<or> url_origin e \<noteq> url_origin b
        \<or> \<not> starts_with (url_path b) (url_path e)
        \<or> url_query b \<noteq> None \<or> url_fragment b \<noteq> None
        \<or> url_query e \<noteq> None \<or> url_fragment e \<noteq> None
     then fails ''App API endpoint is outside the approved connector base''
     else Inr ()))"

definition validate_app_api ::
  "('h) host_env_scheme \<Rightarrow> external_policy_limits \<Rightarrow> bool \<Rightarrow> action_intent \<Rightarrow> app_api_action_spec
    \<Rightarrow> unit result" where
  "validate_app_api env limits network_allowed intent spec =
     (if xl_schema_version limits = 0 \<or> \<not> network_allowed \<or> api_schema_version spec = 0
         \<or> blank (api_connector spec) \<or> blank (api_schema_digest spec) \<or> api_timeout spec = 0
         \<or> in_expected_effect intent \<noteq> expected_effect.Outward
      then fails ''App API action boundary is incomplete''
      else
     and_then (ok_or (find (\<lambda>l. acl_connector l = api_connector spec) (app_api_connectors limits))
       ''App API connector is not allowlisted'') (\<lambda>limit.
     if acl_schema_version limit = 0 \<or> acl_schema_digest limit \<noteq> api_schema_digest spec
        \<or> acl_credential_ref limit \<noteq> api_credential spec \<or> acl_max_timeout limit = 0
        \<or> acl_max_timeout limit < api_timeout spec
     then fails ''App API connector identity, schema, credential, or timeout changed''
     else
     and_then (ensure_app_api_endpoint env (acl_base_url limit) (api_endpoint spec)) (\<lambda>_.
     if (api_participant spec \<noteq> None) \<noteq> (api_representation spec \<noteq> None)
        \<or> (case api_participant spec of None \<Rightarrow> False | Some who \<Rightarrow> \<not> safe_header_component who)
        \<or> (case api_disclosure_request spec of None \<Rightarrow> False | Some r \<Rightarrow> blank r)
        \<or> (in_action_type intent = Deliver
            \<and> (api_participant spec = None \<or> api_representation spec = None
                \<or> api_disclosure_request spec = None))
     then fails ''App API external participant or representation is incomplete''
     else
     (case api_operation spec of
        ReadApi \<Rightarrow>
          if in_action_type intent \<noteq> Observe \<and> in_action_type intent \<noteq> Analyze
          then fails ''App API read is not an observation'' else Inr ()
      | Mutation mthd body idempotency_key \<Rightarrow>
          if in_action_type intent \<in> {Observe, Analyze, Prepare}
             \<or> mthd \<notin> set (acl_allowed_mutations limit)
             \<or> \<not> safe_header_component idempotency_key
             \<or> (case body of None \<Rightarrow> False | Some i \<Rightarrow> invalid_external_input i)
          then fails ''App API mutation method, body, or idempotency boundary is invalid''
          else Inr ()))))"

subsection \<open>Browser\<close>

definition normalized_origin :: "('h) host_env_scheme \<Rightarrow> string \<Rightarrow> string result" where
  "normalized_origin env v =
     and_then (ok_or (parse_url env v) ''browser allowlist origin cannot be parsed'') (\<lambda>u.
     if (url_scheme u \<noteq> ''http'' \<and> url_scheme u \<noteq> ''https'') \<or> url_host u = None
        \<or> url_username u \<noteq> [] \<or> url_password u \<noteq> None \<or> url_path u \<noteq> ''/''
        \<or> url_query u \<noteq> None \<or> url_fragment u \<noteq> None
     then fails ''browser allowlist entry must be an origin''
     else Inr (url_origin u))"

definition normalized_origins :: "('h) host_env_scheme \<Rightarrow> string list \<Rightarrow> string list result" where
  "normalized_origins env values = try_map (normalized_origin env) values"

definition validate_browser_operation :: "browser_operation \<Rightarrow> unit result" where
  "validate_browser_operation operation =
     (case operation of
        Navigate \<Rightarrow> Inr ()
      | Screenshot _ \<Rightarrow> Inr ()
      | ReadText selector \<Rightarrow> (case selector of None \<Rightarrow> Inr () | Some s \<Rightarrow> validate_selector s)
      | Click selector \<Rightarrow> validate_selector selector
      | Type selector input \<Rightarrow>
          and_then (validate_selector selector) (\<lambda>_. validate_external_input input))"

definition validate_browser ::
  "('h) host_env_scheme \<Rightarrow> external_policy_limits \<Rightarrow> action_intent \<Rightarrow> browser_action_spec \<Rightarrow> unit result" where
  "validate_browser env limits intent spec =
     (if xl_schema_version limits = 0 \<or> br_schema_version spec = 0 \<or> blank (br_driver spec)
         \<or> br_allowed_origins spec = [] \<or> blank (br_artifact_scope spec)
         \<or> \<not> scope_contains (in_scope intent) (br_artifact_scope spec)
      then fails ''browser action boundary is incomplete''
      else
     and_then (ok_or (parse_url env (br_target_url spec)) ''browser target URL cannot be parsed'') (\<lambda>target.
     if (url_scheme target \<noteq> ''http'' \<and> url_scheme target \<noteq> ''https'') \<or> url_host target = None
        \<or> url_username target \<noteq> [] \<or> url_password target \<noteq> None
     then fails ''browser target URL scheme or authority is unsafe''
     else
     and_then (normalized_origins env (br_allowed_origins spec)) (\<lambda>planned.
     and_then (normalized_origins env (browser_origins limits)) (\<lambda>runtime.
     if url_origin target \<notin> set planned \<or> url_origin target \<notin> set runtime
     then fails ''browser target origin is not allowlisted''
     else validate_browser_operation (br_operation spec)))))"

subsection \<open>Computer\<close>

definition bounds_contain :: "coordinate_bounds \<Rightarrow> coordinate_bounds \<Rightarrow> bool" where
  "bounds_contain outer inner \<longleftrightarrow>
     min_x outer \<le> min_x inner \<and> min_y outer \<le> min_y inner
     \<and> max_x_exclusive inner \<le> max_x_exclusive outer \<and> max_y_exclusive inner \<le> max_y_exclusive outer"

definition validate_computer ::
  "external_policy_limits \<Rightarrow> action_intent \<Rightarrow> computer_action_spec \<Rightarrow> unit result" where
  "validate_computer limits intent spec =
     and_then (bounds_validate (co_bounds spec)) (\<lambda>_.
     if xl_schema_version limits = 0 \<or> co_schema_version spec = 0 \<or> blank (co_driver spec)
        \<or> blank (co_surface spec) \<or> blank (co_artifact_scope spec)
        \<or> \<not> scope_contains (in_scope intent) (co_artifact_scope spec)
     then fails ''computer action boundary is incomplete''
     else
     and_then (ok_or (find (\<lambda>l. csl_surface l = co_surface spec) (computer_surfaces limits))
       ''computer surface is not allowlisted'') (\<lambda>allowed.
     and_then (bounds_validate (csl_bounds allowed)) (\<lambda>_.
     if csl_schema_version allowed = 0 \<or> \<not> bounds_contain (csl_bounds allowed) (co_bounds spec)
     then fails ''computer bounds exceed the surface grant''
     else
     (case co_operation spec of
        Move x y \<Rightarrow>
          if \<not> bounds_contains (co_bounds spec) x y
          then fails ''computer coordinates are outside plan bounds'' else Inr ()
      | ClickAt x y _ \<Rightarrow>
          if \<not> bounds_contains (co_bounds spec) x y
          then fails ''computer coordinates are outside plan bounds'' else Inr ()
      | TypeInput input \<Rightarrow> validate_external_input input
      | Scroll dx dy \<Rightarrow>
          if \<bar>dx\<bar> > 10000 \<or> \<bar>dy\<bar> > 10000
          then fails ''computer scroll exceeds the bounded delta'' else Inr ()
      | Key _ \<Rightarrow> Inr ()
      | ScreenshotAll \<Rightarrow> Inr ()))))"

subsection \<open>PTY\<close>

fun check_secret_bindings :: "string set \<Rightarrow> secret_binding list \<Rightarrow> unit result" where
  "check_secret_bindings names [] = Inr ()"
| "check_secret_bindings names (b # bs) =
     (if sb_schema_version b = 0 \<or> blank (sb_value b) \<or> \<not> valid_environment_name (sb_name b)
         \<or> sb_name b \<in> names
      then fails ''PTY secret binding is invalid''
      else check_secret_bindings (insert (sb_name b) names) bs)"

definition validate_pty :: "external_policy_limits \<Rightarrow> pty_action_spec \<Rightarrow> unit result" where
  "validate_pty limits spec =
     (if xl_schema_version limits = 0 \<or> pty_schema_version spec = 0
         \<or> blank (pty_program spec) \<or> blank (pty_cwd spec)
         \<or> \<not> (1 \<le> pty_cols spec \<and> pty_cols spec \<le> 500)
         \<or> \<not> (1 \<le> pty_rows spec \<and> pty_rows spec \<le> 200)
         \<or> pty_program spec \<notin> set (pty_programs limits)
         \<or> \<not> (\<exists>root\<in>set (pty_roots limits). path_within root (pty_cwd spec))
         \<or> (\<exists>arg\<in>set (pty_args spec). length arg > 8192 \<or> CHR 0x00 \<in> set arg)
      then fails ''PTY action boundary is incomplete''
      else
     and_then (case pty_input spec of None \<Rightarrow> Inr () | Some i \<Rightarrow> validate_external_input i) (\<lambda>_.
     check_secret_bindings {} (pty_environment spec)))"

subsection \<open>What a passed check guarantees\<close>

text \<open>A validated pointer action acts inside the bounds of the surface grant.\<close>

lemma bounds_contain_contains:
  "bounds_contain outer inner \<Longrightarrow> bounds_contains inner x y \<Longrightarrow> bounds_contains outer x y"
  by (auto simp: bounds_contain_def bounds_contains_def)

interpretation bounds: containment bounds_contain
  by unfold_locales (auto simp: bounds_contain_def)

lemma validate_computer_ok:
  assumes "validate_computer limits intent spec = Inr ()"
  obtains limit where "limit \<in> set (computer_surfaces limits)" "csl_surface limit = co_surface spec"
    "bounds_contain (csl_bounds limit) (co_bounds spec)"
    "\<And>x y b. co_operation spec = ClickAt x y b \<Longrightarrow> bounds_contains (csl_bounds limit) x y"
    "\<And>x y. co_operation spec = Move x y \<Longrightarrow> bounds_contains (csl_bounds limit) x y"
proof -
  from assms obtain limit where limit:
    "find (\<lambda>l. csl_surface l = co_surface spec) (computer_surfaces limits) = Some limit"
    "bounds_contain (csl_bounds limit) (co_bounds spec)"
    by (auto simp: validate_computer_def and_then_Inr_iff split: if_splits)
  then have "limit \<in> set (computer_surfaces limits)" "csl_surface limit = co_surface spec"
    by (auto simp: find_Some_iff)
  moreover have "\<And>x y b. co_operation spec = ClickAt x y b \<Longrightarrow> bounds_contains (co_bounds spec) x y"
    "\<And>x y. co_operation spec = Move x y \<Longrightarrow> bounds_contains (co_bounds spec) x y"
    using assms by (auto simp: validate_computer_def and_then_Inr_iff split: if_splits)
  ultimately show ?thesis
    using that limit(2) bounds_contain_contains by blast
qed

lemma check_secret_bindings_ok:
  "check_secret_bindings names bs = Inr () \<Longrightarrow>
     distinct (map sb_name bs) \<and> set (map sb_name bs) \<inter> names = {}
     \<and> (\<forall>b\<in>set bs. valid_environment_name (sb_name b))"
  by (induction names bs rule: check_secret_bindings.induct) (auto split: if_splits)

text \<open>An endpoint that passes is on the connector's own origin, under its base path, without query.\<close>

lemma ensure_app_api_endpoint_ok:
  assumes "ensure_app_api_endpoint env base endpoint = Inr ()"
  obtains b e t where "parse_url env base = Some b" "parse_url env endpoint = Some e"
    "url_origin e = url_origin b" "url_path e = url_path b @ t" "url_query e = None"
    "safe_app_api_url env e"
  using assms
  by (auto simp: ensure_app_api_endpoint_def and_then_Inr_iff starts_with_iff split: if_splits)

lemma validate_browser_ok:
  assumes "validate_browser env limits intent spec = Inr ()"
  obtains target o1 o2 where "parse_url env (br_target_url spec) = Some target"
    "o1 \<in> set (br_allowed_origins spec)" "normalized_origin env o1 = Inr (url_origin target)"
    "o2 \<in> set (browser_origins limits)" "normalized_origin env o2 = Inr (url_origin target)"
proof -
  from assms obtain target planned runtime where
    t: "parse_url env (br_target_url spec) = Some target"
    and p: "try_map (normalized_origin env) (br_allowed_origins spec) = Inr planned"
    and r: "try_map (normalized_origin env) (browser_origins limits) = Inr runtime"
    and "url_origin target \<in> set planned" "url_origin target \<in> set runtime"
    by (auto simp: validate_browser_def and_then_Inr_iff normalized_origins_def split: if_splits)
  then show ?thesis
    using that [OF t] try_map_source [OF p] try_map_source [OF r] by blast
qed

end
