(* ===== verification/Policy.thy ===== *)
theory Policy
  imports External_Policy
begin

text \<open>
  The policy engine (\<open>crates/policy/src/lib.rs\<close>): layered rules, the execution recheck, the delegated
  envelope and their composition \<open>evaluate_detailed\<close>. The lemmas give each part an order-free
  reading: rule selection is the maximum severity over the matching rules, and the envelope check is
  a conjunction of monotone limits of both envelopes.
\<close>

subsection \<open>Layers, rules and matchers\<close>

datatype policy_layer_source =
    Managed | User | Workspace | Agent | Surface | Session | SkillToolPlugin | Hook | Final

fun layer_rank :: "policy_layer_source \<Rightarrow> nat" where
  "layer_rank Managed = 0"
| "layer_rank User = 1"
| "layer_rank Workspace = 2"
| "layer_rank Agent = 3"
| "layer_rank Surface = 4"
| "layer_rank Session = 5"
| "layer_rank SkillToolPlugin = 6"
| "layer_rank Hook = 7"
| "layer_rank Final = 8"

fun layer_name :: "policy_layer_source \<Rightarrow> string" where
  "layer_name Managed = ''managed''"
| "layer_name User = ''user''"
| "layer_name Workspace = ''workspace''"
| "layer_name Agent = ''agent''"
| "layer_name Surface = ''surface''"
| "layer_name Session = ''session''"
| "layer_name SkillToolPlugin = ''skill-tool-plugin''"
| "layer_name Hook = ''hook''"
| "layer_name Final = ''final''"

datatype arg_matcher =
    Any
  | ShellProgram string
  | ShellArgsPrefix "string list"
  | FilePathPrefix string
  | McpTarget string string

fun arg_matches :: "arg_matcher \<Rightarrow> action_parameters \<Rightarrow> bool" where
  "arg_matches Any _ = True"
| "arg_matches (ShellProgram expected) (Shell program _ _ _) = (expected = program)"
| "arg_matches (ShellArgsPrefix expected) (Shell _ args _ _) = (take (length expected) args = expected)"
| "arg_matches (FilePathPrefix root) (File _ path _) = path_within root path"
| "arg_matches (McpTarget expected_server expected_tool) (Mcp server tool _ _ _ _ _) =
     (expected_server = server \<and> expected_tool = tool)"
| "arg_matches _ _ = False"

definition arg_matcher_matches :: "arg_matcher \<Rightarrow> action_intent \<Rightarrow> bool" where
  "arg_matcher_matches m intent = arg_matches m (parameters intent)"

record action_matcher =
  am_backend :: "backend_kind option"
  am_capability :: "capability_ref option"
  am_action_type :: "action_type option"
  am_parameters :: arg_matcher

definition default_action_matcher :: action_matcher where
  "default_action_matcher =
     \<lparr>am_backend = None, am_capability = None, am_action_type = None, am_parameters = Any\<rparr>"

definition is_none_or :: "'a option \<Rightarrow> ('a \<Rightarrow> bool) \<Rightarrow> bool" where
  "is_none_or o' P = (case o' of None \<Rightarrow> True | Some v \<Rightarrow> P v)"

definition action_matcher_matches :: "action_matcher \<Rightarrow> action_intent \<Rightarrow> bool" where
  "action_matcher_matches m intent \<longleftrightarrow>
     is_none_or (am_backend m) (\<lambda>v. v = backend_hint intent)
     \<and> is_none_or (am_capability m) (\<lambda>v. v = in_capability_ref intent)
     \<and> is_none_or (am_action_type m) (\<lambda>v. v = in_action_type intent)
     \<and> arg_matcher_matches (am_parameters m) intent"

record policy_rule =
  pr_schema_version :: schema_version
  matcher :: action_matcher
  effect :: policy_decision
  rule_scope :: scope

record policy_layer =
  ly_schema_version :: schema_version
  layer_source :: policy_layer_source
  rules :: "policy_rule list"

record effective_policy =
  ep_schema_version :: schema_version
  layers :: "policy_layer list"

subsection \<open>Delegation and context\<close>

datatype delegation_subject =
    OwnerSubject | AgentSubject | SubagentSubject run_id | ExternalSubject participant_id

record delegation_grant =
  dg_schema_version :: schema_version
  subject :: delegation_subject
  envelope :: autonomy_envelope
  granted_by :: actor
  audit_ref :: event_id

datatype envelope_decision = Within | OutOfScope | NeedsApproval

record policy_context =
  pc_schema_version :: schema_version
  pc_session :: session_id
  pc_toolset :: string
  policy :: effective_policy
  visible_capabilities :: "capability_ref list"
  granted_permissions :: "permission_ref list"
  allowed_scopes :: "scope list"
  shell_allowlist :: "string list"
  file_roots :: "string list"
  mcp_allowlist :: "string list"
  external :: external_policy_limits
  network_allowed :: bool
  sandbox_available :: bool
  delegation :: "delegation_grant option"
  context_envelope :: "autonomy_envelope option"

record policy_evaluation =
  pe_schema_version :: schema_version
  decision :: policy_decision
  rule_source :: string
  reason :: string

definition evaluation :: "policy_decision \<Rightarrow> string \<Rightarrow> string \<Rightarrow> policy_evaluation" where
  "evaluation d src why =
     \<lparr>pe_schema_version = 1, decision = d, rule_source = src, reason = why\<rparr>"

fun decision_rank :: "policy_decision \<Rightarrow> nat" where
  "decision_rank policy_decision.Allow = 0"
| "decision_rank policy_decision.Ask = 1"
| "decision_rank policy_decision.Deny = 2"

definition permissions_contain :: "permission_ref list \<Rightarrow> permission_ref list \<Rightarrow> bool" where
  "permissions_contain granted requested \<longleftrightarrow> (\<forall>p\<in>set requested. p \<in> set granted)"

definition timebox_contains :: "timebox \<Rightarrow> timestamp \<Rightarrow> bool" where
  "timebox_contains tb t \<longleftrightarrow> tb_max_turns tb > 0 \<and> t \<ge> tb_starts_at tb \<and> t \<le> tb_expires_at tb"

definition rollback_satisfies :: "rollback_req \<Rightarrow> action_intent \<Rightarrow> bool" where
  "rollback_satisfies req intent =
     (if \<not> rb_required req then True
      else if rollback_expectation intent = [] \<or> rollback_expectation intent = ''none'' then False
      else is_none_or (rb_boundary req) (\<lambda>b. b = rollback_expectation intent))"

subsection \<open>The delegated envelope\<close>

definition enforce_envelope ::
  "delegation_grant \<Rightarrow> autonomy_envelope \<Rightarrow> action_intent \<Rightarrow> envelope_decision" where
  "enforce_envelope grant runtime intent =
     (let granted = envelope grant in
      if \<not> permissions_contain (permissions (env_capability granted)) (requested_permissions intent)
         \<or> \<not> permissions_contain (permissions (env_capability runtime)) (requested_permissions intent)
      then OutOfScope
      else if in_capability_ref intent \<notin> set (capabilities (env_capability granted))
         \<or> in_capability_ref intent \<notin> set (capabilities (env_capability runtime))
         \<or> \<not> scope_contains (env_scope granted) (in_scope intent)
         \<or> \<not> scope_contains (env_scope runtime) (in_scope intent)
         \<or> in_action_type intent \<notin> set (env_action_type granted)
         \<or> in_action_type intent \<notin> set (env_action_type runtime)
         \<or> risk_hint intent > env_risk_limit granted
         \<or> risk_hint intent > env_risk_limit runtime
         \<or> \<not> timebox_contains (env_timebox granted) (requested_at intent)
         \<or> \<not> timebox_contains (env_timebox runtime) (requested_at intent)
         \<or> env_budget granted = []
         \<or> env_budget runtime = []
         \<or> \<not> rollback_satisfies (env_rollback granted) intent
         \<or> \<not> rollback_satisfies (env_rollback runtime) intent
      then OutOfScope
      else if env_approval_rule granted = approval_rule.Deny \<or> env_approval_rule runtime = approval_rule.Deny
      then OutOfScope
      else if env_approval_rule granted = approval_rule.Ask \<or> env_approval_rule runtime = approval_rule.Ask
      then NeedsApproval
      else Within)"

text \<open>The reference reading: one envelope admits an intent, and both must.\<close>

definition envelope_admits :: "autonomy_envelope \<Rightarrow> action_intent \<Rightarrow> bool" where
  "envelope_admits e intent \<longleftrightarrow>
     set (requested_permissions intent) \<subseteq> set (permissions (env_capability e))
     \<and> in_capability_ref intent \<in> set (capabilities (env_capability e))
     \<and> scope_contains (env_scope e) (in_scope intent)
     \<and> in_action_type intent \<in> set (env_action_type e)
     \<and> risk_hint intent \<le> env_risk_limit e
     \<and> timebox_contains (env_timebox e) (requested_at intent)
     \<and> env_budget e \<noteq> []
     \<and> rollback_satisfies (env_rollback e) intent
     \<and> env_approval_rule e \<noteq> approval_rule.Deny"

lemma permissions_contain_iff [simp]:
  "permissions_contain g r \<longleftrightarrow> set r \<subseteq> set g"
  by (auto simp: permissions_contain_def)

interpretation perms: containment permissions_contain
  by unfold_locales auto

lemma enforce_envelope_iff:
  "enforce_envelope grant runtime intent =
     (if \<not> envelope_admits (envelope grant) intent \<or> \<not> envelope_admits runtime intent then OutOfScope
      else if env_approval_rule (envelope grant) = approval_rule.Ask
        \<or> env_approval_rule runtime = approval_rule.Ask then NeedsApproval
      else Within)"
proof -
  have collapse: "(if a then x else if b then x else if c then x else y) = (if a \<or> b \<or> c then x else y)"
    for a b c and x y :: envelope_decision by simp
  show ?thesis
    unfolding enforce_envelope_def Let_def collapse
    by (rule if_cong)
      (unfold envelope_admits_def permissions_contain_iff linorder_not_less [symmetric], blast, rule refl, rule refl)
qed

subsection \<open>The execution recheck\<close>

definition notification_ok :: "action_intent \<Rightarrow> string \<Rightarrow> participant_id \<Rightarrow> string \<Rightarrow> string \<Rightarrow> bool" where
  "notification_ok intent surface target title body_ref \<longleftrightarrow>
     in_action_type intent = Deliver \<and> in_expected_effect intent = expected_effect.Outward
     \<and> starts_with ''surface:local'' surface \<and> \<not> blank target \<and> \<not> blank title \<and> \<not> blank body_ref"

definition remote_ok :: "('h) host_env_scheme \<Rightarrow> bool \<Rightarrow> action_intent \<Rightarrow> remote_action_spec \<Rightarrow> bool" where
  "remote_ok env network intent spec \<longleftrightarrow>
     (let operation = pl_operation (ra_placement spec) in
      network \<and> is_ok (remote_spec_validate (digest_env.truncate env) spec)
      \<and> op_capability operation = in_capability_ref intent
      \<and> op_scope operation = in_scope intent
      \<and> op_action_type operation = in_action_type intent
      \<and> op_expected_effect operation = in_expected_effect intent
      \<and> op_rollback_boundary operation = rollback_expectation intent)"

text \<open>The backend-specific part of the recheck: \<open>None\<close> passes, \<open>Some\<close> is the refusal.\<close>

definition backend_recheck :: "('h) host_env_scheme \<Rightarrow> policy_context \<Rightarrow> action_intent \<Rightarrow> string option" where
  "backend_recheck env ctx intent =
     (case (backend_hint intent, parameters intent) of
        (backend_kind.Shell, Shell program args cwd network) \<Rightarrow>
          if \<not> sandbox_available ctx then Some ''shell sandbox is unavailable''
          else if program \<notin> set (shell_allowlist ctx) then Some ''shell program is not allowlisted''
          else if network \<and> \<not> network_allowed ctx then Some ''network access is not permitted''
          else if (case cwd of None \<Rightarrow> False
                   | Some path \<Rightarrow> \<not> (\<exists>root\<in>set (file_roots ctx). path_within root path))
          then Some ''shell working directory is outside permitted roots''
          else None
      | (backend_kind.File, File operation path content) \<Rightarrow>
          if \<not> sandbox_available ctx then Some ''file sandbox is unavailable''
          else if \<not> (\<exists>root\<in>set (file_roots ctx). path_within root path)
          then Some ''file path is outside permitted roots''
          else None
      | (backend_kind.Mcp, Mcp server tool arguments digest transport stdio timeout) \<Rightarrow>
          if server \<notin> set (mcp_allowlist ctx) \<and> server @ ''/'' @ tool \<notin> set (mcp_allowlist ctx)
          then Some ''MCP target is not allowlisted''
          else if \<not> sandbox_available ctx then Some ''MCP sandbox is unavailable''
          else None
      | (backend_kind.Notification, Notification surface target title body_ref) \<Rightarrow>
          if \<not> notification_ok intent surface target title body_ref
          then Some ''local notification target or delivery parameters are invalid''
          else None
      | (backend_kind.Browser, Browser spec) \<Rightarrow>
          if \<not> is_ok (validate_browser env (external ctx) intent spec)
          then Some ''browser origin or normalized action parameters are invalid''
          else None
      | (backend_kind.Computer, Computer spec) \<Rightarrow>
          if \<not> is_ok (validate_computer (external ctx) intent spec)
          then Some ''computer surface, bounds, or normalized action parameters are invalid''
          else None
      | (backend_kind.Pty, Pty spec) \<Rightarrow>
          if \<not> is_ok (validate_pty (external ctx) spec)
          then Some ''PTY program, root, environment, or normalized parameters are invalid''
          else None
      | (backend_kind.AppApi, AppApi spec) \<Rightarrow>
          if \<not> is_ok (validate_app_api env (external ctx) (network_allowed ctx) intent spec)
          then Some ''App API connector, schema, endpoint, credential, or operation is invalid''
          else None
      | (backend_kind.Remote, Remote spec) \<Rightarrow>
          if \<not> remote_ok env (network_allowed ctx) intent spec
          then Some ''remote plan, authority intent, or network permission is invalid''
          else None
      | _ \<Rightarrow> Some ''backend and normalized action parameters disagree'')"

definition execution_recheck :: "('h) host_env_scheme \<Rightarrow> policy_context \<Rightarrow> action_intent \<Rightarrow> string option" where
  "execution_recheck env ctx intent =
     (if in_capability_ref intent \<notin> set (visible_capabilities ctx)
      then Some ''capability is not present in the resolved toolset''
      else if \<not> permissions_contain (granted_permissions ctx) (requested_permissions intent)
      then Some ''requested permission is not currently granted''
      else if \<not> (\<exists>s\<in>set (allowed_scopes ctx). scope_contains s (in_scope intent))
      then Some ''action scope is not currently permitted''
      else backend_recheck env ctx intent)"

subsection \<open>Rule selection and evaluation\<close>

definition rule_applies :: "action_intent \<Rightarrow> policy_rule \<Rightarrow> bool" where
  "rule_applies intent rule \<longleftrightarrow>
     scope_contains (rule_scope rule) (in_scope intent) \<and> action_matcher_matches (matcher rule) intent"

definition consider_rule ::
  "action_intent \<Rightarrow> policy_layer_source \<Rightarrow> (policy_decision \<times> policy_layer_source) option
    \<Rightarrow> policy_rule \<Rightarrow> (policy_decision \<times> policy_layer_source) option" where
  "consider_rule intent src selected rule =
     (if rule_applies intent rule
         \<and> is_none_or selected (\<lambda>(d, _). decision_rank (effect rule) > decision_rank d)
      then Some (effect rule, src) else selected)"

definition consider_layer ::
  "action_intent \<Rightarrow> (policy_decision \<times> policy_layer_source) option
    \<Rightarrow> policy_layer \<Rightarrow> (policy_decision \<times> policy_layer_source) option" where
  "consider_layer intent selected layer =
     foldl (consider_rule intent (layer_source layer)) selected (rules layer)"

definition select_rule ::
  "policy_layer list \<Rightarrow> action_intent \<Rightarrow> (policy_decision \<times> policy_layer_source) option" where
  "select_rule ls intent = foldl (consider_layer intent) None ls"

definition evaluate_rules :: "policy_layer list \<Rightarrow> action_intent \<Rightarrow> policy_evaluation" where
  "evaluate_rules ls intent =
     (case select_rule ls intent of
        Some (d, src) \<Rightarrow> evaluation d (layer_name src) ''matched the effective policy''
      | None \<Rightarrow> evaluation policy_decision.Deny ''final''
          ''no effective policy rule matched the action'')"

definition evaluate_detailed ::
  "('h) host_env_scheme \<Rightarrow> policy_context \<Rightarrow> action_intent \<Rightarrow> policy_evaluation" where
  "evaluate_detailed env ctx intent =
     (case execution_recheck env ctx intent of
        Some why \<Rightarrow> evaluation policy_decision.Deny ''execution-recheck'' why
      | None \<Rightarrow>
        (case (delegation ctx, context_envelope ctx) of
           (Some grant, Some runtime) \<Rightarrow>
             (case enforce_envelope grant runtime intent of
                OutOfScope \<Rightarrow> evaluation policy_decision.Deny ''delegation-envelope''
                  ''action is outside the active delegated envelope''
              | NeedsApproval \<Rightarrow> evaluation policy_decision.Ask ''delegation-envelope''
                  ''active delegated envelope requires approval''
              | Within \<Rightarrow> evaluate_rules (layers (policy ctx)) intent)
         | (None, None) \<Rightarrow> evaluate_rules (layers (policy ctx)) intent
         | _ \<Rightarrow> evaluation policy_decision.Deny ''delegation-envelope''
             ''delegation and runtime envelope must be supplied together''))"

definition evaluate :: "('h) host_env_scheme \<Rightarrow> policy_context \<Rightarrow> action_intent \<Rightarrow> policy_decision" where
  "evaluate env ctx intent = decision (evaluate_detailed env ctx intent)"

definition merge_layers :: "policy_layer list \<Rightarrow> effective_policy" where
  "merge_layers ls =
     \<lparr>ep_schema_version = 1, layers = sort_key (\<lambda>l. layer_rank (layer_source l)) ls\<rparr>"

subsection \<open>Rule selection as a maximum\<close>

text \<open>The effects of the rules that apply, in the order the loops meet them.\<close>

definition matching_effects ::
  "policy_layer list \<Rightarrow> action_intent \<Rightarrow> (policy_decision \<times> policy_layer_source) list" where
  "matching_effects ls intent =
     concat (map (\<lambda>l. map (\<lambda>r. (effect r, layer_source l)) (filter (rule_applies intent) (rules l))) ls)"

definition keep_severest ::
  "(policy_decision \<times> policy_layer_source) option \<Rightarrow> policy_decision \<times> policy_layer_source
    \<Rightarrow> (policy_decision \<times> policy_layer_source) option" where
  "keep_severest selected x =
     (if is_none_or selected (\<lambda>(d, _). decision_rank (fst x) > decision_rank d) then Some x else selected)"

lemma foldl_consider_rule:
  "foldl (consider_rule intent src) sel rs
     = foldl keep_severest sel (map (\<lambda>r. (effect r, src)) (filter (rule_applies intent) rs))"
  by (induction rs arbitrary: sel) (auto simp: consider_rule_def keep_severest_def)

lemma select_rule_matching: "select_rule ls intent = foldl keep_severest None (matching_effects ls intent)"
proof -
  have "foldl (consider_layer intent) sel ls = foldl keep_severest sel (matching_effects ls intent)" for sel
    by (induction ls arbitrary: sel) (auto simp: consider_layer_def foldl_consider_rule matching_effects_def)
  then show ?thesis by (simp add: select_rule_def)
qed

text \<open>The fold returns the first entry of maximal severity.\<close>

definition first_severest ::
  "(policy_decision \<times> policy_layer_source) list \<Rightarrow> policy_decision \<times> policy_layer_source \<Rightarrow> bool" where
  "first_severest xs x \<longleftrightarrow>
     (\<exists>pre post. xs = pre @ x # post
        \<and> (\<forall>y\<in>set pre. decision_rank (fst y) < decision_rank (fst x))
        \<and> (\<forall>y\<in>set post. decision_rank (fst y) \<le> decision_rank (fst x)))"

lemma keep_severest_fold:
  "xs \<noteq> [] \<Longrightarrow> \<exists>x. foldl keep_severest None xs = Some x \<and> first_severest xs x"
proof (induction xs rule: rev_induct)
  case (snoc y ys)
  show ?case
  proof (cases "ys = []")
    case True
    then show ?thesis by (force simp: keep_severest_def is_none_or_def first_severest_def)
  next
    case False
    then obtain x pre post where x: "foldl keep_severest None ys = Some x" "ys = pre @ x # post"
      "\<forall>z\<in>set pre. decision_rank (fst z) < decision_rank (fst x)"
      "\<forall>z\<in>set post. decision_rank (fst z) \<le> decision_rank (fst x)"
      using snoc.IH unfolding first_severest_def by blast
    show ?thesis
    proof (cases "decision_rank (fst y) > decision_rank (fst x)")
      case True
      then have "foldl keep_severest None (ys @ [y]) = Some y"
        using x(1) by (cases x) (simp add: keep_severest_def is_none_or_def)
      moreover have "first_severest (ys @ [y]) y"
        unfolding first_severest_def
        by (rule exI [of _ ys], rule exI [of _ "[]"]) (use True x in \<open>auto intro: le_less_trans less_trans\<close>)
      ultimately show ?thesis by blast
    next
      case False
      then have "foldl keep_severest None (ys @ [y]) = Some x"
        using x(1) by (cases x) (simp add: keep_severest_def is_none_or_def)
      moreover have "first_severest (ys @ [y]) x"
        unfolding first_severest_def
        by (rule exI [of _ pre], rule exI [of _ "post @ [y]"]) (use False x in auto)
      ultimately show ?thesis by blast
    qed
  qed
qed simp

lemma select_rule_cases:
  obtains (none) "matching_effects ls intent = []" "select_rule ls intent = None"
  | (some) x where "matching_effects ls intent \<noteq> []" "select_rule ls intent = Some x"
      "first_severest (matching_effects ls intent) x"
  using keep_severest_fold [of "matching_effects ls intent"]
  by (cases "matching_effects ls intent = []") (auto simp: select_rule_matching)

lemma first_severest_max:
  "first_severest xs x \<Longrightarrow> y \<in> set xs \<Longrightarrow> decision_rank (fst y) \<le> decision_rank (fst x)"
  by (auto simp: first_severest_def less_imp_le)

lemma first_severest_mem: "first_severest xs x \<Longrightarrow> x \<in> set xs"
  by (auto simp: first_severest_def)

lemma first_severest_least:
  assumes "first_severest xs x" and "sorted (map (\<lambda>x. layer_rank (snd x)) xs)"
    and "y \<in> set xs" and "fst y = fst x"
  shows "layer_rank (snd x) \<le> layer_rank (snd y)"
proof -
  obtain pre post where xs: "xs = pre @ x # post"
      "\<forall>y\<in>set pre. decision_rank (fst y) < decision_rank (fst x)"
    using assms(1) unfolding first_severest_def by blast
  then have "y \<notin> set pre" using assms(4) by (metis less_irrefl)
  then show ?thesis using assms(2,3) xs(1) by (auto simp: sorted_append)
qed

lemma decision_rank_eq: "decision_rank a = decision_rank b \<longleftrightarrow> a = b"
  by (cases a; cases b) simp_all

lemma evaluate_rules_decision:
  "decision (evaluate_rules ls intent) = d \<longleftrightarrow>
     (if matching_effects ls intent = [] then d = policy_decision.Deny
      else d \<in> fst ` set (matching_effects ls intent)
        \<and> (\<forall>y\<in>set (matching_effects ls intent). decision_rank (fst y) \<le> decision_rank d))"
proof (cases ls intent rule: select_rule_cases)
  case none
  then show ?thesis by (auto simp: evaluate_rules_def evaluation_def)
next
  case (some x)
  then have dec: "decision (evaluate_rules ls intent) = fst x"
    by (cases x) (simp add: evaluate_rules_def evaluation_def)
  have mem: "x \<in> set (matching_effects ls intent)"
    using some(3) by (rule first_severest_mem)
  have top: "\<forall>y\<in>set (matching_effects ls intent). decision_rank (fst y) \<le> decision_rank (fst x)"
    using some(3) first_severest_max by blast
  have uniq: "d = fst x" if d: "d \<in> fst ` set (matching_effects ls intent)"
    "\<forall>y\<in>set (matching_effects ls intent). decision_rank (fst y) \<le> decision_rank d"
  proof -
    have "decision_rank d = decision_rank (fst x)"
      by (rule le_antisym) (use d mem top in blast)+
    then show ?thesis by (simp only: decision_rank_eq)
  qed
  have "fst x = d \<longleftrightarrow> d \<in> fst ` set (matching_effects ls intent)
      \<and> (\<forall>y\<in>set (matching_effects ls intent). decision_rank (fst y) \<le> decision_rank d)"
  proof
    assume "fst x = d"
    then show "d \<in> fst ` set (matching_effects ls intent)
      \<and> (\<forall>y\<in>set (matching_effects ls intent). decision_rank (fst y) \<le> decision_rank d)"
      using mem top by (metis image_eqI)
  next
    assume "d \<in> fst ` set (matching_effects ls intent)
      \<and> (\<forall>y\<in>set (matching_effects ls intent). decision_rank (fst y) \<le> decision_rank d)"
    then show "fst x = d" using uniq by metis
  qed
  with dec some(1) show ?thesis by simp
qed

lemma matching_effects_set:
  "set (matching_effects ls intent)
     = {(effect r, layer_source l) | l r. l \<in> set ls \<and> r \<in> set (rules l) \<and> rule_applies intent r}"
  by (auto simp: matching_effects_def)

lemma evaluate_rules_cong:
  assumes "set ls = set ls'"
  shows "decision (evaluate_rules ls intent) = decision (evaluate_rules ls' intent)"
proof -
  have "set (matching_effects ls intent) = set (matching_effects ls' intent)"
    using assms by (simp add: matching_effects_set)
  then have "\<And>d. decision (evaluate_rules ls intent) = d \<longleftrightarrow> decision (evaluate_rules ls' intent) = d"
    unfolding evaluate_rules_decision by (metis set_empty)
  then show ?thesis by blast
qed

lemma evaluate_rules_Allow_iff:
  "decision (evaluate_rules ls intent) = policy_decision.Allow \<longleftrightarrow>
     (\<exists>l\<in>set ls. \<exists>r\<in>set (rules l). rule_applies intent r)
     \<and> (\<forall>l\<in>set ls. \<forall>r\<in>set (rules l). rule_applies intent r \<longrightarrow> effect r = policy_decision.Allow)"
proof -
  have rank0: "decision_rank d \<le> decision_rank policy_decision.Allow \<longleftrightarrow> d = policy_decision.Allow" for d
    by (cases d) simp_all
  have mem: "policy_decision.Allow \<in> fst ` set (matching_effects ls intent)"
    if "matching_effects ls intent \<noteq> []"
      "\<forall>y\<in>set (matching_effects ls intent). fst y = policy_decision.Allow"
    using that by (cases "matching_effects ls intent") (auto intro!: rev_image_eqI)
  have "decision (evaluate_rules ls intent) = policy_decision.Allow \<longleftrightarrow>
      matching_effects ls intent \<noteq> []
      \<and> (\<forall>y\<in>set (matching_effects ls intent). fst y = policy_decision.Allow)"
    unfolding evaluate_rules_decision rank0 using mem by (simp; blast)
  also have "\<dots> \<longleftrightarrow> (\<exists>l\<in>set ls. \<exists>r\<in>set (rules l). rule_applies intent r)
     \<and> (\<forall>l\<in>set ls. \<forall>r\<in>set (rules l). rule_applies intent r \<longrightarrow> effect r = policy_decision.Allow)"
    unfolding set_empty [symmetric] matching_effects_set by fastforce
  finally show ?thesis .
qed


lemma decision_evaluation [simp]:
  "decision (evaluation d src why) = d" "rule_source (evaluation d src why) = src"
  by (simp_all add: evaluation_def)

lemma enforce_envelope_Within_iff:
  "enforce_envelope grant runtime intent = Within \<longleftrightarrow>
     envelope_admits (envelope grant) intent \<and> envelope_admits runtime intent
     \<and> env_approval_rule (envelope grant) = approval_rule.Allow
     \<and> env_approval_rule runtime = approval_rule.Allow"
  by (cases "env_approval_rule (envelope grant)"; cases "env_approval_rule runtime")
     (auto simp: enforce_envelope_iff envelope_admits_def)

text \<open>What the delegation half of a context allows without a further question.\<close>

definition delegation_within :: "policy_context \<Rightarrow> action_intent \<Rightarrow> bool" where
  "delegation_within ctx intent \<longleftrightarrow>
     (case (delegation ctx, context_envelope ctx) of
        (None, None) \<Rightarrow> True
      | (Some g, Some e) \<Rightarrow>
          envelope_admits (envelope g) intent \<and> envelope_admits e intent
          \<and> env_approval_rule (envelope g) = approval_rule.Allow \<and> env_approval_rule e = approval_rule.Allow
      | _ \<Rightarrow> False)"

text \<open>C1: The policy engine allows an action exactly when the execution recheck finds no objection,
  the delegated envelopes (both or neither present) admit it without a question, at least one rule of
  the effective policy applies to it, and every rule that applies says Allow. So a single applying
  Deny or Ask overrides any number of Allows, and an action no rule covers is refused.\<close>

theorem policy_allow_iff:
  "evaluate env ctx intent = policy_decision.Allow \<longleftrightarrow>
     execution_recheck env ctx intent = None
     \<and> delegation_within ctx intent
     \<and> (\<exists>l\<in>set (layers (policy ctx)). \<exists>r\<in>set (rules l). rule_applies intent r)
     \<and> (\<forall>l\<in>set (layers (policy ctx)). \<forall>r\<in>set (rules l).
           rule_applies intent r \<longrightarrow> effect r = policy_decision.Allow)"
  unfolding evaluate_def evaluate_detailed_def delegation_within_def
    enforce_envelope_Within_iff [symmetric] evaluate_rules_Allow_iff [symmetric]
  by (simp split: option.split envelope_decision.split)

text \<open>The layers after a merge are the same layers, in the order of their ranks.\<close>

lemma merge_layers_sorted:
  "sorted (map (\<lambda>l. layer_rank (layer_source l)) (layers (merge_layers ls)))"
  "set (layers (merge_layers ls)) = set ls"
  by (simp_all add: merge_layers_def)

lemma layer_rank_inj: "layer_rank a = layer_rank b \<longleftrightarrow> a = b"
  by (cases a; cases b) simp_all

lemma layer_name_inj: "layer_name a = layer_name b \<longleftrightarrow> a = b"
  by (cases a; cases b) simp_all

lemma sorted_map_same: "sorted (map (\<lambda>_. c) xs)" for c :: nat
  by (induction xs) simp_all

lemma matching_effects_sorted:
  assumes "sorted (map (\<lambda>l. layer_rank (layer_source l)) ls)"
  shows "sorted (map (\<lambda>x. layer_rank (snd x)) (matching_effects ls intent))"
  using assms
proof (induction ls)
  case (Cons l ls)
  have "matching_effects (l # ls) intent
      = map (\<lambda>r. (effect r, layer_source l)) (filter (rule_applies intent) (rules l)) @ matching_effects ls intent"
    by (simp add: matching_effects_def)
  moreover have "\<forall>y\<in>set (matching_effects ls intent). layer_rank (layer_source l) \<le> layer_rank (snd y)"
    using Cons.prems by (auto simp: matching_effects_set)
  ultimately show ?case
    using Cons by (auto simp: sorted_append sorted_map_same comp_def)
qed (simp add: matching_effects_def)


text \<open>The decision of the rules does not depend on the order in which layers are listed: merging
  (which sorts them by rank) or permuting them changes nothing but the reported source. The source
  reported after a merge is the least layer holding an applying rule of the winning severity, or
  \<open>final\<close> when no rule applies.\<close>

theorem policy_merge_source:
  assumes "set ls' = set ls"
  shows "let e = evaluate_rules (layers (merge_layers ls')) intent in
      decision e = decision (evaluate_rules ls intent)
      \<and> (if \<exists>l\<in>set ls. \<exists>r\<in>set (rules l). rule_applies intent r
         then \<exists>l\<in>set ls. rule_source e = layer_name (layer_source l)
            \<and> (\<exists>r\<in>set (rules l). rule_applies intent r \<and> effect r = decision e)
            \<and> (\<forall>l'\<in>set ls. \<forall>r\<in>set (rules l'). rule_applies intent r \<and> effect r = decision e
                 \<longrightarrow> layer_rank (layer_source l) \<le> layer_rank (layer_source l'))
         else rule_source e = ''final'' \<and> decision e = policy_decision.Deny)"
proof -
  let ?m = "layers (merge_layers ls')"
  let ?e = "evaluate_rules ?m intent"
  have sets: "set ?m = set ls" using assms by (simp add: merge_layers_sorted)
  have same: "decision ?e = decision (evaluate_rules ls intent)"
    by (rule evaluate_rules_cong [OF sets])
  have applies: "matching_effects ?m intent = [] \<longleftrightarrow> \<not> (\<exists>l\<in>set ls. \<exists>r\<in>set (rules l). rule_applies intent r)"
    unfolding set_empty [symmetric] matching_effects_set sets by blast
  show ?thesis
  proof (cases ?m intent rule: select_rule_cases)
    case none
    then show ?thesis using same applies by (simp add: evaluate_rules_def)
  next
    case (some x)
    then have e: "decision ?e = fst x" "rule_source ?e = layer_name (snd x)"
      by (cases x; simp add: evaluate_rules_def)+
    obtain l r where l: "l \<in> set ls" "r \<in> set (rules l)" "rule_applies intent r"
        "x = (effect r, layer_source l)"
      using first_severest_mem [OF some(3)] unfolding matching_effects_set sets by blast
    have least: "layer_rank (snd x) \<le> layer_rank (layer_source l')"
      if "l' \<in> set ls" "r' \<in> set (rules l')" "rule_applies intent r'" "effect r' = fst x" for l' r'
    proof -
      have "(fst x, layer_source l') \<in> set (matching_effects ?m intent)"
        using that unfolding matching_effects_set sets by force
      then show ?thesis
        using first_severest_least [OF some(3)] matching_effects_sorted [OF merge_layers_sorted(1)]
        by fastforce
    qed
    have "\<exists>l\<in>set ls. \<exists>r\<in>set (rules l). rule_applies intent r" using l by blast
    then show ?thesis
      unfolding Let_def e same [symmetric] using l least by (auto 4 3)
  qed
qed


subsection \<open>Narrowing a context\<close>








subsection \<open>A worked decision\<close>

definition allow_all_rule :: policy_rule where
  "allow_all_rule =
     \<lparr>pr_schema_version = 1, matcher = default_action_matcher, effect = policy_decision.Allow, rule_scope = ''*''\<rparr>"

definition example_layers :: "policy_layer list" where
  "example_layers =
     [\<lparr>ly_schema_version = 1, layer_source = Session, rules = [allow_all_rule]\<rparr>,
      \<lparr>ly_schema_version = 1, layer_source = User, rules = [allow_all_rule]\<rparr>]"

definition example_context :: policy_context where
  "example_context =
     \<lparr>pc_schema_version = 1, pc_session = ''s1'', pc_toolset = ''t1'',
      policy = \<lparr>ep_schema_version = 1, layers = example_layers\<rparr>,
      visible_capabilities = [''file''], granted_permissions = [''fs:read''], allowed_scopes = [''ws''],
      shell_allowlist = [], file_roots = [''/ws''], mcp_allowlist = [], external = default_external_limits,
      network_allowed = False, sandbox_available = True, delegation = None, context_envelope = None\<rparr>"

text \<open>The third-party functions of the example: no digest is computable and no string is a URL.\<close>

definition example_host :: host_env where
  "example_host =
     \<lparr>digest_operation = (\<lambda>_. fails ''digest''), digest_placement = (\<lambda>_. fails ''digest''),
      parse_url = (\<lambda>_. None), ip_is_loopback = (\<lambda>_. False)\<rparr>"



lemma example_scopes: "scope_contains ''ws'' ''ws:notes''"
  by code_simp




lemma example_recheck: "execution_recheck env example_context read_notes_intent = None"
proof -
  have "path_within ''/ws'' ''/ws/notes/a''" by code_simp
  then show ?thesis
    by (simp add: execution_recheck_def backend_recheck_def example_context_def read_notes_intent_def example_scopes)
qed

lemma allow_all_applies: "rule_applies intent allow_all_rule"
  by (simp add: rule_applies_def allow_all_rule_def action_matcher_matches_def default_action_matcher_def
      is_none_or_def arg_matcher_matches_def)

lemma policy_allow_iff_witness: "evaluate example_host example_context read_notes_intent = policy_decision.Allow"
  unfolding policy_allow_iff
  by (simp add: example_recheck)
     (simp add: delegation_within_def example_context_def example_layers_def allow_all_applies, simp add: allow_all_rule_def)

lemma policy_merge_source_witness:
  "rule_source (evaluate_rules (layers (merge_layers example_layers)) read_notes_intent) = ''user''"
proof -
  let ?e = "evaluate_rules (layers (merge_layers example_layers)) read_notes_intent"
  have applies: "\<exists>l\<in>set example_layers. \<exists>r\<in>set (rules l). rule_applies read_notes_intent r"
    by (simp add: example_layers_def allow_all_applies)
  obtain l where l: "l \<in> set example_layers" "rule_source ?e = layer_name (layer_source l)"
      "\<exists>r\<in>set (rules l). rule_applies read_notes_intent r \<and> effect r = decision ?e"
      "\<forall>l'\<in>set example_layers. \<forall>r\<in>set (rules l'). rule_applies read_notes_intent r \<and> effect r = decision ?e
        \<longrightarrow> layer_rank (layer_source l) \<le> layer_rank (layer_source l')"
    using policy_merge_source [OF refl, of example_layers read_notes_intent] applies
    unfolding Let_def if_P [OF applies] by blast
  have "decision ?e = policy_decision.Allow"
    using l(1,3) by (auto simp: example_layers_def allow_all_rule_def)
  then have "layer_rank (layer_source l) \<le> layer_rank User"
    using l(4) by (auto simp: example_layers_def allow_all_applies) (simp_all add: allow_all_rule_def)
  then have "layer_source l = User"
    using l(1) by (auto simp: example_layers_def)
  then show ?thesis using l(2) by simp
qed

end
