(* ===== verification/Ordered_Map.thy ===== *)
theory Ordered_Map
  imports Forme_Prelude
begin

text \<open>
  \<open>BTreeMap\<close>: the interface the components use of it, as a locale, and its model, a list of
  key-value pairs in increasing order of the keys. Reading, inserting and removing do not need the
  order; iterating (\<open>keys\<close>, \<open>values\<close>, \<open>iter\<close>) does, and the components that walk over a map walk over it
  in key order, as the code does. A \<open>BTreeSet\<close> that is only asked for membership is a set.
\<close>

subsection \<open>The interface\<close>

locale ordered_map =
  fixes get :: "'m \<Rightarrow> 'k::linorder \<Rightarrow> 'v option"
    and put :: "'k \<Rightarrow> 'v \<Rightarrow> 'm \<Rightarrow> 'm"
    and del :: "'k \<Rightarrow> 'm \<Rightarrow> 'm"
    and keys :: "'m \<Rightarrow> 'k list"
    and wf :: "'m \<Rightarrow> bool"
    and emp :: "'m"
  assumes get_emp: "get emp k = None"
    and get_put: "get (put k v m) = (get m)(k \<mapsto> v)"
    and get_del: "get (del k m) = (get m)(k := None)"
    and wf_emp: "wf emp"
    and wf_put: "wf m \<Longrightarrow> wf (put k v m)"
    and wf_del: "wf m \<Longrightarrow> wf (del k m)"
    and keys_dom: "wf m \<Longrightarrow> set (keys m) = dom (get m)"
    and keys_ascending: "wf m \<Longrightarrow> sorted_wrt (<) (keys m)"
begin

lemma keys_distinct: "wf m \<Longrightarrow> distinct (keys m)"
  using keys_ascending strict_sorted_iff by blast

lemma finite_dom: "wf m \<Longrightarrow> finite (dom (get m))"
  by (metis keys_dom List.finite_set)

lemma keys_put: "wf m \<Longrightarrow> set (keys (put k v m)) = insert k (set (keys m))"
  by (simp add: keys_dom wf_put get_put)

lemma keys_del: "wf m \<Longrightarrow> set (keys (del k m)) = set (keys m) - {k}"
  by (simp add: keys_dom wf_del get_del)

text \<open>The keys of a map are determined by what it holds: two histories with one content agree.\<close>

lemma keys_cong:
  assumes "wf m" "wf m'" "dom (get m) = dom (get m')"
  shows "keys m = keys m'"
  using assms keys_ascending keys_dom
  by (intro strict_sorted_equal) auto

text \<open>A quantity summed over the stored values, as a reservation or an insertion changes it.\<close>

lemma total_put_new:
  fixes f :: "'v \<Rightarrow> nat"
  assumes "wf m" "get m k = None"
  shows "(\<Sum>i\<in>set (keys (put k v m)). f (the (get (put k v m) i)))
    = f v + (\<Sum>i\<in>set (keys m). f (the (get m i)))"
proof -
  have "k \<notin> set (keys m)" using assms by (auto simp: keys_dom)
  then show ?thesis
    using assms(1) by (auto simp: keys_put get_put intro!: sum.cong)
qed

lemma total_del:
  fixes f :: "'v \<Rightarrow> nat"
  assumes "wf m" "get m k = Some v"
  shows "(\<Sum>i\<in>set (keys m). f (the (get m i)))
    = f v + (\<Sum>i\<in>set (keys (del k m)). f (the (get (del k m) i)))"
proof -
  have k: "k \<in> set (keys m)" using assms by (auto simp: keys_dom)
  have "(\<Sum>i\<in>set (keys (del k m)). f (the (get (del k m) i)))
      = (\<Sum>i\<in>set (keys m) - {k}. f (the (get m i)))"
    using assms(1) by (intro sum.cong) (auto simp: keys_del get_del)
  then show ?thesis
    using k assms(2) by (simp add: sum.remove [of _ k])
qed

lemma del_absent: "wf m \<Longrightarrow> get m k = None \<Longrightarrow> get (del k m) = get m"
  by (auto simp: get_del)

end

subsection \<open>The model of BTreeMap\<close>

type_synonym ('k, 'v) btree_map = "('k \<times> 'v) list"

definition bm_empty :: "('k, 'v) btree_map" where
  "bm_empty = []"

definition bm_get :: "('k, 'v) btree_map \<Rightarrow> 'k \<Rightarrow> 'v option" where
  "bm_get = map_of"

fun bm_insert :: "'k::linorder \<Rightarrow> 'v \<Rightarrow> ('k, 'v) btree_map \<Rightarrow> ('k, 'v) btree_map" where
  "bm_insert k v [] = [(k, v)]"
| "bm_insert k v ((i, w) # m) =
     (if i < k then (i, w) # bm_insert k v m
      else if i = k then (k, v) # m
      else (k, v) # (i, w) # m)"

definition bm_retain :: "('k \<Rightarrow> 'v \<Rightarrow> bool) \<Rightarrow> ('k, 'v) btree_map \<Rightarrow> ('k, 'v) btree_map" where
  "bm_retain P m = filter (\<lambda>(k, v). P k v) m"

definition bm_remove :: "'k \<Rightarrow> ('k, 'v) btree_map \<Rightarrow> ('k, 'v) btree_map" where
  "bm_remove k m = bm_retain (\<lambda>i _. i \<noteq> k) m"

definition bm_keys :: "('k, 'v) btree_map \<Rightarrow> 'k list" where
  "bm_keys m = map fst m"

definition bm_values :: "('k, 'v) btree_map \<Rightarrow> 'v list" where
  "bm_values m = map snd m"

definition bm_contains :: "('k, 'v) btree_map \<Rightarrow> 'k \<Rightarrow> bool" where
  "bm_contains m k \<longleftrightarrow> bm_get m k \<noteq> None"

text \<open>\<open>collect::<BTreeMap>()\<close>: insert the pairs in turn, a later pair replacing an earlier one.\<close>

definition bm_collect :: "('k::linorder \<times> 'v) list \<Rightarrow> ('k, 'v) btree_map" where
  "bm_collect ps = foldl (\<lambda>m (k, v). bm_insert k v m) bm_empty ps"

definition bm_wf :: "('k::linorder, 'v) btree_map \<Rightarrow> bool" where
  "bm_wf m \<longleftrightarrow> sorted_wrt (<) (bm_keys m)"

lemma bm_get_simps [simp]:
  "bm_get [] k = None"
  "bm_get ((i, v) # m) k = (if i = k then Some v else bm_get m k)"
  by (auto simp: bm_get_def)

lemma bm_get_empty [simp]: "bm_get bm_empty k = None"
  by (simp add: bm_empty_def)

lemma bm_get_insert [simp]: "bm_get (bm_insert k v m) = (bm_get m)(k \<mapsto> v)"
  by (induction k v m rule: bm_insert.induct) auto

lemma bm_get_retain: "distinct (bm_keys m) \<Longrightarrow>
  bm_get (bm_retain P m) k = (case bm_get m k of None \<Rightarrow> None | Some v \<Rightarrow> if P k v then Some v else None)"
proof (induction m)
  case Nil
  show ?case by (simp add: bm_retain_def)
next
  case (Cons p m)
  have absent: "bm_get m i = None" if "i \<notin> fst ` set m" for i
    using that by (auto simp: bm_get_def map_of_eq_None_iff)
  from Cons show ?case
    by (cases p) (auto simp: bm_retain_def bm_keys_def absent split: option.splits)
qed

lemma bm_get_remove [simp]: "bm_get (bm_remove k m) = (bm_get m)(k := None)"
  by (induction m) (auto simp: bm_remove_def bm_retain_def fun_eq_iff)

lemma bm_keys_insert: "set (bm_keys (bm_insert k v m)) = insert k (set (bm_keys m))"
  by (induction k v m rule: bm_insert.induct) (auto simp: bm_keys_def)

lemma bm_wf_insert: "bm_wf m \<Longrightarrow> bm_wf (bm_insert k v m)"
proof (induction k v m rule: bm_insert.induct)
  case (2 k v i w m)
  then show ?case
    using bm_keys_insert [of k v m] by (auto simp: bm_wf_def bm_keys_def)
qed (simp add: bm_wf_def bm_keys_def)

lemma bm_wf_retain: "bm_wf m \<Longrightarrow> bm_wf (bm_retain P m)"
  by (auto simp: bm_wf_def bm_keys_def bm_retain_def sorted_wrt_map intro: sorted_wrt_filter)

interpretation bm: ordered_map bm_get bm_insert bm_remove bm_keys bm_wf bm_empty
proof unfold_locales
  show "set (bm_keys m) = dom (bm_get m)" if "bm_wf m" for m :: "('a, 'b) btree_map"
    by (simp add: bm_keys_def bm_get_def dom_map_of_conv_image_fst)
  show "bm_wf (bm_remove k m)" if "bm_wf m" for k and m :: "('a, 'b) btree_map"
    using that by (simp add: bm_remove_def bm_wf_retain)
  show "bm_wf bm_empty"
    by (simp add: bm_wf_def bm_keys_def bm_empty_def)
  show "sorted_wrt (<) (bm_keys m)" if "bm_wf m" for m :: "('a, 'b) btree_map"
    using that by (simp add: bm_wf_def)
qed (simp_all add: bm_wf_insert)

lemma bm_wf_collect: "bm_wf (bm_collect ps)"
proof -
  have "bm_wf m \<Longrightarrow> bm_wf (foldl (\<lambda>m (k, v). bm_insert k v m) m ps)" for m :: "('a, 'b) btree_map"
    by (induction ps arbitrary: m) (auto simp: bm.wf_put split: prod.splits)
  then show ?thesis by (simp add: bm_collect_def bm.wf_emp)
qed

lemma bm_get_collect: "bm_get (bm_collect ps) = map_of (rev ps)"
proof -
  have "bm_get (foldl (\<lambda>m (k, v). bm_insert k v m) m ps) = bm_get m ++ map_of (rev ps)"
    for m :: "('a, 'b) btree_map"
    by (induction ps arbitrary: m) (auto simp: map_add_upd fun_eq_iff map_add_def split: option.splits)
  then show ?thesis by (simp add: bm_collect_def fun_eq_iff map_add_def split: option.splits)
qed

lemma bm_keys_collect: "set (bm_keys (bm_collect ps)) = fst ` set ps"
  by (simp add: bm.keys_dom bm_wf_collect bm_get_collect dom_map_of_conv_image_fst)

lemma bm_values_get:
  "bm_wf m \<Longrightarrow> v \<in> set (bm_values m) \<longleftrightarrow> (\<exists>k. bm_get m k = Some v)"
proof -
  assume "bm_wf m"
  then have "distinct (map fst m)"
    using bm.keys_distinct [of m] by (simp add: bm_keys_def)
  then show ?thesis by (force simp: bm_values_def bm_get_def)
qed

end
