(* ===== verification/Approval.thy ===== *)
theory Approval
  imports Policy Ordered_Map
begin

text \<open>
  The approval broker (\<open>crates/approval/src/lib.rs\<close>): requests wait for a resolution, a granted
  resolution becomes an active grant, and an active grant authorises actions that still match the
  plan it was bound to. The broker is the record \<open>broker_state\<close>; each method is a function from a
  state (and the clock reading it makes) to its result and the next state. The step relation
  \<open>broker_trace\<close> collects the calls a broker has served, and its invariant gives the security
  property: an authorisation is always backed by an earlier request and an earlier owner grant that
  agree with it, and a one-shot grant authorises once.

  A mutex that is never poisoned (no method panics while it holds the lock) is not modelled.
\<close>

subsection \<open>Data\<close>

type_synonym nonce = string

record approval_request =
  aq_schema_version :: schema_version
  aq_approval_id :: approval_id
  aq_session :: session_id
  aq_action_summary :: string
  aq_risk_level :: risk
  aq_scope :: scope
  aq_requested_permissions :: "permission_ref list"
  aq_affected_resources :: "string list"
  aq_rollback_boundary :: rollback_boundary
  aq_expires_at :: timestamp
  aq_choices :: "string list"
  aq_plan_digest :: plan_digest
  aq_policy_version :: version
  aq_tool_schema_version :: version

datatype approval_scope = AllSessions | OneSession session_id

datatype grant_scope = OneShot | SessionGrant | ParamPattern arg_matcher

record approval_grant =
  ag_schema_version :: schema_version
  ag_approval_id :: approval_id
  ag_outcome :: approval_outcome
  granted_scope :: grant_scope
  approver :: string
  bound_plan_digest :: plan_digest
  ag_policy_version :: version
  ag_tool_schema_version :: version
  ag_nonce :: nonce
  use_by :: timestamp

record approval_authorization =
  au_approval_id :: approval_id
  au_session :: session_id
  au_scope :: scope
  au_plan_digest :: plan_digest
  au_policy_version :: version
  au_tool_schema_version :: version
  au_now :: timestamp
  au_intent :: action_intent

record active_grant =
  ac_request :: approval_request
  ac_grant :: approval_grant
  consumed :: bool

text \<open>The two payloads of \<open>EventPayload\<close> the broker emits.\<close>

datatype approval_event =
    ApprovalRequested (ev_id: approval_id) (ev_summary: string) (ev_risk: risk) (ev_scope: scope)
      (ev_rollback: rollback_boundary) (ev_expires: timestamp) (ev_choices: "string list")
      (ev_permissions: "permission_ref list") (ev_resources: "string list")
  | ApprovalResolved approval_id approval_outcome "string option"

record broker_state =
  pending :: "(approval_id, approval_request) btree_map"
  active :: "(approval_id, active_grant) btree_map"
  known_ids :: "approval_id set"
  nonces :: "nonce set"
  events :: "approval_event list"

definition empty_broker :: broker_state where
  "empty_broker =
     \<lparr>pending = bm_empty, active = bm_empty, known_ids = {}, nonces = {}, events = []\<rparr>"

subsection \<open>Operations\<close>

definition requested_event :: "approval_request \<Rightarrow> approval_event" where
  "requested_event req =
     ApprovalRequested (aq_approval_id req) (aq_action_summary req) (aq_risk_level req) (aq_scope req)
       (aq_rollback_boundary req) (aq_expires_at req) (aq_choices req)
       (aq_requested_permissions req) (aq_affected_resources req)"

text \<open>\<open>request\<close> returns the ticket, which is the approval id.\<close>

definition request ::
  "timestamp \<Rightarrow> approval_request \<Rightarrow> broker_state \<Rightarrow> approval_id result \<times> broker_state" where
  "request now req s =
     (if aq_expires_at req \<le> now then (fails ''approval request is already expired'', s)
      else if blank (aq_action_summary req) \<or> aq_choices req = [] \<or> blank (aq_plan_digest req)
      then (fails ''approval request is incomplete'', s)
      else if aq_approval_id req \<in> known_ids s
      then (fails ''approval id has already been used'', s)
      else (Inr (aq_approval_id req),
        s\<lparr>known_ids := insert (aq_approval_id req) (known_ids s),
          events := events s @ [requested_event req],
          pending := bm_insert (aq_approval_id req) req (pending s)\<rparr>))"

definition validate_grant ::
  "approval_request \<Rightarrow> approval_id \<Rightarrow> approval_grant \<Rightarrow> timestamp \<Rightarrow> nonce set \<Rightarrow> unit result" where
  "validate_grant req ticket grant now used =
     and_then (ensure (\<not> aq_expires_at req \<le> now) ''approval request expired before resolution'') (\<lambda>_.
     and_then (ensure (ticket = aq_approval_id req \<and> ag_approval_id grant = aq_approval_id req)
       ''approval grant targets a different request'') (\<lambda>_.
     and_then (ensure (\<not> blank (approver grant)) ''approval requires a verified principal'') (\<lambda>_.
     and_then (ensure (bound_plan_digest grant = aq_plan_digest req
         \<and> ag_policy_version grant = aq_policy_version req
         \<and> ag_tool_schema_version grant = aq_tool_schema_version req)
       ''approval binding does not match the request'') (\<lambda>_.
     and_then (ensure (\<not> blank (ag_nonce grant) \<and> ag_nonce grant \<notin> used)
       ''approval nonce is invalid or already used'') (\<lambda>_.
     ensure (now < use_by grant \<and> use_by grant \<le> aq_expires_at req)
       ''approval grant expiry exceeds its request'')))))"

definition resolve ::
  "timestamp \<Rightarrow> approval_id \<Rightarrow> approval_grant \<Rightarrow> broker_state \<Rightarrow> unit result \<times> broker_state" where
  "resolve now ticket grant s =
     (case bm_get (pending s) ticket of
        None \<Rightarrow> (fails ''approval ticket is not pending'', s)
      | Some req \<Rightarrow>
        (case validate_grant req ticket grant now (nonces s) of
           Inl e \<Rightarrow> (Inl e, s)
         | Inr _ \<Rightarrow>
           let granted = (ag_outcome grant = Granted);
               grant_ref = (if granted then Some (''approval-grant:'' @ ag_approval_id grant) else None) in
           (Inr (),
            s\<lparr>pending := bm_remove ticket (pending s),
              nonces := insert (ag_nonce grant) (nonces s),
              active := (if granted
                then bm_insert (ag_approval_id grant)
                  \<lparr>ac_request = req, ac_grant = grant, consumed = False\<rparr> (active s)
                else active s),
              events := events s
                @ [ApprovalResolved (ag_approval_id grant) (ag_outcome grant) grant_ref]\<rparr>)))"

text \<open>The checks of \<open>authorize\<close> on an active grant, before the one-shot bookkeeping.\<close>

definition authorize_checks ::
  "timestamp \<Rightarrow> approval_authorization \<Rightarrow> active_grant \<Rightarrow> unit result" where
  "authorize_checks now a g =
     and_then (ensure (ag_outcome (ac_grant g) = Granted)
       ''approval outcome does not authorize an action'') (\<lambda>_.
     and_then (ensure (\<not> (now \<ge> use_by (ac_grant g) \<or> now \<ge> aq_expires_at (ac_request g)))
       ''approval grant has expired'') (\<lambda>_.
     and_then (ensure (\<not> (au_session a \<noteq> aq_session (ac_request g) \<or> au_scope a \<noteq> aq_scope (ac_request g)
         \<or> in_scope (au_intent a) \<noteq> aq_scope (ac_request g)))
       ''approval scope does not match the action'') (\<lambda>_.
     and_then (ensure (\<not> (au_plan_digest a \<noteq> bound_plan_digest (ac_grant g)
         \<or> au_plan_digest a \<noteq> aq_plan_digest (ac_request g)))
       ''execution plan changed after approval'') (\<lambda>_.
     and_then (ensure (\<not> (au_policy_version a \<noteq> ag_policy_version (ac_grant g)
         \<or> au_policy_version a \<noteq> aq_policy_version (ac_request g)
         \<or> au_tool_schema_version a \<noteq> ag_tool_schema_version (ac_grant g)
         \<or> au_tool_schema_version a \<noteq> aq_tool_schema_version (ac_request g)))
       ''approval environment version changed'') (\<lambda>_.
     ensure (\<forall>p\<in>set (requested_permissions (au_intent a)). p \<in> set (aq_requested_permissions (ac_request g)))
       ''action requests an unapproved permission'')))))"

definition authorize ::
  "timestamp \<Rightarrow> approval_authorization \<Rightarrow> broker_state \<Rightarrow> unit result \<times> broker_state" where
  "authorize clock_now a s =
     (let now = max clock_now (au_now a) in
      case bm_get (active s) (au_approval_id a) of
        None \<Rightarrow> (fails ''approval grant is not active'', s)
      | Some g \<Rightarrow>
        (case authorize_checks now a g of
           Inl e \<Rightarrow> (Inl e, s)
         | Inr _ \<Rightarrow>
           (case granted_scope (ac_grant g) of
              OneShot \<Rightarrow>
                if consumed g then (fails ''one-shot approval was already consumed'', s)
                else (Inr (), s\<lparr>active := bm_insert (au_approval_id a) (g\<lparr>consumed := True\<rparr>) (active s)\<rparr>)
            | SessionGrant \<Rightarrow> (Inr (), s)
            | ParamPattern pattern \<Rightarrow>
                if arg_matcher_matches pattern (au_intent a) then (Inr (), s)
                else (fails ''action parameters exceed the approved pattern'', s))))"

definition take_events :: "broker_state \<Rightarrow> approval_event list \<times> broker_state" where
  "take_events s = (events s, s\<lparr>events := []\<rparr>)"

definition pending_requests :: "timestamp \<Rightarrow> approval_scope \<Rightarrow> broker_state \<Rightarrow> approval_request list" where
  "pending_requests now scp s =
     filter (\<lambda>req. case scp of AllSessions \<Rightarrow> True | OneSession session \<Rightarrow> aq_session req = session)
       (filter (\<lambda>req. aq_expires_at req > now) (bm_values (pending s)))"

subsection \<open>Each operation on each branch\<close>

lemma request_ok:
  "request now req s = (Inr t, s') \<longleftrightarrow>
     now < aq_expires_at req \<and> \<not> blank (aq_action_summary req) \<and> aq_choices req \<noteq> []
     \<and> \<not> blank (aq_plan_digest req) \<and> aq_approval_id req \<notin> known_ids s \<and> t = aq_approval_id req
     \<and> s' = s\<lparr>known_ids := insert (aq_approval_id req) (known_ids s),
          events := events s @ [requested_event req],
          pending := bm_insert (aq_approval_id req) req (pending s)\<rparr>"
  by (auto simp: request_def)

lemma request_err: "request now req s = (Inl e, s') \<Longrightarrow> s' = s"
  by (auto simp: request_def split: if_splits)

lemma validate_grant_ok:
  "validate_grant req ticket grant now used = Inr u \<longleftrightarrow>
     now < aq_expires_at req \<and> ticket = aq_approval_id req \<and> ag_approval_id grant = aq_approval_id req
     \<and> \<not> blank (approver grant) \<and> bound_plan_digest grant = aq_plan_digest req
     \<and> ag_policy_version grant = aq_policy_version req
     \<and> ag_tool_schema_version grant = aq_tool_schema_version req
     \<and> \<not> blank (ag_nonce grant) \<and> ag_nonce grant \<notin> used
     \<and> now < use_by grant \<and> use_by grant \<le> aq_expires_at req"
  by (auto simp: validate_grant_def and_then_Inr_iff not_le)

lemma resolve_err: "resolve now ticket grant s = (Inl e, s') \<Longrightarrow> s' = s"
  by (auto simp: resolve_def Let_def split: option.splits sum.splits)

lemma resolve_ok:
  assumes "resolve now ticket grant s = (Inr u, s')"
  obtains req where "bm_get (pending s) ticket = Some req"
    "validate_grant req ticket grant now (nonces s) = Inr ()"
    "pending s' = bm_remove ticket (pending s)"
    "nonces s' = insert (ag_nonce grant) (nonces s)"
    "known_ids s' = known_ids s"
    "active s' = (if ag_outcome grant = Granted
       then bm_insert (ag_approval_id grant) \<lparr>ac_request = req, ac_grant = grant, consumed = False\<rparr> (active s)
       else active s)"
  using assms by (auto simp: resolve_def Let_def split: option.splits sum.splits)

lemma authorize_checks_ok:
  "authorize_checks now a g = Inr u \<longleftrightarrow>
     ag_outcome (ac_grant g) = Granted
     \<and> now < use_by (ac_grant g) \<and> now < aq_expires_at (ac_request g)
     \<and> au_session a = aq_session (ac_request g) \<and> au_scope a = aq_scope (ac_request g)
     \<and> in_scope (au_intent a) = aq_scope (ac_request g)
     \<and> au_plan_digest a = bound_plan_digest (ac_grant g) \<and> au_plan_digest a = aq_plan_digest (ac_request g)
     \<and> au_policy_version a = ag_policy_version (ac_grant g)
     \<and> au_policy_version a = aq_policy_version (ac_request g)
     \<and> au_tool_schema_version a = ag_tool_schema_version (ac_grant g)
     \<and> au_tool_schema_version a = aq_tool_schema_version (ac_request g)
     \<and> set (requested_permissions (au_intent a)) \<subseteq> set (aq_requested_permissions (ac_request g))"
  by (auto simp: authorize_checks_def and_then_Inr_iff not_le)

lemma authorize_err: "authorize now a s = (Inl e, s') \<Longrightarrow> s' = s"
  by (auto simp: authorize_def Let_def split: option.splits sum.splits grant_scope.splits if_splits)

lemma authorize_ok:
  assumes "authorize now a s = (Inr u, s')"
  obtains g where "bm_get (active s) (au_approval_id a) = Some g"
    "authorize_checks (max now (au_now a)) a g = Inr ()"
    "granted_scope (ac_grant g) = OneShot \<Longrightarrow> \<not> consumed g"
    "\<And>p. granted_scope (ac_grant g) = ParamPattern p \<Longrightarrow> arg_matcher_matches p (au_intent a)"
    "s' = (if granted_scope (ac_grant g) = OneShot
       then s\<lparr>active := bm_insert (au_approval_id a) (g\<lparr>consumed := True\<rparr>) (active s)\<rparr> else s)"
  using assms
  by (auto simp: authorize_def Let_def split: option.splits sum.splits grant_scope.splits if_splits)


subsection \<open>Calls a broker serves\<close>

datatype broker_call =
    RequestCall approval_request
  | ResolveCall approval_id approval_grant
  | AuthorizeCall approval_authorization
  | TakeEventsCall

fun broker_perform :: "timestamp \<Rightarrow> broker_call \<Rightarrow> broker_state \<Rightarrow> bool \<times> broker_state" where
  "broker_perform now (RequestCall req) s = map_prod is_ok id (request now req s)"
| "broker_perform now (ResolveCall ticket grant) s = map_prod is_ok id (resolve now ticket grant s)"
| "broker_perform now (AuthorizeCall a) s = map_prod is_ok id (authorize now a s)"
| "broker_perform now TakeEventsCall s = (True, snd (take_events s))"

text \<open>
  A trace lists the calls with the clock reading each saw (readings need not increase) and whether
  each succeeded.
\<close>

type_synonym served_call = "timestamp \<times> broker_call \<times> bool"

inductive broker_trace :: "served_call list \<Rightarrow> broker_state \<Rightarrow> bool" where
  trace_start: "broker_trace [] empty_broker"
| trace_call: "broker_trace tr s \<Longrightarrow> broker_perform now c s = (ok, s')
    \<Longrightarrow> broker_trace (tr @ [(now, c, ok)]) s'"

definition requested :: "served_call list \<Rightarrow> approval_request list" where
  "requested tr = concat (map (\<lambda>(_, c, ok). case c of RequestCall req \<Rightarrow> if ok then [req] else [] | _ \<Rightarrow> []) tr)"

definition resolved :: "served_call list \<Rightarrow> approval_grant list" where
  "resolved tr = concat (map (\<lambda>(_, c, ok). case c of ResolveCall _ g \<Rightarrow> if ok then [g] else [] | _ \<Rightarrow> []) tr)"

definition authorized :: "served_call list \<Rightarrow> approval_authorization list" where
  "authorized tr = concat (map (\<lambda>(_, c, ok). case c of AuthorizeCall a \<Rightarrow> if ok then [a] else [] | _ \<Rightarrow> []) tr)"

lemma served_nil [simp]: "requested [] = []" "resolved [] = []" "authorized [] = []"
  by (simp_all add: requested_def resolved_def authorized_def)

lemma served_snoc:
  "requested (tr @ [(now, c, ok)]) = requested tr @ (case c of RequestCall req \<Rightarrow> if ok then [req] else [] | _ \<Rightarrow> [])"
  "resolved (tr @ [(now, c, ok)]) = resolved tr @ (case c of ResolveCall _ g \<Rightarrow> if ok then [g] else [] | _ \<Rightarrow> [])"
  "authorized (tr @ [(now, c, ok)]) = authorized tr @ (case c of AuthorizeCall a \<Rightarrow> if ok then [a] else [] | _ \<Rightarrow> [])"
  by (simp_all add: requested_def resolved_def authorized_def)

definition uses_of :: "approval_id \<Rightarrow> approval_authorization list \<Rightarrow> nat" where
  "uses_of i as = length (filter (\<lambda>a. au_approval_id a = i) as)"

lemma uses_of_simps [simp]:
  "uses_of i [] = 0"
  "uses_of i (as @ bs) = uses_of i as + uses_of i bs"
  "uses_of i (a # as) = (if au_approval_id a = i then Suc (uses_of i as) else uses_of i as)"
  by (simp_all add: uses_of_def)

text \<open>The agreement of an active grant with its request.\<close>

definition bound_grant :: "approval_request \<Rightarrow> approval_grant \<Rightarrow> bool" where
  "bound_grant req g \<longleftrightarrow>
     ag_approval_id g = aq_approval_id req \<and> bound_plan_digest g = aq_plan_digest req
     \<and> ag_policy_version g = aq_policy_version req \<and> ag_tool_schema_version g = aq_tool_schema_version req
     \<and> \<not> blank (approver g) \<and> \<not> blank (ag_nonce g) \<and> use_by g \<le> aq_expires_at req"

definition pending_inv :: "approval_request list \<Rightarrow> approval_grant list \<Rightarrow> broker_state \<Rightarrow> bool" where
  "pending_inv reqs grants s \<longleftrightarrow>
     (\<forall>i req. bm_get (pending s) i = Some req \<longrightarrow>
        aq_approval_id req = i \<and> req \<in> set reqs \<and> i \<notin> ag_approval_id ` set grants)
     \<and> known_ids s = aq_approval_id ` set reqs \<and> nonces s = ag_nonce ` set grants
     \<and> ag_approval_id ` set grants \<subseteq> known_ids s
     \<and> distinct (map aq_approval_id reqs) \<and> distinct (map ag_approval_id grants)
     \<and> distinct (map ag_nonce grants)"

definition active_inv ::
  "approval_request list \<Rightarrow> approval_grant list \<Rightarrow> approval_authorization list \<Rightarrow> broker_state \<Rightarrow> bool" where
  "active_inv reqs grants auths s \<longleftrightarrow>
     (\<forall>i g. bm_get (active s) i = Some g \<longrightarrow>
        aq_approval_id (ac_request g) = i \<and> ac_request g \<in> set reqs \<and> ac_grant g \<in> set grants
        \<and> ag_outcome (ac_grant g) = Granted \<and> bound_grant (ac_request g) (ac_grant g)
        \<and> (granted_scope (ac_grant g) = OneShot \<longrightarrow> uses_of i auths = (if consumed g then 1 else 0)))
     \<and> (\<forall>i. bm_get (active s) i = None \<longrightarrow> uses_of i auths = 0)
     \<and> (\<forall>g\<in>set grants. ag_outcome g = Granted \<longrightarrow> (\<exists>x. bm_get (active s) (ag_approval_id g) = Some x))"


subsection \<open>The invariant of a broker\<close>

lemma pending_inv_request:
  assumes "pending_inv reqs grants s" and "request now req s = (Inr t, s')"
  shows "pending_inv (reqs @ [req]) grants s'"
  using assms unfolding request_ok pending_inv_def by auto

lemma pending_inv_resolve:
  assumes inv: "pending_inv reqs grants s" and ok: "resolve now ticket g s = (Inr u, s')"
  shows "pending_inv reqs (grants @ [g]) s'"
  using ok
proof (rule resolve_ok)
  fix req
  assume req: "bm_get (pending s) ticket = Some req" "validate_grant req ticket g now (nonces s) = Inr ()"
    and s': "pending s' = bm_remove ticket (pending s)" "nonces s' = insert (ag_nonce g) (nonces s)"
      "known_ids s' = known_ids s"
  have g: "ag_approval_id g = ticket" "ag_nonce g \<notin> nonces s"
    using req(2) by (auto simp: validate_grant_ok)
  have "ticket \<in> known_ids s" "ticket \<notin> ag_approval_id ` set grants"
    using inv req(1) by (auto simp: pending_inv_def)
  then show ?thesis using inv g s' by (auto simp: pending_inv_def)
qed

lemma active_inv_request:
  assumes "active_inv reqs grants auths s" and "request now req s = (Inr t, s')"
  shows "active_inv (reqs @ [req]) grants auths s'"
  using assms unfolding request_ok active_inv_def by (auto 4 3)

lemma active_inv_resolve:
  assumes p: "pending_inv reqs grants s" and inv: "active_inv reqs grants auths s"
    and ok: "resolve now ticket g s = (Inr u, s')"
  shows "active_inv reqs (grants @ [g]) auths s'"
  using ok
proof (rule resolve_ok)
  fix req
  assume req: "bm_get (pending s) ticket = Some req" "validate_grant req ticket g now (nonces s) = Inr ()"
    and s': "active s' = (if ag_outcome g = Granted
       then bm_insert (ag_approval_id g) \<lparr>ac_request = req, ac_grant = g, consumed = False\<rparr> (active s)
       else active s)"
  have g: "ag_approval_id g = ticket" "bound_grant req g"
    using req(2) by (auto simp: validate_grant_ok bound_grant_def)
  have t: "aq_approval_id req = ticket" "req \<in> set reqs" "ticket \<notin> ag_approval_id ` set grants"
    using p req(1) by (auto simp: pending_inv_def)
  have "bm_get (active s) ticket = None"
  proof (rule ccontr)
    assume "bm_get (active s) ticket \<noteq> None"
    then obtain x where "bm_get (active s) ticket = Some x" by blast
    then have "ac_grant x \<in> set grants" "ag_approval_id (ac_grant x) = ticket"
      using inv by (auto simp: active_inv_def bound_grant_def)
    with t(3) show False by blast
  qed
  then have "uses_of ticket auths = 0" using inv by (simp add: active_inv_def)
  then show ?thesis using inv g t(1,2) unfolding active_inv_def s' by (auto 4 3)
qed

lemma active_inv_authorize:
  assumes inv: "active_inv reqs grants auths s" and ok: "authorize now a s = (Inr u, s')"
  shows "active_inv reqs grants (auths @ [a]) s'"
  using ok
proof (rule authorize_ok)
  fix g
  assume g: "bm_get (active s) (au_approval_id a) = Some g"
    and once: "granted_scope (ac_grant g) = OneShot \<Longrightarrow> \<not> consumed g"
    and s': "s' = (if granted_scope (ac_grant g) = OneShot
       then s\<lparr>active := bm_insert (au_approval_id a) (g\<lparr>consumed := True\<rparr>) (active s)\<rparr> else s)"
  show ?thesis
  proof (cases "granted_scope (ac_grant g) = OneShot")
    case True
    then show ?thesis using inv g once [OF True] unfolding active_inv_def s' by auto
  next
    case False
    then show ?thesis using inv g unfolding active_inv_def s' by auto
  qed
qed

lemma pending_inv_authorize:
  assumes inv: "pending_inv reqs grants s" and ok: "authorize now a s = (Inr u, s')"
  shows "pending_inv reqs grants s'"
  using ok by (rule authorize_ok) (use inv in \<open>auto simp: pending_inv_def\<close>)

lemma inv_take_events [simp]:
  "pending_inv reqs grants (s\<lparr>events := evs\<rparr>) = pending_inv reqs grants s"
  "active_inv reqs grants auths (s\<lparr>events := evs\<rparr>) = active_inv reqs grants auths s"
  by (simp_all add: pending_inv_def active_inv_def)

lemma broker_invariant:
  "broker_trace tr s \<Longrightarrow>
    pending_inv (requested tr) (resolved tr) s
    \<and> active_inv (requested tr) (resolved tr) (authorized tr) s"
proof (induction rule: broker_trace.induct)
  case trace_start
  show ?case by (simp add: pending_inv_def active_inv_def empty_broker_def)
next
  case (trace_call tr s now c ok s')
  then have inv: "pending_inv (requested tr) (resolved tr) s"
      "active_inv (requested tr) (resolved tr) (authorized tr) s"
    and step: "broker_perform now c s = (ok, s')" by blast+
  show ?case
  proof (cases c)
    case (RequestCall req)
    obtain r where r: "request now req s = (r, s')" "ok = is_ok r"
      using step RequestCall by (cases "request now req s") auto
    show ?thesis
      using inv r pending_inv_request [OF inv(1)] active_inv_request [OF inv(2)] RequestCall
      by (cases r) (auto simp: served_snoc dest: request_err)
  next
    case (ResolveCall ticket g)
    obtain r where r: "resolve now ticket g s = (r, s')" "ok = is_ok r"
      using step ResolveCall by (cases "resolve now ticket g s") auto
    show ?thesis
      using inv r pending_inv_resolve [OF inv(1)] active_inv_resolve [OF inv] ResolveCall
      by (cases r) (auto simp: served_snoc dest: resolve_err)
  next
    case (AuthorizeCall a)
    obtain r where r: "authorize now a s = (r, s')" "ok = is_ok r"
      using step AuthorizeCall by (cases "authorize now a s") auto
    show ?thesis
      using inv r pending_inv_authorize [OF inv(1)] active_inv_authorize [OF inv(2)] AuthorizeCall
      by (cases r) (auto simp: served_snoc dest: authorize_err)
  next
    case TakeEventsCall
    then show ?thesis
      using inv step by (auto simp: served_snoc take_events_def)
  qed
qed

lemmas broker_pending = broker_invariant [THEN conjunct1]
lemmas broker_active = broker_invariant [THEN conjunct2]


subsection \<open>What a broker promises\<close>

text \<open>C2: Whatever calls a broker has served and whatever its clock showed, an authorisation succeeds
  only on behalf of a request the broker accepted and a grant of a non-blank principal it accepted
  for that request, with outcome Granted, and only if the action still has the session, scope, plan
  digest and versions of both, asks for no permission the request did not list, and comes before the
  expiry of the grant, which is not later than that of the request.\<close>

theorem approval_backed:
  assumes "broker_trace tr s" and "broker_perform now (AuthorizeCall a) s = (True, s')"
  shows "\<exists>req\<in>set (requested tr). \<exists>g\<in>set (resolved tr).
      aq_approval_id req = au_approval_id a \<and> ag_approval_id g = au_approval_id a
      \<and> ag_outcome g = Granted \<and> \<not> blank (approver g)
      \<and> au_session a = aq_session req \<and> au_scope a = aq_scope req \<and> in_scope (au_intent a) = aq_scope req
      \<and> au_plan_digest a = aq_plan_digest req \<and> au_plan_digest a = bound_plan_digest g
      \<and> au_policy_version a = aq_policy_version req \<and> au_tool_schema_version a = aq_tool_schema_version req
      \<and> set (requested_permissions (au_intent a)) \<subseteq> set (aq_requested_permissions req)
      \<and> max now (au_now a) < use_by g \<and> use_by g \<le> aq_expires_at req
      \<and> (\<forall>p. granted_scope g = ParamPattern p \<longrightarrow> arg_matcher_matches p (au_intent a))"
proof -
  obtain u where "authorize now a s = (Inr u, s')"
    using assms(2) by (cases "authorize now a s") (auto simp: is_ok_def split: sum.splits)
  then obtain g where g: "bm_get (active s) (au_approval_id a) = Some g"
      "authorize_checks (max now (au_now a)) a g = Inr ()"
      "\<And>p. granted_scope (ac_grant g) = ParamPattern p \<Longrightarrow> arg_matcher_matches p (au_intent a)"
    by (rule authorize_ok) (rule that, assumption+)
  have inv: "active_inv (requested tr) (resolved tr) (authorized tr) s"
    using assms(1) by (rule broker_active)
  then have b: "aq_approval_id (ac_request g) = au_approval_id a" "ac_request g \<in> set (requested tr)"
      "ac_grant g \<in> set (resolved tr)" "bound_grant (ac_request g) (ac_grant g)"
    using g(1) by (simp_all add: active_inv_def)
  show ?thesis
    by (rule bexI [OF _ b(2)], rule bexI [OF _ b(3)])
       (use b g(2,3) in \<open>simp add: authorize_checks_ok bound_grant_def\<close>)
qed

text \<open>C3: A one-shot grant authorises at most one action over the whole life of the broker, and an
  approval that was resolved as denied or expired never authorises any.\<close>

theorem approval_one_shot:
  assumes "broker_trace tr s" and "g \<in> set (resolved tr)"
  shows "(granted_scope g = OneShot \<longrightarrow> uses_of (ag_approval_id g) (authorized tr) \<le> 1)
    \<and> (ag_outcome g \<noteq> Granted \<longrightarrow> uses_of (ag_approval_id g) (authorized tr) = 0)"
proof -
  have inv: "active_inv (requested tr) (resolved tr) (authorized tr) s"
    and once: "inj_on ag_approval_id (set (resolved tr))"
    using broker_active [OF assms(1)] broker_pending [OF assms(1)]
    by (auto simp: pending_inv_def distinct_map)
  show ?thesis
  proof (cases "bm_get (active s) (ag_approval_id g)")
    case None
    then show ?thesis using inv by (simp add: active_inv_def)
  next
    case (Some x)
    then have x: "ac_grant x \<in> set (resolved tr)" "ag_outcome (ac_grant x) = Granted"
        "ag_approval_id (ac_grant x) = ag_approval_id g"
        "granted_scope (ac_grant x) = OneShot \<longrightarrow>
           uses_of (ag_approval_id g) (authorized tr) = (if consumed x then 1 else 0)"
      using inv by (auto simp: active_inv_def bound_grant_def)
    then have "ac_grant x = g" using once assms(2) by (auto dest: inj_onD)
    with x show ?thesis by simp
  qed
qed

text \<open>No approval id is accepted twice, no approval is resolved twice, and no nonce is accepted
  twice, in any sequence of calls.\<close>

theorem approval_replay_free:
  assumes "broker_trace tr s"
  shows "distinct (map aq_approval_id (requested tr)) \<and> distinct (map ag_approval_id (resolved tr))
    \<and> distinct (map ag_nonce (resolved tr))
    \<and> ag_approval_id ` set (resolved tr) \<subseteq> aq_approval_id ` set (requested tr)"
  using broker_pending [OF assms] unfolding pending_inv_def by metis

subsection \<open>A served broker\<close>

definition example_request :: approval_request where
  "example_request =
     \<lparr>aq_schema_version = 1, aq_approval_id = ''p1'', aq_session = ''s1'', aq_action_summary = ''read'',
      aq_risk_level = Low, aq_scope = ''ws:notes'', aq_requested_permissions = [''fs:read''],
      aq_affected_resources = [], aq_rollback_boundary = ''none'', aq_expires_at = 100,
      aq_choices = [''approve''], aq_plan_digest = ''d1'', aq_policy_version = 1,
      aq_tool_schema_version = 1\<rparr>"

definition example_grant :: approval_grant where
  "example_grant =
     \<lparr>ag_schema_version = 1, ag_approval_id = ''p1'', ag_outcome = Granted, granted_scope = OneShot,
      approver = ''owner'', bound_plan_digest = ''d1'', ag_policy_version = 1,
      ag_tool_schema_version = 1, ag_nonce = ''n1'', use_by = 50\<rparr>"

definition example_authorization :: approval_authorization where
  "example_authorization =
     \<lparr>au_approval_id = ''p1'', au_session = ''s1'', au_scope = ''ws:notes'', au_plan_digest = ''d1'',
      au_policy_version = 1, au_tool_schema_version = 1, au_now = 12, au_intent = read_notes_intent\<rparr>"

definition granted_broker :: broker_state where
  "granted_broker =
     snd (resolve 11 ''p1'' example_grant (snd (request 10 example_request empty_broker)))"

definition granted_trace :: "served_call list" where
  "granted_trace = ([] @ [(10, RequestCall example_request, True)])
     @ [(11, ResolveCall ''p1'' example_grant, True)]"

lemmas example_defs = example_request_def example_grant_def example_authorization_def
  read_notes_intent_def

lemma example_request_served:
  "broker_perform 10 (RequestCall example_request) empty_broker
     = (True, snd (request 10 example_request empty_broker))"
  by (simp add: request_def empty_broker_def example_defs)

lemma example_resolve_served:
  "broker_perform 11 (ResolveCall ''p1'' example_grant) (snd (request 10 example_request empty_broker))
     = (True, granted_broker)"
  by (simp add: granted_broker_def resolve_def validate_grant_def request_def empty_broker_def
      example_defs)

lemma granted_broker_trace: "broker_trace granted_trace granted_broker"
  unfolding granted_trace_def
  by (rule trace_call [OF trace_call [OF trace_start example_request_served] example_resolve_served])

lemma example_authorize_served:
  "fst (broker_perform 12 (AuthorizeCall example_authorization) granted_broker)"
  by (simp add: authorize_def authorize_checks_def granted_broker_def resolve_def validate_grant_def
      request_def empty_broker_def example_defs)

lemma approval_backed_witness:
  "\<exists>req\<in>set (requested granted_trace). aq_approval_id req = ''p1''"
  using approval_backed [OF granted_broker_trace, of 12 example_authorization
      "snd (broker_perform 12 (AuthorizeCall example_authorization) granted_broker)"]
    example_authorize_served
  by (auto simp: prod_eq_iff example_authorization_def)

lemma granted_trace_resolved: "resolved granted_trace = [example_grant]"
  by (simp add: granted_trace_def resolved_def)

lemma approval_one_shot_witness: "uses_of (ag_approval_id example_grant) (authorized granted_trace) \<le> 1"
  using approval_one_shot [OF granted_broker_trace, of example_grant]
  by (simp add: granted_trace_resolved) (simp add: example_grant_def)

lemma approval_replay_free_witness: "distinct (map ag_nonce (resolved granted_trace))"
  using approval_replay_free [OF granted_broker_trace] by simp

end
