(* ===== verification/Capabilities.thy ===== *)
theory Capabilities
  imports Policy Ordered_Map "HOL-Library.Product_Lexorder"
begin

text \<open>
  The capability registry (\<open>crates/capabilities/src/registry.rs\<close>): sources declare capabilities,
  the registry keeps one entry per capability and source, and resolving a toolset selects what an
  envelope and a policy allow. The lemmas describe the entries after each operation, and resolution
  as a filter: an item is in the toolset exactly when some entry of it passes every guard, and its
  sources are exactly those of the passing entries.
\<close>

subsection \<open>Data\<close>

datatype capability =
    ToolCap string | SkillCap string | McpToolCap string | PluginContributionCap string
  | HookCap string | AppApiCap string | AgentProfileCap string

record capability_descriptor =
  cd_schema_version :: schema_version
  cd_id :: capability_ref
  cd_capability :: capability
  cd_scope :: scope
  cd_permissions :: "permission_ref list"
  cd_risk :: "risk option"
  cd_enabled :: bool

type_synonym capability_source_ref = string

record capability_source =
  src_schema_version :: schema_version
  source_ref :: capability_source_ref
  src_trust :: trust_tier
  src_entries :: "capability_descriptor list"

record toolset_item =
  ti_schema_version :: schema_version
  ti_id :: capability_ref
  ti_capability :: capability
  ti_sources :: "capability_source_ref list"

record toolset =
  ts_schema_version :: schema_version
  toolset_ref :: string
  items :: "toolset_item list"
  ts_scope :: scope
  ts_sources :: "capability_source_ref list"

record resolve_context =
  rc_schema_version :: schema_version
  rc_session :: session_id
  rc_toolset :: string
  rc_envelope :: autonomy_envelope
  policy_allowed_providers :: "string list"
  policy_allowed_capabilities :: "capability_ref list"

record indexed_capability =
  descriptor :: capability_descriptor
  ix_source :: capability_source_ref
  ix_trust :: trust_tier

text \<open>The payloads of \<open>EventPayload\<close> the registry emits.\<close>

datatype registry_event =
    CapabilityIndexed capability_ref "capability_source_ref list"
  | ToolsetResolved string "capability_source_ref list"
  | CapabilityEvidenceRecorded capability_ref string string

record registry_state =
  entries :: "(capability_ref \<times> capability_source_ref, indexed_capability) btree_map"
  evidence :: "capability_evidence list"
  reg_events :: "registry_event list"

definition empty_registry :: registry_state where
  "empty_registry = \<lparr>entries = bm_empty, evidence = [], reg_events = []\<rparr>"

subsection \<open>Indexing\<close>

definition validate_source :: "capability_source \<Rightarrow> unit result" where
  "validate_source src =
     and_then (ensure (src_schema_version src \<noteq> 0 \<and> \<not> blank (source_ref src))
       ''capability source is unidentified'') (\<lambda>_.
     try_all (\<lambda>d. ensure (cd_schema_version d \<noteq> 0 \<and> \<not> blank (cd_id d) \<and> \<not> blank (cd_scope d))
       ''capability descriptor is incomplete'') (src_entries src))"

definition indexed :: "capability_source \<Rightarrow> capability_descriptor \<Rightarrow> indexed_capability" where
  "indexed src d = \<lparr>descriptor = d, ix_source = source_ref src, ix_trust = src_trust src\<rparr>"

definition index_entry :: "capability_source \<Rightarrow> capability_descriptor \<Rightarrow> registry_state \<Rightarrow> registry_state" where
  "index_entry src d s =
     s\<lparr>reg_events := reg_events s @ [CapabilityIndexed (cd_id d) [source_ref src]],
       entries := bm_insert (cd_id d, source_ref src) (indexed src d) (entries s)\<rparr>"

definition index :: "capability_source \<Rightarrow> registry_state \<Rightarrow> unit result \<times> registry_state" where
  "index src s =
     (case validate_source src of
        Inl e \<Rightarrow> (Inl e, s)
      | Inr _ \<Rightarrow>
        (Inr (), fold (index_entry src) (src_entries src)
           (s\<lparr>entries := bm_retain (\<lambda>(_, from) _. from \<noteq> source_ref src) (entries s)\<rparr>)))"

definition remove_source :: "capability_source_ref \<Rightarrow> registry_state \<Rightarrow> registry_state" where
  "remove_source src s = s\<lparr>entries := bm_retain (\<lambda>(_, from) _. from \<noteq> src) (entries s)\<rparr>"

text \<open>
  \<open>replace_sources\<close> collects the replacements of all sources before it touches the state: the inner
  loop walks the descriptors of one source, the outer one the sources.
\<close>

type_synonym replacement = "(capability_ref \<times> capability_source_ref) \<times> indexed_capability"

fun collect_descriptors ::
  "capability_source \<Rightarrow> capability_descriptor list \<Rightarrow> replacement list \<Rightarrow> replacement list result" where
  "collect_descriptors src [] acc = Inr acc"
| "collect_descriptors src (d # ds) acc =
     and_then (ensure ((cd_id d, source_ref src) \<notin> fst ` set acc)
       ''replacement capability descriptor is duplicated'')
       (\<lambda>_. collect_descriptors src ds (acc @ [((cd_id d, source_ref src), indexed src d)]))"

fun collect_sources ::
  "capability_source_ref list \<Rightarrow> capability_source list \<Rightarrow> replacement list \<Rightarrow> replacement list result" where
  "collect_sources managed [] acc = Inr acc"
| "collect_sources managed (src # srcs) acc =
     and_then (validate_source src) (\<lambda>_.
     and_then (ensure (source_ref src \<in> set managed)
       ''replacement capability source is outside the managed set'') (\<lambda>_.
     and_then (collect_descriptors src (src_entries src) acc) (collect_sources managed srcs)))"

definition put_replacement :: "replacement \<Rightarrow> registry_state \<Rightarrow> registry_state" where
  "put_replacement r s =
     s\<lparr>reg_events := reg_events s @ [CapabilityIndexed (cd_id (descriptor (snd r))) [ix_source (snd r)]],
       entries := bm_insert (fst r) (snd r) (entries s)\<rparr>"

definition replace_sources ::
  "capability_source_ref list \<Rightarrow> capability_source list \<Rightarrow> registry_state \<Rightarrow> unit result \<times> registry_state" where
  "replace_sources managed srcs s =
     (case and_then (ensure (\<not> (\<exists>m\<in>set managed. blank m)) ''managed capability source is unidentified'')
            (\<lambda>_. collect_sources managed srcs []) of
        Inl e \<Rightarrow> (Inl e, s)
      | Inr rs \<Rightarrow>
        (Inr (), fold put_replacement rs
           (s\<lparr>entries := bm_retain (\<lambda>(_, from) _. from \<notin> set managed) (entries s)\<rparr>)))"

definition record_evidence :: "capability_evidence \<Rightarrow> registry_state \<Rightarrow> unit result \<times> registry_state" where
  "record_evidence e s =
     (if blank (ce_capability e) \<or> blank (ce_outcome e) \<or> blank (ce_reliability e)
      then (fails ''capability evidence is incomplete'', s)
      else (Inr (), s\<lparr>reg_events := reg_events s
          @ [CapabilityEvidenceRecorded (ce_capability e) (ce_outcome e) (ce_reliability e)],
        evidence := evidence s @ [e]\<rparr>))"

subsection \<open>Resolution\<close>

definition admissible :: "resolve_context \<Rightarrow> indexed_capability \<Rightarrow> bool" where
  "admissible ctx ix =
     (let d = descriptor ix; env = rc_envelope ctx in
      case cd_risk d of
        None \<Rightarrow> False
      | Some r \<Rightarrow>
          \<not> (\<not> cd_enabled d \<or> ix_trust ix = Untrusted \<or> r > env_risk_limit env
             \<or> cd_id d \<notin> set (policy_allowed_capabilities ctx)
             \<or> cd_id d \<notin> set (capabilities (env_capability env))
             \<or> \<not> (\<forall>p\<in>set (cd_permissions d). p \<in> set (permissions (env_capability env)))
             \<or> \<not> scope_contains (cd_scope d) (env_scope env)))"

text \<open>
  \<open>resolved\<close> maps an id to the capability of its first admissible entry and the ordered set of the
  sources of all of them.
\<close>

definition resolve_entry ::
  "indexed_capability \<Rightarrow> (capability_ref, capability \<times> capability_source_ref list) btree_map
    \<Rightarrow> (capability_ref, capability \<times> capability_source_ref list) btree_map" where
  "resolve_entry ix m =
     (let d = descriptor ix;
          (c, srcs) = (case bm_get m (cd_id d) of None \<Rightarrow> (cd_capability d, []) | Some e \<Rightarrow> e) in
      bm_insert (cd_id d) (c, insort_insert (ix_source ix) srcs) m)"

definition resolved_map ::
  "resolve_context \<Rightarrow> registry_state \<Rightarrow> (capability_ref, capability \<times> capability_source_ref list) btree_map" where
  "resolved_map ctx s = fold resolve_entry (filter (admissible ctx) (bm_values (entries s))) bm_empty"

definition toolset_of ::
  "resolve_context \<Rightarrow> (capability_ref, capability \<times> capability_source_ref list) btree_map \<Rightarrow> toolset" where
  "toolset_of ctx m =
     \<lparr>ts_schema_version = 1, toolset_ref = rc_toolset ctx,
      items = map (\<lambda>(i, c, srcs). \<lparr>ti_schema_version = 1, ti_id = i, ti_capability = c, ti_sources = srcs\<rparr>) m,
      ts_scope = env_scope (rc_envelope ctx),
      ts_sources = fold (\<lambda>(_, _, srcs) all. fold insort_insert srcs all) m []\<rparr>"

definition resolve_internal ::
  "resolve_context \<Rightarrow> registry_state \<Rightarrow> (toolset \<times> capability_evidence list) \<times> registry_state" where
  "resolve_internal ctx s =
     (let m = resolved_map ctx s; ts = toolset_of ctx m in
      ((ts, map (\<lambda>(i, _). \<lparr>ce_schema_version = 1, ce_capability = i, ce_outcome = ''available'',
                          ce_reliability = ''declared''\<rparr>) m),
       s\<lparr>reg_events := reg_events s @ [ToolsetResolved (rc_toolset ctx) (ts_sources ts)]\<rparr>))"

definition resolve_toolset :: "resolve_context \<Rightarrow> registry_state \<Rightarrow> toolset \<times> registry_state" where
  "resolve_toolset ctx s = map_prod fst id (resolve_internal ctx s)"


subsection \<open>The entries after each operation\<close>

lemma index_entries_fold:
  "bm_get (entries (fold (index_entry src) ds s)) (i, from) =
     (if from = source_ref src
      then (case map_of (rev (map (\<lambda>d. (cd_id d, indexed src d)) ds)) i of
              None \<Rightarrow> bm_get (entries s) (i, from) | Some ix \<Rightarrow> Some ix)
      else bm_get (entries s) (i, from))"
  by (induction ds arbitrary: s) (auto simp: index_entry_def map_add_def split: option.splits)

lemma index_wf_fold: "bm_wf (entries s) \<Longrightarrow> bm_wf (entries (fold (index_entry src) ds s))"
  by (induction ds arbitrary: s) (simp_all add: index_entry_def bm.wf_put)

lemma replacements_fold:
  "bm_get (entries (fold put_replacement rs s)) k =
     (case map_of (rev rs) k of None \<Rightarrow> bm_get (entries s) k | Some ix \<Rightarrow> Some ix)"
  by (induction rs arbitrary: s) (auto simp: put_replacement_def map_add_def split: option.splits)

lemma replacements_wf: "bm_wf (entries s) \<Longrightarrow> bm_wf (entries (fold put_replacement rs s))"
  by (induction rs arbitrary: s) (simp_all add: put_replacement_def bm.wf_put)

lemma retain_entries:
  "bm_wf m \<Longrightarrow> bm_get (bm_retain (\<lambda>(_, from) _. P from) m) (i, from) =
     (if P from then bm_get m (i, from) else None)"
  by (simp add: bm_get_retain bm.keys_distinct split: option.split)

lemma validate_source_ok:
  "validate_source src = Inr u \<longleftrightarrow>
     src_schema_version src \<noteq> 0 \<and> \<not> blank (source_ref src)
     \<and> (\<forall>d\<in>set (src_entries src). cd_schema_version d \<noteq> 0 \<and> \<not> blank (cd_id d) \<and> \<not> blank (cd_scope d))"
  by (auto simp: validate_source_def and_then_Inr_iff)

text \<open>The invariant of a registry: an entry stands under its own id and source, both non-blank.\<close>

definition registry_inv :: "registry_state \<Rightarrow> bool" where
  "registry_inv s \<longleftrightarrow> bm_wf (entries s)
     \<and> (\<forall>i from ix. bm_get (entries s) (i, from) = Some ix \<longrightarrow>
          cd_id (descriptor ix) = i \<and> ix_source ix = from \<and> \<not> blank i \<and> \<not> blank from)"

lemma registry_inv_empty: "registry_inv empty_registry"
  by (simp add: registry_inv_def empty_registry_def bm.wf_emp)

lemma registry_inv_index:
  assumes "registry_inv s"
  shows "registry_inv (snd (index src s))"
proof (cases "validate_source src")
  case (Inr u)
  have from_src: "cd_id (descriptor ix) = i \<and> ix_source ix = source_ref src \<and> \<not> blank i"
    if "map_of (rev (map (\<lambda>d. (cd_id d, indexed src d)) (src_entries src))) i = Some ix" for i ix
    using map_of_SomeD [OF that] Inr by (auto simp: indexed_def validate_source_ok)
  have "\<not> blank (source_ref src)" using Inr by (simp add: validate_source_ok)
  with assms from_src show ?thesis
    unfolding registry_inv_def index_def Inr
    by (simp add: index_wf_fold bm_wf_retain index_entries_fold retain_entries split: option.split)
qed (simp add: index_def assms)

lemma collect_descriptors_ok:
  "collect_descriptors src ds acc = Inr rs \<Longrightarrow> distinct (map fst acc) \<Longrightarrow>
     rs = acc @ map (\<lambda>d. ((cd_id d, source_ref src), indexed src d)) ds \<and> distinct (map fst rs)"
proof (induction ds arbitrary: acc)
  case (Cons d ds)
  then have "distinct (map fst (acc @ [((cd_id d, source_ref src), indexed src d)]))"
    and "collect_descriptors src ds (acc @ [((cd_id d, source_ref src), indexed src d)]) = Inr rs"
    by (auto simp: and_then_Inr_iff)
  note rest = Cons.IH [OF this(2,1)]
  show ?case
    by (rule conjI [OF _ rest [THEN conjunct2]]) (use rest [THEN conjunct1] in simp)
qed simp

definition replacement_ok :: "capability_source_ref list \<Rightarrow> capability_source list \<Rightarrow> replacement \<Rightarrow> bool" where
  "replacement_ok managed srcs r \<longleftrightarrow>
     (\<exists>src\<in>set srcs. \<exists>d\<in>set (src_entries src). validate_source src = Inr ()
        \<and> source_ref src \<in> set managed \<and> r = ((cd_id d, source_ref src), indexed src d))"

lemma replacement_ok_Cons:
  assumes "validate_source src = Inr ()" and "source_ref src \<in> set managed"
  shows "Collect (replacement_ok managed (src # srcs)) =
      (\<lambda>d. ((cd_id d, source_ref src), indexed src d)) ` set (src_entries src)
      \<union> Collect (replacement_ok managed srcs)"
proof (rule set_eqI)
  fix r
  have "replacement_ok managed (src # srcs) r \<longleftrightarrow>
      (\<exists>d\<in>set (src_entries src). r = ((cd_id d, source_ref src), indexed src d)) \<or> replacement_ok managed srcs r"
    using assms by (simp add: replacement_ok_def)
  then show "r \<in> Collect (replacement_ok managed (src # srcs)) \<longleftrightarrow>
      r \<in> (\<lambda>d. ((cd_id d, source_ref src), indexed src d)) ` set (src_entries src)
        \<union> Collect (replacement_ok managed srcs)"
    by (simp only: mem_Collect_eq Un_iff image_iff)
qed

lemma collect_sources_ok:
  "collect_sources managed srcs acc = Inr rs \<Longrightarrow> distinct (map fst acc) \<Longrightarrow>
     distinct (map fst rs) \<and> set rs = set acc \<union> Collect (replacement_ok managed srcs)"
proof (induction srcs arbitrary: acc)
  case (Cons src srcs)
  then obtain mid where mid: "validate_source src = Inr ()" "source_ref src \<in> set managed"
      "collect_descriptors src (src_entries src) acc = Inr mid" "collect_sources managed srcs mid = Inr rs"
    by (auto simp: and_then_Inr_iff)
  note col = collect_descriptors_ok [OF mid(3) Cons.prems(2)]
  have m: "set mid = set acc \<union> (\<lambda>d. ((cd_id d, source_ref src), indexed src d)) ` set (src_entries src)"
    by (subst col [THEN conjunct1]) simp
  note rest = Cons.IH [OF mid(4) col [THEN conjunct2]]
  show ?case
  proof
    show "distinct (map fst rs)" by (rule rest [THEN conjunct1])
    show "set rs = set acc \<union> Collect (replacement_ok managed (src # srcs))"
      unfolding replacement_ok_Cons [OF mid(1,2)] rest [THEN conjunct2] m by (rule Un_assoc)
  qed
qed (auto simp: replacement_ok_def)

lemma replace_sources_ok:
  assumes "replace_sources managed srcs s = (Inr u, s')" and "bm_wf (entries s)"
  shows "bm_wf (entries s')"
    and "bm_get (entries s') (i, from) = Some ix \<longleftrightarrow>
      (if from \<in> set managed then replacement_ok managed srcs ((i, from), ix)
       else bm_get (entries s) (i, from) = Some ix)"
proof -
  let ?kept = "s\<lparr>entries := bm_retain (\<lambda>(_, from) _. from \<notin> set managed) (entries s)\<rparr>"
  obtain rs where rs: "collect_sources managed srcs [] = Inr rs" "s' = fold put_replacement rs ?kept"
    using assms(1) by (auto simp: replace_sources_def and_then_def split: sum.splits)
  have d: "distinct (map fst rs)" and mem: "set rs = Collect (replacement_ok managed srcs)"
    using collect_sources_ok [OF rs(1)] by simp_all
  have look: "map_of (rev rs) k = Some ix \<longleftrightarrow> replacement_ok managed srcs (k, ix)" for k ix
    using d mem by (metis distinct_rev map_of_eq_Some_iff mem_Collect_eq rev_map set_rev)
  show "bm_wf (entries s')"
    unfolding rs(2) using assms(2) by (intro replacements_wf) (simp add: bm_wf_retain)
  have managed: "replacement_ok managed srcs ((i, from), ix) \<Longrightarrow> from \<in> set managed" for ix
    by (auto simp: replacement_ok_def)
  show "bm_get (entries s') (i, from) = Some ix \<longleftrightarrow>
      (if from \<in> set managed then replacement_ok managed srcs ((i, from), ix)
       else bm_get (entries s) (i, from) = Some ix)"
    unfolding rs(2) replacements_fold
    using look [of "(i, from)"] managed assms(2)
    by (cases "map_of (rev rs) (i, from)") (auto simp: retain_entries)
qed

lemma registry_inv_replace:
  assumes "registry_inv s"
  shows "registry_inv (snd (replace_sources managed srcs s))"
proof (cases "replace_sources managed srcs s")
  case (Pair r s')
  show ?thesis
  proof (cases r)
    case (Inl e)
    then show ?thesis using Pair assms by (auto simp: replace_sources_def split: sum.splits)
  next
    case (Inr u)
    have wf: "bm_wf (entries s)" using assms by (simp add: registry_inv_def)
    note res = replace_sources_ok [OF Pair [unfolded Inr] wf]
    have "cd_id (descriptor ix) = i \<and> ix_source ix = origin \<and> \<not> blank i \<and> \<not> blank origin"
      if "bm_get (entries s') (i, origin) = Some ix" for i origin ix
      using that assms unfolding res(2) registry_inv_def
      by (auto simp: replacement_ok_def validate_source_ok indexed_def split: if_splits)
    then show ?thesis using res(1) by (simp add: registry_inv_def Pair)
  qed
qed

lemma registry_inv_other:
  assumes "registry_inv s"
  shows "registry_inv (remove_source src s)" "registry_inv (snd (record_evidence e s))"
    "registry_inv (snd (resolve_internal ctx s))"
proof -
  have wf: "bm_wf (entries s)" using assms by (simp add: registry_inv_def)
  then show "registry_inv (remove_source src s)"
    using assms by (simp add: registry_inv_def remove_source_def bm_wf_retain retain_entries)
  show "registry_inv (snd (record_evidence e s))" "registry_inv (snd (resolve_internal ctx s))"
    using assms by (simp_all add: registry_inv_def record_evidence_def resolve_internal_def Let_def)
qed

subsection \<open>Resolution as a filter\<close>

fun resolves_at ::
  "indexed_capability list \<Rightarrow> capability_ref \<Rightarrow> (capability \<times> capability_source_ref list) option \<Rightarrow> bool" where
  "resolves_at xs i None \<longleftrightarrow> i \<notin> (\<lambda>x. cd_id (descriptor x)) ` set xs"
| "resolves_at xs i (Some (c, srcs)) \<longleftrightarrow> sorted srcs \<and> distinct srcs
     \<and> set srcs = ix_source ` {x\<in>set xs. cd_id (descriptor x) = i}
     \<and> (\<exists>x\<in>set xs. cd_id (descriptor x) = i \<and> c = cd_capability (descriptor x))"

lemma resolve_entry_get:
  "bm_get (resolve_entry x m) = (bm_get m)(cd_id (descriptor x) \<mapsto>
     (case bm_get m (cd_id (descriptor x)) of
        None \<Rightarrow> (cd_capability (descriptor x), [ix_source x])
      | Some (c, srcs) \<Rightarrow> (c, insort_insert (ix_source x) srcs)))"
  by (simp add: resolve_entry_def Let_def insort_insert_key_def split: option.split)

lemma resolve_entry_wf: "bm_wf m \<Longrightarrow> bm_wf (resolve_entry x m)"
  unfolding resolve_entry_def Let_def by (simp add: bm.wf_put split: prod.split)

lemma resolves_at_other:
  assumes "cd_id (descriptor x) \<noteq> i" and "resolves_at xs i e"
  shows "resolves_at (xs @ [x]) i e"
proof -
  have "{y \<in> set (xs @ [x]). cd_id (descriptor y) = i} = {y \<in> set xs. cd_id (descriptor y) = i}"
    using assms(1) by auto
  then show ?thesis using assms by (cases "(xs, i, e)" rule: resolves_at.cases) auto
qed

lemma resolves_at_same:
  assumes "resolves_at xs (cd_id (descriptor x)) e"
  shows "resolves_at (xs @ [x]) (cd_id (descriptor x)) (Some (case e of
        None \<Rightarrow> (cd_capability (descriptor x), [ix_source x])
      | Some (c, srcs) \<Rightarrow> (c, insort_insert (ix_source x) srcs)))"
proof (cases e)
  case None
  then have "{y \<in> set (xs @ [x]). cd_id (descriptor y) = cd_id (descriptor x)} = {x}"
    using assms by (force simp: image_iff)
  then show ?thesis using None by auto
next
  case (Some cs)
  have "{y \<in> set (xs @ [x]). cd_id (descriptor y) = cd_id (descriptor x)}
      = insert x {y \<in> set xs. cd_id (descriptor y) = cd_id (descriptor x)}" by auto
  then show ?thesis
    using Some assms by (cases cs) (auto simp: set_insort_insert sorted_insort_insert distinct_insort_insert)
qed

lemma resolves_fold:
  "bm_wf (fold resolve_entry xs bm_empty) \<and> resolves_at xs i (bm_get (fold resolve_entry xs bm_empty) i)"
proof (induction xs rule: rev_induct)
  case Nil
  show ?case by (simp add: bm.wf_emp)
next
  case (snoc x xs)
  let ?m = "fold resolve_entry xs bm_empty"
  have "bm_wf (resolve_entry x ?m)"
    using snoc by (blast intro: resolve_entry_wf)
  moreover have "resolves_at (xs @ [x]) i (bm_get (resolve_entry x ?m) i)"
  proof (cases "cd_id (descriptor x) = i")
    case True
    then show ?thesis using snoc resolves_at_same [of xs x] by (simp add: resolve_entry_get)
  next
    case False
    then show ?thesis using snoc by (simp add: resolve_entry_get resolves_at_other)
  qed
  ultimately show ?case by simp
qed


subsection \<open>Reachable registries\<close>

inductive registry_reach :: "registry_state \<Rightarrow> bool" where
  reach_empty: "registry_reach empty_registry"
| reach_index: "registry_reach s \<Longrightarrow> registry_reach (snd (index src s))"
| reach_remove: "registry_reach s \<Longrightarrow> registry_reach (remove_source ref s)"
| reach_replace: "registry_reach s \<Longrightarrow> registry_reach (snd (replace_sources managed srcs s))"
| reach_evidence: "registry_reach s \<Longrightarrow> registry_reach (snd (record_evidence e s))"
| reach_resolve: "registry_reach s \<Longrightarrow> registry_reach (snd (resolve_internal ctx s))"

lemma registry_reach_inv: "registry_reach s \<Longrightarrow> registry_inv s"
  by (induction rule: registry_reach.induct)
     (simp_all add: registry_inv_empty registry_inv_index registry_inv_replace registry_inv_other)

lemma registry_inv_wf: "registry_inv s \<Longrightarrow> bm_wf (entries s)"
  by (simp add: registry_inv_def)

definition admitted :: "resolve_context \<Rightarrow> registry_state \<Rightarrow> capability_ref \<Rightarrow> capability_source_ref \<Rightarrow> bool" where
  "admitted ctx s i ref \<longleftrightarrow> (\<exists>ix. bm_get (entries s) (i, ref) = Some ix \<and> admissible ctx ix)"

lemma admissible_entries:
  assumes "registry_inv s"
  shows "x \<in> set (filter (admissible ctx) (bm_values (entries s))) \<longleftrightarrow>
    bm_get (entries s) (cd_id (descriptor x), ix_source x) = Some x \<and> admissible ctx x"
  using assms bm_values_get [OF registry_inv_wf [OF assms], of x] by (auto simp: registry_inv_def)

lemma resolved_entry:
  assumes "registry_inv s"
  shows "bm_wf (resolved_map ctx s)"
    and "bm_get (resolved_map ctx s) i = None \<longleftrightarrow> (\<forall>ref. \<not> admitted ctx s i ref)"
    and "bm_get (resolved_map ctx s) i = Some (c, srcs) \<Longrightarrow>
      set srcs = {ref. admitted ctx s i ref}
      \<and> (\<exists>ref ix. bm_get (entries s) (i, ref) = Some ix \<and> admissible ctx ix \<and> c = cd_capability (descriptor ix))"
proof -
  let ?xs = "filter (admissible ctx) (bm_values (entries s))"
  have fold: "bm_wf (resolved_map ctx s)" "resolves_at ?xs i (bm_get (resolved_map ctx s) i)"
    using resolves_fold [of ?xs i] by (simp_all add: resolved_map_def)
  show "bm_wf (resolved_map ctx s)" by (rule fold(1))
  have keyed: "cd_id (descriptor ix) = i \<and> ix_source ix = ref" if "bm_get (entries s) (i, ref) = Some ix" for i ref ix
    using that assms by (simp add: registry_inv_def)
  have ids: "(\<exists>x\<in>set ?xs. cd_id (descriptor x) = i \<and> P x) \<longleftrightarrow>
      (\<exists>ref ix. bm_get (entries s) (i, ref) = Some ix \<and> admissible ctx ix \<and> P ix)" for P
    unfolding Bex_def admissible_entries [OF assms] using keyed by blast
  have srcs: "ix_source ` {x\<in>set ?xs. cd_id (descriptor x) = i} = {ref. admitted ctx s i ref}"
    unfolding admissible_entries [OF assms] admitted_def using keyed by (auto simp: image_iff)
  show "bm_get (resolved_map ctx s) i = None \<longleftrightarrow> (\<forall>ref. \<not> admitted ctx s i ref)"
    using fold(2) ids [of "\<lambda>_. True"]
    by (cases "bm_get (resolved_map ctx s) i") (auto simp: admitted_def image_iff)
  show "set srcs = {ref. admitted ctx s i ref}
      \<and> (\<exists>ref ix. bm_get (entries s) (i, ref) = Some ix \<and> admissible ctx ix \<and> c = cd_capability (descriptor ix))"
    if "bm_get (resolved_map ctx s) i = Some (c, srcs)"
    using fold(2) that srcs ids [of "\<lambda>x. c = cd_capability (descriptor x)"] by auto
qed

lemma ts_sources_fold:
  "set (fold (\<lambda>(_, _, srcs) all. fold insort_insert srcs all) m acc)
     = set acc \<union> (\<Union>(i, c, srcs)\<in>set m. set srcs)"
  for m :: "(capability_ref \<times> capability \<times> capability_source_ref list) list"
proof -
  have one: "set (fold insort_insert xs ys) = set xs \<union> set ys" for xs ys :: "string list"
    by (induction xs arbitrary: ys) (auto simp: set_insort_insert)
  show ?thesis by (induction m arbitrary: acc) (auto simp: one)
qed

lemma bm_entry_get: "bm_wf m \<Longrightarrow> (k, v) \<in> set m \<longleftrightarrow> bm_get m k = Some v"
  using bm.keys_distinct [of m] by (simp add: bm_get_def bm_keys_def)

text \<open>C14: In every reachable registry, resolving a toolset yields exactly the capabilities with an
  admissible entry (declared risk within the envelope, enabled, from a source that is not untrusted,
  allowed by policy and envelope, no permission outside the envelope, scope covering the envelope's),
  in increasing order of id without duplicates; each item lists exactly the sources of its admissible
  entries and takes its capability from one of them, and the toolset lists exactly the sources used.\<close>

theorem resolve_toolset_exact:
  assumes "registry_reach s"
  shows "let ts = fst (resolve_toolset ctx s) in
      sorted_wrt (<) (map ti_id (items ts))
      \<and> ti_id ` set (items ts) = {i. \<exists>ref. admitted ctx s i ref}
      \<and> (\<forall>it\<in>set (items ts). set (ti_sources it) = {ref. admitted ctx s (ti_id it) ref}
          \<and> (\<exists>ref ix. bm_get (entries s) (ti_id it, ref) = Some ix \<and> admissible ctx ix
               \<and> ti_capability it = cd_capability (descriptor ix)))
      \<and> set (ts_sources ts) = {ref. \<exists>i. admitted ctx s i ref}"
proof -
  have inv: "registry_inv s" by (rule registry_reach_inv [OF assms])
  let ?m = "resolved_map ctx s"
  note m = resolved_entry [OF inv, of ctx]
  have ts: "fst (resolve_toolset ctx s) = toolset_of ctx ?m"
    by (simp add: resolve_toolset_def resolve_internal_def Let_def)
  have ids: "map ti_id (items (toolset_of ctx ?m)) = bm_keys ?m"
    by (simp add: toolset_of_def bm_keys_def comp_def case_prod_unfold)
  have keys: "set (bm_keys ?m) = {i. \<exists>ref. admitted ctx s i ref}"
    using m(1,2) by (auto simp: bm.keys_dom dom_def)
  have item: "\<exists>i c srcs. bm_get ?m i = Some (c, srcs) \<and> ti_id it = i \<and> ti_capability it = c \<and> ti_sources it = srcs"
    if "it \<in> set (items (toolset_of ctx ?m))" for it
    using that m(1) by (auto simp: toolset_of_def bm_entry_get)
  have "set (ts_sources (toolset_of ctx ?m)) = (\<Union>(i, c, srcs)\<in>set ?m. set srcs)"
    by (simp add: toolset_of_def ts_sources_fold)
  also have "\<dots> = {ref. \<exists>i. admitted ctx s i ref}"
  proof (rule set_eqI)
    fix ref
    have "(\<exists>i c srcs. bm_get ?m i = Some (c, srcs) \<and> ref \<in> set srcs) \<longleftrightarrow> (\<exists>i. admitted ctx s i ref)"
      using m(2,3) by (metis mem_Collect_eq option.exhaust surj_pair)
    moreover have "ref \<in> (\<Union>(i, c, srcs)\<in>set ?m. set srcs) \<longleftrightarrow>
        (\<exists>i c srcs. (i, c, srcs) \<in> set ?m \<and> ref \<in> set srcs)" by fastforce
    ultimately show "ref \<in> (\<Union>(i, c, srcs)\<in>set ?m. set srcs) \<longleftrightarrow> ref \<in> {ref. \<exists>i. admitted ctx s i ref}"
      by (simp add: bm_entry_get [OF m(1)])
  qed
  finally have sources: "set (ts_sources (toolset_of ctx ?m)) = {ref. \<exists>i. admitted ctx s i ref}" .
  have "ti_id ` set (items (toolset_of ctx ?m)) = {i. \<exists>ref. admitted ctx s i ref}"
    by (simp only: set_map [symmetric] ids keys)
  moreover have "sorted_wrt (<) (map ti_id (items (toolset_of ctx ?m)))"
    unfolding ids by (rule bm.keys_ascending [OF m(1)])
  moreover have "set (ti_sources it) = {ref. admitted ctx s (ti_id it) ref}
      \<and> (\<exists>ref ix. bm_get (entries s) (ti_id it, ref) = Some ix \<and> admissible ctx ix
           \<and> ti_capability it = cd_capability (descriptor ix))"
    if "it \<in> set (items (toolset_of ctx ?m))" for it
    using item [OF that] m(3) by blast
  ultimately show ?thesis unfolding Let_def ts using sources by blast
qed


definition example_source :: capability_source where
  "example_source =
     \<lparr>src_schema_version = 1, source_ref = ''builtin'', src_trust = VerifiedProcess,
      src_entries = [\<lparr>cd_schema_version = 1, cd_id = ''file'', cd_capability = ToolCap ''file'', cd_scope = ''ws'',
        cd_permissions = [''fs:read''], cd_risk = Some Low, cd_enabled = True\<rparr>]\<rparr>"

definition example_resolve :: resolve_context where
  "example_resolve =
     \<lparr>rc_schema_version = 1, rc_session = ''s1'', rc_toolset = ''t1'',
      rc_envelope = \<lparr>env_schema_version = 1, env_scope = ''ws:notes'',
        env_capability = \<lparr>cs_schema_version = 1, capabilities = [''file''], permissions = [''fs:read'']\<rparr>,
        env_action_type = [Observe], env_risk_limit = Medium, env_approval_rule = approval_rule.Allow,
        env_budget = ''units:10'',
        env_timebox = \<lparr>tb_schema_version = 1, tb_starts_at = 0, tb_expires_at = 100, tb_max_turns = 4\<rparr>,
        env_rollback = \<lparr>rb_schema_version = 1, rb_required = False, rb_boundary = None\<rparr>\<rparr>,
      policy_allowed_providers = [], policy_allowed_capabilities = [''file'']\<rparr>"

definition example_registry :: registry_state where
  "example_registry = snd (index example_source empty_registry)"

lemma example_source_valid: "validate_source example_source = Inr ()"
  by (simp add: validate_source_ok example_source_def)

lemma example_admitted: "admitted example_resolve example_registry ''file'' ''builtin''"
proof -
  have "scope_contains ''ws'' ''ws:notes''" by code_simp
  then show ?thesis
    by (simp add: admitted_def example_registry_def index_def example_source_valid)
       (simp add: example_source_def index_entry_def indexed_def admissible_def example_resolve_def
          empty_registry_def bm_retain_def bm_empty_def risk_order_simps)
qed

lemma resolve_toolset_exact_witness:
  "''file'' \<in> ti_id ` set (items (fst (resolve_toolset example_resolve example_registry)))"
proof -
  have "registry_reach example_registry"
    unfolding example_registry_def by (intro reach_index reach_empty)
  from resolve_toolset_exact [OF this, of example_resolve] show ?thesis
    using example_admitted unfolding Let_def by blast
qed

lemma map_of_find: "map_of (map (\<lambda>d. (k d, f d)) ds) i = map_option f (find (\<lambda>d. k d = i) ds)"
  by (induction ds) auto

text \<open>Indexing a source replaces exactly that source's entries by its descriptors (the last one of an
  id winning), replacing managed sources replaces exactly the entries of the managed sources by the
  descriptors of the replacements, and an operation that fails changes nothing.\<close>

theorem registry_index_replace:
  assumes "registry_reach s"
  shows "(case index src s of
        (Inl e, s') \<Rightarrow> s' = s
      | (Inr _, s') \<Rightarrow> \<forall>i ref. bm_get (entries s') (i, ref) =
          (if ref = source_ref src then map_option (indexed src) (find (\<lambda>d. cd_id d = i) (rev (src_entries src)))
           else bm_get (entries s) (i, ref)))
    \<and> (case replace_sources managed srcs s of
        (Inl e, s') \<Rightarrow> s' = s
      | (Inr _, s') \<Rightarrow> \<forall>i ref ix. bm_get (entries s') (i, ref) = Some ix \<longleftrightarrow>
          (if ref \<in> set managed
           then \<exists>src\<in>set srcs. \<exists>d\<in>set (src_entries src). validate_source src = Inr () \<and> source_ref src = ref
                 \<and> cd_id d = i \<and> ix = indexed src d
           else bm_get (entries s) (i, ref) = Some ix))"
proof
  have wf: "bm_wf (entries s)" by (rule registry_inv_wf [OF registry_reach_inv [OF assms]])
  show "case index src s of
        (Inl e, s') \<Rightarrow> s' = s
      | (Inr _, s') \<Rightarrow> \<forall>i ref. bm_get (entries s') (i, ref) =
          (if ref = source_ref src then map_option (indexed src) (find (\<lambda>d. cd_id d = i) (rev (src_entries src)))
           else bm_get (entries s) (i, ref))"
    unfolding index_def
    by (auto simp: index_entries_fold retain_entries wf rev_map map_of_find split: sum.split option.split)
  show "case replace_sources managed srcs s of
        (Inl e, s') \<Rightarrow> s' = s
      | (Inr _, s') \<Rightarrow> \<forall>i ref ix. bm_get (entries s') (i, ref) = Some ix \<longleftrightarrow>
          (if ref \<in> set managed
           then \<exists>src\<in>set srcs. \<exists>d\<in>set (src_entries src). validate_source src = Inr () \<and> source_ref src = ref
                 \<and> cd_id d = i \<and> ix = indexed src d
           else bm_get (entries s) (i, ref) = Some ix)"
  proof (cases "replace_sources managed srcs s")
    case (Pair r s')
    have keep: "s' = s" if "r = Inl e" for e
      using Pair that by (auto simp: replace_sources_def split: sum.splits)
    have "bm_get (entries s') (i, ref) = Some ix \<longleftrightarrow>
          (if ref \<in> set managed
           then \<exists>src\<in>set srcs. \<exists>d\<in>set (src_entries src). validate_source src = Inr () \<and> source_ref src = ref
                 \<and> cd_id d = i \<and> ix = indexed src d
           else bm_get (entries s) (i, ref) = Some ix)" if "r = Inr u" for u i ref ix
      using replace_sources_ok(2) [OF Pair [unfolded that] wf, of i ref ix]
      by (auto simp: replacement_ok_def)
    with keep show ?thesis by (cases r) (simp_all add: Pair)
  qed
qed

lemma registry_index_replace_witness:
  "bm_get (entries (snd (index example_source empty_registry))) (''file'', ''builtin'')
     = Some (indexed example_source (hd (src_entries example_source)))"
proof -
  obtain s' where s': "index example_source empty_registry = (Inr (), s')"
    by (simp add: index_def example_source_valid)
  have "bm_get (entries s') (''file'', ''builtin'') = map_option (indexed example_source)
      (find (\<lambda>d. cd_id d = ''file'') (rev (src_entries example_source)))"
    using registry_index_replace [where s = empty_registry and src = example_source,
        OF reach_empty, THEN conjunct1] s' by (simp add: example_source_def)
  then show ?thesis by (simp add: s') (simp add: example_source_def)
qed

end
