(* ===== verification/Coordination.thy ===== *)
theory Coordination
  imports Capabilities Complex_Main "HOL-Library.Multiset"
begin

text \<open>
  The coordination kernel (\<open>crates/coordination/src/lib.rs\<close>), its data and its two pure parts: the
  rule-based reasoner that turns a goal frame into a resource plan, and the seed library that picks an
  orchestration pattern for an applicability signature and lays out a route for it. Budgets, the check
  of routes and their execution are the next theories.
\<close>

subsection \<open>The resource graph as data (protocol/src/m2_c.rs)\<close>

datatype resource_kind = Tool | Skill | Model | Memory | Source | Backend

record resource_score =
  sc_schema_version :: schema_version
  passed :: u32
  failed :: u32
  unverifiable :: u32
  latest_at :: timestamp

definition score_rank :: "resource_score \<Rightarrow> int" where
  "score_rank s = uint (passed s) * 4 - uint (failed s) * 6 - uint (unverifiable s) * 2"

record resource_node =
  rn_schema_version :: schema_version
  resource :: string
  rn_kind :: resource_kind
  rn_scope :: scope
  available :: bool
  score :: resource_score
  rn_evidence :: "event_id list"

datatype resource_relation = Provides | UsedBy | Supports

record resource_edge =
  re_schema_version :: schema_version
  re_from :: string
  re_to :: string
  relation :: resource_relation
  re_scope :: scope
  fresh_at :: timestamp
  re_evidence :: "event_id list"

record aggregate_version =
  av_schema_version :: schema_version
  aggregate :: run_id
  av_value :: u64

record resource_graph_snapshot =
  rg_schema_version :: schema_version
  rg_reference :: string
  aggregate_versions :: "aggregate_version list"
  rg_nodes :: "resource_node list"
  rg_edges :: "resource_edge list"
  rg_evidence :: "event_id list"
  built_at :: timestamp

definition aggregate_version_validate :: "aggregate_version \<Rightarrow> unit result" where
  "aggregate_version_validate v =
     (if av_schema_version v = 0 \<or> blank (aggregate v) then fails ''aggregate version is incomplete''
      else Inr ())"

definition snapshot_validate :: "resource_graph_snapshot \<Rightarrow> unit result" where
  "snapshot_validate g =
     (if rg_schema_version g = 0 \<or> blank (rg_reference g) \<or> aggregate_versions g = []
         \<or> (\<exists>v\<in>set (aggregate_versions g). \<not> is_ok (aggregate_version_validate v))
      then fails ''resource graph snapshot is incomplete'' else Inr ())"

text \<open>The rank of a score fits an \<open>i64\<close>, so the subtraction of the code does not overflow.\<close>

lemma score_rank_bounds: "- 68719476736 < score_rank s \<and> score_rank s < 17179869184"
proof -
  have top: "uint w < 4294967296" for w :: u32
    using unsigned_less [of w, where ?'a = int] by simp
  show ?thesis
    using top [of "passed s"] top [of "failed s"] top [of "unverifiable s"]
      uint_nonnegative [of "passed s"] uint_nonnegative [of "failed s"] uint_nonnegative [of "unverifiable s"]
    unfolding score_rank_def by linarith
qed

subsection \<open>Goals, contracts and frames\<close>

record goal =
  go_schema_version :: schema_version
  go_reference :: string
  summary :: string

record goal_input =
  gi_schema_version :: schema_version
  gi_goal :: goal
  gi_constraints :: "string list"

definition goal_input_new :: "string \<Rightarrow> string \<Rightarrow> goal_input" where
  "goal_input_new reference text =
     \<lparr>gi_schema_version = 1,
      gi_goal = \<lparr>go_schema_version = 1, go_reference = reference, summary = text\<rparr>,
      gi_constraints = []\<rparr>"

record fact =
  fa_schema_version :: schema_version
  fa_reference :: string
  fa_statement :: string

record gap =
  ga_schema_version :: schema_version
  ga_reference :: string
  ga_statement :: string
  blocking :: bool

record situation_model =
  si_schema_version :: schema_version
  known :: "fact list"
  missing :: "gap list"

record workspace_snapshot =
  ws_schema_version :: schema_version
  ws_reference :: string
  ws_event_refs :: "event_id list"

datatype evidence_selector = FinalOutput | ActionResult | EventSegment | FileState

datatype done_predicate = Exists | Equals string | Contains string | EventKindSeen string

record tolerance =
  to_schema_version :: schema_version
  allowed_deviation :: u64

record done_criterion =
  dc_schema_version :: schema_version
  dc_evidence :: evidence_selector
  dc_predicate :: done_predicate
  dc_tolerance :: "tolerance option"

datatype stop_condition =
    AllCriteriaSatisfied | BudgetExhausted | PolicyDenied | OwnerCancelled | StopUnverifiable string

record done_contract =
  do_schema_version :: schema_version
  do_reference :: string
  criteria :: "done_criterion list"
  stop_conditions :: "stop_condition list"

definition done_final_output :: "string \<Rightarrow> done_contract" where
  "done_final_output reference =
     \<lparr>do_schema_version = 1, do_reference = reference,
      criteria = [\<lparr>dc_schema_version = 1, dc_evidence = FinalOutput, dc_predicate = Exists, dc_tolerance = None\<rparr>],
      stop_conditions = [AllCriteriaSatisfied, BudgetExhausted, PolicyDenied, OwnerCancelled]\<rparr>"

definition is_verifiable :: "done_contract \<Rightarrow> bool" where
  "is_verifiable c \<longleftrightarrow> criteria c \<noteq> [] \<and> AllCriteriaSatisfied \<in> set (stop_conditions c)"

record subagent_profile =
  sp_schema_version :: schema_version
  sp_role :: string
  sp_toolset :: toolset
  sp_model :: string
  sp_permission :: scope
  sp_budget :: string

record resource_inventory =
  ri_schema_version :: schema_version
  ri_tools :: "capability_ref list"
  ri_skills :: "capability_ref list"
  ri_mcp :: "capability_ref list"
  subagents :: "subagent_profile list"
  trusted :: "capability_ref set"

definition inventory_empty :: resource_inventory where
  "inventory_empty =
     \<lparr>ri_schema_version = 1, ri_tools = [], ri_skills = [], ri_mcp = [], subagents = [], trusted = {}\<rparr>"

definition trusted_capabilities :: "resource_inventory \<Rightarrow> capability_ref list" where
  "trusted_capabilities ri = filter (\<lambda>c. c \<in> trusted ri) (ri_tools ri @ ri_skills ri @ ri_mcp ri)"

record decision_refs =
  dr_map :: "string option"
  dr_user :: "string option"
  dr_agent_self :: "string option"
  dr_trust :: "string option"
  dr_failure :: "string list"

record resource_plan =
  rp_schema_version :: schema_version
  rp_reference :: string
  selected :: "capability_ref list"
  rp_rationale :: string

record decision_trace =
  dt_schema_version :: schema_version
  dt_reference :: string
  dt_refs :: decision_refs
  dt_rationale :: string
  dt_workspace_snapshot :: string
  dt_resource_graph_snapshot :: "string option"

record coordination_context =
  cc_schema_version :: schema_version
  situation :: situation_model
  inventory :: resource_inventory
  cc_done_contract :: done_contract
  cc_autonomy_envelope :: autonomy_envelope
  cc_decision_refs :: decision_refs
  cc_workspace_snapshot :: workspace_snapshot
  resource_graph :: "resource_graph_snapshot option"
  resource_required :: bool

record goal_frame =
  gf_schema_version :: schema_version
  gf_reference :: string
  gf_goal :: goal
  gf_constraints :: "string list"
  gf_context :: coordination_context

subsection \<open>The rule-based reasoner\<close>

definition frame :: "goal_input \<Rightarrow> coordination_context \<Rightarrow> goal_frame" where
  "frame g ctx =
     \<lparr>gf_schema_version = gi_schema_version g, gf_reference = ''goal-frame:'' @ go_reference (gi_goal g),
      gf_goal = gi_goal g, gf_constraints = gi_constraints g, gf_context = ctx\<rparr>"

definition validate_frame :: "goal_frame \<Rightarrow> unit result" where
  "validate_frame f =
     and_then (ensure (\<not> (gf_schema_version f = 0 \<or> go_schema_version (gf_goal f) = 0
         \<or> blank (go_reference (gf_goal f)) \<or> blank (summary (gf_goal f))))
       ''goal_framing_failure: goal identity and summary are required'') (\<lambda>_.
     and_then (ensure (\<not> (\<exists>g\<in>set (missing (situation (gf_context f))). blocking g))
       ''goal_framing_failure: a blocking information gap remains'') (\<lambda>_.
     and_then (ensure (is_verifiable (cc_done_contract (gf_context f)))
       ''goal_framing_failure: DoneContract has no executable completion criterion'') (\<lambda>_.
     ensure (\<not> blank (ws_reference (cc_workspace_snapshot (gf_context f))))
       ''context_failure: DecisionTrace requires an AgentWorkspace snapshot'')))"

definition resource_rank :: "resource_graph_snapshot \<Rightarrow> capability_ref \<Rightarrow> int" where
  "resource_rank g c =
     (case map (\<lambda>n. score_rank (score n)) (filter (\<lambda>n. resource n = c) (rg_nodes g)) of
        [] \<Rightarrow> 0
      | r # rs \<Rightarrow> fold max rs r)"

text \<open>\<open>sort_by\<close> is stable; its comparator is the lexicographic order on descending rank, then name.\<close>

definition select_resources :: "goal_frame \<Rightarrow> capability_ref list" where
  "select_resources f =
     (let chosen = trusted_capabilities (inventory (gf_context f)) in
      case resource_graph (gf_context f) of
        None \<Rightarrow> chosen
      | Some g \<Rightarrow> sort_key (\<lambda>c. (- resource_rank g c, c)) chosen)"

definition plan ::
  "goal_frame \<Rightarrow> (resource_plan \<times> done_contract \<times> autonomy_envelope \<times> decision_trace) result" where
  "plan f =
     and_then (validate_frame f) (\<lambda>_.
     let chosen = select_resources f; ctx = gf_context f; ref = go_reference (gf_goal f) in
     and_then (ensure (\<not> (resource_required ctx \<and> chosen = []))
       ''resource_selection_failure: no trusted resource satisfies the goal'') (\<lambda>_.
     let text = (if chosen = [] then ''the model can handle this goal without an external resource''
                 else ''selected trusted resources: '' @ join_with '', '' chosen) in
     Inr (\<lparr>rp_schema_version = 1, rp_reference = ''resource-plan:'' @ ref, selected = chosen, rp_rationale = text\<rparr>,
          cc_done_contract ctx,
          cc_autonomy_envelope ctx,
          \<lparr>dt_schema_version = 1, dt_reference = ''decision-trace:'' @ ref, dt_refs = cc_decision_refs ctx,
           dt_rationale = ''goal was framed with '' @ show_nat (length (gf_constraints f))
             @ '' constraint(s); '' @ text,
           dt_workspace_snapshot = ws_reference (cc_workspace_snapshot ctx),
           dt_resource_graph_snapshot = map_option rg_reference (resource_graph ctx)\<rparr>)))"

lemma validate_frame_ok:
  "validate_frame f = Inr u \<longleftrightarrow>
     gf_schema_version f \<noteq> 0 \<and> go_schema_version (gf_goal f) \<noteq> 0 \<and> \<not> blank (go_reference (gf_goal f))
     \<and> \<not> blank (summary (gf_goal f)) \<and> (\<forall>g\<in>set (missing (situation (gf_context f))). \<not> blocking g)
     \<and> is_verifiable (cc_done_contract (gf_context f))
     \<and> \<not> blank (ws_reference (cc_workspace_snapshot (gf_context f)))"
  by (auto simp: validate_frame_def and_then_Inr_iff)

lemma select_resources_set:
  "set (select_resources f) =
     {c. c \<in> trusted (inventory (gf_context f))
       \<and> c \<in> set (ri_tools (inventory (gf_context f)) @ ri_skills (inventory (gf_context f)) @ ri_mcp (inventory (gf_context f)))}"
  by (auto simp: select_resources_def trusted_capabilities_def Let_def split: option.split)

lemma resource_rank_max:
  "n \<in> set (rg_nodes g) \<Longrightarrow> resource n = c \<Longrightarrow> score_rank (score n) \<le> resource_rank g c"
proof -
  have fold_max: "fold max rs r = Max (set (r # rs))" for r :: int and rs
    by (rule Max.set_eq_fold [symmetric])
  assume "n \<in> set (rg_nodes g)" "resource n = c"
  then have "score_rank (score n) \<in> set (map (\<lambda>n. score_rank (score n)) (filter (\<lambda>n. resource n = c) (rg_nodes g)))"
    by auto
  then show ?thesis unfolding resource_rank_def by (auto simp: fold_max simp del: set_map split: list.split)
qed


lemma select_resources_mset: "mset (select_resources f) = mset (trusted_capabilities (inventory (gf_context f)))"
  by (simp add: select_resources_def Let_def split: option.split)

lemma select_resources_sorted:
  assumes "resource_graph (gf_context f) = Some g"
  shows "sorted_wrt (\<lambda>a b. resource_rank g b < resource_rank g a
      \<or> resource_rank g b = resource_rank g a \<and> a \<le> b) (select_resources f)"
proof -
  have "sorted (map (\<lambda>c. (- resource_rank g c, c)) (select_resources f))"
    by (simp add: select_resources_def Let_def assms)
  then show ?thesis
    by (rule sorted_wrt_mono_rel [rotated, OF sorted_map [THEN iffD1]]) (auto simp: less_eq_prod_def)
qed

text \<open>Planning succeeds exactly on a valid frame for which, if the goal requires a resource, some
  inventory entry is trusted. The plan then selects exactly the trusted entries of the inventory, with
  their multiplicity, in the order of descending evidence rank (ties by name) when there is a resource
  graph; it never invents or drops a contract or an envelope, and the trace names the graph it used.\<close>

theorem plan_selects_trusted:
  "case plan f of
     Inl _ \<Rightarrow> validate_frame f \<noteq> Inr ()
       \<or> resource_required (gf_context f) \<and> trusted_capabilities (inventory (gf_context f)) = []
   | Inr (rp, contract, env, trace) \<Rightarrow>
       validate_frame f = Inr ()
       \<and> \<not> (resource_required (gf_context f) \<and> selected rp = [])
       \<and> mset (selected rp) = mset (trusted_capabilities (inventory (gf_context f)))
       \<and> (case resource_graph (gf_context f) of
            None \<Rightarrow> selected rp = trusted_capabilities (inventory (gf_context f))
          | Some g \<Rightarrow> sorted_wrt (\<lambda>a b. resource_rank g b < resource_rank g a
                \<or> resource_rank g b = resource_rank g a \<and> a \<le> b) (selected rp))
       \<and> contract = cc_done_contract (gf_context f) \<and> env = cc_autonomy_envelope (gf_context f)
       \<and> dt_resource_graph_snapshot trace = map_option rg_reference (resource_graph (gf_context f))"
proof (cases "validate_frame f")
  case (Inl e)
  then show ?thesis by (simp add: plan_def)
next
  case (Inr u)
  have empty: "select_resources f = [] \<longleftrightarrow> trusted_capabilities (inventory (gf_context f)) = []"
    using select_resources_mset [of f] by (metis mset_zero_iff)
  have none: "resource_graph (gf_context f) = None \<Longrightarrow>
      select_resources f = trusted_capabilities (inventory (gf_context f))"
    by (simp add: select_resources_def Let_def)
  show ?thesis
  proof (cases "resource_required (gf_context f) \<and> select_resources f = []")
    case True
    then show ?thesis using Inr empty by (simp add: plan_def Let_def fails_def)
  next
    case False
    then have "ensure (\<not> (resource_required (gf_context f) \<and> select_resources f = []))
        ''resource_selection_failure: no trusted resource satisfies the goal'' = Inr ()"
      by simp
    with Inr False none select_resources_mset [of f] select_resources_sorted [of f] show ?thesis
      unfolding plan_def Let_def by (simp split: option.split)
  qed
qed

subsection \<open>Orchestration patterns\<close>

datatype decomposability = Whole | Parallel | Sequential | Iterative
datatype dependency_shape = Independent | Interdependent
datatype verifiability = SelfCheck | IndependentReview | Environment
datatype goal_clarity = Clear | Clarify | Explore
datatype task_scale = SingleTask | MultiStage | LongRunning
datatype reversibility = LowRiskReversible | HighRiskIrreversible

text \<open>A \<open>Confidence\<close> is a float that this component only copies; the seed value one half is exact.\<close>

type_synonym confidence = rat

record applicability_signature =
  as_schema_version :: schema_version
  decomposability :: decomposability
  dependency :: dependency_shape
  verifiability :: verifiability
  clarity :: goal_clarity
  scale :: task_scale
  reversibility :: reversibility
  case_anchors :: "string list"
  as_fitness :: confidence

datatype route_topology = Direct | IndependentSlices | ReviewGate

record work_pattern =
  wp_schema_version :: schema_version
  wp_name :: string
  topology :: route_topology

record orchestration_pattern =
  pt_schema_version :: schema_version
  pt_reference :: string
  spec :: work_pattern
  signature :: applicability_signature
  pt_fitness :: confidence

definition seed_pattern ::
  "string \<Rightarrow> route_topology \<Rightarrow> decomposability \<Rightarrow> dependency_shape \<Rightarrow> verifiability \<Rightarrow> task_scale
    \<Rightarrow> orchestration_pattern" where
  "seed_pattern n t d dep v sc =
     \<lparr>pt_schema_version = 1, pt_reference = ''pattern:'' @ n,
      spec = \<lparr>wp_schema_version = 1, wp_name = n, topology = t\<rparr>,
      signature = \<lparr>as_schema_version = 1, decomposability = d, dependency = dep, verifiability = v,
        clarity = Clear, scale = sc, reversibility = LowRiskReversible, case_anchors = [], as_fitness = 1 / 2\<rparr>,
      pt_fitness = 1 / 2\<rparr>"

definition seed_patterns :: "orchestration_pattern list" where
  "seed_patterns =
     [seed_pattern ''direct'' Direct Whole Independent SelfCheck SingleTask,
      seed_pattern ''independent-slices'' IndependentSlices Parallel Independent Environment MultiStage,
      seed_pattern ''review-gate'' ReviewGate Sequential Interdependent IndependentReview MultiStage]"

definition seed_threshold :: u8 where "seed_threshold = 4"

definition signature_score :: "applicability_signature \<Rightarrow> applicability_signature \<Rightarrow> u8" where
  "signature_score l r =
     of_bool (decomposability l = decomposability r) + of_bool (dependency l = dependency r)
     + of_bool (verifiability l = verifiability r) + of_bool (clarity l = clarity r)
     + of_bool (scale l = scale r) + of_bool (reversibility l = reversibility r)"

text \<open>\<open>max_by_key\<close> keeps the later of two equal elements.\<close>

definition max_by_key :: "('a \<Rightarrow> 'b::linorder) \<Rightarrow> 'a list \<Rightarrow> 'a option" where
  "max_by_key k xs =
     fold (\<lambda>x best. case best of None \<Rightarrow> Some x | Some b \<Rightarrow> if k b \<le> k x then Some x else Some b) xs None"

definition match_pattern ::
  "orchestration_pattern list \<Rightarrow> u8 \<Rightarrow> applicability_signature \<Rightarrow> orchestration_pattern option" where
  "match_pattern patterns threshold sig =
     map_option snd (max_by_key fst
       (filter (\<lambda>(s, _). s \<ge> threshold) (map (\<lambda>p. (signature_score sig (signature p), p)) patterns)))"

lemma max_by_key_snoc:
  "max_by_key k (xs @ [x]) =
     (case max_by_key k xs of None \<Rightarrow> Some x | Some b \<Rightarrow> if k b \<le> k x then Some x else Some b)"
  by (simp add: max_by_key_def)

lemma max_by_key_None [simp]: "max_by_key k xs = None \<longleftrightarrow> xs = []"
  by (induction xs rule: rev_induct) (auto simp: max_by_key_snoc max_by_key_def [of _ "[]"] split: option.split)

lemma max_by_key_Nil: "max_by_key k [] = None"
  by simp

lemma max_by_key_Some:
  "max_by_key k xs = Some x \<Longrightarrow>
     \<exists>pre post. xs = pre @ x # post \<and> (\<forall>y\<in>set pre. k y \<le> k x) \<and> (\<forall>y\<in>set post. k y < k x)"
proof (induction xs arbitrary: x rule: rev_induct)
  case (snoc y ys)
  show ?case
  proof (cases "max_by_key k ys")
    case None
    then have "ys = []" by simp
    then have "x = y" using snoc.prems max_by_key_snoc [of k "[]" y] by (simp add: max_by_key_Nil del: max_by_key_None)
    with \<open>ys = []\<close> show ?thesis
      by (intro exI [of _ "[]"]) simp
  next
    case (Some b)
    then obtain pre post where b: "ys = pre @ b # post" "\<forall>y\<in>set pre. k y \<le> k b" "\<forall>y\<in>set post. k y < k b"
      using snoc.IH by blast
    show ?thesis
    proof (cases "k b \<le> k y")
      case True
      then have "x = y" using snoc.prems Some by (simp add: max_by_key_snoc)
      then show ?thesis
        by (intro exI [of _ ys] exI [of _ "[]"]) (use b True in \<open>auto intro: order_trans less_imp_le\<close>)
    next
      case False
      then have "x = b" using snoc.prems Some by (simp add: max_by_key_snoc)
      then show ?thesis
        by (intro exI [of _ pre] exI [of _ "post @ [y]"]) (use b False in auto)
    qed
  qed
qed (simp add: max_by_key_def)


lemma filter_append_split:
  "filter P xs = ys @ zs \<Longrightarrow> \<exists>us vs. xs = us @ vs \<and> filter P us = ys \<and> filter P vs = zs"
proof (induction xs arbitrary: ys)
  case (Cons x xs)
  show ?case
  proof (cases "P x \<and> ys \<noteq> []")
    case True
    then obtain ys' where "ys = x # ys'" "filter P xs = ys' @ zs" using Cons.prems by (cases ys) auto
    then obtain us vs where "xs = us @ vs" "filter P us = ys'" "filter P vs = zs" using Cons.IH by blast
    with True \<open>ys = x # ys'\<close> show ?thesis by (intro exI [of _ "x # us"] exI [of _ vs]) simp
  next
    case False
    show ?thesis
    proof (cases "ys = []")
      case True
      with Cons.prems show ?thesis by (intro exI [of _ "[]"] exI [of _ "x # xs"]) simp
    next
      case nonempty: False
      with False have "\<not> P x" by simp
      then obtain us vs where "xs = us @ vs" "filter P us = ys" "filter P vs = zs"
        using Cons.prems Cons.IH by auto
      with \<open>\<not> P x\<close> show ?thesis by (intro exI [of _ "x # us"] exI [of _ vs]) simp
    qed
  qed
qed simp

lemma map_split:
  "map f ys = pre @ x # post \<Longrightarrow>
    \<exists>us p vs. ys = us @ p # vs \<and> pre = map f us \<and> x = f p \<and> post = map f vs"
  by (auto simp: map_eq_append_conv map_eq_Cons_conv)

lemma filter_best:
  fixes f :: "'a \<Rightarrow> 'b::linorder"
  assumes split: "filter (\<lambda>q. t \<le> f q) ps = pre @ p # post"
    and pre: "\<forall>q\<in>set pre. f q \<le> f p" and post: "\<forall>q\<in>set post. f q < f p"
  shows "\<exists>pre post. ps = pre @ p # post \<and> (\<forall>q\<in>set pre. f q \<le> f p) \<and> (\<forall>q\<in>set post. f q < f p)"
proof -
  obtain us vs where uv: "ps = us @ vs" "filter (\<lambda>q. t \<le> f q) us = pre" "filter (\<lambda>q. t \<le> f q) vs = p # post"
    using filter_append_split [OF split] by blast
  obtain ws zs where wz: "vs = ws @ p # zs" "\<forall>q\<in>set ws. \<not> t \<le> f q" "t \<le> f p"
      "post = filter (\<lambda>q. t \<le> f q) zs"
    using uv(3) [unfolded filter_eq_Cons_iff] by blast
  have early: "f q \<le> f p" if "q \<in> set (us @ ws)" for q
  proof (cases "t \<le> f q")
    case True
    then have "q \<in> set us" using that wz(2) by auto
    then show ?thesis using True uv(2) pre by auto
  next
    case False
    then show ?thesis using wz(3) by simp
  qed
  have late: "f q < f p" if "q \<in> set zs" for q
    using that wz(3,4) post by (cases "t \<le> f q") auto
  show ?thesis
    by (intro exI [of _ "us @ ws"] exI [of _ zs] conjI) (use uv(1) wz(1) early late in auto)
qed

text \<open>The seed library returns a pattern exactly when some pattern of its list reaches the
  threshold; the pattern returned is one of the list, reaches the threshold, and scores at least as
  high as every pattern and strictly higher than every later one.\<close>

theorem match_pattern_best:
  "case match_pattern patterns threshold sig of
     None \<Rightarrow> \<forall>p\<in>set patterns. signature_score sig (signature p) < threshold
   | Some p \<Rightarrow> threshold \<le> signature_score sig (signature p)
       \<and> (\<exists>pre post. patterns = pre @ p # post
            \<and> (\<forall>q\<in>set pre. signature_score sig (signature q) \<le> signature_score sig (signature p))
            \<and> (\<forall>q\<in>set post. signature_score sig (signature q) < signature_score sig (signature p)))"
proof -
  let ?sc = "\<lambda>p. signature_score sig (signature p)"
  let ?xs = "filter (\<lambda>(s, _). s \<ge> threshold) (map (\<lambda>p. (?sc p, p)) patterns)"
  have xs: "?xs = map (\<lambda>p. (?sc p, p)) (filter (\<lambda>p. threshold \<le> ?sc p) patterns)"
    by (simp add: filter_map comp_def)
  show ?thesis
  proof (cases "max_by_key fst ?xs")
    case None
    then have "\<forall>p\<in>set patterns. \<not> threshold \<le> ?sc p" unfolding xs by (simp add: filter_empty_conv)
    moreover have "match_pattern patterns threshold sig = None"
      unfolding match_pattern_def None by simp
    ultimately show ?thesis by (simp add: not_le)
  next
    case (Some x)
    then obtain pre post where x: "?xs = pre @ x # post" "\<forall>y\<in>set pre. fst y \<le> fst x"
        "\<forall>y\<in>set post. fst y < fst x"
      using max_by_key_Some [OF Some] by (elim exE conjE) (rule that, assumption+)
    obtain us p vs where p: "filter (\<lambda>p. threshold \<le> ?sc p) patterns = us @ p # vs"
        "pre = map (\<lambda>p. (?sc p, p)) us" "x = (?sc p, p)" "post = map (\<lambda>p. (?sc p, p)) vs"
      using map_split [OF x(1) [unfolded xs]] by (elim exE conjE) (rule that, assumption+)
    have "p \<in> set (filter (\<lambda>p. threshold \<le> ?sc p) patterns)" unfolding p(1) by simp
    then have "threshold \<le> ?sc p" by simp
    moreover have "\<exists>pre post. patterns = pre @ p # post \<and> (\<forall>q\<in>set pre. ?sc q \<le> ?sc p)
        \<and> (\<forall>q\<in>set post. ?sc q < ?sc p)"
      by (rule filter_best [OF p(1)]) (use x(2,3) p(2,3,4) in auto)
    ultimately show ?thesis using Some p(3) by (simp add: match_pattern_def)
  qed
qed


lemma match_pattern_best_witness:
  "match_pattern seed_patterns seed_threshold (signature (seed_patterns ! 2)) \<noteq> None"
proof
  assume none: "match_pattern seed_patterns seed_threshold (signature (seed_patterns ! 2)) = None"
  have "signature_score (signature (seed_patterns ! 2)) (signature (seed_patterns ! 2)) = 6"
    by (simp add: signature_score_def)
  moreover have "seed_patterns ! 2 \<in> set seed_patterns" by (simp add: seed_patterns_def)
  ultimately show False
    using match_pattern_best [where patterns = seed_patterns and threshold = seed_threshold
        and sig = "signature (seed_patterns ! 2)"] none
    by (auto simp: seed_threshold_def)
qed

subsection \<open>Routes\<close>

record subtask =
  st_schema_version :: schema_version
  st_id :: string
  instruction :: string
  st_intent_id :: action_id

record retry_policy =
  rt_schema_version :: schema_version
  max_attempts :: u32

record route_node =
  no_schema_version :: schema_version
  subtask :: subtask
  role :: subagent_profile
  resource_slice :: toolset
  done_when :: done_contract
  retry_policy :: retry_policy

datatype dependency_failure_policy = AbortRoute | Continue | Replan

record route_edge =
  ed_schema_version :: schema_version
  edge_from :: string
  edge_to :: string
  on_failure :: dependency_failure_policy

record execution_route =
  er_schema_version :: schema_version
  er_reference :: string
  pattern_ref :: "string option"
  nodes :: "route_node list"
  edges :: "route_edge list"

abbreviation node_id :: "route_node \<Rightarrow> string" where
  "node_id n \<equiv> st_id (subtask n)"

definition seed_node :: "goal_frame \<Rightarrow> nat \<times> subagent_profile \<Rightarrow> route_node" where
  "seed_node f = (\<lambda>(i, profile).
     \<lparr>no_schema_version = 1,
      subtask = \<lparr>st_schema_version = 1, st_id = ''node-'' @ show_nat i, instruction = summary (gf_goal f),
        st_intent_id = ''route:'' @ go_reference (gf_goal f) @ '':'' @ show_nat i\<rparr>,
      role = profile, resource_slice = sp_toolset profile,
      done_when = cc_done_contract (gf_context f),
      retry_policy = \<lparr>rt_schema_version = 1, max_attempts = 1\<rparr>\<rparr>)"

definition route :: "orchestration_pattern option \<Rightarrow> goal_frame \<Rightarrow> execution_route" where
  "route pattern f =
     (let top = (case pattern of None \<Rightarrow> Direct | Some p \<Rightarrow> topology (spec p));
          profiles = subagents (inventory (gf_context f));
          keep = (case top of Direct \<Rightarrow> 0 | IndependentSlices \<Rightarrow> length profiles | ReviewGate \<Rightarrow> min (length profiles) 2);
          ns = map (seed_node f) (List.enumerate 0 (take keep profiles)) in
      \<lparr>er_schema_version = 1, er_reference = ''route:'' @ go_reference (gf_goal f),
       pattern_ref = map_option pt_reference pattern, nodes = ns,
       edges = (if top = ReviewGate \<and> length ns = 2
         then [\<lparr>ed_schema_version = 1, edge_from = node_id (ns ! 0), edge_to = node_id (ns ! 1), on_failure = AbortRoute\<rparr>]
         else [])\<rparr>)"

definition parse_budget_units :: "string \<Rightarrow> u64 result" where
  "parse_budget_units budget =
     (let raw = trim budget; raw = (case strip_prefix ''units:'' raw of None \<Rightarrow> raw | Some rest \<Rightarrow> rest) in
      ok_or (parse_u64 raw) ''subagent budget must be an integer or units:<integer>'')"

definition budget_units :: "subagent_profile \<Rightarrow> u64 result" where
  "budget_units profile = parse_budget_units (sp_budget profile)"

definition capability_refs :: "toolset \<Rightarrow> capability_ref list" where
  "capability_refs ts = map ti_id (items ts)"


lemma trim_show_nat: "trim (show_nat n) = show_nat n"
proof -
  have digits: "33 \<le> byte c \<and> byte c < 127" if "c \<in> set (show_nat n)" for c
    using that show_nat_digits [of n] by fastforce
  obtain xs d where d: "show_nat n = xs @ [d]"
    using show_nat_digits [of n] by (cases "show_nat n" rule: rev_cases) auto
  show ?thesis
  proof (cases xs)
    case Nil
    then have "show_nat n = [d]" "33 \<le> byte d \<and> byte d < 127" using d digits by simp_all
    then show ?thesis
      using ws_end_len_snoc [of d "[]"] by (auto simp: trim_def trim_start_no_ws trim_end_no_ws ws_len_def)
  next
    case (Cons c ys)
    then show ?thesis using d digits trim_visible [of c d ys] by simp
  qed
qed

lemma trim_units: "trim (''units:'' @ show_nat n) = ''units:'' @ show_nat n"
proof -
  obtain xs d where d: "show_nat n = xs @ [d]"
    using show_nat_digits [of n] by (cases "show_nat n" rule: rev_cases) auto
  then have "33 \<le> byte d \<and> byte d < 127" using show_nat_digits [of n] by fastforce
  then show ?thesis using trim_visible [of "CHR ''u''" d "''nits:'' @ xs"] d by simp
qed

lemma parse_plain_budget: "n < 2 ^ 64 \<Longrightarrow> parse_budget_units (show_nat n) = Inr (of_nat n)"
proof -
  assume n: "n < 2 ^ 64"
  obtain c cs where c: "show_nat n = c # cs" "byte c \<le> 57"
    using show_nat_digits [of n] by (cases "show_nat n") auto
  have "c \<noteq> CHR ''u''" using c(2) by auto
  then have "strip_prefix ''units:'' (show_nat n) = None" unfolding c(1) by simp
  then show ?thesis
    by (simp add: parse_budget_units_def trim_show_nat parse_u64_show_nat [OF n])
qed

lemma parse_tagged_budget: "n < 2 ^ 64 \<Longrightarrow> parse_budget_units (''units:'' @ show_nat n) = Inr (of_nat n)"
proof -
  assume n: "n < 2 ^ 64"
  have "strip_prefix ''units:'' (''units:'' @ show_nat n) = Some (show_nat n)"
    by (simp only: strip_prefix_Some)
  then show ?thesis
    unfolding parse_budget_units_def Let_def trim_units by (simp add: parse_u64_show_nat [OF n])
qed

text \<open>A subagent budget written as a plain decimal or as \<open>units:\<close> and a decimal is read back as that
  number, for every number an unsigned 64-bit integer holds.\<close>

theorem budget_roundtrip:
  assumes "n < 2 ^ 64"
  shows "parse_budget_units (show_nat n) = Inr (of_nat n)
    \<and> parse_budget_units (''units:'' @ show_nat n) = Inr (of_nat n)"
  using assms by (simp add: parse_plain_budget parse_tagged_budget del: append.simps)

lemma budget_roundtrip_witness: "parse_budget_units (''units:'' @ show_nat 42) = Inr 42"
  using budget_roundtrip [of 42] by simp

end
