(* ===== verification/Route_Graph.thy ===== *)
theory Route_Graph
  imports Coordination
begin

text \<open>
  The check of an execution route (\<open>validate_route\<close> in \<open>crates/coordination/src/lib.rs\<close>): identifiers,
  edges, and acyclicity by Kahn's algorithm. The specification is that of the relation the edges span:
  the algorithm visits every node exactly when that relation is acyclic. The decrement of an
  in-degree is written with its underflow (\<open>None\<close> is the panic of \<open>*degree -= 1\<close> at zero), and the
  proof shows that it never happens. The loop needs no fuel: each round removes a queue entry, and an
  entry is added only when an in-degree drops to zero, so the length of the queue plus the sum of the
  in-degrees decreases.
\<close>

subsection \<open>Kahn's algorithm\<close>

definition zero_degrees :: "execution_route \<Rightarrow> (string, nat) btree_map" where
  "zero_degrees r = bm_collect (map (\<lambda>n. (node_id n, 0)) (nodes r))"

definition degree_of :: "(string, nat) btree_map \<Rightarrow> string \<Rightarrow> nat" where
  "degree_of m v = (case bm_get m v of None \<Rightarrow> 0 | Some d \<Rightarrow> d)"

definition count_edge :: "route_edge \<Rightarrow> (string, nat) btree_map \<Rightarrow> (string, nat) btree_map" where
  "count_edge e m = bm_insert (edge_to e) (degree_of m (edge_to e) + 1) m"

definition indegrees :: "execution_route \<Rightarrow> (string, nat) btree_map" where
  "indegrees r = fold count_edge (edges r) (zero_degrees r)"

text \<open>One visit: the new in-degrees and the nodes pushed, in order.\<close>

fun relax ::
  "string \<Rightarrow> route_edge list \<Rightarrow> (string, nat) btree_map \<Rightarrow> ((string, nat) btree_map \<times> string list) option" where
  "relax v [] m = Some (m, [])"
| "relax v (e # es) m =
     (if edge_from e \<noteq> v then relax v es m
      else case bm_get m (edge_to e) of
          None \<Rightarrow> relax v es m
        | Some 0 \<Rightarrow> None
        | Some (Suc d) \<Rightarrow>
            map_option (\<lambda>(m', pushed). (m', if d = 0 then edge_to e # pushed else pushed))
              (relax v es (bm_insert (edge_to e) d m)))"

definition degree_sum :: "(string, nat) btree_map \<Rightarrow> nat" where
  "degree_sum m = (\<Sum>v\<in>set (bm_keys m). degree_of m v)"

lemma degree_of_insert [simp]: "degree_of (bm_insert k d m) v = (if v = k then d else degree_of m v)"
  by (simp add: degree_of_def)

lemma bm_get_key: "bm_get m k = Some v \<Longrightarrow> k \<in> set (bm_keys m)"
  by (force simp: bm_get_def bm_keys_def dest: map_of_SomeD)

lemma degree_sum_decrement:
  assumes "bm_get m k = Some (Suc d)"
  shows "Suc (degree_sum (bm_insert k d m)) = degree_sum m"
proof -
  have k: "k \<in> set (bm_keys m)" using assms by (rule bm_get_key)
  then have keys: "set (bm_keys (bm_insert k d m)) = set (bm_keys m)" by (auto simp: bm_keys_insert)
  have "(\<Sum>v\<in>set (bm_keys m) - {k}. degree_of (bm_insert k d m) v) = (\<Sum>v\<in>set (bm_keys m) - {k}. degree_of m v)"
    by (rule sum.cong) auto
  moreover have "degree_of m k = Suc d" using assms by (simp add: degree_of_def)
  ultimately show ?thesis
    using k unfolding degree_sum_def keys by (simp add: sum.remove [of _ k])
qed

lemma relax_measure: "relax v es m = Some (m', pushed) \<Longrightarrow> degree_sum m' + length pushed \<le> degree_sum m"
proof (induction v es m arbitrary: m' pushed rule: relax.induct)
  case (2 v e es m)
  show ?case
  proof (cases "edge_from e = v \<and> (\<exists>d. bm_get m (edge_to e) = Some (Suc d))")
    case True
    then obtain d where d: "edge_from e = v" "bm_get m (edge_to e) = Some (Suc d)" by blast
    then obtain rest where rest: "relax v es (bm_insert (edge_to e) d m) = Some (m', rest)"
        "length pushed \<le> Suc (length rest)"
      using 2(4) by (auto split: if_splits)
    then have "degree_sum m' + length rest \<le> degree_sum (bm_insert (edge_to e) d m)"
      using 2(3) d by simp
    then show ?thesis using rest(2) degree_sum_decrement [OF d(2)] by linarith
  next
    case False
    then have "relax v es m = Some (m', pushed)"
      using 2(4) by (auto split: if_splits option.splits nat.splits)
    then show ?thesis
      using 2(1,2) False 2(4) by (auto split: if_splits option.splits nat.splits)
  qed
qed simp

function kahn :: "route_edge list \<Rightarrow> (string, nat) btree_map \<Rightarrow> string list \<Rightarrow> nat \<Rightarrow> nat option" where
  "kahn es m [] visited = Some visited"
| "kahn es m (v # queue) visited =
     (case relax v es m of
        None \<Rightarrow> None
      | Some (m', pushed) \<Rightarrow> kahn es m' (queue @ pushed) (Suc visited))"
  by pat_completeness auto

termination
  by (relation "measure (\<lambda>(es, m, queue, visited). degree_sum m + length queue)")
     (auto dest: relax_measure)

definition visited_nodes :: "execution_route \<Rightarrow> nat option" where
  "visited_nodes r =
     kahn (edges r) (indegrees r) (map fst (filter (\<lambda>(_, d). d = 0) (indegrees r))) 0"

definition route_ids :: "execution_route \<Rightarrow> string set" where
  "route_ids r = set (map node_id (nodes r))"

text \<open>The checks in the order of the code; \<open>None\<close> is the underflow panic.\<close>

definition validate_route_checked :: "execution_route \<Rightarrow> unit result option" where
  "validate_route_checked r =
     (if er_schema_version r = 0 \<or> blank (er_reference r)
      then Some (fails ''execution route is incomplete'')
      else if card (route_ids r) \<noteq> length (nodes r)
        \<or> (\<exists>n\<in>set (nodes r). blank (node_id n) \<or> \<not> is_verifiable (done_when n))
      then Some (fails ''execution route contains duplicate or incomplete nodes'')
      else if \<exists>e\<in>set (edges r). edge_from e \<notin> route_ids r \<or> edge_to e \<notin> route_ids r \<or> edge_from e = edge_to e
      then Some (fails ''execution route contains an invalid edge'')
      else map_option (\<lambda>n. if n \<noteq> card (route_ids r) then fails ''execution route must be acyclic'' else Inr ())
        (visited_nodes r))"

subsection \<open>The visit of one node\<close>

definition edges_between :: "route_edge list \<Rightarrow> string \<Rightarrow> string \<Rightarrow> nat" where
  "edges_between es u v = length (filter (\<lambda>e. edge_from e = u \<and> edge_to e = v) es)"

lemma edges_between_simps [simp]:
  "edges_between [] u v = 0"
  "edges_between (e # es) u v = (if edge_from e = u \<and> edge_to e = v then Suc (edges_between es u v) else edges_between es u v)"
  by (simp_all add: edges_between_def)

text \<open>
  With enough in-degree everywhere a visit does not underflow, subtracts the edges of the visited node,
  and pushes exactly the nodes whose in-degree it brings to zero, once each.
\<close>

lemma relax_correct:
  assumes "\<forall>v. edges_between es u v \<le> degree_of m v"
    and "\<forall>e\<in>set es. edge_to e \<in> set (bm_keys m)"
  shows "\<exists>m' pushed. relax u es m = Some (m', pushed)
    \<and> set (bm_keys m') = set (bm_keys m)
    \<and> (\<forall>v. degree_of m' v = degree_of m v - edges_between es u v)
    \<and> distinct pushed
    \<and> set pushed = {v. 0 < edges_between es u v \<and> degree_of m v = edges_between es u v}"
  using assms
proof (induction es arbitrary: m)
  case (Cons e es)
  show ?case
  proof (cases "edge_from e = u")
    case False
    have "\<forall>v. edges_between es u v \<le> degree_of m v" "\<forall>e\<in>set es. edge_to e \<in> set (bm_keys m)"
      using Cons.prems False by auto
    from Cons.IH [OF this] show ?thesis using False by simp
  next
    case True
    let ?t = "edge_to e"
    have "Suc (edges_between es u ?t) \<le> degree_of m ?t"
      using spec [OF Cons.prems(1), of ?t] True by simp
    then obtain d where d: "bm_get m ?t = Some (Suc d)" "edges_between es u ?t \<le> d"
      by (auto simp: degree_of_def Suc_le_eq split: option.splits elim: less_natE)
    let ?m = "bm_insert ?t d m"
    have keys: "set (bm_keys ?m) = set (bm_keys m)"
      using bm_get_key [OF d(1)] by (auto simp: bm_keys_insert)
    have between: "edges_between (e # es) u v = (if v = ?t then Suc (edges_between es u v) else edges_between es u v)" for v
      using True by simp
    have "\<forall>v. edges_between es u v \<le> degree_of ?m v"
      using Cons.prems(1) d(2) unfolding between by (auto split: if_splits)
    moreover have "\<forall>e\<in>set es. edge_to e \<in> set (bm_keys ?m)"
      using Cons.prems(2) keys by simp
    ultimately obtain m' pushed where m': "relax u es ?m = Some (m', pushed)"
        "set (bm_keys m') = set (bm_keys ?m)" "\<forall>v. degree_of m' v = degree_of ?m v - edges_between es u v"
        "distinct pushed" "set pushed = {v. 0 < edges_between es u v \<and> degree_of ?m v = edges_between es u v}"
      using Cons.IH by blast
    have t: "degree_of m ?t = Suc d" using d(1) by (simp add: degree_of_def)
    let ?pushed = "if d = 0 then ?t # pushed else pushed"
    have "relax u (e # es) m = Some (m', ?pushed)"
      using True d(1) m'(1) by simp
    moreover have "\<forall>v. degree_of m' v = degree_of m v - edges_between (e # es) u v"
      using m'(3) t unfolding between by simp
    moreover have "distinct ?pushed"
      using m'(4,5) by auto
    moreover have "set ?pushed = {v. 0 < edges_between (e # es) u v \<and> degree_of m v = edges_between (e # es) u v}"
      unfolding between using m'(5) t d(2) by auto
    ultimately show ?thesis using m'(2) keys by blast
  qed
qed simp

subsection \<open>The algorithm\<close>

definition edge_rel :: "route_edge list \<Rightarrow> (string \<times> string) set" where
  "edge_rel es = {(edge_from e, edge_to e) | e. e \<in> set es}"

definition open_edges :: "route_edge list \<Rightarrow> string set \<Rightarrow> string \<Rightarrow> nat" where
  "open_edges es visited v = length (filter (\<lambda>e. edge_to e = v \<and> edge_from e \<notin> visited) es)"

lemma open_edges_insert:
  "u \<notin> S \<Longrightarrow> open_edges es S v = open_edges es (insert u S) v + edges_between es u v"
  by (induction es) (auto simp: open_edges_def)

lemma open_edges_zero: "open_edges es S v = 0 \<longleftrightarrow> (\<forall>u. (u, v) \<in> edge_rel es \<longrightarrow> u \<in> S)"
  by (auto simp: open_edges_def edge_rel_def filter_empty_conv)

text \<open>
  The visited nodes \<open>P\<close> in order, the queue \<open>Q\<close>: the in-degrees count the edges not yet used, the
  queue holds exactly the unvisited nodes of in-degree zero, and every predecessor of a visited node
  was visited before it.
\<close>

definition kahn_inv ::
  "string set \<Rightarrow> route_edge list \<Rightarrow> (string, nat) btree_map \<Rightarrow> string list \<Rightarrow> string list \<Rightarrow> bool" where
  "kahn_inv V es m P Q \<longleftrightarrow>
     set (bm_keys m) = V \<and> distinct (P @ Q) \<and> set (P @ Q) \<subseteq> V
     \<and> (\<forall>v. degree_of m v = open_edges es (set P) v)
     \<and> (\<forall>v\<in>V. degree_of m v = 0 \<longleftrightarrow> v \<in> set (P @ Q))
     \<and> (\<forall>i<length P. \<forall>u. (u, P ! i) \<in> edge_rel es \<longrightarrow> u \<in> set (take i P))"

lemma kahn_inv_step:
  assumes inv: "kahn_inv V es m P (v # Q)" and into: "\<forall>e\<in>set es. edge_to e \<in> V"
  obtains m' pushed where "relax v es m = Some (m', pushed)" "kahn_inv V es m' (P @ [v]) (Q @ pushed)"
proof -
  have v: "v \<notin> set P" "v \<in> V" using inv by (auto simp: kahn_inv_def)
  have open_eq: "open_edges es (set P) w = open_edges es (insert v (set P)) w + edges_between es v w" for w
    by (rule open_edges_insert [OF v(1)])
  have deg: "degree_of m w = open_edges es (set P) w" for w using inv by (simp add: kahn_inv_def)
  have "\<forall>w. edges_between es v w \<le> degree_of m w" using deg open_eq by simp
  moreover have "\<forall>e\<in>set es. edge_to e \<in> set (bm_keys m)" using inv into by (simp add: kahn_inv_def)
  ultimately obtain m' pushed where r: "relax v es m = Some (m', pushed)"
      "set (bm_keys m') = set (bm_keys m)" "\<forall>w. degree_of m' w = degree_of m w - edges_between es v w"
      "distinct pushed" "set pushed = {w. 0 < edges_between es v w \<and> degree_of m w = edges_between es v w}"
    using relax_correct by blast
  have deg': "degree_of m' w = open_edges es (insert v (set P)) w" for w
    using r(3) deg open_eq by simp
  have new: "w \<in> set pushed \<longleftrightarrow> 0 < degree_of m w \<and> degree_of m' w = 0" for w
    using r(5) deg deg' open_eq [of w] by auto
  have zero: "degree_of m w = 0 \<longleftrightarrow> w \<in> set (P @ v # Q)" if "w \<in> V" for w
    using inv that unfolding kahn_inv_def by blast
  have less: "degree_of m' w \<le> degree_of m w" for w using r(3) by simp
  have pushed_V: "w \<in> V" if "w \<in> set pushed" for w
  proof -
    have "0 < edges_between es v w" using that r(5) by simp
    then obtain e where "e \<in> set es" "edge_to e = w"
      by (auto simp: edges_between_def filter_empty_conv)
    then show ?thesis using into by blast
  qed
  have "kahn_inv V es m' (P @ [v]) (Q @ pushed)"
    unfolding kahn_inv_def
  proof (intro conjI allI impI ballI)
    show "set (bm_keys m') = V" using inv r(2) by (simp add: kahn_inv_def)
    have "w \<notin> set (P @ v # Q)" if "w \<in> set pushed" for w
      using that new zero pushed_V by (metis less_not_refl)
    then show "distinct ((P @ [v]) @ Q @ pushed)"
      using inv r(4) by (auto simp: kahn_inv_def)
    show "set ((P @ [v]) @ Q @ pushed) \<subseteq> V" using inv pushed_V by (auto simp: kahn_inv_def)
    show "degree_of m' w = open_edges es (set (P @ [v])) w" for w using deg' by simp
    show "degree_of m' w = 0 \<longleftrightarrow> w \<in> set ((P @ [v]) @ Q @ pushed)" if "w \<in> V" for w
      using zero [OF that] new [of w] less [of w] by auto
    show "u \<in> set (take i (P @ [v]))" if "i < length (P @ [v])" "(u, (P @ [v]) ! i) \<in> edge_rel es" for i u
    proof (cases "i < length P")
      case True
      then show ?thesis using that inv by (simp add: kahn_inv_def nth_append)
    next
      case False
      then have "i = length P" using that(1) by simp
      moreover have "open_edges es (set P) v = 0" using zero [OF v(2)] deg by simp
      ultimately show ?thesis using that(2) by (simp add: open_edges_zero)
    qed
  qed
  with r(1) show ?thesis by (rule that)
qed

lemma kahn_end:
  "kahn_inv V es m P Q \<Longrightarrow> \<forall>e\<in>set es. edge_to e \<in> V \<Longrightarrow>
    \<exists>m' P'. kahn es m Q (length P) = Some (length P') \<and> kahn_inv V es m' P' []"
proof (induction es m Q "length P" arbitrary: P rule: kahn.induct)
  case (1 es m)
  then show ?case by auto
next
  case (2 es m v Q)
  obtain m' pushed where r: "relax v es m = Some (m', pushed)" "kahn_inv V es m' (P @ [v]) (Q @ pushed)"
    using kahn_inv_step [OF 2(2,3)] by blast
  have "\<exists>m'' P'. kahn es m' (Q @ pushed) (length (P @ [v])) = Some (length P') \<and> kahn_inv V es m'' P' []"
    by (rule 2(1) [OF r(1) refl _ r(2) 2(3)]) simp
  then show ?case by (simp add: r(1))
qed

lemma topological_acyclic:
  assumes "\<forall>i<length P. \<forall>u. (u, P ! i) \<in> R \<longrightarrow> u \<in> set (take i P)" and "distinct P"
    and "R \<subseteq> UNIV \<times> set P"
  shows "acyclic R"
proof -
  define pos where "pos u = (LEAST i. i < length P \<and> P ! i = u)" for u
  have pos: "pos (P ! i) = i" if "i < length P" for i
    unfolding pos_def using that assms(2) by (intro Least_equality) (auto simp: nth_eq_iff_index_eq)
  have "pos u < pos v" if uv: "(u, v) \<in> R" for u v
  proof -
    have "v \<in> set P" using uv assms(3) by blast
    then obtain i where i: "i < length P" "P ! i = v" by (auto simp: in_set_conv_nth)
    then have "u \<in> set (take i P)" using uv assms(1) by blast
    then obtain j where j: "j < i" "P ! j = u" using i(1) by (auto simp: in_set_conv_nth)
    then show ?thesis using pos [of i] pos [of j] i by simp
  qed
  then have "R \<subseteq> measure pos" by auto
  then show ?thesis by (metis acyclic_subset wf_acyclic wf_measure)
qed

lemma kahn_inv_complete:
  assumes inv: "kahn_inv V es m P []" and ends: "\<forall>e\<in>set es. edge_from e \<in> V \<and> edge_to e \<in> V"
    and fin: "finite V"
  shows "length P = card V \<longleftrightarrow> acyclic (edge_rel es)"
proof
  assume "length P = card V"
  moreover have P: "distinct P" "set P \<subseteq> V" using inv by (auto simp: kahn_inv_def)
  ultimately have "set P = V"
    using fin by (metis card_subset_eq distinct_card)
  then show "acyclic (edge_rel es)"
    using inv ends by (intro topological_acyclic [of P]) (auto simp: kahn_inv_def edge_rel_def)
next
  assume acyc: "acyclic (edge_rel es)"
  have "finite (edge_rel es)" by (simp add: edge_rel_def setcompr_eq_image)
  then have wf: "wf (edge_rel es)" using acyc by (rule finite_acyclic_wf)
  have "V \<subseteq> set P"
  proof (rule ccontr)
    assume "\<not> V \<subseteq> set P"
    then obtain x where "x \<in> V - set P" by blast
    then obtain z where z: "z \<in> V - set P" "\<And>y. (y, z) \<in> edge_rel es \<Longrightarrow> y \<notin> V - set P"
      using wfE_min [OF wf] by metis
    then have "open_edges es (set P) z = 0"
      using ends by (auto simp: open_edges_zero) (auto simp: edge_rel_def)
    then show False using inv z(1) by (auto simp: kahn_inv_def)
  qed
  then show "length P = card V"
    using inv by (auto simp: kahn_inv_def simp flip: distinct_card)
qed


subsection \<open>The check as a whole\<close>

lemma count_edges_degree:
  "degree_of (fold count_edge es m) v = degree_of m v + length (filter (\<lambda>e. edge_to e = v) es)"
  by (induction es arbitrary: m) (auto simp: count_edge_def)

lemma count_edges_keys: "set (bm_keys (fold count_edge es m)) = set (bm_keys m) \<union> edge_to ` set es"
  by (induction es arbitrary: m) (auto simp: count_edge_def bm_keys_insert)

lemma count_edges_wf: "bm_wf m \<Longrightarrow> bm_wf (fold count_edge es m)"
  by (induction es arbitrary: m) (simp_all add: count_edge_def bm.wf_put)

lemma zero_degrees_degree: "degree_of (zero_degrees r) v = 0"
proof -
  have "bm_get (zero_degrees r) v = Some d \<Longrightarrow> d = 0" for d
    unfolding zero_degrees_def bm_get_collect by (auto dest!: map_of_SomeD)
  then show ?thesis by (cases "bm_get (zero_degrees r) v") (simp_all add: degree_of_def)
qed

lemma kahn_inv_start:
  assumes "\<forall>e\<in>set (edges r). edge_to e \<in> route_ids r"
  shows "kahn_inv (route_ids r) (edges r) (indegrees r) []
    (map fst (filter (\<lambda>(_, d). d = 0) (indegrees r)))"
proof -
  let ?m = "indegrees r"
  let ?Q = "map fst (filter (\<lambda>(_, d). d = 0) ?m)"
  have wf: "bm_wf ?m" by (simp add: indegrees_def count_edges_wf zero_degrees_def bm_wf_collect)
  have keys: "set (bm_keys ?m) = route_ids r"
    using assms by (auto simp: indegrees_def count_edges_keys zero_degrees_def bm_keys_collect route_ids_def image_iff)
  have deg: "degree_of ?m v = open_edges (edges r) {} v" for v
    by (simp add: indegrees_def count_edges_degree zero_degrees_degree open_edges_def)
  have "distinct (map fst ?m)" using bm.keys_distinct [OF wf] by (simp add: bm_keys_def)
  then have dist: "distinct ?Q" by (rule distinct_map_filter)
  have mem: "v \<in> set ?Q \<longleftrightarrow> bm_get ?m v = Some 0" for v
  proof -
    have "v \<in> set ?Q \<longleftrightarrow> (v, 0) \<in> set ?m" by force
    then show ?thesis by (simp only: bm_entry_get [OF wf])
  qed
  have "v \<in> set ?Q \<longleftrightarrow> degree_of ?m v = 0" if "v \<in> route_ids r" for v
  proof -
    have "\<exists>d. bm_get ?m v = Some d" using that keys bm.keys_dom [OF wf] by auto
    then show ?thesis unfolding mem degree_of_def by auto
  qed
  moreover have "set ?Q \<subseteq> route_ids r" using keys by (auto simp: bm_keys_def)
  ultimately show ?thesis
    unfolding kahn_inv_def using keys deg dist by (simp only: append_Nil list.set list.size) simp
qed

text \<open>What a well-formed route is, with no reference to the algorithm.\<close>

definition well_formed_route :: "execution_route \<Rightarrow> bool" where
  "well_formed_route r \<longleftrightarrow>
     er_schema_version r \<noteq> 0 \<and> \<not> blank (er_reference r) \<and> distinct (map node_id (nodes r))
     \<and> (\<forall>n\<in>set (nodes r). \<not> blank (node_id n) \<and> is_verifiable (done_when n))
     \<and> (\<forall>e\<in>set (edges r). edge_from e \<in> route_ids r \<and> edge_to e \<in> route_ids r)
     \<and> acyclic (edge_rel (edges r))"

lemma visited_nodes_acyclic:
  assumes "\<forall>e\<in>set (edges r). edge_from e \<in> route_ids r \<and> edge_to e \<in> route_ids r"
  shows "\<exists>n. visited_nodes r = Some n \<and> (n = card (route_ids r) \<longleftrightarrow> acyclic (edge_rel (edges r)))"
proof -
  have into: "\<forall>e\<in>set (edges r). edge_to e \<in> route_ids r" using assms by blast
  obtain m' P where "visited_nodes r = Some (length P)" "kahn_inv (route_ids r) (edges r) m' P []"
    using kahn_end [OF kahn_inv_start [OF into] into] by (auto simp: visited_nodes_def)
  moreover have "finite (route_ids r)" by (simp add: route_ids_def)
  ultimately show ?thesis using kahn_inv_complete [OF _ assms] by blast
qed

lemma first_failure:
  "a \<or> b \<or> c \<Longrightarrow> \<exists>msg. (if a then Some (fails m1) else if b then Some (fails m2) else if c then Some (fails m3) else x)
     = Some (fails msg)"
  by auto

lemma validate_route_checked_iff:
  "\<exists>res. validate_route_checked r = Some res \<and> (res = Inr () \<longleftrightarrow> well_formed_route r)"
proof -
  have dist: "card (route_ids r) = length (nodes r) \<longleftrightarrow> distinct (map node_id (nodes r))"
    unfolding route_ids_def by (metis card_distinct distinct_card length_map)
  have loop: "\<not> acyclic (edge_rel (edges r))" if "e \<in> set (edges r)" "edge_from e = edge_to e" for e
  proof -
    have "(edge_to e, edge_to e) \<in> edge_rel (edges r)" using that by (force simp: edge_rel_def)
    then show ?thesis by (auto simp: acyclic_def)
  qed
  show ?thesis
  proof (cases "er_schema_version r \<noteq> 0 \<and> \<not> blank (er_reference r) \<and> distinct (map node_id (nodes r))
      \<and> (\<forall>n\<in>set (nodes r). \<not> blank (node_id n) \<and> is_verifiable (done_when n))
      \<and> (\<forall>e\<in>set (edges r). edge_from e \<in> route_ids r \<and> edge_to e \<in> route_ids r \<and> edge_from e \<noteq> edge_to e)")
    case True
    then obtain n where n: "visited_nodes r = Some n" "n = card (route_ids r) \<longleftrightarrow> acyclic (edge_rel (edges r))"
      using visited_nodes_acyclic [of r] by blast
    have "well_formed_route r \<longleftrightarrow> n = card (route_ids r)"
      using True n(2) by (simp add: well_formed_route_def)
    then show ?thesis using True n(1) dist by (auto simp: validate_route_checked_def)
  next
    case False
    then have "\<not> well_formed_route r" using loop by (auto simp: well_formed_route_def)
    moreover have "\<exists>msg. validate_route_checked r = Some (fails msg)"
      unfolding validate_route_checked_def by (rule first_failure) (use False dist in blast)
    ultimately show ?thesis by auto
  qed
qed

text \<open>C11: The route check never underflows an in-degree, always ends, and accepts exactly the routes
  with distinct non-blank node ids, verifiable contracts, edges between existing nodes and an acyclic
  dependency relation (a self-loop, refused separately by the code, is a cycle).\<close>

theorem validate_route_iff:
  "\<exists>res. validate_route_checked r = Some res \<and> (res = Inr () \<longleftrightarrow> well_formed_route r)"
  by (rule validate_route_checked_iff)

text \<open>The check as the code returns it; the panic branch is never taken.\<close>

definition validate_route :: "execution_route \<Rightarrow> unit result" where
  "validate_route r = (case validate_route_checked r of None \<Rightarrow> fails ''panic'' | Some res \<Rightarrow> res)"


lemma validate_route_ok: "validate_route r = Inr () \<longleftrightarrow> well_formed_route r"
  using validate_route_checked_iff [of r] by (auto simp: validate_route_def)


lemma seed_node_id: "node_id (seed_node f x) = ''node-'' @ show_nat (fst x)"
  by (cases x) (simp add: seed_node_def)

lemma enumerate_fst: "map fst (List.enumerate k xs) = [k..<k + length xs]"
  by (simp add: enumerate_eq_zip)

lemma seed_ids:
  "map node_id (map (seed_node f) (List.enumerate 0 ps)) = map (\<lambda>i. ''node-'' @ show_nat i) [0..<length ps]"
proof -
  have "map node_id (map (seed_node f) xs) = map (\<lambda>i. ''node-'' @ show_nat i) (map fst xs)" for xs
    by (simp add: seed_node_id)
  then show ?thesis by (simp only: enumerate_fst add_0)
qed

lemma seed_route_ok:
  assumes "validate_frame f = Inr ()"
  shows "validate_route (route pattern f) = Inr ()"
proof -
  let ?r = "route pattern f"
  obtain ps where ns: "nodes ?r = map (seed_node f) (List.enumerate 0 ps)"
    and es: "edges ?r = [] \<or> (\<exists>pol. length ps = 2
      \<and> edges ?r = [\<lparr>ed_schema_version = 1, edge_from = node_id (nodes ?r ! 0), edge_to = node_id (nodes ?r ! 1), on_failure = pol\<rparr>])"
    by (rule that) (auto simp: route_def Let_def)
  have ids: "map node_id (nodes ?r) = map (\<lambda>i. ''node-'' @ show_nat i) [0..<length ps]"
    unfolding ns by (rule seed_ids)
  have inj: "inj (\<lambda>i. ''node-'' @ show_nat i)" by (rule injI) (simp add: show_nat_inj)
  have dist: "distinct (map node_id (nodes ?r))"
    unfolding ids distinct_map by (intro conjI distinct_upt inj_on_subset [OF inj] subset_UNIV)
  moreover have "\<not> blank (node_id n) \<and> is_verifiable (done_when n)" if "n \<in> set (nodes ?r)" for n
  proof -
    have "node_id n \<in> set (map node_id (nodes ?r))" using that by simp
    then obtain i where "node_id n = ''node-'' @ show_nat i" unfolding ids by auto
    moreover have "done_when n = cc_done_contract (gf_context f)"
      using that unfolding ns by (auto simp: seed_node_def)
    ultimately show ?thesis using assms by (simp add: validate_frame_ok)
  qed
  moreover have "edge_from e \<in> route_ids ?r \<and> edge_to e \<in> route_ids ?r" if "e \<in> set (edges ?r)" for e
    using that es by (auto simp: route_ids_def ns)
  moreover have "acyclic (edge_rel (edges ?r))"
    using es
  proof
    assume "\<exists>pol. length ps = 2
      \<and> edges ?r = [\<lparr>ed_schema_version = 1, edge_from = node_id (nodes ?r ! 0), edge_to = node_id (nodes ?r ! 1), on_failure = pol\<rparr>]"
    then have len: "length ps = 2" and rel: "edge_rel (edges ?r) = {(node_id (nodes ?r ! 0), node_id (nodes ?r ! 1))}"
      by (auto simp: edge_rel_def)
    have "length (nodes ?r) = 2" using len ns by simp
    then have "node_id (nodes ?r ! 0) \<noteq> node_id (nodes ?r ! 1)"
      using nth_eq_iff_index_eq [OF dist, of 0 1] by simp
    then show ?thesis unfolding rel by (auto simp: acyclic_insert) (simp add: acyclic_def)
  qed (simp add: edge_rel_def acyclic_def)
  moreover have "er_schema_version ?r \<noteq> 0" "\<not> blank (er_reference ?r)"
    by (simp_all add: route_def Let_def)
  ultimately show ?thesis unfolding validate_route_ok well_formed_route_def by blast
qed

text \<open>The route the seed library lays out for a frame the reasoner accepts always passes the route
  check, whatever the pattern and whatever subagents the inventory lists.\<close>

theorem seed_route_valid:
  assumes "validate_frame f = Inr ()"
  shows "validate_route (route pattern f) = Inr ()"
  by (rule seed_route_ok [OF assms])


definition example_profile :: subagent_profile where
  "example_profile =
     \<lparr>sp_schema_version = 1, sp_role = ''writer'',
      sp_toolset = \<lparr>ts_schema_version = 1, toolset_ref = ''t'', items = [], ts_scope = ''ws'', ts_sources = []\<rparr>,
      sp_model = ''m'', sp_permission = ''ws'', sp_budget = ''units:3''\<rparr>"

definition example_envelope :: autonomy_envelope where
  "example_envelope =
     \<lparr>env_schema_version = 1, env_scope = ''ws'',
      env_capability = \<lparr>cs_schema_version = 1, capabilities = [''file''], permissions = [''fs:read'']\<rparr>,
      env_action_type = [Observe], env_risk_limit = Medium, env_approval_rule = approval_rule.Allow,
      env_budget = ''units:10'',
      env_timebox = \<lparr>tb_schema_version = 1, tb_starts_at = 0, tb_expires_at = 100, tb_max_turns = 4\<rparr>,
      env_rollback = \<lparr>rb_schema_version = 1, rb_required = False, rb_boundary = None\<rparr>\<rparr>"

definition example_frame :: goal_frame where
  "example_frame =
     frame (goal_input_new ''g1'' ''write notes'')
       \<lparr>cc_schema_version = 1, situation = \<lparr>si_schema_version = 1, known = [], missing = []\<rparr>,
        inventory = inventory_empty\<lparr>subagents := [example_profile, example_profile]\<rparr>,
        cc_done_contract = done_final_output ''d1'', cc_autonomy_envelope = example_envelope,
        cc_decision_refs = \<lparr>dr_map = None, dr_user = None, dr_agent_self = None, dr_trust = None, dr_failure = []\<rparr>,
        cc_workspace_snapshot = \<lparr>ws_schema_version = 1, ws_reference = ''w1'', ws_event_refs = []\<rparr>,
        resource_graph = None, resource_required = False\<rparr>"

lemma example_frame_valid: "validate_frame example_frame = Inr ()"
  by (simp add: validate_frame_ok example_frame_def frame_def goal_input_new_def done_final_output_def
      is_verifiable_def)

lemma example_route_nodes: "length (nodes (route (Some (seed_patterns ! 2)) example_frame)) = 2"
  by (simp add: route_def Let_def seed_patterns_def seed_pattern_def example_frame_def frame_def)

lemma seed_route_valid_witness:
  "validate_route (route (Some (seed_patterns ! 2)) example_frame) = Inr ()
    \<and> length (nodes (route (Some (seed_patterns ! 2)) example_frame)) = 2"
  by (rule conjI [OF seed_route_valid [OF example_frame_valid] example_route_nodes])

definition example_tool_frame :: goal_frame where
  "example_tool_frame = example_frame\<lparr>gf_context := (gf_context example_frame)
     \<lparr>inventory := inventory_empty\<lparr>ri_tools := [''grep'', ''rm''], trusted := {''grep''}\<rparr>\<rparr>\<rparr>"

lemma plan_selects_trusted_witness:
  "\<exists>rp env trace. plan example_tool_frame = Inr (rp, done_final_output ''d1'', env, trace) \<and> selected rp = [''grep'']"
proof -
  have valid: "validate_frame example_tool_frame = Inr ()"
    using example_frame_valid by (simp add: validate_frame_ok example_tool_frame_def)
  have chosen: "trusted_capabilities (inventory (gf_context example_tool_frame)) = [''grep'']"
    by (simp add: example_tool_frame_def trusted_capabilities_def inventory_empty_def)
  have ctx: "resource_graph (gf_context example_tool_frame) = None"
      "cc_done_contract (gf_context example_tool_frame) = done_final_output ''d1''"
    by (simp_all add: example_tool_frame_def example_frame_def frame_def)
  show ?thesis
    using plan_selects_trusted [of example_tool_frame] valid chosen ctx
    by (auto split: sum.splits)
qed

end
