(* ===== verification/Budget_Ledger.thy ===== *)
theory Budget_Ledger
  imports Ordered_Map
begin

text \<open>
  The budget ledger of a route (\<open>BudgetLedger\<close> in \<open>crates/coordination/src/lib.rs\<close>): what remains of
  the parent's budget and what each started node has reserved of it. The locale \<open>ledger\<close> is the
  contract a route runtime relies on; its interpretation at the end is on the ledger of the code.
  The amounts are 64-bit words: the subtraction in \<open>reserve\<close> is guarded, and the saturating addition
  in \<open>release\<close> never saturates because what is given back was taken from the same total.
\<close>

subsection \<open>The contract\<close>

locale ledger =
  fixes reserve :: "string \<Rightarrow> u64 \<Rightarrow> 's \<Rightarrow> unit result \<times> 's"
    and release :: "string \<Rightarrow> 's \<Rightarrow> u64 \<times> 's"
    and held :: "'s \<Rightarrow> string \<Rightarrow> u64 option"
    and free :: "'s \<Rightarrow> nat"
    and sound :: "nat \<Rightarrow> 's \<Rightarrow> bool"
  assumes reserve_iff: "fst (reserve n a s) = Inr () \<longleftrightarrow> a \<noteq> 0 \<and> held s n = None \<and> unat a \<le> free s"
    and reserve_err: "fst (reserve n a s) = Inl e \<Longrightarrow> snd (reserve n a s) = s"
    and reserve_held: "fst (reserve n a s) = Inr () \<Longrightarrow> held (snd (reserve n a s)) = (held s)(n \<mapsto> a)"
    and reserve_free: "fst (reserve n a s) = Inr () \<Longrightarrow> free (snd (reserve n a s)) = free s - unat a"
    and reserve_sound: "sound t s \<Longrightarrow> sound t (snd (reserve n a s))"
    and release_amount: "fst (release n s) = (case held s n of None \<Rightarrow> 0 | Some a \<Rightarrow> a)"
    and release_held: "held (snd (release n s)) = (held s)(n := None)"
    and release_free: "sound t s \<Longrightarrow> free (snd (release n s)) = free s + unat (fst (release n s))"
    and release_sound: "sound t s \<Longrightarrow> sound t (snd (release n s))"
    and sound_total: "sound t s \<Longrightarrow> finite (dom (held s)) \<and> free s + (\<Sum>n\<in>dom (held s). unat (the (held s n))) = t"
begin

lemma free_bounded: "sound t s \<Longrightarrow> free s \<le> t"
  using sound_total by fastforce

lemma held_bounded: "sound t s \<Longrightarrow> held s n = Some a \<Longrightarrow> unat a + free s \<le> t"
proof -
  assume s: "sound t s" and n: "held s n = Some a"
  have "finite (dom (held s))" using sound_total [OF s] by blast
  moreover have "n \<in> dom (held s)" using n by blast
  ultimately have "unat (the (held s n)) \<le> (\<Sum>n\<in>dom (held s). unat (the (held s n)))"
    by (intro member_le_sum) auto
  then show ?thesis using sound_total [OF s] n by simp
qed

lemma reserve_release:
  assumes "sound t s" and ok: "fst (reserve n a s) = Inr ()"
  shows "held (snd (release n (snd (reserve n a s)))) = held s"
    and "free (snd (release n (snd (reserve n a s)))) = free s"
    and "fst (release n (snd (reserve n a s))) = a"
proof -
  have n: "held s n = None" "unat a \<le> free s" using ok by (auto simp: reserve_iff)
  have r: "sound t (snd (reserve n a s))" using assms(1) by (rule reserve_sound)
  show amount: "fst (release n (snd (reserve n a s))) = a"
    by (simp add: release_amount reserve_held [OF ok])
  show "held (snd (release n (snd (reserve n a s)))) = held s"
    using n(1) by (auto simp: release_held reserve_held [OF ok])
  show "free (snd (release n (snd (reserve n a s)))) = free s"
    using n(2) by (simp add: release_free [OF r] amount reserve_free [OF ok])
qed

lemma release_none:
  assumes "sound t s" and "held s n = None"
  shows "fst (release n s) = 0" "held (snd (release n s)) = held s" "free (snd (release n s)) = free s"
  using assms by (auto simp: release_amount release_held release_free)

end

subsection \<open>The ledger of the code\<close>

record budget_state =
  remaining :: u64
  reservations :: "(string, u64) btree_map"

definition ledger_new :: "u64 \<Rightarrow> budget_state" where
  "ledger_new limit = \<lparr>remaining = limit, reservations = bm_empty\<rparr>"

definition reserve :: "string \<Rightarrow> u64 \<Rightarrow> budget_state \<Rightarrow> unit result \<times> budget_state" where
  "reserve node amount s =
     (if amount = 0 then (fails ''subagent budget must be positive'', s)
      else if bm_contains (reservations s) node then (fails ''subagent budget is already reserved'', s)
      else if amount > remaining s
      then (fails (''subagent budgets exceed the parent'' @ [CHR 0x27] @ ''s remaining budget''), s)
      else (Inr (), s\<lparr>remaining := remaining s - amount, reservations := bm_insert node amount (reservations s)\<rparr>))"

definition release :: "string \<Rightarrow> budget_state \<Rightarrow> u64 \<times> budget_state" where
  "release node s =
     (let amount = (case bm_get (reservations s) node of None \<Rightarrow> 0 | Some a \<Rightarrow> a) in
      (amount, s\<lparr>remaining := saturating_add (remaining s) amount,
                 reservations := bm_remove node (reservations s)\<rparr>))"

definition held :: "budget_state \<Rightarrow> string \<Rightarrow> u64 option" where
  "held s = bm_get (reservations s)"

definition free_units :: "budget_state \<Rightarrow> nat" where
  "free_units s = unat (remaining s)"

definition ledger_inv :: "nat \<Rightarrow> budget_state \<Rightarrow> bool" where
  "ledger_inv t s \<longleftrightarrow> bm_wf (reservations s) \<and> t < 2 ^ 64
     \<and> unat (remaining s)
       + (\<Sum>n\<in>set (bm_keys (reservations s)). unat (the (bm_get (reservations s) n))) = t"

lemma ledger_inv_new: "ledger_inv (unat limit) (ledger_new limit)"
  using unsigned_less [of limit, where ?'a = nat]
  by (simp add: ledger_inv_def ledger_new_def bm.wf_emp) (simp add: bm_keys_def bm_empty_def)

lemma reserve_ok:
  "fst (reserve n a s) = Inr () \<longleftrightarrow> a \<noteq> 0 \<and> held s n = None \<and> unat a \<le> free_units s"
  by (auto simp: reserve_def held_def free_units_def bm_contains_def word_le_nat_alt word_less_nat_alt)

lemma ledger_inv_reserve:
  assumes "ledger_inv t s"
  shows "ledger_inv t (snd (reserve n a s))"
proof (cases "fst (reserve n a s) = Inr ()")
  case True
  then have ok: "a \<noteq> 0" "bm_get (reservations s) n = None" "unat a \<le> unat (remaining s)"
    by (auto simp: reserve_ok held_def free_units_def)
  have s': "snd (reserve n a s)
      = s\<lparr>remaining := remaining s - a, reservations := bm_insert n a (reservations s)\<rparr>"
    using ok by (simp add: reserve_def bm_contains_def word_less_nat_alt)
  have "unat (remaining s - a) = unat (remaining s) - unat a"
    using ok(3) by (simp add: unat_sub word_le_nat_alt)
  then show ?thesis
    using assms ok bm.total_put_new [of "reservations s" n unat a]
    by (simp add: s' ledger_inv_def bm.wf_put del: bm_get_insert)
next
  case False
  then have "snd (reserve n a s) = s" by (auto simp: reserve_def split: if_splits)
  then show ?thesis using assms by simp
qed

lemma release_some:
  assumes "ledger_inv t s" and "bm_get (reservations s) n = Some a"
  shows "unat (saturating_add (remaining s) a) = unat (remaining s) + unat a"
    and "ledger_inv t (snd (release n s))"
proof -
  have wf: "bm_wf (reservations s)" using assms(1) by (simp add: ledger_inv_def)
  note kept = bm.total_del [OF wf assms(2), of unat]
  have "unat (remaining s) + unat a < 2 ^ 64"
    using assms(1) kept by (simp add: ledger_inv_def)
  then show sat: "unat (saturating_add (remaining s) a) = unat (remaining s) + unat a"
    by (simp add: unat_saturating_add)
  show "ledger_inv t (snd (release n s))"
    using assms kept sat by (simp add: release_def ledger_inv_def bm.wf_del Let_def del: bm_get_remove)
qed

lemma release_absent:
  assumes "ledger_inv t s" and "bm_get (reservations s) n = None"
  shows "unat (remaining (snd (release n s))) = unat (remaining s)" and "ledger_inv t (snd (release n s))"
proof -
  have wf: "bm_wf (reservations s)" using assms(1) by (simp add: ledger_inv_def)
  have sat: "unat (saturating_add (remaining s) 0) = unat (remaining s)"
    using unsigned_less [of "remaining s", where ?'a = nat] by (simp add: unat_saturating_add)
  then show "unat (remaining (snd (release n s))) = unat (remaining s)"
    using assms(2) by (simp add: release_def)
  have "bm_get (bm_remove n (reservations s)) = bm_get (reservations s)"
    by (rule bm.del_absent [OF wf assms(2)])
  moreover from this have "bm_keys (bm_remove n (reservations s)) = bm_keys (reservations s)"
    by (intro bm.keys_cong) (simp_all add: wf bm.wf_del del: bm_get_remove)
  ultimately show "ledger_inv t (snd (release n s))"
    using assms sat by (simp add: release_def ledger_inv_def bm.wf_del del: bm_get_remove)
qed

interpretation budget: ledger reserve release held free_units ledger_inv
proof unfold_locales
  show "fst (reserve n a s) = Inr () \<longleftrightarrow> a \<noteq> 0 \<and> held s n = None \<and> unat a \<le> free_units s" for n a s
    by (rule reserve_ok)
  show "fst (reserve n a s) = Inl e \<Longrightarrow> snd (reserve n a s) = s" for n a s e
    by (auto simp: reserve_def split: if_splits)
  show "held (snd (reserve n a s)) = (held s)(n \<mapsto> a)" if "fst (reserve n a s) = Inr ()" for n a s
    using that by (auto simp: reserve_def held_def split: if_splits)
  show "free_units (snd (reserve n a s)) = free_units s - unat a" if "fst (reserve n a s) = Inr ()" for n a s
    using that by (auto simp: reserve_def free_units_def unat_sub not_less split: if_splits)
  show "ledger_inv t (snd (reserve n a s))" if "ledger_inv t s" for t n a s
    using that by (rule ledger_inv_reserve)
  show "fst (release n s) = (case held s n of None \<Rightarrow> 0 | Some a \<Rightarrow> a)" for n s
    by (simp add: release_def held_def Let_def)
  show "held (snd (release n s)) = (held s)(n := None)" for n s
    by (simp add: release_def held_def Let_def)
  show "free_units (snd (release n s)) = free_units s + unat (fst (release n s))" if "ledger_inv t s" for t n s
    using that release_some(1) [OF that] release_absent(1) [OF that]
    by (cases "bm_get (reservations s) n") (simp_all add: free_units_def, simp_all add: release_def)
  show "ledger_inv t (snd (release n s))" if "ledger_inv t s" for t n s
    using release_some(2) [OF that] release_absent(2) [OF that]
    by (cases "bm_get (reservations s) n") simp_all
  show "finite (dom (held s)) \<and> free_units s + (\<Sum>n\<in>dom (held s). unat (the (held s n))) = t"
    if "ledger_inv t s" for t s
    using that bm.keys_dom [of "reservations s"] bm.finite_dom [of "reservations s"]
    by (simp add: ledger_inv_def held_def free_units_def)
qed

subsection \<open>Reachable ledgers\<close>

inductive ledger_reach :: "u64 \<Rightarrow> budget_state \<Rightarrow> bool" for limit where
  ledger_start: "ledger_reach limit (ledger_new limit)"
| ledger_reserve: "ledger_reach limit s \<Longrightarrow> ledger_reach limit (snd (reserve n a s))"
| ledger_release: "ledger_reach limit s \<Longrightarrow> ledger_reach limit (snd (release n s))"

lemma ledger_reach_inv: "ledger_reach limit s \<Longrightarrow> ledger_inv (unat limit) s"
  by (induction rule: ledger_reach.induct)
     (simp_all add: ledger_inv_new budget.reserve_sound budget.release_sound)

text \<open>After any sequence of reservations and releases, what remains plus what is held is exactly
  the total: nothing is lost, nothing is created, the saturating addition of \<open>release\<close> never saturates,
  and a reservation is granted exactly when it is positive, new and within what remains.\<close>

theorem ledger_conserves:
  assumes "ledger_reach limit s"
  shows "unat (remaining s) + (\<Sum>n\<in>dom (held s). unat (the (held s n))) = unat limit
    \<and> (fst (reserve n a s) = Inr () \<longleftrightarrow> a \<noteq> 0 \<and> held s n = None \<and> a \<le> remaining s)
    \<and> unat (remaining (snd (release n s))) = unat (remaining s) + unat (fst (release n s))"
  using budget.sound_total [OF ledger_reach_inv [OF assms]] budget.release_free [OF ledger_reach_inv [OF assms], of n]
  by (simp add: free_units_def reserve_ok word_le_nat_alt)

lemma ledger_conserves_witness:
  "unat (remaining (snd (reserve ''a'' 3 (ledger_new 10))))
     + (\<Sum>n\<in>dom (held (snd (reserve ''a'' 3 (ledger_new 10)))). unat (the (held (snd (reserve ''a'' 3 (ledger_new 10))) n))) = 10"
  using ledger_conserves [OF ledger_reserve [OF ledger_start [of 10], of "''a''" 3]] by simp

end
