(* ===== verification/Route_Runtime.thy ===== *)
theory Route_Runtime
  imports Route_Graph Budget_Ledger
begin

text \<open>
  The execution of a route (\<open>RouteRuntime\<close> in \<open>crates/coordination/src/lib.rs\<close>): nodes are started when
  their dependencies allow it, complete, fail, are retried or cancelled, and the budget of a started
  node is reserved from the parent's. The runtime is the record \<open>route_runtime\<close>; the step relation
  \<open>runtime_reach\<close> collects what a runtime can become. The invariants: a reservation is held exactly by
  the running nodes, a node runs only after its strict dependencies are done, results belong exactly to
  done nodes, and attempts stay within the retry policy.
\<close>

subsection \<open>State\<close>

datatype node_state = Pending | Running | Done | Failed | Cancelled | OutcomeUnknown

datatype route_status = RouteRunning | RouteCompleted | RouteFailed | RouteCancelled | ReplanRequested

datatype retry_decision = Retry | Exhausted | RetryOutcomeUnknown

record route_outcome =
  ro_schema_version :: schema_version
  ro_status :: route_status
  node_states :: "(string, node_state) btree_map"
  result_refs :: "(string, string) btree_map"

record route_runtime =
  the_route :: execution_route
  states :: "(string, node_state) btree_map"
  attempts :: "(string, u32) btree_map"
  intent_attempts :: "(string \<times> action_id) set"
  results :: "(string, string) btree_map"
  status :: route_status
  budget :: budget_state

definition runtime_new :: "execution_route \<Rightarrow> u64 \<Rightarrow> route_runtime result" where
  "runtime_new r parent_budget =
     and_then (validate_route r) (\<lambda>_.
     let st = bm_collect (map (\<lambda>n. (node_id n, Pending)) (nodes r)) in
     Inr \<lparr>the_route = r, states = st, attempts = bm_empty, intent_attempts = {}, results = bm_empty,
          status = (if st = bm_empty then RouteCompleted else RouteRunning),
          budget = ledger_new parent_budget\<rparr>)"

subsection \<open>Queries\<close>

definition state_of :: "route_runtime \<Rightarrow> string \<Rightarrow> node_state option" where
  "state_of s n = bm_get (states s) n"

definition dependencies_satisfied :: "route_runtime \<Rightarrow> string \<Rightarrow> bool" where
  "dependencies_satisfied s n \<longleftrightarrow>
     (\<forall>e\<in>set (filter (\<lambda>e. edge_to e = n) (edges (the_route s))).
        case state_of s (edge_from e) of
          Some Done \<Rightarrow> True
        | Some Failed \<Rightarrow> on_failure e = Continue
        | _ \<Rightarrow> False)"

definition runnable :: "route_runtime \<Rightarrow> route_node list" where
  "runnable s =
     (if status s \<noteq> RouteRunning then []
      else filter (\<lambda>n. dependencies_satisfied s (node_id n))
             (filter (\<lambda>n. state_of s (node_id n) = Some Pending) (nodes (the_route s))))"

definition all_terminal_with_tolerated_failures :: "route_runtime \<Rightarrow> bool" where
  "all_terminal_with_tolerated_failures s \<longleftrightarrow>
     (\<forall>(n, st)\<in>set (states s).
        case st of
          Done \<Rightarrow> True
        | Failed \<Rightarrow> (\<forall>e\<in>set (filter (\<lambda>e. edge_from e = n) (edges (the_route s))). on_failure e = Continue)
        | _ \<Rightarrow> False)"

definition find_node :: "route_runtime \<Rightarrow> string \<Rightarrow> route_node result" where
  "find_node s n = ok_or (find (\<lambda>c. node_id c = n) (nodes (the_route s))) ''route node does not exist''"

definition require_running :: "route_runtime \<Rightarrow> string \<Rightarrow> unit result" where
  "require_running s n = ensure (state_of s n = Some Running) ''route node is not running''"

definition outcome :: "route_runtime \<Rightarrow> route_outcome" where
  "outcome s = \<lparr>ro_schema_version = 1, ro_status = status s, node_states = states s, result_refs = results s\<rparr>"

subsection \<open>Operations\<close>

definition start :: "string \<Rightarrow> route_runtime \<Rightarrow> unit result \<times> route_runtime" where
  "start n s =
     (if status s \<noteq> RouteRunning \<or> state_of s n \<noteq> Some Pending \<or> \<not> dependencies_satisfied s n
      then (fails ''route node is not runnable'', s)
      else case and_then (find_node s n) (\<lambda>node. budget_units (role node)) of
          Inl e \<Rightarrow> (Inl e, s)
        | Inr units \<Rightarrow>
          (case reserve n units (budget s) of
             (Inl e, b) \<Rightarrow> (Inl e, s\<lparr>budget := b\<rparr>)
           | (Inr _, b) \<Rightarrow>
             (Inr (), s\<lparr>budget := b, states := bm_insert n Running (states s),
                attempts := bm_insert n ((case bm_get (attempts s) n of None \<Rightarrow> 0 | Some k \<Rightarrow> k) + 1) (attempts s)\<rparr>)))"

definition complete :: "string \<Rightarrow> string \<Rightarrow> route_runtime \<Rightarrow> unit result \<times> route_runtime" where
  "complete n res s =
     (case require_running s n of
        Inl e \<Rightarrow> (Inl e, s)
      | Inr _ \<Rightarrow>
        let s' = s\<lparr>budget := snd (release n (budget s)), states := bm_insert n Done (states s),
                   results := bm_insert n res (results s)\<rparr> in
        (Inr (), if all_terminal_with_tolerated_failures s' then s'\<lparr>status := RouteCompleted\<rparr> else s'))"

definition cancel_one :: "string \<Rightarrow> route_runtime \<Rightarrow> route_runtime" where
  "cancel_one n s = s\<lparr>budget := snd (release n (budget s)), states := bm_insert n Cancelled (states s)\<rparr>"

definition cancel_unfinished :: "route_runtime \<Rightarrow> route_runtime" where
  "cancel_unfinished s =
     fold cancel_one (map fst (filter (\<lambda>(_, st). st = Pending \<or> st = Running) (states s))) s"

definition fail :: "string \<Rightarrow> route_runtime \<Rightarrow> unit result \<times> route_runtime" where
  "fail n s =
     (case require_running s n of
        Inl e \<Rightarrow> (Inl e, s)
      | Inr _ \<Rightarrow>
        let s' = s\<lparr>budget := snd (release n (budget s)), states := bm_insert n Failed (states s)\<rparr>;
            policies = map on_failure (filter (\<lambda>e. edge_from e = n) (edges (the_route s))) in
        (Inr (),
         if AbortRoute \<in> set policies then cancel_unfinished (s'\<lparr>status := RouteFailed\<rparr>)
         else if Replan \<in> set policies then cancel_unfinished (s'\<lparr>status := ReplanRequested\<rparr>)
         else if runnable s' = [] then s'\<lparr>status := RouteFailed\<rparr>
         else s'))"

definition retry ::
  "string \<Rightarrow> action_id \<Rightarrow> bool \<Rightarrow> route_runtime \<Rightarrow> retry_decision result \<times> route_runtime" where
  "retry n intent absent s =
     (if state_of s n \<noteq> Some Failed then (fails ''only a failed node can be retried'', s)
      else if \<not> absent
      then (Inr RetryOutcomeUnknown, s\<lparr>states := bm_insert n OutcomeUnknown (states s), status := RouteFailed\<rparr>)
      else if (n, intent) \<in> intent_attempts s then (Inr Exhausted, s)
      else
        let s' = s\<lparr>intent_attempts := insert (n, intent) (intent_attempts s)\<rparr>;
            k = (case bm_get (attempts s) n of None \<Rightarrow> 0 | Some k \<Rightarrow> k) in
        case find_node s' n of
          Inl e \<Rightarrow> (Inl e, s')
        | Inr node \<Rightarrow>
            if k \<ge> max_attempts (retry_policy node) then (Inr Exhausted, s')
            else (Inr Retry, s'\<lparr>states := bm_insert n Pending (states s'), status := RouteRunning\<rparr>))"

definition cancel_parent :: "route_runtime \<Rightarrow> route_runtime" where
  "cancel_parent s = cancel_unfinished (s\<lparr>status := RouteCancelled\<rparr>)"

definition remaining_budget :: "route_runtime \<Rightarrow> u64" where
  "remaining_budget s = remaining (budget s)"

subsection \<open>Reachable runtimes\<close>

inductive runtime_reach :: "execution_route \<Rightarrow> u64 \<Rightarrow> route_runtime \<Rightarrow> bool" for r parent where
  runtime_start: "runtime_new r parent = Inr s \<Longrightarrow> runtime_reach r parent s"
| runtime_node_start: "runtime_reach r parent s \<Longrightarrow> runtime_reach r parent (snd (start n s))"
| runtime_complete: "runtime_reach r parent s \<Longrightarrow> runtime_reach r parent (snd (complete n res s))"
| runtime_fail: "runtime_reach r parent s \<Longrightarrow> runtime_reach r parent (snd (fail n s))"
| runtime_retry: "runtime_reach r parent s \<Longrightarrow> runtime_reach r parent (snd (retry n intent absent s))"
| runtime_cancel: "runtime_reach r parent s \<Longrightarrow> runtime_reach r parent (cancel_parent s)"


subsection \<open>The invariants\<close>

text \<open>The invariants speak of the states as a function of the node id.\<close>

definition engaged :: "node_state option \<Rightarrow> bool" where
  "engaged x \<longleftrightarrow> x = Some Running \<or> x = Some Done \<or> x = Some Failed \<or> x = Some OutcomeUnknown"

definition order_ok :: "execution_route \<Rightarrow> (string \<Rightarrow> node_state option) \<Rightarrow> bool" where
  "order_ok r st \<longleftrightarrow>
     (\<forall>e\<in>set (edges r). on_failure e \<noteq> Continue \<longrightarrow> engaged (st (edge_to e)) \<longrightarrow> st (edge_from e) = Some Done)"

definition tolerated :: "execution_route \<Rightarrow> (string \<Rightarrow> node_state option) \<Rightarrow> bool" where
  "tolerated r st \<longleftrightarrow>
     (\<forall>n x. st n = Some x \<longrightarrow> x = Done
        \<or> x = Failed \<and> (\<forall>e\<in>set (edges r). edge_from e = n \<longrightarrow> on_failure e = Continue))"

definition quiet :: "(string \<Rightarrow> node_state option) \<Rightarrow> bool" where
  "quiet st \<longleftrightarrow> (\<forall>n. st n \<noteq> Some Pending \<and> st n \<noteq> Some Running)"

definition cancelled :: "(string \<Rightarrow> node_state option) \<Rightarrow> string \<Rightarrow> node_state option" where
  "cancelled st n = (if st n = Some Pending \<or> st n = Some Running then Some Cancelled else st n)"

definition shape_inv :: "execution_route \<Rightarrow> route_runtime \<Rightarrow> bool" where
  "shape_inv r s \<longleftrightarrow> the_route s = r \<and> bm_wf (states s) \<and> dom (state_of s) = route_ids r"

definition budget_inv :: "u64 \<Rightarrow> route_runtime \<Rightarrow> bool" where
  "budget_inv parent s \<longleftrightarrow>
     ledger_inv (unat parent) (budget s) \<and> (\<forall>n. held (budget s) n \<noteq> None \<longleftrightarrow> state_of s n = Some Running)"

definition results_inv :: "route_runtime \<Rightarrow> bool" where
  "results_inv s \<longleftrightarrow> (\<forall>n. bm_get (results s) n \<noteq> None \<longleftrightarrow> state_of s n = Some Done)"

definition status_inv :: "execution_route \<Rightarrow> route_runtime \<Rightarrow> bool" where
  "status_inv r s \<longleftrightarrow>
     (status s = RouteCompleted \<longrightarrow> tolerated r (state_of s))
     \<and> (status s = RouteCancelled \<or> status s = ReplanRequested \<longrightarrow> quiet (state_of s))"

definition runtime_inv :: "execution_route \<Rightarrow> u64 \<Rightarrow> route_runtime \<Rightarrow> bool" where
  "runtime_inv r parent s \<longleftrightarrow>
     shape_inv r s \<and> budget_inv parent s \<and> results_inv s \<and> order_ok r (state_of s) \<and> status_inv r s"

lemmas runtime_invs = runtime_inv_def shape_inv_def budget_inv_def results_inv_def status_inv_def

lemma state_of_states [simp]:
  "state_of (s\<lparr>states := m\<rparr>) = bm_get m"
  "state_of (s\<lparr>budget := b\<rparr>) = state_of s"
  "state_of (s\<lparr>attempts := a\<rparr>) = state_of s"
  "state_of (s\<lparr>results := rs\<rparr>) = state_of s"
  "state_of (s\<lparr>status := t\<rparr>) = state_of s"
  "state_of (s\<lparr>intent_attempts := i\<rparr>) = state_of s"
  by (simp_all add: state_of_def fun_eq_iff)

lemma bm_get_states [simp]: "bm_get (states s) = state_of s"
  by (simp add: state_of_def fun_eq_iff)

lemma all_terminal_iff:
  assumes "bm_wf (states s)" and "the_route s = r"
  shows "all_terminal_with_tolerated_failures s \<longleftrightarrow> tolerated r (state_of s)"
proof -
  have by_state: "(case x of Done \<Rightarrow> True | Failed \<Rightarrow> A | _ \<Rightarrow> False) \<longleftrightarrow> x = Done \<or> x = Failed \<and> A" for x A
    by (cases x) simp_all
  have "all_terminal_with_tolerated_failures s \<longleftrightarrow>
      (\<forall>n x. (n, x) \<in> set (states s) \<longrightarrow> x = Done
        \<or> x = Failed \<and> (\<forall>e\<in>set (edges r). edge_from e = n \<longrightarrow> on_failure e = Continue))"
    unfolding all_terminal_with_tolerated_failures_def assms(2) by_state by auto
  then show ?thesis
    by (simp only: bm_entry_get [OF assms(1)] bm_get_states tolerated_def)
qed

lemma cancel_fold:
  "the_route (fold cancel_one ids s) = the_route s"
  "status (fold cancel_one ids s) = status s"
  "results (fold cancel_one ids s) = results s"
  "attempts (fold cancel_one ids s) = attempts s"
  "intent_attempts (fold cancel_one ids s) = intent_attempts s"
  "bm_wf (states s) \<Longrightarrow> bm_wf (states (fold cancel_one ids s))"
  "ledger_inv t (budget s) \<Longrightarrow> ledger_inv t (budget (fold cancel_one ids s))"
  "state_of (fold cancel_one ids s) n = (if n \<in> set ids then Some Cancelled else state_of s n)"
  "held (budget (fold cancel_one ids s)) n = (if n \<in> set ids then None else held (budget s) n)"
  by (induction ids arbitrary: s)
     (auto simp: cancel_one_def bm.wf_put budget.release_sound budget.release_held)

lemma cancel_ids:
  "bm_wf (states s) \<Longrightarrow>
    n \<in> set (map fst (filter (\<lambda>(_, st). st = Pending \<or> st = Running) (states s)))
      \<longleftrightarrow> state_of s n = Some Pending \<or> state_of s n = Some Running"
proof -
  assume wf: "bm_wf (states s)"
  have "n \<in> set (map fst (filter (\<lambda>(_, st). st = Pending \<or> st = Running) (states s)))
      \<longleftrightarrow> (n, Pending) \<in> set (states s) \<or> (n, Running) \<in> set (states s)" by force
  then show ?thesis by (simp only: bm_entry_get [OF wf] bm_get_states)
qed

lemma cancel_unfinished_fields:
  "the_route (cancel_unfinished s) = the_route s" "status (cancel_unfinished s) = status s"
  "results (cancel_unfinished s) = results s" "attempts (cancel_unfinished s) = attempts s"
  "bm_wf (states s) \<Longrightarrow> bm_wf (states (cancel_unfinished s))"
  "ledger_inv t (budget s) \<Longrightarrow> ledger_inv t (budget (cancel_unfinished s))"
  by (simp_all only: cancel_unfinished_def cancel_fold)

lemma cancel_unfinished_state:
  assumes "bm_wf (states s)"
  shows "state_of (cancel_unfinished s) = cancelled (state_of s)"
    and "held (budget (cancel_unfinished s)) n =
      (if state_of s n = Some Pending \<or> state_of s n = Some Running then None else held (budget s) n)"
  unfolding cancel_unfinished_def cancel_fold cancel_ids [OF assms]
  by (simp_all add: fun_eq_iff cancelled_def cancel_fold cancel_ids [OF assms] del: set_map set_filter)

lemma cancelled_facts:
  "cancelled st n = Some x \<Longrightarrow> x \<noteq> Pending \<and> x \<noteq> Running"
  "cancelled st n = Some Done \<longleftrightarrow> st n = Some Done"
  "dom (cancelled st) = dom st"
  "quiet (cancelled st)"
  "engaged (cancelled st n) \<Longrightarrow> engaged (st n)"
  by (auto simp: cancelled_def quiet_def engaged_def split: if_splits)


subsection \<open>Each operation keeps the invariants\<close>

lemma runtime_inv_new: "runtime_new r parent = Inr s \<Longrightarrow> runtime_inv r parent s"
proof -
  assume "runtime_new r parent = Inr s"
  then have s: "s = \<lparr>the_route = r, states = bm_collect (map (\<lambda>n. (node_id n, Pending)) (nodes r)),
      attempts = bm_empty, intent_attempts = {}, results = bm_empty,
      status = (if bm_collect (map (\<lambda>n. (node_id n, Pending)) (nodes r)) = bm_empty then RouteCompleted else RouteRunning),
      budget = ledger_new parent\<rparr>"
    by (simp add: runtime_new_def and_then_Inr_iff Let_def)
  let ?st = "bm_get (bm_collect (map (\<lambda>n. (node_id n, Pending)) (nodes r)))"
  have st: "state_of s = ?st" by (simp add: s state_of_def fun_eq_iff)
  have pending: "?st n = Some x \<Longrightarrow> x = Pending" for n x
    unfolding bm_get_collect by (auto dest!: map_of_SomeD)
  have "dom ?st = route_ids r"
    by (simp add: bm.keys_dom [symmetric] bm_wf_collect bm_keys_collect route_ids_def image_image comp_def)
  then have "shape_inv r s" by (simp add: shape_inv_def st) (simp add: s bm_wf_collect)
  moreover have "budget_inv parent s"
  proof -
    have "held (ledger_new parent) n = None" for n by (simp add: held_def ledger_new_def)
    moreover have "budget s = ledger_new parent" by (simp add: s)
    ultimately show ?thesis
      using pending ledger_inv_new [of parent] by (auto simp: budget_inv_def st)
  qed
  moreover have "results_inv s" using pending by (auto simp: results_inv_def st) (auto simp: s)
  moreover have "order_ok r (state_of s)" using pending by (auto simp: order_ok_def engaged_def st)
  moreover have "status_inv r s"
    by (simp add: status_inv_def st) (auto simp: s tolerated_def split: if_splits)
  ultimately show ?thesis by (simp add: runtime_inv_def)
qed

lemma order_ok_start:
  assumes "order_ok r st" and "st n = Some Pending"
    and "\<forall>e\<in>set (edges r). edge_to e = n \<longrightarrow> on_failure e \<noteq> Continue \<longrightarrow> st (edge_from e) = Some Done"
  shows "order_ok r (st(n \<mapsto> Running))"
  using assms by (fastforce simp: order_ok_def)

lemma order_ok_leave_running:
  assumes "order_ok r st" and "st n = Some Running" and "x = Done \<or> x = Failed"
  shows "order_ok r (st(n \<mapsto> x))"
  using assms by (fastforce simp: order_ok_def engaged_def)

lemma order_ok_leave_failed:
  assumes "order_ok r st" and "st n = Some Failed" and "x = Pending \<or> x = OutcomeUnknown"
  shows "order_ok r (st(n \<mapsto> x))"
  using assms by (fastforce simp: order_ok_def engaged_def)

lemma order_ok_cancelled: "order_ok r st \<Longrightarrow> order_ok r (cancelled st)"
  by (auto simp: order_ok_def cancelled_facts)

lemma start_ok:
  assumes "start n s = (Inr u, s')"
  obtains units where "status s = RouteRunning" "state_of s n = Some Pending" "dependencies_satisfied s n"
    "fst (reserve n units (budget s)) = Inr ()"
    "s' = s\<lparr>budget := snd (reserve n units (budget s)), states := bm_insert n Running (states s),
      attempts := bm_insert n ((case bm_get (attempts s) n of None \<Rightarrow> 0 | Some k \<Rightarrow> k) + 1) (attempts s)\<rparr>"
proof -
  have pre: "status s = RouteRunning" "state_of s n = Some Pending" "dependencies_satisfied s n"
    using assms by (auto simp: start_def split: if_splits)
  obtain units where units: "and_then (find_node s n) (\<lambda>node. budget_units (role node)) = Inr units"
    using assms by (auto simp: start_def split: if_splits sum.splits)
  show ?thesis
    by (rule that [of units])
       (use assms pre units in \<open>auto simp: start_def split: prod.splits sum.splits\<close>)
qed

lemma start_err: "start n s = (Inl e, s') \<Longrightarrow> s' = s"
  by (auto simp: start_def reserve_def split: if_splits sum.splits prod.splits)

lemma strict_dependency:
  assumes "dependencies_satisfied s n" "e \<in> set (edges (the_route s))" "edge_to e = n" "on_failure e \<noteq> Continue"
  shows "state_of s (edge_from e) = Some Done"
proof -
  have "case state_of s (edge_from e) of Some Done \<Rightarrow> True | Some Failed \<Rightarrow> on_failure e = Continue | _ \<Rightarrow> False"
    using assms by (simp add: dependencies_satisfied_def)
  then show ?thesis using assms(4) by (auto split: option.splits node_state.splits)
qed

lemma runtime_inv_start:
  assumes inv: "runtime_inv r parent s"
  shows "runtime_inv r parent (snd (start n s))"
proof (cases "start n s")
  case (Pair res s')
  show ?thesis
  proof (cases res)
    case (Inl e)
    then show ?thesis using Pair inv start_err by fastforce
  next
    case (Inr u)
    then have "start n s = (Inr u, s')" using Pair by simp
    then obtain units where ok: "status s = RouteRunning" "state_of s n = Some Pending" "dependencies_satisfied s n"
        "fst (reserve n units (budget s)) = Inr ()"
      and s': "s' = s\<lparr>budget := snd (reserve n units (budget s)), states := bm_insert n Running (states s),
        attempts := bm_insert n ((case bm_get (attempts s) n of None \<Rightarrow> 0 | Some k \<Rightarrow> k) + 1) (attempts s)\<rparr>"
      by (rule start_ok)
    have st: "state_of s' = (state_of s)(n \<mapsto> Running)" by (simp add: s' bm_get_states)
    have "n \<in> route_ids r" using inv ok(2) by (auto simp: runtime_inv_def shape_inv_def)
    then have "shape_inv r s'"
      using inv by (auto simp: runtime_inv_def shape_inv_def st) (auto simp: s' bm.wf_put)
    moreover have "budget_inv parent s'"
      using inv budget.reserve_sound budget.reserve_held [OF ok(4)]
      by (auto simp: runtime_inv_def budget_inv_def st) (auto simp: s')
    moreover have "results_inv s'"
      using inv ok(2) unfolding runtime_inv_def results_inv_def st
      by (auto simp: s' simp del: not_None_eq)
    moreover have "order_ok r (state_of s')"
      unfolding st using inv ok strict_dependency [OF ok(3)]
      by (intro order_ok_start) (auto simp: runtime_inv_def shape_inv_def)
    moreover have "status_inv r s'"
      using ok(1) by (simp add: status_inv_def) (simp add: s')
    ultimately show ?thesis by (simp add: Pair runtime_inv_def)
  qed
qed

lemma runtime_inv_complete:
  assumes inv: "runtime_inv r parent s"
  shows "runtime_inv r parent (snd (complete n res s))"
proof (cases "state_of s n = Some Running")
  case False
  then show ?thesis using inv by (simp add: complete_def require_running_def fails_def)
next
  case True
  let ?s = "s\<lparr>budget := snd (release n (budget s)), states := bm_insert n Done (states s),
      results := bm_insert n res (results s)\<rparr>"
  have st: "state_of ?s = (state_of s)(n \<mapsto> Done)" by (simp add: bm_get_states)
  have "n \<in> route_ids r" using inv True by (auto simp: runtime_inv_def shape_inv_def)
  then have shape: "shape_inv r ?s"
    using inv unfolding runtime_inv_def shape_inv_def st by (auto simp: bm.wf_put)
  moreover have "budget_inv parent ?s"
    using inv budget.release_sound budget.release_held [of n "budget s"]
    unfolding runtime_inv_def budget_inv_def st by auto
  moreover have "results_inv ?s"
    using inv unfolding runtime_inv_def results_inv_def st by auto
  moreover have "order_ok r (state_of ?s)"
    unfolding st using inv True by (intro order_ok_leave_running) (auto simp: runtime_inv_def)
  moreover have "all_terminal_with_tolerated_failures ?s \<longleftrightarrow> tolerated r (state_of ?s)"
    using shape by (intro all_terminal_iff) (auto simp: shape_inv_def)
  moreover have "status s = RouteCompleted \<longrightarrow> tolerated r (state_of ?s)"
    and "status s \<noteq> RouteCancelled" "status s \<noteq> ReplanRequested"
    using inv True unfolding runtime_inv_def status_inv_def st by (auto simp: tolerated_def quiet_def)
  ultimately have "runtime_inv r parent
      (if all_terminal_with_tolerated_failures ?s then ?s\<lparr>status := RouteCompleted\<rparr> else ?s)"
    unfolding runtime_invs by auto
  then show ?thesis using True by (simp add: complete_def require_running_def Let_def)
qed


lemma runtime_inv_cancel:
  assumes "shape_inv r s" "budget_inv parent s" "results_inv s" "order_ok r (state_of s)"
    and "status s \<noteq> RouteCompleted"
  shows "runtime_inv r parent (cancel_unfinished s)" "quiet (state_of (cancel_unfinished s))"
proof -
  have wf: "bm_wf (states s)" using assms(1) by (simp add: shape_inv_def)
  note st = cancel_unfinished_state [OF wf]
  show quiet: "quiet (state_of (cancel_unfinished s))" by (simp add: st cancelled_facts)
  have "shape_inv r (cancel_unfinished s)"
    using assms(1) by (simp add: shape_inv_def st cancelled_facts cancel_unfinished_fields)
  moreover have "budget_inv parent (cancel_unfinished s)"
    using assms(2) unfolding budget_inv_def st
    by (auto simp: cancel_unfinished_fields cancelled_def split: if_splits)
  moreover have "results_inv (cancel_unfinished s)"
    using assms(3) by (simp add: results_inv_def st cancelled_facts cancel_unfinished_fields)
  moreover have "order_ok r (state_of (cancel_unfinished s))"
    using assms(4) by (simp add: st order_ok_cancelled)
  moreover have "status_inv r (cancel_unfinished s)"
    using assms(5) quiet by (simp add: status_inv_def cancel_unfinished_fields)
  ultimately show "runtime_inv r parent (cancel_unfinished s)" by (simp add: runtime_inv_def)
qed

lemma runtime_inv_fail:
  assumes inv: "runtime_inv r parent s"
  shows "runtime_inv r parent (snd (fail n s))"
proof (cases "state_of s n = Some Running")
  case False
  then show ?thesis using inv by (simp add: fail_def require_running_def fails_def)
next
  case True
  let ?s = "s\<lparr>budget := snd (release n (budget s)), states := bm_insert n Failed (states s)\<rparr>"
  have st: "state_of ?s = (state_of s)(n \<mapsto> Failed)" by (simp add: bm_get_states)
  have "n \<in> route_ids r" using inv True by (auto simp: runtime_inv_def shape_inv_def)
  then have shape: "shape_inv r ?s"
    using inv unfolding runtime_inv_def shape_inv_def st by (auto simp: bm.wf_put)
  moreover have budget: "budget_inv parent ?s"
    using inv budget.release_sound budget.release_held [of n "budget s"]
    unfolding runtime_inv_def budget_inv_def st by auto
  moreover have results: "results_inv ?s"
    using inv True by (auto simp: runtime_inv_def results_inv_def st simp del: not_None_eq)
  moreover have order: "order_ok r (state_of ?s)"
    unfolding st using inv True by (intro order_ok_leave_running) (auto simp: runtime_inv_def)
  moreover have stat: "status s \<noteq> RouteCompleted" "status s \<noteq> RouteCancelled" "status s \<noteq> ReplanRequested"
    using inv True unfolding runtime_inv_def status_inv_def by (auto simp: tolerated_def quiet_def)
  ultimately have same: "runtime_inv r parent ?s" "runtime_inv r parent (?s\<lparr>status := RouteFailed\<rparr>)"
    unfolding runtime_invs by auto
  have cancel: "runtime_inv r parent (cancel_unfinished (?s\<lparr>status := t\<rparr>))" if "t \<noteq> RouteCompleted" for t
    using shape budget results order that
    by (intro runtime_inv_cancel) (simp_all add: shape_inv_def budget_inv_def results_inv_def)
  show ?thesis
    using True same cancel by (simp add: fail_def require_running_def Let_def)
qed

lemma runtime_inv_retry:
  assumes inv: "runtime_inv r parent s"
  shows "runtime_inv r parent (snd (retry n intent absent s))"
proof (cases "state_of s n = Some Failed")
  case False
  then show ?thesis using inv by (simp add: retry_def)
next
  case True
  have keep: "runtime_inv r parent (s\<lparr>intent_attempts := i\<rparr>)" for i
    using inv unfolding runtime_invs by simp
  have move: "runtime_inv r parent (s\<lparr>intent_attempts := i, states := bm_insert n x (states s), status := t\<rparr>)"
    if x: "x = Pending \<or> x = OutcomeUnknown" and t: "t = RouteRunning \<or> t = RouteFailed" for i x t
  proof -
    let ?s = "s\<lparr>intent_attempts := i, states := bm_insert n x (states s), status := t\<rparr>"
    have st: "state_of ?s = (state_of s)(n \<mapsto> x)" by (simp add: bm_get_states)
    have "n \<in> route_ids r" using inv True by (auto simp: runtime_inv_def shape_inv_def)
    then have "shape_inv r ?s"
      using inv unfolding runtime_inv_def shape_inv_def st by (auto simp: bm.wf_put)
    moreover have "budget_inv parent ?s"
      using inv True x by (auto simp: runtime_inv_def budget_inv_def st simp del: not_None_eq)
    moreover have "results_inv ?s"
      using inv True x by (auto simp: runtime_inv_def results_inv_def st simp del: not_None_eq)
    moreover have "order_ok r (state_of ?s)"
      unfolding st using inv True x by (intro order_ok_leave_failed) (auto simp: runtime_inv_def)
    moreover have "status_inv r ?s" using t by (auto simp: status_inv_def)
    ultimately show ?thesis by (simp add: runtime_inv_def)
  qed
  have unknown: "runtime_inv r parent (s\<lparr>states := bm_insert n OutcomeUnknown (states s), status := RouteFailed\<rparr>)"
    using move [of OutcomeUnknown RouteFailed "intent_attempts s"] by simp
  show ?thesis
    using inv keep unknown move [of Pending RouteRunning]
    by (simp add: retry_def Let_def split: sum.split)
qed

lemma runtime_inv_cancel_parent:
  assumes "runtime_inv r parent s"
  shows "runtime_inv r parent (cancel_parent s)"
  unfolding cancel_parent_def using assms
  by (intro runtime_inv_cancel) (simp_all add: runtime_inv_def shape_inv_def budget_inv_def results_inv_def)

lemma runtime_reach_inv: "runtime_reach r parent s \<Longrightarrow> runtime_inv r parent s"
  by (induction rule: runtime_reach.induct)
     (simp_all only: runtime_inv_new runtime_inv_start runtime_inv_complete runtime_inv_fail
       runtime_inv_retry runtime_inv_cancel_parent)


subsection \<open>What a runtime promises\<close>

lemma runtime_reach_valid: "runtime_reach r parent s \<Longrightarrow> well_formed_route r"
  by (induction rule: runtime_reach.induct)
     (auto simp: runtime_new_def and_then_Inr_iff validate_route_ok)

text \<open>C12: In every reachable runtime the parent's budget is split exactly between what remains and what
  the running nodes hold; only running nodes hold anything, so when no node runs, and in particular
  after the parent was cancelled, the whole budget is free again.\<close>

theorem runtime_budget_conserved:
  assumes "runtime_reach r parent s"
  shows "unat (remaining_budget s)
      + (\<Sum>n\<in>{n. state_of s n = Some Running}. unat (the (held (budget s) n))) = unat parent
    \<and> remaining_budget (cancel_parent s) = parent"
proof -
  have inv: "runtime_inv r parent s" "runtime_inv r parent (cancel_parent s)"
    using runtime_reach_inv [OF assms] runtime_inv_cancel_parent by blast+
  have split: "unat (remaining_budget t)
      + (\<Sum>n\<in>{n. state_of t n = Some Running}. unat (the (held (budget t) n))) = unat parent"
    if "runtime_inv r parent t" for t
  proof -
    have "dom (held (budget t)) = {n. state_of t n = Some Running}"
      using that by (auto simp: runtime_inv_def budget_inv_def)
    then show ?thesis
      using that budget.sound_total [of "unat parent" "budget t"]
      by (simp add: runtime_inv_def budget_inv_def remaining_budget_def free_units_def)
  qed
  have "status (cancel_parent s) = RouteCancelled" by (simp add: cancel_parent_def cancel_unfinished_fields)
  then have "quiet (state_of (cancel_parent s))"
    using inv(2) by (simp add: runtime_inv_def status_inv_def)
  then have "{n. state_of (cancel_parent s) n = Some Running} = {}" by (simp add: quiet_def)
  then have "unat (remaining_budget (cancel_parent s)) = unat parent"
    using split [OF inv(2)] by simp
  then have "remaining_budget (cancel_parent s) = parent" by (simp only: word_unat_eq_iff)
  then show ?thesis using split [OF inv(1)] by (simp only: simp_thms)
qed

text \<open>C13: In every reachable runtime a node that runs, is done, failed or has an unknown outcome has all
  its strict dependencies done; results belong exactly to the nodes that are done; a route reported
  as completed has only done nodes and failures its edges tolerate; and a cancelled route, or one
  that waits for a new plan, has no node left to run or running.\<close>

theorem runtime_order_and_results:
  assumes "runtime_reach r parent s"
  shows "(\<forall>e\<in>set (edges r). on_failure e \<noteq> Continue \<longrightarrow> engaged (state_of s (edge_to e))
        \<longrightarrow> state_of s (edge_from e) = Some Done)
    \<and> (\<forall>n. bm_get (results s) n \<noteq> None \<longleftrightarrow> state_of s n = Some Done)
    \<and> (status s = RouteCompleted \<longrightarrow> tolerated r (state_of s))
    \<and> (status s = RouteCancelled \<or> status s = ReplanRequested \<longrightarrow> quiet (state_of s))"
proof -
  have inv: "runtime_inv r parent s" by (rule runtime_reach_inv [OF assms])
  then show ?thesis
    unfolding runtime_inv_def order_ok_def results_inv_def status_inv_def by blast
qed



subsection \<open>Retries are bounded\<close>

definition attempt_count :: "route_runtime \<Rightarrow> string \<Rightarrow> u32" where
  "attempt_count s n = (case bm_get (attempts s) n of None \<Rightarrow> 0 | Some k \<Rightarrow> k)"

definition retry_limit :: "route_node \<Rightarrow> nat" where
  "retry_limit node = max 1 (unat (max_attempts (retry_policy node)))"

definition attempts_inv :: "execution_route \<Rightarrow> route_runtime \<Rightarrow> bool" where
  "attempts_inv r s \<longleftrightarrow>
     (\<forall>node\<in>set (nodes r). unat (attempt_count s (node_id node)) \<le> retry_limit node
        \<and> (state_of s (node_id node) = Some Pending \<longrightarrow> unat (attempt_count s (node_id node)) < retry_limit node))"

lemma attempts_inv_mono:
  assumes "attempts_inv r s" and "attempts s' = attempts s"
    and "\<And>n. state_of s' n = Some Pending \<Longrightarrow> state_of s n = Some Pending"
  shows "attempts_inv r s'"
  using assms by (auto simp: attempts_inv_def attempt_count_def)

lemma retry_limit_bound: "retry_limit node < 2 ^ 32"
  using unsigned_less [of "max_attempts (retry_policy node)", where ?'a = nat]
  by (simp add: retry_limit_def)

lemma attempts_inv_start:
  assumes inv: "attempts_inv r s"
  shows "attempts_inv r (snd (start n s))"
proof (cases "start n s")
  case (Pair res s')
  show ?thesis
  proof (cases res)
    case (Inl e)
    then show ?thesis using Pair inv start_err by fastforce
  next
    case (Inr u)
    then have "start n s = (Inr u, s')" using Pair by simp
    then obtain units where n: "state_of s n = Some Pending"
      and s': "s' = s\<lparr>budget := snd (reserve n units (budget s)), states := bm_insert n Running (states s),
        attempts := bm_insert n ((case bm_get (attempts s) n of None \<Rightarrow> 0 | Some k \<Rightarrow> k) + 1) (attempts s)\<rparr>"
      by (rule start_ok)
    have count: "attempt_count s' m = (if m = n then attempt_count s n + 1 else attempt_count s m)" for m
      by (simp add: s' attempt_count_def)
    have st: "state_of s' = (state_of s)(n \<mapsto> Running)" by (simp add: s')
    have bump: "unat (attempt_count s n + 1) \<le> retry_limit node" if "node \<in> set (nodes r)" "node_id node = n" for node
    proof -
      have less: "unat (attempt_count s n) < retry_limit node"
        using inv that n by (auto simp: attempts_inv_def)
      then have "unat (attempt_count s n) + unat (1 :: u32) < 2 ^ LENGTH(32)"
        using retry_limit_bound [of node] by simp
      then have "unat (attempt_count s n + 1) = unat (attempt_count s n) + unat (1 :: u32)"
        by (rule unat_add_no_wrap)
      then show ?thesis using less by simp
    qed
    then have "attempts_inv r s'"
      using inv bump unfolding attempts_inv_def count st by auto
    then show ?thesis by (simp add: Pair)
  qed
qed

lemma find_node_unique:
  assumes "distinct (map node_id (nodes (the_route s)))" and "node \<in> set (nodes (the_route s))"
    and "find_node s (node_id node) = Inr found"
  shows "found = node"
proof -
  have "found \<in> set (nodes (the_route s))" "node_id found = node_id node"
    using assms(3) by (auto simp: find_node_def find_Some_iff)
  then show ?thesis using assms(1,2) by (auto simp: distinct_map dest: inj_onD)
qed

lemma attempts_inv_retry:
  assumes inv: "attempts_inv r s" and r: "the_route s = r" "distinct (map node_id (nodes r))"
  shows "attempts_inv r (snd (retry n intent absent s))"
proof -
  let ?s = "s\<lparr>intent_attempts := insert (n, intent) (intent_attempts s)\<rparr>"
  have keep: "attempts_inv r ?s"
    using inv by (rule attempts_inv_mono) simp_all
  have unknown: "attempts_inv r (s\<lparr>states := bm_insert n OutcomeUnknown (states s), status := RouteFailed\<rparr>)"
    using inv by (rule attempts_inv_mono) (auto split: if_splits)
  have again: "attempts_inv r (?s\<lparr>states := bm_insert n Pending (states ?s), status := RouteRunning\<rparr>)"
    if found: "find_node ?s n = Inr node" "attempt_count s n < max_attempts (retry_policy node)" for node
  proof -
    have less: "unat (attempt_count s (node_id m)) < retry_limit m"
      if "m \<in> set (nodes r)" "node_id m = n" for m
    proof -
      have "node = m"
        using find_node_unique [of ?s m node] found(1) that r by simp
      then have "unat (attempt_count s n) < unat (max_attempts (retry_policy m))"
        using found(2) by (simp add: word_less_nat_alt)
      then show ?thesis using that(2) by (simp add: retry_limit_def)
    qed
    have count: "attempt_count (?s\<lparr>states := bm_insert n Pending (states ?s), status := RouteRunning\<rparr>)
        = attempt_count s" by (simp add: attempt_count_def fun_eq_iff)
    show ?thesis using inv less unfolding attempts_inv_def count by auto
  qed
  show ?thesis
    using inv keep unknown again
    by (auto simp: retry_def Let_def attempt_count_def not_le split: sum.split)
qed

lemma attempts_inv_cancel: "attempts_inv r s \<Longrightarrow> bm_wf (states s) \<Longrightarrow> attempts_inv r (cancel_unfinished s)"
  by (erule attempts_inv_mono) (auto simp: cancel_unfinished_fields cancel_unfinished_state dest: cancelled_facts(1))

lemma attempts_inv_complete:
  assumes inv: "attempts_inv r s"
  shows "attempts_inv r (snd (complete n res s))"
  using inv
  by (rule attempts_inv_mono)
     (auto simp: complete_def require_running_def Let_def ensure_def fails_def split: if_splits)

lemma attempts_inv_fail:
  assumes inv: "attempts_inv r s" and wf: "bm_wf (states s)"
  shows "attempts_inv r (snd (fail n s))"
proof (cases "state_of s n = Some Running")
  case True
  let ?s = "s\<lparr>budget := snd (release n (budget s)), states := bm_insert n Failed (states s)\<rparr>"
  have step: "attempts_inv r (?s\<lparr>status := t\<rparr>)" for t
    using inv by (rule attempts_inv_mono) (auto split: if_splits)
  moreover have "attempts_inv r (cancel_unfinished (?s\<lparr>status := t\<rparr>))" for t
    using step wf by (intro attempts_inv_cancel) (simp_all add: bm.wf_put)
  moreover have "attempts_inv r ?s" using step [of "status s"] by simp
  ultimately show ?thesis using True by (simp add: fail_def require_running_def Let_def)
qed (use inv in \<open>simp add: fail_def require_running_def fails_def\<close>)

lemma runtime_reach_attempts: "runtime_reach r parent s \<Longrightarrow> attempts_inv r s"
proof (induction rule: runtime_reach.induct)
  case (runtime_start s)
  have "attempt_count s n = 0" for n
    using runtime_start by (auto simp: runtime_new_def and_then_Inr_iff Let_def attempt_count_def)
  then show ?case by (simp add: attempts_inv_def retry_limit_def less_max_iff_disj)
next
  case (runtime_retry s n intent absent)
  have "the_route s = r" using runtime_reach_inv [OF runtime_retry.hyps]
    by (simp add: runtime_inv_def shape_inv_def)
  moreover have "distinct (map node_id (nodes r))"
    using runtime_reach_valid [OF runtime_retry.hyps] by (simp add: well_formed_route_def)
  ultimately show ?case using runtime_retry.IH by (intro attempts_inv_retry)
next
  case (runtime_fail s n)
  then show ?case
    using runtime_reach_inv [of r parent s] by (intro attempts_inv_fail) (auto simp: runtime_inv_def shape_inv_def)
next
  case (runtime_cancel s)
  then have "bm_wf (states s)" using runtime_reach_inv [of r parent s] by (auto simp: runtime_inv_def shape_inv_def)
  moreover have "attempts_inv r (s\<lparr>status := RouteCancelled\<rparr>)"
    using runtime_cancel.IH by (rule attempts_inv_mono) simp_all
  ultimately show ?case unfolding cancel_parent_def by (intro attempts_inv_cancel) simp_all
qed (simp_all only: attempts_inv_start attempts_inv_complete)

text \<open>No node of a reachable runtime is ever started more often than its retry policy allows (and
  at least one start is always allowed), so the 32-bit attempt counter never wraps.\<close>

theorem runtime_attempts_bounded:
  assumes "runtime_reach r parent s" and "node \<in> set (nodes r)"
  shows "unat (attempt_count s (node_id node)) \<le> max 1 (unat (max_attempts (retry_policy node)))"
  using runtime_reach_attempts [OF assms(1)] assms(2) by (simp add: attempts_inv_def retry_limit_def)


subsection \<open>Two surprises\<close>

lemma tolerant_fail:
  assumes "state_of s a = Some Running" and "\<forall>e\<in>set (edges (the_route s)). edge_from e = a \<longrightarrow> on_failure e = Continue"
    and "\<forall>m. state_of s m \<noteq> Some Pending"
  shows "snd (fail a s) = s\<lparr>budget := snd (release a (budget s)), states := bm_insert a Failed (states s),
      status := RouteFailed\<rparr>"
proof -
  let ?s = "s\<lparr>budget := snd (release a (budget s)), states := bm_insert a Failed (states s)\<rparr>"
  have "runnable ?s = []" using assms(3) by (simp add: runnable_def filter_empty_conv)
  then show ?thesis using assms(1,2) by (auto simp: fail_def require_running_def Let_def)
qed

text \<open>The final status of a route depends on the order in which its last two nodes report. When a
  node whose failure every edge tolerates fails while another still runs, the route is marked failed,
  and is then turned from failed into completed by the other node's completion; if the other node
  completes first and the tolerated failure comes last, the route stays failed.\<close>

theorem runtime_status_order_dependent:
  assumes "runtime_reach r parent s" and "status s = RouteRunning" and "a \<noteq> b"
    and "state_of s a = Some Running" and "state_of s b = Some Running"
    and "\<forall>m. m \<noteq> a \<and> m \<noteq> b \<longrightarrow> state_of s m = None \<or> state_of s m = Some Done"
    and "\<forall>e\<in>set (edges r). edge_from e = a \<longrightarrow> on_failure e = Continue"
  shows "status (snd (fail a s)) = RouteFailed
    \<and> status (snd (complete b x (snd (fail a s)))) = RouteCompleted
    \<and> status (snd (fail a (snd (complete b x s)))) = RouteFailed"
proof -
  have inv: "runtime_inv r parent s" by (rule runtime_reach_inv [OF assms(1)])
  then have r: "the_route s = r" "bm_wf (states s)" by (simp_all add: runtime_inv_def shape_inv_def)
  have calm: "\<forall>m. state_of s m \<noteq> Some Pending" using assms(4,5,6) by (metis node_state.distinct(1,3) option.distinct(1) option.inject)
  note failed = tolerant_fail [OF assms(4) assms(7) [folded r(1)] calm]
  have first: "status (snd (fail a s)) = RouteFailed" by (simp add: failed)
  let ?s = "(snd (fail a s))\<lparr>budget := snd (release b (budget (snd (fail a s)))),
      states := bm_insert b Done (states (snd (fail a s))), results := bm_insert b x (results (snd (fail a s)))\<rparr>"
  have "tolerated r (state_of ?s)"
    using assms(6,7) by (auto simp: tolerated_def failed)
  moreover have "all_terminal_with_tolerated_failures ?s \<longleftrightarrow> tolerated r (state_of ?s)"
    by (rule all_terminal_iff) (simp_all add: failed r bm.wf_put)
  ultimately have second: "status (snd (complete b x (snd (fail a s)))) = RouteCompleted"
    using assms(3,5) by (simp add: complete_def require_running_def Let_def failed)
  let ?t = "s\<lparr>budget := snd (release b (budget s)), states := bm_insert b Done (states s),
      results := bm_insert b x (results s)\<rparr>"
  have "all_terminal_with_tolerated_failures ?t \<longleftrightarrow> tolerated r (state_of ?t)"
    by (rule all_terminal_iff) (simp_all add: r bm.wf_put)
  moreover have "\<not> tolerated r (state_of ?t)" using assms(3,4) by (auto simp: tolerated_def)
  ultimately have "snd (complete b x s) = ?t"
    using assms(5) by (simp add: complete_def require_running_def Let_def)
  moreover have "status (snd (fail a ?t)) = RouteFailed"
    using assms(3,4,7) calm by (subst tolerant_fail) (simp_all add: r(1))
  ultimately show ?thesis using first second by simp
qed

text \<open>Cancelling the parent does not end a route for good: a failed node of a cancelled route that
  still has an attempt left can be retried, which sets the route back to running with that node
  pending, so it can be started again after the owner's cancellation.\<close>

theorem runtime_retry_revives_cancelled:
  assumes "runtime_reach r parent s" and "node \<in> set (nodes r)" and "state_of s (node_id node) = Some Failed"
    and "(node_id node, intent) \<notin> intent_attempts s"
    and "attempt_count s (node_id node) < max_attempts (retry_policy node)"
  shows "status (cancel_parent s) = RouteCancelled
    \<and> (let s' = snd (retry (node_id node) intent True (cancel_parent s)) in
       status s' = RouteRunning \<and> state_of s' (node_id node) = Some Pending)"
proof -
  let ?c = "cancel_parent s"
  have inv: "runtime_inv r parent s" by (rule runtime_reach_inv [OF assms(1)])
  then have r: "the_route s = r" "bm_wf (states s)" by (simp_all add: runtime_inv_def shape_inv_def)
  have dist: "distinct (map node_id (nodes r))"
    using runtime_reach_valid [OF assms(1)] by (simp add: well_formed_route_def)
  have c: "status ?c = RouteCancelled" "the_route ?c = r" "attempts ?c = attempts s"
    by (simp_all add: cancel_parent_def cancel_unfinished_fields r)
  have ia: "intent_attempts ?c = intent_attempts s"
    by (simp add: cancel_parent_def cancel_unfinished_def cancel_fold)
  have st: "state_of ?c (node_id node) = Some Failed"
    using assms(3) r(2) by (simp add: cancel_parent_def cancel_unfinished_state cancelled_def)
  let ?i = "?c\<lparr>intent_attempts := insert (node_id node, intent) (intent_attempts s)\<rparr>"
  obtain found where f: "find_node ?i (node_id node) = Inr found"
    using assms(2) by (cases "find (\<lambda>c. node_id c = node_id node) (nodes r)") (auto simp: find_node_def c(2) find_None_iff)
  then have "found = node"
    using find_node_unique [of ?i node found] assms(2) dist c(2) by simp
  then show ?thesis
    using st ia assms(4,5) f c
    by (simp add: retry_def Let_def attempt_count_def not_le)
qed


subsection \<open>A worked runtime\<close>

definition example_node :: "string \<Rightarrow> route_node" where
  "example_node i =
     \<lparr>no_schema_version = 1,
      subtask = \<lparr>st_schema_version = 1, st_id = i, instruction = ''write'', st_intent_id = ''i1''\<rparr>,
      role = example_profile, resource_slice = sp_toolset example_profile,
      done_when = done_final_output ''d1'', retry_policy = \<lparr>rt_schema_version = 1, max_attempts = 2\<rparr>\<rparr>"

definition example_route :: execution_route where
  "example_route =
     \<lparr>er_schema_version = 1, er_reference = ''r1'', pattern_ref = None,
      nodes = [example_node ''a'', example_node ''b''], edges = []\<rparr>"

definition example_start :: route_runtime where
  "example_start =
     \<lparr>the_route = example_route, states = [(''a'', Pending), (''b'', Pending)], attempts = [],
      intent_attempts = {}, results = [], status = RouteRunning, budget = \<lparr>remaining = 10, reservations = []\<rparr>\<rparr>"

definition example_running :: route_runtime where
  "example_running =
     example_start\<lparr>states := [(''a'', Running), (''b'', Running)], attempts := [(''a'', 1), (''b'', 1)],
       budget := \<lparr>remaining = 4, reservations = [(''a'', 3), (''b'', 3)]\<rparr>\<rparr>"

lemma example_node_id [simp]: "node_id (example_node i) = i"
  by (simp add: example_node_def)

lemma example_route_well_formed: "well_formed_route example_route"
  by (simp add: well_formed_route_def example_route_def edge_rel_def acyclic_def)
     (simp add: example_node_def is_verifiable_def done_final_output_def)

lemma example_start_reach: "runtime_reach example_route 10 example_start"
proof (rule runtime_start)
  have "validate_route example_route = Inr ()"
    using example_route_well_formed by (simp add: validate_route_ok)
  then show "runtime_new example_route 10 = Inr example_start"
    by (simp add: runtime_new_def Let_def example_start_def ledger_new_def bm_empty_def bm_collect_def)
       (simp add: example_route_def bm_collect_def bm_empty_def)
qed

lemma example_units: "and_then (find_node s i) (\<lambda>node. budget_units (role node)) = Inr 3"
  if "the_route s = example_route" "i = ''a'' \<or> i = ''b''"
proof -
  have "find_node s i = Inr (example_node i)"
    using that by (auto simp: find_node_def example_route_def)
  moreover have "show_nat 3 = ''3''" by code_simp
  then have "parse_budget_units ''units:3'' = Inr 3" using parse_tagged_budget [of 3] by simp
  ultimately show ?thesis
    by (simp add: budget_units_def example_node_def example_profile_def)
qed

lemma start_success:
  assumes "status s = RouteRunning" "state_of s n = Some Pending" "dependencies_satisfied s n"
    "and_then (find_node s n) (\<lambda>node. budget_units (role node)) = Inr units"
    "fst (reserve n units (budget s)) = Inr ()"
  shows "snd (start n s) = s\<lparr>budget := snd (reserve n units (budget s)), states := bm_insert n Running (states s),
      attempts := bm_insert n ((case bm_get (attempts s) n of None \<Rightarrow> 0 | Some k \<Rightarrow> k) + 1) (attempts s)\<rparr>"
  using assms by (cases "reserve n units (budget s)") (simp add: start_def)

definition example_half :: route_runtime where
  "example_half =
     example_start\<lparr>states := [(''a'', Running), (''b'', Pending)], attempts := [(''a'', 1)],
       budget := \<lparr>remaining = 7, reservations = [(''a'', 3)]\<rparr>\<rparr>"

lemma example_half_eq: "snd (start ''a'' example_start) = example_half"
proof -
  have reserved: "reserve ''a'' 3 (budget example_start) = (Inr (), \<lparr>remaining = 7, reservations = [(''a'', 3)]\<rparr>)"
    by (simp add: example_start_def reserve_def bm_contains_def)
  have "snd (start ''a'' example_start) = example_start\<lparr>budget := snd (reserve ''a'' 3 (budget example_start)),
      states := bm_insert ''a'' Running (states example_start),
      attempts := bm_insert ''a'' ((case bm_get (attempts example_start) ''a'' of None \<Rightarrow> 0 | Some k \<Rightarrow> k) + 1)
        (attempts example_start)\<rparr>"
  proof (rule start_success)
    show "and_then (find_node example_start ''a'') (\<lambda>node. budget_units (role node)) = Inr 3"
      by (rule example_units) (simp_all add: example_start_def)
  qed (simp_all add: reserved, simp_all add: example_start_def state_of_def dependencies_satisfied_def example_route_def)
  also have "\<dots> = example_half" unfolding reserved by (simp add: example_half_def example_start_def)
  finally show ?thesis .
qed

lemma example_running_eq: "snd (start ''b'' example_half) = example_running"
proof -
  have reserved: "reserve ''b'' 3 (budget example_half) = (Inr (), \<lparr>remaining = 4, reservations = [(''a'', 3), (''b'', 3)]\<rparr>)"
    by (simp add: example_half_def reserve_def bm_contains_def)
  have "snd (start ''b'' example_half) = example_half\<lparr>budget := snd (reserve ''b'' 3 (budget example_half)),
      states := bm_insert ''b'' Running (states example_half),
      attempts := bm_insert ''b'' ((case bm_get (attempts example_half) ''b'' of None \<Rightarrow> 0 | Some k \<Rightarrow> k) + 1)
        (attempts example_half)\<rparr>"
  proof (rule start_success)
    show "and_then (find_node example_half ''b'') (\<lambda>node. budget_units (role node)) = Inr 3"
      by (rule example_units) (simp_all add: example_half_def example_start_def)
  qed (simp_all add: reserved,
      simp_all add: example_half_def example_start_def state_of_def dependencies_satisfied_def example_route_def)
  also have "\<dots> = example_running" unfolding reserved
    by (simp add: example_half_def example_running_def example_start_def)
  finally show ?thesis .
qed

lemma example_running_reach: "runtime_reach example_route 10 example_running"
  unfolding example_running_eq [symmetric] example_half_eq [symmetric]
  by (intro runtime_node_start example_start_reach)

lemma example_running_state:
  "state_of example_running n = (if n = ''a'' \<or> n = ''b'' then Some Running else None)"
  "status example_running = RouteRunning" "edges example_route = []"
  by (simp_all add: state_of_def example_running_def example_start_def example_route_def)


lemma runtime_budget_conserved_witness:
  "unat (remaining_budget example_running)
     + (\<Sum>n\<in>{n. state_of example_running n = Some Running}. unat (the (held (budget example_running) n))) = 10"
  using runtime_budget_conserved [OF example_running_reach] by simp

lemma runtime_order_and_results_witness: "bm_get (results example_running) ''a'' = None"
  using runtime_order_and_results [OF example_running_reach, THEN conjunct2, THEN conjunct1, THEN spec, of "''a''"]
  by (simp add: example_running_state)


lemma runtime_attempts_bounded_witness: "unat (attempt_count example_running ''a'') \<le> 2"
  using runtime_attempts_bounded [OF example_running_reach, of "example_node ''a''"]
  by (simp add: example_route_def) (simp add: example_node_def)

lemma runtime_status_order_dependent_witness:
  "status (snd (complete ''b'' ''x'' (snd (fail ''a'' example_running)))) = RouteCompleted
    \<and> status (snd (fail ''a'' (snd (complete ''b'' ''x'' example_running)))) = RouteFailed"
  using runtime_status_order_dependent [OF example_running_reach, of "''a''" "''b''" "''x''"]
  by (simp add: example_running_state)

lemma example_failed_reach: "runtime_reach example_route 10 (snd (fail ''a'' example_running))"
  by (intro runtime_fail example_running_reach)

lemma example_failed_eq:
  "snd (fail ''a'' example_running) = example_running\<lparr>budget := snd (release ''a'' (budget example_running)),
    states := bm_insert ''a'' Failed (states example_running), status := RouteFailed\<rparr>"
proof -
  have "edges (the_route example_running) = []"
    by (simp add: example_running_def example_start_def example_route_def)
  then show ?thesis by (intro tolerant_fail) (simp_all add: example_running_state)
qed

lemma example_failed_facts:
  "state_of (snd (fail ''a'' example_running)) ''a'' = Some Failed"
  "intent_attempts (snd (fail ''a'' example_running)) = {}"
  "attempt_count (snd (fail ''a'' example_running)) ''a'' = 1"
  "max_attempts (retry_policy (example_node ''a'')) = 2"
  "example_node ''a'' \<in> set (nodes example_route)"
  by (simp_all add: example_failed_eq attempt_count_def)
     (simp_all add: example_running_def example_start_def example_node_def example_route_def)

lemma runtime_retry_revives_cancelled_witness:
  "status (cancel_parent (snd (fail ''a'' example_running))) = RouteCancelled
    \<and> status (snd (retry ''a'' ''i2'' True (cancel_parent (snd (fail ''a'' example_running))))) = RouteRunning"
  using runtime_retry_revives_cancelled [OF example_failed_reach example_failed_facts(5), of "''i2''"]
  by (simp add: Let_def example_failed_facts)

end
