(* ===== verification/Byte_Encoding.thy ===== *)
theory Byte_Encoding
  imports Rust_Strings
begin

unbundle bit_operations_syntax

text \<open>
  The byte encodings the event store compares and hashes: little-endian integers, the
  length-prefixed fields of \<open>push_identity_field\<close> and \<open>push_semantic_field\<close>
  (\<open>store/src/schema.rs\<close>, \<open>store/src/sqlite.rs\<close>) and the FNV-1a row checksum of
  \<open>store/src/checksum.rs\<close>. The lemmas show that a sequence of length-prefixed fields determines the
  fields, which is what lets the store compare encodings instead of values.
\<close>

type_synonym bytes = string

subsection \<open>Little-endian integers\<close>

fun le_bytes :: "nat \<Rightarrow> nat \<Rightarrow> bytes" where
  "le_bytes 0 v = []"
| "le_bytes (Suc n) v = char_of (v mod 256) # le_bytes n (v div 256)"

lemma length_le_bytes [simp]: "length (le_bytes n v) = n"
  by (induction n arbitrary: v) simp_all

lemma le_bytes_inj: "le_bytes n v = le_bytes n w \<Longrightarrow> v < 256 ^ n \<Longrightarrow> w < 256 ^ n \<Longrightarrow> v = w"
proof (induction n arbitrary: v w)
  case 0
  then show ?case by simp
next
  case (Suc n)
  have low: "v mod 256 = w mod 256"
    using Suc.prems(1) by (metis le_bytes.simps(2) list.inject mod_mod_trivial of_char_of)
  have "v div 256 < 256 ^ n" "w div 256 < 256 ^ n"
    using Suc.prems(2,3) by (simp_all add: less_mult_imp_div_less mult.commute)
  then have "v div 256 = w div 256" using Suc.IH Suc.prems(1) by simp
  then show ?case using low by (metis div_mult_mod_eq)
qed

text \<open>The two's complement bytes of an \<open>i64\<close>.\<close>

definition le_bytes_i64 :: "int \<Rightarrow> bytes" where
  "le_bytes_i64 v = le_bytes 8 (nat (v mod 2 ^ 64))"

definition is_i64 :: "int \<Rightarrow> bool" where
  "is_i64 v \<longleftrightarrow> - (2 ^ 63) \<le> v \<and> v < 2 ^ 63"

lemma le_bytes_i64_inj:
  assumes "le_bytes_i64 v = le_bytes_i64 w" "is_i64 v" "is_i64 w"
  shows "v = w"
proof -
  have "nat (v mod 2 ^ 64) < 256 ^ 8" "nat (w mod 2 ^ 64) < 256 ^ 8" by simp_all
  then have "nat (v mod 2 ^ 64) = nat (w mod 2 ^ 64)"
    using assms(1) le_bytes_inj unfolding le_bytes_i64_def by blast
  then have "v mod 2 ^ 64 = w mod 2 ^ 64" by (simp add: nat_eq_iff)
  then have "2 ^ 64 dvd v - w" by (simp add: mod_eq_dvd_iff)
  moreover have "\<bar>v - w\<bar> < 2 ^ 64" using assms(2,3) unfolding is_i64_def by (auto simp: abs_less_iff)
  ultimately show ?thesis using zdvd_imp_le by (smt (verit) dvd_minus_iff)
qed

subsection \<open>Length-prefixed fields\<close>

definition push_field :: "bytes \<Rightarrow> bytes \<Rightarrow> bytes" where
  "push_field encoded value = encoded @ le_bytes 8 (length value) @ value"

definition push_fields :: "bytes \<Rightarrow> bytes list \<Rightarrow> bytes" where
  "push_fields encoded vs = fold (\<lambda>v e. push_field e v) vs encoded"

definition field_bytes :: "bytes list \<Rightarrow> bytes" where
  "field_bytes vs = concat (map (push_field []) vs)"

text \<open>A Rust buffer never exceeds \<open>isize::MAX\<close> bytes, so its length fits in the eight length bytes.\<close>

definition fits :: "bytes \<Rightarrow> bool" where
  "fits v \<longleftrightarrow> length v < 2 ^ 63"

lemma fits_le_bytes [simp]: "fits (le_bytes 4 v)" "fits (le_bytes 8 v)"
  by (simp_all add: fits_def)

lemma push_fields_eq: "push_fields encoded vs = encoded @ field_bytes vs"
  by (induction vs arbitrary: encoded) (simp_all add: push_fields_def field_bytes_def push_field_def)

lemma push_fields_simps [simp]:
  "push_fields e [] = e"
  "push_fields e (v # vs) = push_fields (push_field e v) vs"
  by (simp_all add: push_fields_def)

lemma push_field_split:
  assumes "push_field [] v @ r = push_field [] w @ s" "fits v" "fits w"
  shows "v = w \<and> r = s"
proof -
  have "le_bytes 8 (length v) = le_bytes 8 (length w)"
    using assms(1) by (simp add: push_field_def)
  moreover have "length v < 256 ^ 8" "length w < 256 ^ 8" using assms(2,3) by (simp_all add: fits_def)
  ultimately have "length v = length w" by (rule le_bytes_inj)
  then show ?thesis using assms(1) by (simp add: push_field_def)
qed

lemma push_field_not_Nil [simp]: "push_field e v \<noteq> []"
  by (metis append_is_Nil_conv length_le_bytes list.size(3) push_field_def zero_neq_numeral)

lemma field_bytes_inj:
  assumes "field_bytes vs = field_bytes ws" "list_all fits vs" "list_all fits ws"
  shows "vs = ws"
  using assms
proof (induction vs arbitrary: ws)
  case Nil
  then show ?case by (cases ws) (simp_all add: field_bytes_def)
next
  case (Cons v vs)
  then obtain w ws' where ws: "ws = w # ws'" by (cases ws) (simp_all add: field_bytes_def)
  have "v = w \<and> field_bytes vs = field_bytes ws'"
    using Cons.prems unfolding ws by (intro push_field_split) (simp_all add: field_bytes_def)
  then show ?case using Cons.IH Cons.prems unfolding ws by simp
qed

text \<open>Records of a fixed number of fields written one after the other.\<close>

lemma concat_map_inj:
  assumes "concat (map f xs) = concat (map f ys)" "\<And>x. length (f x) = n" "0 < n"
    "\<And>x y. x \<in> set xs \<Longrightarrow> y \<in> set ys \<Longrightarrow> f x = f y \<Longrightarrow> x = y"
  shows "xs = ys"
  using assms(1,4)
proof (induction xs arbitrary: ys)
  case Nil
  then show ?case using assms(2,3) by (cases ys) force+
next
  case (Cons x xs)
  then obtain y ys' where ys: "ys = y # ys'"
    using assms(2,3) by (cases ys) force+
  have "f x = f y \<and> concat (map f xs) = concat (map f ys')"
    using Cons.prems(1) assms(2) unfolding ys by simp
  then show ?case using Cons unfolding ys by simp
qed

lemma fold_push_fields:
  "fold (\<lambda>x encoded. push_fields encoded (f x)) xs e = e @ field_bytes (concat (map f xs))"
  by (induction xs arbitrary: e) (simp_all add: push_fields_eq field_bytes_def)

subsection \<open>The FNV-1a checksum of a stored row\<close>

definition fnv_offset_basis :: u64 where "fnv_offset_basis = 14695981039346656037"

definition fnv_prime :: u64 where "fnv_prime = 1099511628211"

definition fnv_write :: "bytes \<Rightarrow> u64 \<Rightarrow> u64" where
  "fnv_write bs hash = fold (\<lambda>b h. (h XOR word_of_nat (byte b)) * fnv_prime) bs hash"

definition fnv_write_sized :: "bytes \<Rightarrow> u64 \<Rightarrow> u64" where
  "fnv_write_sized bs hash = fnv_write bs (fnv_write (le_bytes 8 (length bs)) hash)"

definition hex_digit :: "nat \<Rightarrow> char" where
  "hex_digit d = char_of (if d < 10 then 48 + d else 87 + d)"

definition hex16 :: "u64 \<Rightarrow> string" where
  "hex16 w = map (\<lambda>i. hex_digit (unat w div 16 ^ (15 - i) mod 16)) [0..<16]"

definition calculate_bytes :: "bytes \<Rightarrow> string" where
  "calculate_bytes bs =
     hex16 (fnv_write_sized bs (fnv_write_sized ''forme-redacted-payload-v1'' fnv_offset_basis))"

lemma fnv_write_append: "fnv_write (a @ b) h = fnv_write b (fnv_write a h)"
  by (simp add: fnv_write_def)

lemma length_hex16 [simp]: "length (hex16 w) = 16"
  by (simp add: hex16_def)

end
