(* ===== verification/Event_Kinds.thy ===== *)
theory Event_Kinds
  imports Byte_Encoding
begin

text \<open>
  The 99 event kinds of \<open>protocol/src/event.rs\<close>, in the order of the \<open>define_events\<close> table, which is
  also the order of the store's \<open>PayloadType\<close> (\<open>store/src/schema.rs\<close>). The kinds are grouped by the
  lettered sections A to R of that table; \<open>event_kind_table\<close> is \<open>ALL\<close> together with the names that
  \<open>stringify!\<close> produces. The kinds are linearly ordered by their position in the table, which is the
  derived \<open>Ord\<close> of \<open>PayloadType\<close>.
\<close>

subsection \<open>The taxonomy\<close>

datatype lifecycle_kind =
    RunAccepted | SessionBound | RunComplete | RunAborted | RunFailed | RunLimited
  | RunWaiting | RunResumed

datatype turn_kind =
    TurnStarted | TurnComplete | ContextBuildStarted | ContextBuildFinished
  | CompactionStarted | CompactionFinished

datatype model_kind =
    ModelCallStarted | ModelCallDelta | ModelCallFinished | OutputClassified

datatype tool_kind =
    ToolCallProposed | ToolPolicyEvaluated | ApprovalRequested | ApprovalResolved
  | HandoffRequested | HandoffResolved

datatype action_kind =
    ActionPlanned | ActionStarted | ActionOutputDelta | ActionCompleted | ActionFailed
  | ActionDenied | ActionCancelled | ActionOutcomeUnknown

datatype verification_kind =
    VerificationStarted | VerificationFinished

datatype failure_kind =
    FailureEvidenceRecorded | FailureDigestUpdated

datatype candidate_kind =
    CandidateCreated | CandidateConflictDetected | CandidatePromoted | CandidateRejected
  | CandidateDowngraded | CandidateDecayed | RetractionEvent | RevocationEvent
  | ReevaluationTaskCreated

datatype cognitive_kind =
    ObservationRecorded | OpportunityDetected | ValueGateEvaluated | CompetenceGateEvaluated
  | ImpulseRaised | ReflectionProduced | ProactiveProposalEmitted
  | ProactiveProposalResolved | ProspectiveIntentionCreated | ProspectiveIntentionResolved

datatype coordination_kind =
    GoalFramed | ResourcePlanned | DoneContractSet | AutonomyEnvelopeSet
  | DecisionTraceRecorded | OrchestrationRouteCreated | SubagentSpawned
  | SubagentResultReturned

datatype capability_kind =
    CapabilityIndexed | ToolsetResolved | McpDiscovered | McpCallEvent
  | SkillMetadataExposed | SkillBodyLoaded | PluginContributionRegistered | PluginToggled
  | CapabilityEvidenceRecorded

datatype communication_kind =
    CommunicationEventReceived | CommunicationSessionOpened | CommunicationSessionTerminated
  | ExternalCommunicationGranted | DisclosurePolicyApplied | CommunicationProposalEmitted

datatype memory_kind =
    MemoryNodeAppended | MemoryEdgeAppended | MemoryMaintenanceApplied
  | UserAttributeCandidateCreated | ImportedHistoricalEvidenceRecorded
  | CognitiveMapUpdateProposed

datatype config_kind =
    ConfigDoctorReport | ComplianceCheckResult

datatype evolution_kind =
    EvolutionEvaluationRecorded | StrategyActivated | StrategyRolledBack

datatype federation_kind =
    FederatedPeerRegistered | FederatedPeerRevoked | RemoteExecutionLeaseChanged
  | ReplicationCheckpointAdvanced

datatype ecosystem_kind =
    CapabilityPublisherChanged | CapabilityPackageAdmitted | CapabilityPackageStateChanged
  | CapabilityPackageDistributionRecorded

datatype closure_kind =
    WorkspaceCharterChanged | DataLifecycleApplied

datatype event_kind =
    Lifecycle lifecycle_kind
  | Turn turn_kind
  | ModelEvent model_kind
  | ToolEvent tool_kind
  | Action action_kind
  | VerificationEvent verification_kind
  | Failure failure_kind
  | Candidate candidate_kind
  | Cognitive cognitive_kind
  | CoordinationEvent coordination_kind
  | Capability capability_kind
  | CommunicationEvent communication_kind
  | MemoryEvent memory_kind
  | Config config_kind
  | Evolution evolution_kind
  | Federation federation_kind
  | Ecosystem ecosystem_kind
  | Closure closure_kind

definition event_kind_table :: "(event_kind \<times> string) list" where
  "event_kind_table =
    [(Lifecycle RunAccepted, ''RunAccepted''), (Lifecycle SessionBound, ''SessionBound''), (Lifecycle
     RunComplete, ''RunComplete''), (Lifecycle RunAborted, ''RunAborted''), (Lifecycle RunFailed,
     ''RunFailed''), (Lifecycle RunLimited, ''RunLimited''), (Lifecycle RunWaiting, ''RunWaiting''),
     (Lifecycle RunResumed, ''RunResumed''),
     (Turn TurnStarted, ''TurnStarted''), (Turn TurnComplete, ''TurnComplete''), (Turn
     ContextBuildStarted, ''ContextBuildStarted''), (Turn ContextBuildFinished,
     ''ContextBuildFinished''), (Turn CompactionStarted, ''CompactionStarted''), (Turn
     CompactionFinished, ''CompactionFinished''),
     (ModelEvent ModelCallStarted, ''ModelCallStarted''), (ModelEvent ModelCallDelta,
     ''ModelCallDelta''), (ModelEvent ModelCallFinished, ''ModelCallFinished''), (ModelEvent
     OutputClassified, ''OutputClassified''),
     (ToolEvent ToolCallProposed, ''ToolCallProposed''), (ToolEvent ToolPolicyEvaluated,
     ''ToolPolicyEvaluated''), (ToolEvent ApprovalRequested, ''ApprovalRequested''), (ToolEvent
     ApprovalResolved, ''ApprovalResolved''), (ToolEvent HandoffRequested, ''HandoffRequested''),
     (ToolEvent HandoffResolved, ''HandoffResolved''),
     (Action ActionPlanned, ''ActionPlanned''), (Action ActionStarted, ''ActionStarted''), (Action
     ActionOutputDelta, ''ActionOutputDelta''), (Action ActionCompleted, ''ActionCompleted''), (Action
     ActionFailed, ''ActionFailed''), (Action ActionDenied, ''ActionDenied''), (Action ActionCancelled,
     ''ActionCancelled''), (Action ActionOutcomeUnknown, ''ActionOutcomeUnknown''),
     (VerificationEvent VerificationStarted, ''VerificationStarted''), (VerificationEvent
     VerificationFinished, ''VerificationFinished''),
     (Failure FailureEvidenceRecorded, ''FailureEvidenceRecorded''), (Failure FailureDigestUpdated,
     ''FailureDigestUpdated''),
     (Candidate CandidateCreated, ''CandidateCreated''), (Candidate CandidateConflictDetected,
     ''CandidateConflictDetected''), (Candidate CandidatePromoted, ''CandidatePromoted''), (Candidate
     CandidateRejected, ''CandidateRejected''), (Candidate CandidateDowngraded,
     ''CandidateDowngraded''), (Candidate CandidateDecayed, ''CandidateDecayed''), (Candidate
     RetractionEvent, ''RetractionEvent''), (Candidate RevocationEvent, ''RevocationEvent''),
     (Candidate ReevaluationTaskCreated, ''ReevaluationTaskCreated''),
     (Cognitive ObservationRecorded, ''ObservationRecorded''), (Cognitive OpportunityDetected,
     ''OpportunityDetected''), (Cognitive ValueGateEvaluated, ''ValueGateEvaluated''), (Cognitive
     CompetenceGateEvaluated, ''CompetenceGateEvaluated''), (Cognitive ImpulseRaised,
     ''ImpulseRaised''), (Cognitive ReflectionProduced, ''ReflectionProduced''), (Cognitive
     ProactiveProposalEmitted, ''ProactiveProposalEmitted''), (Cognitive ProactiveProposalResolved,
     ''ProactiveProposalResolved''), (Cognitive ProspectiveIntentionCreated,
     ''ProspectiveIntentionCreated''), (Cognitive ProspectiveIntentionResolved,
     ''ProspectiveIntentionResolved''),
     (CoordinationEvent GoalFramed, ''GoalFramed''), (CoordinationEvent ResourcePlanned,
     ''ResourcePlanned''), (CoordinationEvent DoneContractSet, ''DoneContractSet''), (CoordinationEvent
     AutonomyEnvelopeSet, ''AutonomyEnvelopeSet''), (CoordinationEvent DecisionTraceRecorded,
     ''DecisionTraceRecorded''), (CoordinationEvent OrchestrationRouteCreated,
     ''OrchestrationRouteCreated''), (CoordinationEvent SubagentSpawned, ''SubagentSpawned''),
     (CoordinationEvent SubagentResultReturned, ''SubagentResultReturned''),
     (Capability CapabilityIndexed, ''CapabilityIndexed''), (Capability ToolsetResolved,
     ''ToolsetResolved''), (Capability McpDiscovered, ''McpDiscovered''), (Capability McpCallEvent,
     ''McpCallEvent''), (Capability SkillMetadataExposed, ''SkillMetadataExposed''), (Capability
     SkillBodyLoaded, ''SkillBodyLoaded''), (Capability PluginContributionRegistered,
     ''PluginContributionRegistered''), (Capability PluginToggled, ''PluginToggled''), (Capability
     CapabilityEvidenceRecorded, ''CapabilityEvidenceRecorded''),
     (CommunicationEvent CommunicationEventReceived, ''CommunicationEventReceived''),
     (CommunicationEvent CommunicationSessionOpened, ''CommunicationSessionOpened''),
     (CommunicationEvent CommunicationSessionTerminated, ''CommunicationSessionTerminated''),
     (CommunicationEvent ExternalCommunicationGranted, ''ExternalCommunicationGranted''),
     (CommunicationEvent DisclosurePolicyApplied, ''DisclosurePolicyApplied''), (CommunicationEvent
     CommunicationProposalEmitted, ''CommunicationProposalEmitted''),
     (MemoryEvent MemoryNodeAppended, ''MemoryNodeAppended''), (MemoryEvent MemoryEdgeAppended,
     ''MemoryEdgeAppended''), (MemoryEvent MemoryMaintenanceApplied, ''MemoryMaintenanceApplied''),
     (MemoryEvent UserAttributeCandidateCreated, ''UserAttributeCandidateCreated''), (MemoryEvent
     ImportedHistoricalEvidenceRecorded, ''ImportedHistoricalEvidenceRecorded''), (MemoryEvent
     CognitiveMapUpdateProposed, ''CognitiveMapUpdateProposed''),
     (Config ConfigDoctorReport, ''ConfigDoctorReport''), (Config ComplianceCheckResult,
     ''ComplianceCheckResult''),
     (Evolution EvolutionEvaluationRecorded, ''EvolutionEvaluationRecorded''), (Evolution
     StrategyActivated, ''StrategyActivated''), (Evolution StrategyRolledBack, ''StrategyRolledBack''),
     (Federation FederatedPeerRegistered, ''FederatedPeerRegistered''), (Federation
     FederatedPeerRevoked, ''FederatedPeerRevoked''), (Federation RemoteExecutionLeaseChanged,
     ''RemoteExecutionLeaseChanged''), (Federation ReplicationCheckpointAdvanced,
     ''ReplicationCheckpointAdvanced''),
     (Ecosystem CapabilityPublisherChanged, ''CapabilityPublisherChanged''), (Ecosystem
     CapabilityPackageAdmitted, ''CapabilityPackageAdmitted''), (Ecosystem
     CapabilityPackageStateChanged, ''CapabilityPackageStateChanged''), (Ecosystem
     CapabilityPackageDistributionRecorded, ''CapabilityPackageDistributionRecorded''),
     (Closure WorkspaceCharterChanged, ''WorkspaceCharterChanged''), (Closure DataLifecycleApplied,
     ''DataLifecycleApplied'')]"

definition all_event_kinds :: "event_kind list" where
  "all_event_kinds = map fst event_kind_table"

text \<open>\<open>EventKind::as_str\<close> and \<open>FromStr for EventKind\<close>; \<open>PayloadType\<close> has the same names.\<close>

definition as_str :: "event_kind \<Rightarrow> string" where
  "as_str k = (case map_of event_kind_table k of None \<Rightarrow> [] | Some name \<Rightarrow> name)"

definition kind_from_str :: "string \<Rightarrow> event_kind result" where
  "kind_from_str s =
     (case map_of (map (\<lambda>(k, name). (name, k)) event_kind_table) s of
        None \<Rightarrow> fails (''unknown event kind: '' @ s)
      | Some k \<Rightarrow> Inr k)"

lemma event_kind_in_table: "k \<in> set all_event_kinds"
proof (cases k)
  case (Lifecycle x)
  then show ?thesis by (cases x) (simp_all add: all_event_kinds_def event_kind_table_def)
next
  case (Turn x)
  then show ?thesis by (cases x) (simp_all add: all_event_kinds_def event_kind_table_def)
next
  case (ModelEvent x)
  then show ?thesis by (cases x) (simp_all add: all_event_kinds_def event_kind_table_def)
next
  case (ToolEvent x)
  then show ?thesis by (cases x) (simp_all add: all_event_kinds_def event_kind_table_def)
next
  case (Action x)
  then show ?thesis by (cases x) (simp_all add: all_event_kinds_def event_kind_table_def)
next
  case (VerificationEvent x)
  then show ?thesis by (cases x) (simp_all add: all_event_kinds_def event_kind_table_def)
next
  case (Failure x)
  then show ?thesis by (cases x) (simp_all add: all_event_kinds_def event_kind_table_def)
next
  case (Candidate x)
  then show ?thesis by (cases x) (simp_all add: all_event_kinds_def event_kind_table_def)
next
  case (Cognitive x)
  then show ?thesis by (cases x) (simp_all add: all_event_kinds_def event_kind_table_def)
next
  case (CoordinationEvent x)
  then show ?thesis by (cases x) (simp_all add: all_event_kinds_def event_kind_table_def)
next
  case (Capability x)
  then show ?thesis by (cases x) (simp_all add: all_event_kinds_def event_kind_table_def)
next
  case (CommunicationEvent x)
  then show ?thesis by (cases x) (simp_all add: all_event_kinds_def event_kind_table_def)
next
  case (MemoryEvent x)
  then show ?thesis by (cases x) (simp_all add: all_event_kinds_def event_kind_table_def)
next
  case (Config x)
  then show ?thesis by (cases x) (simp_all add: all_event_kinds_def event_kind_table_def)
next
  case (Evolution x)
  then show ?thesis by (cases x) (simp_all add: all_event_kinds_def event_kind_table_def)
next
  case (Federation x)
  then show ?thesis by (cases x) (simp_all add: all_event_kinds_def event_kind_table_def)
next
  case (Ecosystem x)
  then show ?thesis by (cases x) (simp_all add: all_event_kinds_def event_kind_table_def)
next
  case (Closure x)
  then show ?thesis by (cases x) (simp_all add: all_event_kinds_def event_kind_table_def)
qed

lemma event_kinds_distinct: "distinct all_event_kinds"
  by (simp add: all_event_kinds_def event_kind_table_def)

text \<open>The names differ because the numbers that their bytes spell do.\<close>

definition name_key :: "string \<Rightarrow> nat" where
  "name_key s = foldl (\<lambda>k c. 5 * k + of_char c) 0 s"

lemma event_kind_names_distinct: "distinct (map snd event_kind_table)"
proof -
  have "distinct (map name_key (map snd event_kind_table))"
    by (simp add: event_kind_table_def name_key_def)
  then show ?thesis by (simp only: distinct_map)
qed

lemma as_str_in_table: "(k, as_str k) \<in> set event_kind_table"
proof -
  obtain name where "map_of event_kind_table k = Some name"
    using event_kind_in_table [of k] by (auto simp: all_event_kinds_def dest: weak_map_of_SomeI)
  then show ?thesis by (auto simp: as_str_def dest: map_of_SomeD)
qed

lemma kind_from_str_as_str [simp]: "kind_from_str (as_str k) = Inr k"
proof -
  have "distinct (map fst (map (\<lambda>(k, name). (name, k)) event_kind_table))"
    using event_kind_names_distinct by (simp add: case_prod_unfold comp_def)
  moreover have "(as_str k, k) \<in> set (map (\<lambda>(k, name). (name, k)) event_kind_table)"
    using as_str_in_table [of k] by force
  ultimately have "map_of (map (\<lambda>(k, name). (name, k)) event_kind_table) (as_str k) = Some k"
    by (simp only: map_of_is_SomeI)
  then show ?thesis by (simp add: kind_from_str_def)
qed

lemma as_str_inj: "as_str k = as_str l \<longleftrightarrow> k = l"
  by (metis Inr_inject kind_from_str_as_str)

lemma kind_from_str_Inr: "kind_from_str s = Inr k \<longleftrightarrow> s = as_str k"
proof
  assume "kind_from_str s = Inr k"
  then have "(k, s) \<in> set event_kind_table"
    by (auto simp: kind_from_str_def split: option.splits dest: map_of_SomeD)
  moreover have "distinct (map fst event_kind_table)"
    using event_kinds_distinct by (simp add: all_event_kinds_def)
  ultimately show "s = as_str k" by (simp add: as_str_def)
qed simp

lemma as_str_fits: "fits (as_str k)"
proof -
  have "list_all (\<lambda>(k, name). length name < 64) event_kind_table"
    by (simp add: event_kind_table_def)
  then have "length (as_str k) < 64" using as_str_in_table [of k] by (auto simp: list_all_iff)
  then show ?thesis by (simp add: fits_def)
qed

subsection \<open>The order of the payload types\<close>

definition kind_position :: "event_kind \<Rightarrow> nat" where
  "kind_position k = length (takeWhile (\<lambda>l. l \<noteq> k) all_event_kinds)"

lemma takeWhile_stops: "\<exists>x\<in>set xs. \<not> P x \<Longrightarrow> length (takeWhile P xs) < length xs"
  by (induction xs) auto

lemma nth_kind_position: "all_event_kinds ! kind_position k = k"
proof -
  have "kind_position k < length all_event_kinds"
    unfolding kind_position_def using event_kind_in_table [of k] by (intro takeWhile_stops) auto
  then have "\<not> (all_event_kinds ! kind_position k \<noteq> k)"
    unfolding kind_position_def by (rule nth_length_takeWhile)
  then show ?thesis by simp
qed

instantiation event_kind :: linorder
begin

definition less_eq_event_kind :: "event_kind \<Rightarrow> event_kind \<Rightarrow> bool" where
  "less_eq_event_kind k l \<longleftrightarrow> kind_position k \<le> kind_position l"

definition less_event_kind :: "event_kind \<Rightarrow> event_kind \<Rightarrow> bool" where
  "less_event_kind k l \<longleftrightarrow> kind_position k < kind_position l"

instance
proof
  fix k l :: event_kind
  assume "k \<le> l" "l \<le> k"
  then have "kind_position k = kind_position l" by (simp add: less_eq_event_kind_def)
  then show "k = l" by (metis nth_kind_position)
qed (auto simp: less_eq_event_kind_def less_event_kind_def)

end

end
