(* ===== verification/Schema_Upcast.thy ===== *)
theory Schema_Upcast
  imports Event_Kinds Ordered_Map Primitives "HOL-Library.Product_Lexorder"
begin

text \<open>
  The schema registry of the event store (\<open>store/src/schema.rs\<close> and \<open>register_upcaster\<close> of
  \<open>store/src/sqlite.rs\<close>): upcasters are edges from one schema version of a payload type to a later
  one; a stored payload is brought to a target version by the steps that \<open>plan\<close> finds. The graph of an
  open store is rebuilt by registration, while the table \<open>schema_migrations\<close> persists which edge was
  registered first. A transform is a function argument of the caller, so an edge carries it as such.
\<close>

subsection \<open>Upcasters and the graph\<close>

type_synonym transform = "bytes \<Rightarrow> bytes result"

record upcaster =
  up_migration_note :: string
  up_implementation_identity :: string
  up_transform :: transform

type_synonym upcaster_key = "event_kind \<times> schema_version"

record upcaster_edge =
  ue_to :: schema_version
  ue_migration_note :: string
  ue_implementation_identity :: string
  ue_transform :: transform

record upcaster_graph =
  ug_edges :: "(upcaster_key, upcaster_edge) btree_map"
  ug_generation :: u64

definition empty_graph :: upcaster_graph where
  "empty_graph = \<lparr>ug_edges = bm_empty, ug_generation = 0\<rparr>"

type_synonym edge_identity = "event_kind \<times> schema_version \<times> schema_version \<times> string \<times> string"

definition edge_identity :: "upcaster_key \<times> upcaster_edge \<Rightarrow> edge_identity" where
  "edge_identity p =
     (case p of ((k, v), e) \<Rightarrow> (k, v, ue_to e, ue_migration_note e, ue_implementation_identity e))"

definition token :: "upcaster_graph \<Rightarrow> u64 \<times> edge_identity list" where
  "token g = (ug_generation g, map edge_identity (ug_edges g))"

definition edge_fields :: "edge_identity \<Rightarrow> bytes list" where
  "edge_fields i =
     (case i of (k, from_v, to_v, note, ident) \<Rightarrow> [as_str k, le_bytes 4 from_v, le_bytes 4 to_v, note, ident])"

definition identity_bytes :: "upcaster_graph \<Rightarrow> bytes" where
  "identity_bytes g =
     fold (\<lambda>p encoded. push_fields encoded (edge_fields (edge_identity p))) (ug_edges g)
       (push_field [] ''forme-upcaster-graph-v1'')"

subsection \<open>Planning and registration\<close>

record upcast_step =
  us_payload_type :: event_kind
  us_from :: schema_version
  us_to :: schema_version
  us_transform :: transform

definition step_apply :: "upcast_step \<Rightarrow> bytes \<Rightarrow> bytes result" where
  "step_apply s bs =
     (case us_transform s bs of
        Inl (Error e) \<Rightarrow> fails (''upcaster transform failed for '' @ as_str (us_payload_type s) @ '' schema ''
          @ show_nat (us_from s) @ '' to '' @ show_nat (us_to s) @ '': '' @ e)
      | Inr out \<Rightarrow> Inr out)"

function plan_loop ::
  "upcaster_graph \<Rightarrow> event_kind \<Rightarrow> schema_version \<Rightarrow> schema_version \<Rightarrow> schema_version set \<Rightarrow> upcast_step list
   \<Rightarrow> upcast_step list result" where
  "plan_loop g k target current visited steps =
     (if current < target then
        if current \<in> visited then
          fails (''upcaster cycle detected for '' @ as_str k @ '' at schema '' @ show_nat current)
        else (case bm_get (ug_edges g) (k, current) of
            None \<Rightarrow> fails (''missing upcaster for '' @ as_str k @ '' schema '' @ show_nat current
              @ '' while targeting schema '' @ show_nat target)
          | Some e \<Rightarrow>
              if ue_to e \<le> current then
                fails (''upcaster cycle or downgrade for '' @ as_str k @ '': schema '' @ show_nat current
                  @ '' to '' @ show_nat (ue_to e))
              else if target < ue_to e then
                fails (''missing upcaster chain for '' @ as_str k @ '': schema '' @ show_nat current
                  @ '' edge targets '' @ show_nat (ue_to e) @ '' beyond requested schema '' @ show_nat target)
              else plan_loop g k target (ue_to e) (insert current visited)
                (steps @ [\<lparr>us_payload_type = k, us_from = current, us_to = ue_to e, us_transform = ue_transform e\<rparr>]))
      else Inr steps)"
  by pat_completeness auto

termination
  by (relation "measure (\<lambda>(g, k, target, current, visited, steps). target - current)") auto

definition upcast_plan ::
  "upcaster_graph \<Rightarrow> event_kind \<Rightarrow> schema_version \<Rightarrow> schema_version \<Rightarrow> upcast_step list result" where
  "upcast_plan g k from_v target =
     (if target < from_v then
        fails (''schema downgrade for '' @ as_str k @ '' is unsupported: stored schema '' @ show_nat from_v
          @ '' to target schema '' @ show_nat target)
      else plan_loop g k target from_v {} [])"

function path_loop ::
  "upcaster_graph \<Rightarrow> event_kind \<Rightarrow> schema_version \<Rightarrow> schema_version \<Rightarrow> schema_version set \<Rightarrow> bool result" where
  "path_loop g k target current visited =
     (if current = target then Inr True
      else if current \<in> visited then
        fails (''existing upcaster cycle detected for '' @ as_str k @ '' at schema '' @ show_nat current)
      else (case bm_get (ug_edges g) (k, current) of
          None \<Rightarrow> Inr False
        | Some e \<Rightarrow> path_loop g k target (ue_to e) (insert current visited)))"
  by pat_completeness auto

text \<open>Every iteration visits a new key of the graph, of which there are finitely many.\<close>

termination
proof (relation "measure (\<lambda>(g, k, target, current, visited). card (snd ` set (bm_keys (ug_edges g)) - visited))")
  fix g k and target current :: schema_version and visited and e :: upcaster_edge
  assume "current \<notin> visited" "bm_get (ug_edges g) (k, current) = Some e"
  then have "current \<in> snd ` set (bm_keys (ug_edges g)) - visited"
    by (force simp: bm_get_def bm_keys_def dest: map_of_SomeD)
  then have "card (snd ` set (bm_keys (ug_edges g)) - insert current visited)
      < card (snd ` set (bm_keys (ug_edges g)) - visited)"
    by (intro psubset_card_mono) auto
  then show "((g, k, target, ue_to e, insert current visited), (g, k, target, current, visited))
      \<in> measure (\<lambda>(g, k, target, current, visited). card (snd ` set (bm_keys (ug_edges g)) - visited))"
    by simp
qed simp

declare plan_loop.simps [simp del] path_loop.simps [simp del]

definition path_reaches :: "upcaster_graph \<Rightarrow> event_kind \<Rightarrow> schema_version \<Rightarrow> schema_version \<Rightarrow> bool result" where
  "path_reaches g k start target = path_loop g k target start {}"

definition validate_registration ::
  "upcaster_graph \<Rightarrow> event_kind \<Rightarrow> schema_version \<Rightarrow> schema_version \<Rightarrow> upcaster \<Rightarrow> unit result" where
  "validate_registration g k from_v to_v u =
     (if blank (up_migration_note u) then fails ''migration note cannot be empty''
      else if blank (up_implementation_identity u) then fails ''migration implementation identity cannot be empty''
      else if from_v = to_v then
        fails (''upcaster cycle for '' @ as_str k @ '': schema '' @ show_nat from_v @ '' points to itself'')
      else if to_v < from_v then
        fails (''upcaster downgrade for '' @ as_str k @ '' is forbidden: schema '' @ show_nat from_v
          @ '' to '' @ show_nat to_v)
      else (case bm_get (ug_edges g) (k, from_v) of
          Some e \<Rightarrow>
            if ue_to e = to_v \<and> ue_migration_note e = up_migration_note u
              \<and> ue_implementation_identity e = up_implementation_identity u then Inr ()
            else fails (''conflicting upcaster implementation edge for '' @ as_str k @ '' schema '' @ show_nat from_v
              @ '': already targets schema '' @ show_nat (ue_to e) @ '' with implementation ''
              @ ue_implementation_identity e)
        | None \<Rightarrow>
            and_then (path_reaches g k to_v from_v) (\<lambda>cyclic.
            if cyclic then
              fails (''upcaster cycle for '' @ as_str k @ '': schema '' @ show_nat to_v @ '' reaches schema ''
                @ show_nat from_v)
            else Inr ())))"

definition graph_insert ::
  "event_kind \<Rightarrow> schema_version \<Rightarrow> schema_version \<Rightarrow> upcaster \<Rightarrow> upcaster_graph \<Rightarrow> upcaster_graph" where
  "graph_insert k from_v to_v u g =
     (if bm_contains (ug_edges g) (k, from_v) then g
      else g\<lparr>ug_edges := bm_insert (k, from_v)
                \<lparr>ue_to = to_v, ue_migration_note = up_migration_note u,
                 ue_implementation_identity = up_implementation_identity u, ue_transform = up_transform u\<rparr>
                (ug_edges g),
              ug_generation := saturating_add (ug_generation g) 1\<rparr>)"

subsection \<open>The persisted registry\<close>

text \<open>
  A row of \<open>schema_migrations\<close> is keyed by the payload type's name and the source version; its
  columns are 64-bit, the versions are \<open>u32\<close>. The transaction is rolled back by every early return, and
  the graph is only written after the commit.
\<close>

type_synonym migration_row = "int \<times> string \<times> string"

record schema_store =
  ss_graph :: upcaster_graph
  ss_migrations :: "string \<times> int \<Rightarrow> migration_row option"

definition register_upcaster ::
  "event_kind \<Rightarrow> schema_version \<Rightarrow> schema_version \<Rightarrow> upcaster \<Rightarrow> schema_store \<Rightarrow> unit result \<times> schema_store" where
  "register_upcaster k from_v to_v u s =
     (case validate_registration (ss_graph s) k from_v to_v u of
        Inl e \<Rightarrow> (Inl e, s)
      | Inr _ \<Rightarrow>
          let key = (as_str k, int from_v);
              stored = (case ss_migrations s key of
                Some (to', note', ident') \<Rightarrow>
                  if to' < 0 \<or> 2 ^ 32 \<le> to' then fails ''stored migration target is invalid''
                  else if to' \<noteq> int to_v \<or> note' \<noteq> up_migration_note u
                    \<or> ident' \<noteq> up_implementation_identity u then
                    fails (''conflicting persisted upcaster implementation edge for '' @ as_str k @ '' schema ''
                      @ show_nat from_v)
                  else Inr (ss_migrations s)
              | None \<Rightarrow> Inr ((ss_migrations s)(key \<mapsto> (int to_v, up_migration_note u, up_implementation_identity u))))
          in (case stored of
                Inl e \<Rightarrow> (Inl e, s)
              | Inr rows \<Rightarrow>
                  (case validate_registration (ss_graph s) k from_v to_v u of
                     Inl e \<Rightarrow> (Inl e, s\<lparr>ss_migrations := rows\<rparr>)
                   | Inr _ \<Rightarrow> (Inr (), s\<lparr>ss_migrations := rows, ss_graph := graph_insert k from_v to_v u (ss_graph s)\<rparr>))))"

text \<open>Opening the database: the table is kept, the graph starts empty.\<close>

definition reopen :: "schema_store \<Rightarrow> schema_store" where
  "reopen s = s\<lparr>ss_graph := empty_graph\<rparr>"

inductive schema_reach :: "schema_store \<Rightarrow> bool" where
  schema_new: "schema_reach \<lparr>ss_graph = empty_graph, ss_migrations = Map.empty\<rparr>"
| schema_register: "schema_reach s \<Longrightarrow> from_v < 2 ^ 32 \<Longrightarrow> to_v < 2 ^ 32
    \<Longrightarrow> schema_reach (snd (register_upcaster k from_v to_v u s))"
| schema_reopen: "schema_reach s \<Longrightarrow> schema_reach (reopen s)"

subsection \<open>What registration maintains\<close>

definition schema_inv :: "schema_store \<Rightarrow> bool" where
  "schema_inv s \<longleftrightarrow> bm_wf (ug_edges (ss_graph s)) \<and>
     (\<forall>k v e. bm_get (ug_edges (ss_graph s)) (k, v) = Some e \<longrightarrow>
        v < ue_to e \<and> v < 2 ^ 32 \<and> ue_to e < 2 ^ 32 \<and>
        ss_migrations s (as_str k, int v) =
          Some (int (ue_to e), ue_migration_note e, ue_implementation_identity e))"

definition increasing :: "upcaster_graph \<Rightarrow> bool" where
  "increasing g \<longleftrightarrow> (\<forall>k v e. bm_get (ug_edges g) (k, v) = Some e \<longrightarrow> v < ue_to e)"

lemma schema_inv_increasing: "schema_inv s \<Longrightarrow> increasing (ss_graph s)"
  by (auto simp: schema_inv_def increasing_def)

lemma path_loop_increasing:
  assumes "increasing g" "target < current" "\<forall>v\<in>visited. v < current"
  shows "path_loop g k target current visited = Inr False"
  using assms
proof (induction g k target current visited rule: path_loop.induct)
  case (1 g k target current visited)
  show ?case
  proof (cases "bm_get (ug_edges g) (k, current)")
    case None
    then show ?thesis using "1.prems" by (subst path_loop.simps) auto
  next
    case (Some e)
    then have up: "current < ue_to e" using "1.prems"(1) by (simp add: increasing_def)
    then have "path_loop g k target (ue_to e) (insert current visited) = Inr False"
      using "1.prems" Some by (intro "1.IH") auto
    then show ?thesis using "1.prems" Some by (subst path_loop.simps) auto
  qed
qed

text \<open>Hence the search for a cycle can only confirm what the two comparisons before it decided.\<close>

lemma validate_registration_iff:
  assumes "increasing g"
  shows "validate_registration g k v w u = Inr () \<longleftrightarrow>
     \<not> blank (up_migration_note u) \<and> \<not> blank (up_implementation_identity u) \<and> v < w
     \<and> (case bm_get (ug_edges g) (k, v) of
          None \<Rightarrow> True
        | Some e \<Rightarrow> ue_to e = w \<and> ue_migration_note e = up_migration_note u
            \<and> ue_implementation_identity e = up_implementation_identity u)"
proof (cases "v < w")
  case True
  then have "path_reaches g k w v = Inr False"
    unfolding path_reaches_def by (intro path_loop_increasing [OF assms]) simp_all
  then show ?thesis using True by (auto simp: validate_registration_def split: option.splits)
qed (auto simp: validate_registration_def)

lemma validate_registration_unit: "validate_registration g k v w u = Inr x \<longleftrightarrow> validate_registration g k v w u = Inr ()"
  by (cases x) simp

text \<open>The outcome of a registration: one condition decides it, and a refused one changes nothing.\<close>

definition admissible :: "schema_store \<Rightarrow> event_kind \<Rightarrow> schema_version \<Rightarrow> schema_version \<Rightarrow> upcaster \<Rightarrow> bool" where
  "admissible s k v w u \<longleftrightarrow>
     \<not> blank (up_migration_note u) \<and> \<not> blank (up_implementation_identity u) \<and> v < w
     \<and> (case ss_migrations s (as_str k, int v) of
          None \<Rightarrow> True
        | Some row \<Rightarrow> row = (int w, up_migration_note u, up_implementation_identity u))"

lemma admissible_validates: "schema_inv s \<Longrightarrow> admissible s k v w u \<Longrightarrow> validate_registration (ss_graph s) k v w u = Inr ()"
  using validate_registration_iff [OF schema_inv_increasing]
  by (fastforce simp: admissible_def schema_inv_def split: option.splits)

lemma register_admissible:
  assumes "schema_inv s" "w < 2 ^ 32" "admissible s k v w u"
  shows "register_upcaster k v w u s = (Inr (), s\<lparr>ss_migrations := (ss_migrations s)
            ((as_str k, int v) \<mapsto> (int w, up_migration_note u, up_implementation_identity u)),
            ss_graph := graph_insert k v w u (ss_graph s)\<rparr>)"
proof -
  have rows: "ss_migrations s (as_str k, int v) = None
      \<or> ss_migrations s (as_str k, int v) = Some (int w, up_migration_note u, up_implementation_identity u)"
    using assms(3) by (auto simp: admissible_def split: option.splits)
  have "int w < 2 ^ 32" using assms(2) by simp
  then show ?thesis
    using rows by (elim disjE)
      (simp_all add: register_upcaster_def admissible_validates [OF assms(1,3)] Let_def fun_upd_idem)
qed

lemma register_refused:
  assumes "schema_inv s" "\<not> admissible s k v w u"
  shows "\<exists>e. register_upcaster k v w u s = (Inl e, s)"
proof (cases "validate_registration (ss_graph s) k v w u")
  case (Inl e)
  then show ?thesis by (simp add: register_upcaster_def)
next
  case (Inr x)
  then have ok: "validate_registration (ss_graph s) k v w u = Inr ()" by simp
  then obtain row where row: "ss_migrations s (as_str k, int v) = Some row"
      "row \<noteq> (int w, up_migration_note u, up_implementation_identity u)"
    using assms validate_registration_iff [OF schema_inv_increasing [OF assms(1)], of k v w u]
    by (auto simp: admissible_def split: option.splits)
  obtain t n i where "row = (t, n, i)" by (cases row)
  note row = row [unfolded this]
  have "t \<noteq> int w \<or> n \<noteq> up_migration_note u \<or> i \<noteq> up_implementation_identity u" using row(2) by auto
  then show ?thesis by (simp add: register_upcaster_def ok row(1) Let_def del: append.simps)
qed

lemma register_ok_iff:
  assumes "schema_inv s" "w < 2 ^ 32"
  shows "fst (register_upcaster k v w u s) = Inr () \<longleftrightarrow> admissible s k v w u"
  using register_admissible [OF assms] register_refused [OF assms(1)]
  by (cases "admissible s k v w u") fastforce+

lemma bm_get_graph_insert:
  "bm_get (ug_edges (graph_insert k v w u g)) =
     (if bm_contains (ug_edges g) (k, v) then bm_get (ug_edges g)
      else (bm_get (ug_edges g))((k, v) \<mapsto> \<lparr>ue_to = w, ue_migration_note = up_migration_note u,
             ue_implementation_identity = up_implementation_identity u, ue_transform = up_transform u\<rparr>))"
  by (simp add: graph_insert_def)

lemma schema_inv_register:
  assumes "schema_inv s" "v < 2 ^ 32" "w < 2 ^ 32"
  shows "schema_inv (snd (register_upcaster k v w u s))"
proof (cases "admissible s k v w u")
  case True
  have wf: "bm_wf (ug_edges (graph_insert k v w u (ss_graph s)))"
    using assms(1) by (simp add: graph_insert_def schema_inv_def bm.wf_put)
  have "v < w" using True by (simp add: admissible_def)
  moreover have "bm_contains (ug_edges (ss_graph s)) (k, v) \<Longrightarrow> ss_migrations s (as_str k, int v)
      = Some (int w, up_migration_note u, up_implementation_identity u)"
    using assms(1) True by (auto simp: bm_contains_def admissible_def schema_inv_def split: option.splits)
  ultimately show ?thesis
    using assms wf register_admissible [OF assms(1,3) True]
    by (auto simp: schema_inv_def bm_get_graph_insert as_str_inj split: if_splits)
next
  case False
  then show ?thesis using assms(1) register_refused [OF assms(1) False] by auto
qed

lemma schema_reach_inv: "schema_reach s \<Longrightarrow> schema_inv s"
proof (induction rule: schema_reach.induct)
  case schema_new
  show ?case by (simp add: schema_inv_def empty_graph_def bm.wf_emp)
next
  case (schema_register s v w k u)
  then show ?case by (simp add: schema_inv_register)
next
  case (schema_reopen s)
  then show ?case by (simp add: schema_inv_def reopen_def empty_graph_def bm.wf_emp)
qed

text \<open>Registering an upcaster succeeds exactly when its note and its implementation identity are
  visible, its target is a later version, and the database does not already hold a different edge for
  that payload type and version (in particular no cycle check ever fires on a reachable store); the
  persisted row and the edge are then both there, whatever was registered before or since the last
  reopening. A refused registration changes neither.\<close>

theorem register_exact:
  assumes "schema_reach s" and "v < 2 ^ 32" and "w < 2 ^ 32"
  shows "case register_upcaster k v w u s of
      (Inr _, s') \<Rightarrow> admissible s k v w u
        \<and> ss_migrations s' (as_str k, int v) = Some (int w, up_migration_note u, up_implementation_identity u)
        \<and> map_option ue_to (bm_get (ug_edges (ss_graph s')) (k, v)) = Some w
    | (Inl _, s') \<Rightarrow> \<not> admissible s k v w u \<and> s' = s"
proof (cases "admissible s k v w u")
  case True
  note registered = register_admissible [OF schema_reach_inv [OF assms(1)] assms(3) True]
  have "map_option ue_to (bm_get (ug_edges (graph_insert k v w u (ss_graph s))) (k, v)) = Some w"
    using schema_reach_inv [OF assms(1)] True
    by (auto simp: bm_get_graph_insert bm_contains_def schema_inv_def admissible_def split: option.splits)
  then show ?thesis using True by (simp add: registered)
next
  case False
  then show ?thesis using register_refused [OF schema_reach_inv [OF assms(1)] False] by auto
qed

lemma migration_kept:
  assumes "schema_inv s" "w < 2 ^ 32" "ss_migrations s key = Some row"
  shows "ss_migrations (snd (register_upcaster k v w u s)) key = Some row"
proof (cases "admissible s k v w u")
  case True
  then show ?thesis
    using assms by (auto simp: register_admissible [OF assms(1,2) True] admissible_def)
next
  case False
  then show ?thesis using register_refused [OF assms(1) False] assms(3) by auto
qed

subsection \<open>Plans are the chains of the graph\<close>

inductive upcast_chain :: "upcaster_graph \<Rightarrow> event_kind \<Rightarrow> schema_version \<Rightarrow> upcast_step list \<Rightarrow> schema_version \<Rightarrow> bool"
  for g k where
  chain_here: "upcast_chain g k v [] v"
| chain_step: "bm_get (ug_edges g) (k, v) = Some e \<Longrightarrow> upcast_chain g k (ue_to e) steps w
    \<Longrightarrow> upcast_chain g k v
      (\<lparr>us_payload_type = k, us_from = v, us_to = ue_to e, us_transform = ue_transform e\<rparr> # steps) w"

inductive_simps upcast_chain_Nil [simp]: "upcast_chain g k v [] w"
inductive_simps upcast_chain_Cons: "upcast_chain g k v (st # steps) w"

lemma upcast_chain_bound: "upcast_chain g k v steps w \<Longrightarrow> increasing g \<Longrightarrow> v + length steps \<le> w"
  by (induction rule: upcast_chain.induct) (fastforce simp: increasing_def)+

lemma plan_loop_chain:
  assumes "increasing g" "current \<le> target" "\<forall>v\<in>visited. v < current"
  shows "plan_loop g k target current visited acc = Inr out
      \<longleftrightarrow> (\<exists>steps. out = acc @ steps \<and> upcast_chain g k current steps target)"
  using assms
proof (induction g k target current visited acc rule: plan_loop.induct)
  case (1 g k target current visited acc)
  show ?case
  proof (cases "current < target")
    case False
    then have "current = target" using "1.prems"(2) by simp
    moreover have "steps = []" if "upcast_chain g k target steps target" for steps
      using upcast_chain_bound [OF that "1.prems"(1)] by simp
    ultimately show ?thesis by (subst plan_loop.simps) auto
  next
    case below: True
    have fresh: "current \<notin> visited" using "1.prems"(3) by auto
    have uncons: "upcast_chain g k current steps target \<longleftrightarrow>
        (\<exists>e rest. bm_get (ug_edges g) (k, current) = Some e \<and> upcast_chain g k (ue_to e) rest target
          \<and> steps = \<lparr>us_payload_type = k, us_from = current, us_to = ue_to e, us_transform = ue_transform e\<rparr> # rest)"
      for steps using below by (cases steps) (auto simp: upcast_chain_Cons)
    show ?thesis
    proof (cases "bm_get (ug_edges g) (k, current)")
      case None
      then show ?thesis using below fresh by (subst plan_loop.simps) (simp add: uncons)
    next
      case (Some e)
      then have up: "\<not> ue_to e \<le> current" using "1.prems"(1) by (simp add: increasing_def not_le)
      show ?thesis
      proof (cases "target < ue_to e")
        case True
        have "\<not> upcast_chain g k (ue_to e) rest target" for rest
          using upcast_chain_bound [of g k "ue_to e" rest target] "1.prems"(1) True by auto
        then show ?thesis using below fresh Some up True by (subst plan_loop.simps) (simp add: uncons)
      next
        case False
        have "\<forall>v\<in>insert current visited. v < ue_to e" using "1.prems"(3) up by auto
        then have "plan_loop g k target (ue_to e) (insert current visited)
            (acc @ [\<lparr>us_payload_type = k, us_from = current, us_to = ue_to e, us_transform = ue_transform e\<rparr>]) = Inr out
          \<longleftrightarrow> (\<exists>rest. out = (acc @ [\<lparr>us_payload_type = k, us_from = current, us_to = ue_to e,
              us_transform = ue_transform e\<rparr>]) @ rest \<and> upcast_chain g k (ue_to e) rest target)"
          using "1.IH" [OF below fresh Some up False] "1.prems"(1) False by simp
        then show ?thesis using below fresh Some up False by (subst plan_loop.simps) (auto simp: uncons)
      qed
    qed
  qed
qed

text \<open>C17: On every reachable registry, the plan from one schema version to another is exactly the chain
  of registered edges between them: planning succeeds iff there is such a chain, returns its steps in
  order, and there is at most one. The loop ends, and the plan has at most as many steps as there are
  versions between the two.\<close>

theorem upcast_plan_chain:
  assumes "schema_reach s"
  shows "upcast_plan (ss_graph s) k v w = Inr steps \<longleftrightarrow> upcast_chain (ss_graph s) k v steps w"
proof -
  have up: "increasing (ss_graph s)" by (rule schema_inv_increasing [OF schema_reach_inv [OF assms]])
  show ?thesis
  proof (cases "w < v")
    case True
    then show ?thesis using upcast_chain_bound [OF _ up] by (fastforce simp: upcast_plan_def)
  next
    case False
    then show ?thesis using plan_loop_chain [OF up, of v w "{}"] by (simp add: upcast_plan_def)
  qed
qed

lemma upcast_chain_insert:
  "upcast_chain g k v steps w \<Longrightarrow> upcast_chain (graph_insert k' v' w' u g) k v steps w"
proof (induction rule: upcast_chain.induct)
  case (chain_here v)
  show ?case by simp
next
  case (chain_step v e steps w)
  then have "bm_get (ug_edges (graph_insert k' v' w' u g)) (k, v) = Some e"
    by (auto simp: bm_get_graph_insert bm_contains_def)
  then show ?case using chain_step.IH by (rule upcast_chain.chain_step)
qed

text \<open>Registration never changes how stored data is read: a plan that a reachable registry finds
  is still the plan, with the same transforms, after any further registration, and a persisted edge is
  never replaced.\<close>

theorem upcast_plan_stable:
  assumes "schema_reach s" and "v' < 2 ^ 32" and "w' < 2 ^ 32"
    and "upcast_plan (ss_graph s) k v w = Inr steps"
  shows "upcast_plan (ss_graph (snd (register_upcaster k' v' w' u s))) k v w = Inr steps"
proof -
  have reach: "schema_reach (snd (register_upcaster k' v' w' u s))"
    using assms(1-3) by (rule schema_register)
  have chain: "upcast_chain (ss_graph s) k v steps w"
    using assms(4) by (simp add: upcast_plan_chain [OF assms(1)])
  have "upcast_chain (ss_graph (snd (register_upcaster k' v' w' u s))) k v steps w"
  proof (cases "admissible s k' v' w' u")
    case True
    then show ?thesis
      using chain by (simp add: register_admissible [OF schema_reach_inv [OF assms(1)] assms(3) True] upcast_chain_insert)
  next
    case False
    then show ?thesis using chain register_refused [OF schema_reach_inv [OF assms(1)] False] by auto
  qed
  then show ?thesis by (simp only: upcast_plan_chain [OF reach])
qed

subsection \<open>The identity of a graph\<close>

definition edge_fits :: "edge_identity \<Rightarrow> bool" where
  "edge_fits i = (case i of (k, v, w, note, ident) \<Rightarrow> v < 2 ^ 32 \<and> w < 2 ^ 32 \<and> fits note \<and> fits ident)"

definition identity_fits :: "upcaster_graph \<Rightarrow> bool" where
  "identity_fits g \<longleftrightarrow> list_all edge_fits (map edge_identity (ug_edges g))"

lemma edge_fields_fit: "edge_fits i \<Longrightarrow> list_all fits (edge_fields i)"
  by (cases i) (simp add: edge_fits_def edge_fields_def as_str_fits)

lemma edges_fields_fit: "list_all edge_fits ids \<Longrightarrow> list_all fits (concat (map edge_fields ids))"
  by (induction ids) (simp_all add: edge_fields_fit)

lemma edge_fields_inj:
  assumes "edge_fields x = edge_fields y" "edge_fits x" "edge_fits y"
  shows "x = y"
proof (cases x, cases y)
  fix k v w n i k' v' w' n' i'
  assume xy: "x = (k, v, w, n, i)" "y = (k', v', w', n', i')"
  have "256 ^ 4 = (2 ^ 32 :: nat)" by simp
  then have "v = v'" "w = w'"
    using assms le_bytes_inj [of 4 v v'] le_bytes_inj [of 4 w w']
    by (simp_all add: xy edge_fields_def edge_fits_def)
  then show ?thesis using assms(1) by (simp add: xy edge_fields_def as_str_inj)
qed

lemma identity_bytes_eq:
  "identity_bytes g = field_bytes (''forme-upcaster-graph-v1'' # concat (map edge_fields (map edge_identity (ug_edges g))))"
  by (simp add: identity_bytes_def fold_push_fields field_bytes_def comp_def)

text \<open>The identity bytes that the full-text index records for a registry determine its edges: two
  registries have the same bytes iff they have the same edges (payload type, versions, note and
  implementation identity, in the same order), whatever the strings contain.\<close>

theorem identity_bytes_exact:
  assumes "identity_fits g" and "identity_fits h"
  shows "identity_bytes g = identity_bytes h \<longleftrightarrow> snd (token g) = snd (token h)"
proof
  let ?ids = "\<lambda>g. map edge_identity (ug_edges g)"
  have fit: "list_all fits (''forme-upcaster-graph-v1'' # concat (map edge_fields (?ids g)))"
    if "list_all edge_fits (?ids g)" for g
    using edges_fields_fit [OF that] by (simp add: fits_def del: map_map)
  have ok: "list_all edge_fits (?ids g)" "list_all edge_fits (?ids h)"
    using assms by (simp_all add: identity_fits_def)
  assume "identity_bytes g = identity_bytes h"
  then have "concat (map edge_fields (?ids g)) = concat (map edge_fields (?ids h))"
    using field_bytes_inj [OF _ fit [OF ok(1)] fit [OF ok(2)]] by (simp add: identity_bytes_eq)
  then have "?ids g = ?ids h"
  proof (rule concat_map_inj)
    show "length (edge_fields x) = 5" for x by (cases x) (simp add: edge_fields_def)
    show "x = y" if "x \<in> set (?ids g)" "y \<in> set (?ids h)" "edge_fields x = edge_fields y" for x y
      using that ok by (intro edge_fields_inj) (auto simp: list_all_iff)
  qed simp
  then show "snd (token g) = snd (token h)" by (simp add: token_def)
next
  assume "snd (token g) = snd (token h)"
  then show "identity_bytes g = identity_bytes h"
    unfolding identity_bytes_eq token_def by (simp del: map_map)
qed

subsection \<open>Worked examples\<close>

definition example_upcaster :: "string \<Rightarrow> upcaster" where
  "example_upcaster ident =
     \<lparr>up_migration_note = ''add field'', up_implementation_identity = ident, up_transform = \<lambda>bs. Inr (bs @ ident)\<rparr>"

definition new_schema :: schema_store where
  "new_schema = \<lparr>ss_graph = empty_graph, ss_migrations = Map.empty\<rparr>"

definition schema_two :: schema_store where
  "schema_two =
     snd (register_upcaster (Turn TurnStarted) 3 5 (example_upcaster ''v4'')
       (snd (register_upcaster (Turn TurnStarted) 2 3 (example_upcaster ''v2'') new_schema)))"

lemma new_schema_reach: "schema_reach new_schema"
  unfolding new_schema_def by (rule schema_new)

lemma schema_two_reach: "schema_reach schema_two"
  unfolding schema_two_def by (intro schema_register new_schema_reach) simp_all

lemma new_admissible: "admissible new_schema (Turn TurnStarted) 2 3 (example_upcaster ''v2'')"
  by (simp add: admissible_def new_schema_def example_upcaster_def)

lemma register_exact_witness:
  "\<exists>s'. register_upcaster (Turn TurnStarted) 2 3 (example_upcaster ''v2'') new_schema = (Inr (), s')
     \<and> map_option ue_to (bm_get (ug_edges (ss_graph s')) (Turn TurnStarted, 2)) = Some 3"
proof -
  have "case register_upcaster (Turn TurnStarted) 2 3 (example_upcaster ''v2'') new_schema of
      (Inr _, s') \<Rightarrow> map_option ue_to (bm_get (ug_edges (ss_graph s')) (Turn TurnStarted, 2)) = Some 3
    | (Inl _, s') \<Rightarrow> False"
    using register_exact [OF new_schema_reach, of 2 3 "Turn TurnStarted" "example_upcaster ''v2''"] new_admissible
    by (auto split: prod.splits sum.splits)
  then show ?thesis by (auto split: prod.splits sum.splits)
qed

lemma schema_two_edges:
  "bm_get (ug_edges (ss_graph schema_two)) (Turn TurnStarted, 2) = Some
     \<lparr>ue_to = 3, ue_migration_note = ''add field'', ue_implementation_identity = ''v2'', ue_transform = \<lambda>bs. Inr (bs @ ''v2'')\<rparr>"
  "bm_get (ug_edges (ss_graph schema_two)) (Turn TurnStarted, 3) = Some
     \<lparr>ue_to = 5, ue_migration_note = ''add field'', ue_implementation_identity = ''v4'', ue_transform = \<lambda>bs. Inr (bs @ ''v4'')\<rparr>"
proof -
  let ?s1 = "snd (register_upcaster (Turn TurnStarted) 2 3 (example_upcaster ''v2'') new_schema)"
  have s1: "?s1 = new_schema\<lparr>ss_migrations := (ss_migrations new_schema)((as_str (Turn TurnStarted), 2) \<mapsto>
        (3, ''add field'', ''v2'')), ss_graph := graph_insert (Turn TurnStarted) 2 3 (example_upcaster ''v2'') empty_graph\<rparr>"
    using register_admissible [OF schema_reach_inv [OF new_schema_reach] _ new_admissible]
    by (simp add: example_upcaster_def new_schema_def)
  have "admissible ?s1 (Turn TurnStarted) 3 5 (example_upcaster ''v4'')"
    unfolding s1 by (simp add: admissible_def example_upcaster_def new_schema_def)
  moreover have "schema_inv ?s1" by (intro schema_reach_inv schema_register new_schema_reach) simp_all
  ultimately have "ss_graph schema_two = graph_insert (Turn TurnStarted) 3 5 (example_upcaster ''v4'') (ss_graph ?s1)"
    unfolding schema_two_def by (simp add: register_admissible)
  note two = this [unfolded s1]
  show
    "bm_get (ug_edges (ss_graph schema_two)) (Turn TurnStarted, 2) = Some
       \<lparr>ue_to = 3, ue_migration_note = ''add field'', ue_implementation_identity = ''v2'', ue_transform = \<lambda>bs. Inr (bs @ ''v2'')\<rparr>"
    "bm_get (ug_edges (ss_graph schema_two)) (Turn TurnStarted, 3) = Some
       \<lparr>ue_to = 5, ue_migration_note = ''add field'', ue_implementation_identity = ''v4'', ue_transform = \<lambda>bs. Inr (bs @ ''v4'')\<rparr>"
    by (simp_all add: two bm_get_graph_insert bm_contains_def empty_graph_def example_upcaster_def)
qed

lemma upcast_plan_chain_witness:
  "\<exists>steps. upcast_plan (ss_graph schema_two) (Turn TurnStarted) 2 5 = Inr steps \<and> map us_to steps = [3, 5]"
proof -
  have "upcast_chain (ss_graph schema_two) (Turn TurnStarted) 2
      [\<lparr>us_payload_type = Turn TurnStarted, us_from = 2, us_to = 3, us_transform = \<lambda>bs. Inr (bs @ ''v2'')\<rparr>,
       \<lparr>us_payload_type = Turn TurnStarted, us_from = 3, us_to = 5, us_transform = \<lambda>bs. Inr (bs @ ''v4'')\<rparr>] 5"
    by (intro upcast_chain.chain_step [OF schema_two_edges(1), simplified]
        upcast_chain.chain_step [OF schema_two_edges(2), simplified] upcast_chain.chain_here)
  then show ?thesis by (simp add: upcast_plan_chain [OF schema_two_reach, symmetric])
qed

lemma upcast_plan_stable_witness:
  "upcast_plan (ss_graph (snd (register_upcaster (Action ActionStarted) 2 3 (example_upcaster ''x'') schema_two)))
     (Turn TurnStarted) 3 3 = Inr []"
  by (rule upcast_plan_stable [OF schema_two_reach]) (simp_all add: upcast_plan_def plan_loop.simps)

lemma identity_bytes_exact_witness:
  "identity_bytes (graph_insert (Turn TurnStarted) 2 3 (example_upcaster ''v2'') empty_graph)
     \<noteq> identity_bytes (graph_insert (Turn TurnStarted) 2 3 (example_upcaster ''v3'') empty_graph)"
proof -
  let ?g = "\<lambda>i. graph_insert (Turn TurnStarted) 2 3 (example_upcaster i) empty_graph"
  have edges: "ug_edges (?g i) = [((Turn TurnStarted, 2), \<lparr>ue_to = 3, ue_migration_note = ''add field'',
      ue_implementation_identity = i, ue_transform = \<lambda>bs. Inr (bs @ i)\<rparr>)]" for i
    by (simp add: graph_insert_def empty_graph_def bm_empty_def bm_contains_def example_upcaster_def)
  have "identity_fits (?g ''v2'')" "identity_fits (?g ''v3'')"
    by (simp_all add: identity_fits_def edges edge_identity_def edge_fits_def fits_def)
  then have "identity_bytes (?g ''v2'') = identity_bytes (?g ''v3'')
      \<longleftrightarrow> snd (token (?g ''v2'')) = snd (token (?g ''v3''))"
    by (rule identity_bytes_exact)
  then show ?thesis by (simp add: token_def edges edge_identity_def)
qed

end
