(* ===== verification/Strategy_Facts.thy ===== *)
theory Strategy_Facts
  imports Primitives Rust_Strings
begin

text \<open>
  The facts of strategy evolution (\<open>protocol/src/m3_a.rs\<close>): a candidate strategy with its rollback
  policy, the comparison and the evaluation that judge it, its activation and its rollback with the
  version step they carry, and the versioned snapshot of the active strategies. Each has the
  \<open>validate\<close> of the source; the lemmas say what a validated fact guarantees. The \<open>Ref\<close>, \<open>Id\<close> and
  digest newtypes are strings.
\<close>

subsection \<open>Enumerations\<close>

datatype strategy_domain =
    LoopDomain | CoordinationDomain | CapabilitySelection | ModelSelection | BackendSelection
  | ModelAdaptation | StrategyMemory | AgentSelf | Partnership | TrustDelegation | Proactivity
  | CommunicationDomain

datatype evolution_impact = Cautious | Bounded | Expansive | Constitutional

datatype effect_mode = ExactReplay | CounterfactualDeny | LiveGoverned

datatype evaluation_verdict = Pass | Fail | Unverifiable

datatype fitness_outcome = Pass | Fail | Unverifiable

datatype fitness_dimension =
    Quality | VerificationFitness | CostFitness | Latency | RiskExposure | Interruption | Delegation

datatype fitness_unit = Count | Milliseconds | Tokens | BasisPoints | Boolean

datatype in_flight_disposition = KeepPinned | Cancel | WaitForOwner

datatype stability_tier = Fixed | ConstitutionalTier | Stable | Working | SessionTier | Ephemeral

datatype decision_actor = Auto | User

definition all_nonempty :: "string list \<Rightarrow> bool" where
  "all_nonempty vs \<longleftrightarrow> vs \<noteq> [] \<and> (\<forall>v\<in>set vs. \<not> blank v)"

subsection \<open>Candidates\<close>

record strategy_rollback_policy =
  srp_schema_version :: schema_version
  srp_known_good :: string
  srp_rollback_on_hard_regression :: bool
  srp_owner_on_unverifiable :: bool

definition rollback_policy_validate :: "strategy_rollback_policy \<Rightarrow> unit result" where
  "rollback_policy_validate p =
     ensure (\<not> (srp_schema_version p = 0 \<or> blank (srp_known_good p))) ''strategy rollback policy is incomplete''"

record strategy_candidate =
  sc_schema_version :: schema_version
  sc_candidate :: string
  sc_domain :: strategy_domain
  sc_scope :: scope
  sc_target_tier :: stability_tier
  sc_proposed_version :: string
  sc_baseline :: string
  sc_spec_ref :: string
  sc_spec_digest :: schema_digest
  sc_evidence :: "string list"
  sc_provenance :: provenance
  sc_impact :: evolution_impact
  sc_rollback_policy :: strategy_rollback_policy

definition strategy_candidate_validate :: "strategy_candidate \<Rightarrow> unit result" where
  "strategy_candidate_validate c =
     and_then (rollback_policy_validate (sc_rollback_policy c)) (\<lambda>_.
     ensure (\<not> (sc_schema_version c = 0 \<or> blank (sc_candidate c) \<or> blank (sc_scope c)
         \<or> sc_target_tier c \<noteq> Stable \<or> blank (sc_proposed_version c) \<or> blank (sc_baseline c)
         \<or> sc_proposed_version c = sc_baseline c
         \<or> srp_known_good (sc_rollback_policy c) \<noteq> sc_baseline c
         \<or> blank (sc_spec_ref c) \<or> blank (sc_spec_digest c) \<or> \<not> all_nonempty (sc_evidence c)))
       ''strategy candidate is incomplete'')"

subsection \<open>Aggregate versions and active strategies\<close>

record evolution_aggregate_version =
  eav_schema_version :: schema_version
  eav_aggregate :: string
  eav_value :: nat

definition evolution_version_validate :: "evolution_aggregate_version \<Rightarrow> unit result" where
  "evolution_version_validate v =
     ensure (\<not> (eav_schema_version v = 0 \<or> blank (eav_aggregate v))) ''evolution aggregate version is incomplete''"

text \<open>Versions are \<open>u64\<close>; \<open>checked_add\<close> fails at the top of the range.\<close>

definition evolution_version_next :: "evolution_aggregate_version \<Rightarrow> evolution_aggregate_version result" where
  "evolution_version_next v =
     (if eav_value v + 1 < 2 ^ 64 then Inr (v\<lparr>eav_value := eav_value v + 1\<rparr>)
      else fails ''evolution aggregate version is exhausted'')"

definition validate_version_step ::
  "string \<Rightarrow> evolution_aggregate_version \<Rightarrow> evolution_aggregate_version \<Rightarrow> unit result" where
  "validate_version_step aggregate expected committed =
     and_then (evolution_version_validate expected) (\<lambda>_.
     and_then (evolution_version_validate committed) (\<lambda>_.
     ensure (\<not> (eav_aggregate expected \<noteq> aggregate \<or> eav_aggregate committed \<noteq> aggregate
         \<or> eav_value committed \<noteq> (if eav_value expected + 1 < 2 ^ 64 then eav_value expected + 1 else 0)))
       ''evolution aggregate version step is invalid''))"

record active_strategy =
  as_schema_version :: schema_version
  as_id :: string
  as_aggregate :: string
  as_domain :: strategy_domain
  as_scope :: scope
  as_version :: string
  as_spec_ref :: string
  as_spec_digest :: schema_digest
  as_activation_event :: event_id

definition active_strategy_validate :: "active_strategy \<Rightarrow> unit result" where
  "active_strategy_validate a =
     ensure (\<not> (as_schema_version a = 0 \<or> blank (as_id a) \<or> blank (as_aggregate a) \<or> blank (as_scope a)
         \<or> blank (as_version a) \<or> blank (as_spec_ref a) \<or> blank (as_spec_digest a)
         \<or> blank (as_activation_event a)))
       ''active strategy reference is incomplete''"

record evolution_snapshot =
  es_schema_version :: schema_version
  es_snapshot :: string
  es_aggregates :: "evolution_aggregate_version list"
  es_strategies :: "active_strategy list"
  es_digest :: schema_digest

text \<open>The \<open>BTreeSet\<close>s only serve to compare lengths, that is, to detect repetitions.\<close>

definition evolution_snapshot_validate :: "evolution_snapshot \<Rightarrow> unit result" where
  "evolution_snapshot_validate s =
     ensure (\<not> (es_schema_version s = 0 \<or> blank (es_snapshot s) \<or> es_aggregates s = []
         \<or> \<not> distinct (map eav_aggregate (es_aggregates s))
         \<or> (\<exists>v\<in>set (es_aggregates s). \<not> is_ok (evolution_version_validate v))
         \<or> \<not> distinct (map (\<lambda>a. (as_aggregate a, as_domain a, as_scope a)) (es_strategies s))
         \<or> (\<exists>a\<in>set (es_strategies s). \<not> is_ok (active_strategy_validate a))
         \<or> (\<exists>a\<in>set (es_strategies s). \<forall>v\<in>set (es_aggregates s). eav_aggregate v \<noteq> as_aggregate a)
         \<or> blank (es_digest s)))
       ''evolution snapshot is incomplete''"

subsection \<open>Replay requests and reports\<close>

record replay_snapshot =
  rs_schema_version :: schema_version
  rs_event_schema :: schema_version
  rs_policy :: string
  rs_loop_spec :: string
  rs_model :: string
  rs_tool_schema :: schema_digest
  rs_driver_profiles :: "string list"
  rs_evolution :: evolution_snapshot
  rs_migration_graph_digest :: schema_digest

definition replay_snapshot_validate :: "replay_snapshot \<Rightarrow> unit result" where
  "replay_snapshot_validate s =
     and_then (evolution_snapshot_validate (rs_evolution s)) (\<lambda>_.
     ensure (\<not> (rs_schema_version s = 0 \<or> rs_event_schema s = 0 \<or> blank (rs_policy s)
         \<or> blank (rs_loop_spec s) \<or> blank (rs_model s) \<or> blank (rs_tool_schema s)
         \<or> \<not> all_nonempty (rs_driver_profiles s) \<or> blank (rs_migration_graph_digest s)))
       ''replay snapshot is incomplete'')"

record replay_request =
  rq_schema_version :: schema_version
  rq_bundle :: string
  rq_source_runs :: "run_id list"
  rq_event_refs :: "event_id list"
  rq_cases :: "string list"
  rq_snapshot :: replay_snapshot
  rq_effect_mode :: effect_mode

definition replay_request_validate :: "replay_request \<Rightarrow> unit result" where
  "replay_request_validate r =
     and_then (replay_snapshot_validate (rq_snapshot r)) (\<lambda>_.
     ensure (\<not> (rq_schema_version r = 0 \<or> blank (rq_bundle r) \<or> \<not> all_nonempty (rq_source_runs r)
         \<or> \<not> all_nonempty (rq_event_refs r) \<or> \<not> all_nonempty (rq_cases r)
         \<or> \<not> distinct (rq_source_runs r) \<or> \<not> distinct (rq_event_refs r) \<or> \<not> distinct (rq_cases r)
         \<or> rq_effect_mode r = LiveGoverned))
       ''replay request is incomplete or permits live effects'')"

record replay_bundle = replay_request +
  rb_content_digest :: schema_digest

definition replay_bundle_validate :: "replay_bundle \<Rightarrow> unit result" where
  "replay_bundle_validate b =
     and_then (replay_request_validate (replay_request.truncate b)) (\<lambda>_.
     ensure (\<not> blank (rb_content_digest b)) ''replay bundle digest is empty'')"

record exact_replay_report =
  er_schema_version :: schema_version
  er_report :: string
  er_bundle :: string
  er_event_count :: nat
  er_projections_match :: bool
  er_history_unchanged :: bool
  er_effect_calls :: nat
  er_digest :: schema_digest

definition exact_replay_validate :: "exact_replay_report \<Rightarrow> unit result" where
  "exact_replay_validate r =
     ensure (\<not> (er_schema_version r = 0 \<or> blank (er_report r) \<or> blank (er_bundle r) \<or> er_event_count r = 0
         \<or> \<not> er_projections_match r \<or> \<not> er_history_unchanged r \<or> er_effect_calls r \<noteq> 0 \<or> blank (er_digest r)))
       ''exact replay report does not prove a safe replay''"

subsection \<open>Fitness, comparison and evaluation\<close>

record fitness_metric =
  fm_schema_version :: schema_version
  fm_dimension :: fitness_dimension
  fm_outcome :: fitness_outcome
  fm_measured :: "int option"
  fm_unit :: fitness_unit
  fm_evidence :: "string list"

definition fitness_metric_validate :: "fitness_metric \<Rightarrow> unit result" where
  "fitness_metric_validate m =
     ensure (\<not> (fm_schema_version m = 0 \<or> (case fm_measured m of None \<Rightarrow> False | Some v \<Rightarrow> v < 0)
         \<or> \<not> all_nonempty (fm_evidence m)))
       ''fitness metric is incomplete''"

record invariant_result =
  ir_schema_version :: schema_version
  ir_reference :: string
  ir_name :: string
  ir_outcome :: fitness_outcome
  ir_evidence :: "string list"

definition invariant_result_validate :: "invariant_result \<Rightarrow> unit result" where
  "invariant_result_validate r =
     ensure (\<not> (ir_schema_version r = 0 \<or> blank (ir_reference r) \<or> blank (ir_name r)
         \<or> \<not> all_nonempty (ir_evidence r)))
       ''invariant result is incomplete''"

text \<open>\<open>EvolutionComparison\<close> and \<open>EvolutionEvaluation\<close> share all their fields but the last.\<close>

record evolution_comparison_base =
  ec_schema_version :: schema_version
  ec_evaluation :: string
  ec_bundle :: string
  ec_baseline :: string
  ec_candidate :: string
  ec_case_set_digest :: schema_digest
  ec_holdout_digest :: schema_digest
  ec_metrics :: "fitness_metric list"
  ec_hard_invariants :: "invariant_result list"
  ec_ground_truth :: "string list"
  ec_independent_verifier :: bool

record evolution_comparison = evolution_comparison_base +
  ec_self_eval_only :: bool

record evolution_evaluation = evolution_comparison_base +
  ee_verdict :: evaluation_verdict

definition comparison_validate :: "'a evolution_comparison_base_scheme \<Rightarrow> unit result" where
  "comparison_validate c =
     ensure (\<not> (ec_schema_version c = 0 \<or> blank (ec_evaluation c) \<or> blank (ec_bundle c)
         \<or> blank (ec_baseline c) \<or> blank (ec_candidate c) \<or> ec_baseline c = ec_candidate c
         \<or> blank (ec_case_set_digest c) \<or> blank (ec_holdout_digest c)
         \<or> ec_case_set_digest c = ec_holdout_digest c
         \<or> ec_metrics c = [] \<or> \<not> distinct (map fm_dimension (ec_metrics c))
         \<or> (\<exists>m\<in>set (ec_metrics c). \<not> is_ok (fitness_metric_validate m))
         \<or> ec_hard_invariants c = [] \<or> \<not> distinct (map ir_reference (ec_hard_invariants c))
         \<or> (\<exists>r\<in>set (ec_hard_invariants c). \<not> is_ok (invariant_result_validate r))
         \<or> (\<exists>g\<in>set (ec_ground_truth c). blank g)))
       ''evolution comparison is incomplete''"

definition evaluation_validate :: "evolution_evaluation \<Rightarrow> unit result" where
  "evaluation_validate e =
     and_then (comparison_validate e) (\<lambda>_.
     ensure (\<not> (ee_verdict e = evaluation_verdict.Pass
         \<and> (\<not> ec_independent_verifier e \<or> ec_ground_truth e = []
            \<or> (\<exists>m\<in>set (ec_metrics e). fm_outcome m \<noteq> fitness_outcome.Pass)
            \<or> (\<exists>r\<in>set (ec_hard_invariants e). ir_outcome r \<noteq> fitness_outcome.Pass))))
       ''passing evaluation lacks independent ground truth'')"

subsection \<open>Activation and rollback\<close>

record strategy_activation =
  sa_schema_version :: schema_version
  sa_aggregate :: string
  sa_domain :: strategy_domain
  sa_scope :: scope
  sa_from :: "string option"
  sa_to :: string
  sa_spec_ref :: string
  sa_spec_digest :: schema_digest
  sa_evaluation :: string
  sa_promotion :: event_id
  sa_owner_confirmation :: "string option"
  sa_impact :: evolution_impact
  sa_expected_version :: evolution_aggregate_version
  sa_committed_version :: evolution_aggregate_version

definition activation_validate :: "strategy_activation \<Rightarrow> unit result" where
  "activation_validate a =
     and_then (validate_version_step (sa_aggregate a) (sa_expected_version a) (sa_committed_version a)) (\<lambda>_.
     let owner_required = sa_impact a = Bounded \<or> sa_impact a = Expansive in
     ensure (\<not> (sa_schema_version a = 0 \<or> blank (sa_aggregate a) \<or> blank (sa_scope a)
         \<or> (case sa_from a of None \<Rightarrow> False | Some v \<Rightarrow> blank v)
         \<or> blank (sa_to a) \<or> sa_from a = Some (sa_to a)
         \<or> blank (sa_spec_ref a) \<or> blank (sa_spec_digest a) \<or> blank (sa_evaluation a) \<or> blank (sa_promotion a)
         \<or> (case sa_owner_confirmation a of None \<Rightarrow> False | Some v \<Rightarrow> blank v)
         \<or> (owner_required \<and> sa_owner_confirmation a = None)
         \<or> sa_impact a = Constitutional))
       ''strategy activation is incomplete or unauthorized'')"

text \<open>\<open>external_effects_reverted\<close> has the unit type \<open>HistoricalFalse\<close>.\<close>

record strategy_rollback =
  sr_schema_version :: schema_version
  sr_aggregate :: string
  sr_domain :: strategy_domain
  sr_scope :: scope
  sr_failed :: string
  sr_restored :: string
  sr_restored_spec_ref :: string
  sr_restored_spec_digest :: schema_digest
  sr_triggers :: "string list"
  sr_expected_version :: evolution_aggregate_version
  sr_committed_version :: evolution_aggregate_version
  sr_in_flight :: in_flight_disposition
  sr_external_effects_reverted :: unit

definition rollback_validate :: "strategy_rollback \<Rightarrow> unit result" where
  "rollback_validate r =
     and_then (validate_version_step (sr_aggregate r) (sr_expected_version r) (sr_committed_version r)) (\<lambda>_.
     ensure (\<not> (sr_schema_version r = 0 \<or> blank (sr_aggregate r) \<or> blank (sr_scope r)
         \<or> blank (sr_failed r) \<or> blank (sr_restored r) \<or> sr_failed r = sr_restored r
         \<or> blank (sr_restored_spec_ref r) \<or> blank (sr_restored_spec_digest r)
         \<or> \<not> all_nonempty (sr_triggers r)))
       ''strategy rollback is incomplete'')"

subsection \<open>What a validated fact guarantees\<close>

lemma version_step_next:
  assumes "validate_version_step aggregate expected committed = Inr u"
  shows "eav_value committed = (if eav_value expected + 1 < 2 ^ 64 then eav_value expected + 1 else 0)"
    and "eav_aggregate expected = aggregate" and "eav_aggregate committed = aggregate"
  using assms by (auto simp: validate_version_step_def and_then_Inr_iff)

lemma valid_candidate_known_good:
  assumes "strategy_candidate_validate c = Inr u"
  shows "srp_known_good (sc_rollback_policy c) = sc_baseline c" and "sc_proposed_version c \<noteq> sc_baseline c"
    and "sc_target_tier c = Stable" and "\<not> blank (sc_candidate c)"
  using assms by (auto simp: strategy_candidate_validate_def and_then_Inr_iff)

lemma valid_pass_grounded:
  assumes "evaluation_validate e = Inr u" and "ee_verdict e = evaluation_verdict.Pass"
  shows "ec_independent_verifier e" and "ec_ground_truth e \<noteq> []"
    and "r \<in> set (ec_hard_invariants e) \<Longrightarrow> ir_outcome r = fitness_outcome.Pass"
    and "m \<in> set (ec_metrics e) \<Longrightarrow> fm_outcome m = fitness_outcome.Pass"
  using assms by (auto simp: evaluation_validate_def and_then_Inr_iff)

end
