(* ===== verification/Events.thy ===== *)
theory Events
  imports Event_Kinds Strategy_Facts
begin

text \<open>
  The events of \<open>protocol/src/event.rs\<close>. A payload that some modelled component reads has a
  constructor named after its struct, with the struct's fields in order; the payloads that are only
  stored are \<open>OtherPayload\<close> with their kind and their serialised content. Fields whose types are not
  modelled (scores, proposals, receipts) are kept as JSON values.
\<close>

type_synonym turn_id = string

record evaluation_summary =
  ev_evaluation :: string
  ev_baseline :: string
  ev_candidate :: string
  ev_verdict :: evaluation_verdict
  ev_hard_invariants :: "string list"
  ev_ground_truth :: "string list"

datatype event_payload =
    RunAcceptedPayload source session_id string "string option"
  | SessionBoundPayload string string string string "effect_mode option" "string option" "string option"
  | RunCompletePayload string "event_id option"
  | RunAbortedPayload string "event_id option"
  | RunFailedPayload string "event_id option"
  | RunLimitedPayload string "event_id option"
  | RunWaitingPayload string string
  | RunResumedPayload string string
  | TurnStartedPayload u32
  | TurnCompletePayload u32
  | ContextBuildStartedPayload "context_source list" "string list"
  | ContextBuildFinishedPayload "context_source list" "string list"
  | CompactionStartedPayload string "string list"
  | CompactionFinishedPayload string "string list" "string option"
  | ModelCallStartedPayload string string
  | ModelCallDeltaPayload string string
  | ModelCallFinishedPayload string string model_usage string
  | OutputClassifiedPayload output_kind
  | ToolCallProposedPayload string string json
  | ActionPlannedPayload action_id plan_digest backend_kind expected_effect source scope
      "approval_id option" "string option"
  | ActionOutputDeltaPayload action_id backend_kind scope string bool trust_tier "string option" "string option"
  | VerificationFinishedPayload string verification_outcome string
  | FailureEvidenceRecordedPayload string json json scope "string list" "string option"
  | CandidateCreatedPayload string string "string list" json provenance stability_tier "json option"
      "strategy_candidate option"
  | CandidatePromotedPayload string decision_actor string
  | RevocationEventPayload string string
  | CapabilityIndexedPayload capability_ref "string list"
  | SkillMetadataExposedPayload "string list" scope version trust_tier
  | SkillBodyLoadedPayload string string scope version trust_tier
  | CapabilityEvidenceRecordedPayload capability_ref string string
  | MemoryNodeAppendedPayload string json string stability_tier json scope json json
  | MemoryMaintenanceAppliedPayload string
  | ImportedHistoricalEvidenceRecordedPayload string
  | EvolutionEvaluationRecordedPayload evaluation_summary
  | StrategyActivatedPayload strategy_activation string
  | StrategyRolledBackPayload strategy_rollback string
  | OtherPayload event_kind json

fun payload_kind :: "event_payload \<Rightarrow> event_kind" where
  "payload_kind (RunAcceptedPayload _ _ _ _) = Lifecycle RunAccepted"
| "payload_kind (SessionBoundPayload _ _ _ _ _ _ _) = Lifecycle SessionBound"
| "payload_kind (RunCompletePayload _ _) = Lifecycle RunComplete"
| "payload_kind (RunAbortedPayload _ _) = Lifecycle RunAborted"
| "payload_kind (RunFailedPayload _ _) = Lifecycle RunFailed"
| "payload_kind (RunLimitedPayload _ _) = Lifecycle RunLimited"
| "payload_kind (RunWaitingPayload _ _) = Lifecycle RunWaiting"
| "payload_kind (RunResumedPayload _ _) = Lifecycle RunResumed"
| "payload_kind (TurnStartedPayload _) = Turn TurnStarted"
| "payload_kind (TurnCompletePayload _) = Turn TurnComplete"
| "payload_kind (ContextBuildStartedPayload _ _) = Turn ContextBuildStarted"
| "payload_kind (ContextBuildFinishedPayload _ _) = Turn ContextBuildFinished"
| "payload_kind (CompactionStartedPayload _ _) = Turn CompactionStarted"
| "payload_kind (CompactionFinishedPayload _ _ _) = Turn CompactionFinished"
| "payload_kind (ModelCallStartedPayload _ _) = ModelEvent ModelCallStarted"
| "payload_kind (ModelCallDeltaPayload _ _) = ModelEvent ModelCallDelta"
| "payload_kind (ModelCallFinishedPayload _ _ _ _) = ModelEvent ModelCallFinished"
| "payload_kind (OutputClassifiedPayload _) = ModelEvent OutputClassified"
| "payload_kind (ToolCallProposedPayload _ _ _) = ToolEvent ToolCallProposed"
| "payload_kind (ActionPlannedPayload _ _ _ _ _ _ _ _) = Action ActionPlanned"
| "payload_kind (ActionOutputDeltaPayload _ _ _ _ _ _ _ _) = Action ActionOutputDelta"
| "payload_kind (VerificationFinishedPayload _ _ _) = VerificationEvent VerificationFinished"
| "payload_kind (FailureEvidenceRecordedPayload _ _ _ _ _ _) = Failure FailureEvidenceRecorded"
| "payload_kind (CandidateCreatedPayload _ _ _ _ _ _ _ _) = Candidate CandidateCreated"
| "payload_kind (CandidatePromotedPayload _ _ _) = Candidate CandidatePromoted"
| "payload_kind (RevocationEventPayload _ _) = Candidate RevocationEvent"
| "payload_kind (CapabilityIndexedPayload _ _) = Capability CapabilityIndexed"
| "payload_kind (SkillMetadataExposedPayload _ _ _ _) = Capability SkillMetadataExposed"
| "payload_kind (SkillBodyLoadedPayload _ _ _ _ _) = Capability SkillBodyLoaded"
| "payload_kind (CapabilityEvidenceRecordedPayload _ _ _) = Capability CapabilityEvidenceRecorded"
| "payload_kind (MemoryNodeAppendedPayload _ _ _ _ _ _ _ _) = MemoryEvent MemoryNodeAppended"
| "payload_kind (MemoryMaintenanceAppliedPayload _) = MemoryEvent MemoryMaintenanceApplied"
| "payload_kind (ImportedHistoricalEvidenceRecordedPayload _) = MemoryEvent ImportedHistoricalEvidenceRecorded"
| "payload_kind (EvolutionEvaluationRecordedPayload _) = Evolution EvolutionEvaluationRecorded"
| "payload_kind (StrategyActivatedPayload _ _) = Evolution StrategyActivated"
| "payload_kind (StrategyRolledBackPayload _ _) = Evolution StrategyRolledBack"
| "payload_kind (OtherPayload k content) = k"

record event =
  ev_event_id :: event_id
  ev_run_id :: run_id
  ev_stream_seq :: nat
  ev_turn_id :: "turn_id option"
  ev_kind :: event_kind
  ev_payload :: event_payload
  ev_schema_version :: schema_version
  ev_ts_unix_ms :: int
  ev_provenance :: provenance

definition event_new ::
  "event_id \<Rightarrow> run_id \<Rightarrow> turn_id option \<Rightarrow> event_payload \<Rightarrow> schema_version \<Rightarrow> int \<Rightarrow> provenance \<Rightarrow> event" where
  "event_new eid run turn pl v ts prov =
     \<lparr>ev_event_id = eid, ev_run_id = run, ev_stream_seq = 0, ev_turn_id = turn, ev_kind = payload_kind pl,
      ev_payload = pl, ev_schema_version = v, ev_ts_unix_ms = ts, ev_provenance = prov\<rparr>"

definition validate_payload_kind :: "event \<Rightarrow> unit result" where
  "validate_payload_kind e =
     ensure (ev_kind e = payload_kind (ev_payload e))
       (''event kind '' @ as_str (ev_kind e) @ '' does not match payload kind '' @ as_str (payload_kind (ev_payload e)))"

lemma validate_payload_kind_ok [simp]:
  "validate_payload_kind e = Inr u \<longleftrightarrow> ev_kind e = payload_kind (ev_payload e)"
  by (simp add: validate_payload_kind_def)

lemma event_new_kind: "ev_kind (event_new eid run turn pl v ts prov) = payload_kind pl"
  by (simp add: event_new_def)

end
