(* ===== verification/Projections.thy ===== *)
theory Projections
  imports Events "HOL-Library.Product_Lexorder"
begin

text \<open>
  The two built-in projections of the event store (\<open>store/src/projection.rs\<close>) and the comparison of a
  stored projection with a replayed one (\<open>store/src/replay.rs\<close>). A projection is a fold of its \<open>apply\<close>
  over the events of a run; the lemmas read the result off the event list, and show that the comparison
  reports nothing exactly when the two agree.
\<close>

subsection \<open>The session state\<close>

record session_state =
  st_schema_version :: schema_version
  st_run_id :: "run_id option"
  st_source :: "source option"
  st_status :: run_status
  st_session_ref :: "session_id option"
  st_workspace :: "string option"
  st_wait_reason :: "string option"
  st_resume_ref :: "string option"
  st_stop_reason :: "string option"
  st_result_ref :: "event_id option"
  st_last_stream_seq :: nat

definition session_empty :: session_state where
  "session_empty =
     \<lparr>st_schema_version = 1, st_run_id = None, st_source = None, st_status = Accepted, st_session_ref = None,
      st_workspace = None, st_wait_reason = None, st_resume_ref = None, st_stop_reason = None,
      st_result_ref = None, st_last_stream_seq = 0\<rparr>"

fun session_payload :: "event_payload \<Rightarrow> session_state \<Rightarrow> session_state" where
  "session_payload (RunAcceptedPayload src session _ _) st =
     st\<lparr>st_source := Some src, st_session_ref := Some session, st_status := Accepted\<rparr>"
| "session_payload (SessionBoundPayload _ _ _ workspace _ _ _) st =
     st\<lparr>st_workspace := Some workspace, st_status := run_status.Running\<rparr>"
| "session_payload (RunCompletePayload reason res) st =
     st\<lparr>st_status := Complete, st_stop_reason := Some reason, st_result_ref := res\<rparr>"
| "session_payload (RunAbortedPayload reason res) st =
     st\<lparr>st_status := Aborted, st_stop_reason := Some reason, st_result_ref := res\<rparr>"
| "session_payload (RunFailedPayload reason res) st =
     st\<lparr>st_status := run_status.Failed, st_stop_reason := Some reason, st_result_ref := res\<rparr>"
| "session_payload (RunLimitedPayload reason res) st =
     st\<lparr>st_status := Limited, st_stop_reason := Some reason, st_result_ref := res\<rparr>"
| "session_payload (RunWaitingPayload reason resume) st =
     st\<lparr>st_status := Waiting, st_wait_reason := Some reason, st_resume_ref := Some resume\<rparr>"
| "session_payload (RunResumedPayload reason resume) st =
     st\<lparr>st_status := run_status.Running, st_wait_reason := Some reason, st_resume_ref := Some resume\<rparr>"
| "session_payload (TurnStartedPayload _) st = st\<lparr>st_status := run_status.Running\<rparr>"
| "session_payload (TurnCompletePayload _) st = st\<lparr>st_status := run_status.Running\<rparr>"
| "session_payload (ContextBuildStartedPayload _ _) st = st\<lparr>st_status := run_status.Running\<rparr>"
| "session_payload (ContextBuildFinishedPayload _ _) st = st\<lparr>st_status := run_status.Running\<rparr>"
| "session_payload (CompactionStartedPayload _ _) st = st\<lparr>st_status := run_status.Running\<rparr>"
| "session_payload (CompactionFinishedPayload _ _ _) st = st\<lparr>st_status := run_status.Running\<rparr>"
| "session_payload _ st = st"

definition session_apply :: "event \<Rightarrow> session_state \<Rightarrow> session_state" where
  "session_apply e st =
     session_payload (ev_payload e)
       (st\<lparr>st_run_id := Some (ev_run_id e), st_last_stream_seq := ev_stream_seq e\<rparr>)"

subsection \<open>The transcript\<close>

record transcript_entry =
  te_event_id :: event_id
  te_run_id :: run_id
  te_turn_id :: "turn_id option"
  te_stream_seq :: nat
  te_kind :: event_kind
  te_text :: string

record transcript =
  tr_schema_version :: schema_version
  tr_run_id :: "run_id option"
  tr_entries :: "transcript_entry list"
  tr_last_stream_seq :: nat

definition transcript_empty :: transcript where
  "transcript_empty =
     \<lparr>tr_schema_version = 1, tr_run_id = None, tr_entries = [], tr_last_stream_seq = 0\<rparr>"

text \<open>The text of an event, for the transcript and for the full-text index.\<close>

definition searchable_text :: "event \<Rightarrow> string option" where
  "searchable_text e =
     (case ev_payload e of
        RunAcceptedPayload _ _ input _ \<Rightarrow> Some input
      | ModelCallDeltaPayload _ delta \<Rightarrow> Some delta
      | ActionOutputDeltaPayload _ _ _ delta _ _ _ _ \<Rightarrow> Some delta
      | _ \<Rightarrow> None)"

definition entry_of :: "event \<Rightarrow> string \<Rightarrow> transcript_entry" where
  "entry_of e text =
     \<lparr>te_event_id = ev_event_id e, te_run_id = ev_run_id e, te_turn_id = ev_turn_id e,
      te_stream_seq = ev_stream_seq e, te_kind = ev_kind e, te_text = text\<rparr>"

definition transcript_apply :: "event \<Rightarrow> transcript \<Rightarrow> transcript" where
  "transcript_apply e t =
     (let t' = t\<lparr>tr_run_id := Some (ev_run_id e), tr_last_stream_seq := ev_stream_seq e\<rparr> in
      case searchable_text e of
        None \<Rightarrow> t'
      | Some text \<Rightarrow> t'\<lparr>tr_entries := tr_entries t' @ [entry_of e text]\<rparr>)"

definition session_of :: "event list \<Rightarrow> session_state" where
  "session_of es = fold session_apply es session_empty"

definition transcript_of :: "event list \<Rightarrow> transcript" where
  "transcript_of es = fold transcript_apply es transcript_empty"

subsection \<open>Reading a projection off the events\<close>

lemma session_payload_frame [simp]:
  "st_run_id (session_payload p st) = st_run_id st"
  "st_last_stream_seq (session_payload p st) = st_last_stream_seq st"
  "st_schema_version (session_payload p st) = st_schema_version st"
  by (cases "(p, st)" rule: session_payload.cases; simp)+

lemma session_apply_frame [simp]:
  "st_run_id (session_apply e st) = Some (ev_run_id e)"
  "st_last_stream_seq (session_apply e st) = ev_stream_seq e"
  "st_schema_version (session_apply e st) = st_schema_version st"
  by (simp_all add: session_apply_def)

lemma transcript_apply_frame [simp]:
  "tr_run_id (transcript_apply e t) = Some (ev_run_id e)"
  "tr_last_stream_seq (transcript_apply e t) = ev_stream_seq e"
  "tr_schema_version (transcript_apply e t) = tr_schema_version t"
  by (simp_all add: transcript_apply_def Let_def split: option.split)

lemma projection_of_simps [simp]:
  "session_of [] = session_empty"
  "session_of (es @ [e]) = session_apply e (session_of es)"
  "transcript_of [] = transcript_empty"
  "transcript_of (es @ [e]) = transcript_apply e (transcript_of es)"
  by (simp_all add: session_of_def transcript_of_def)

lemma session_of_frame:
  "st_schema_version (session_of es) = 1"
  "es \<noteq> [] \<Longrightarrow> st_run_id (session_of es) = Some (ev_run_id (last es))"
  "es \<noteq> [] \<Longrightarrow> st_last_stream_seq (session_of es) = ev_stream_seq (last es)"
  by (induction es rule: rev_induct) (simp_all add: session_empty_def)

lemma transcript_of_frame:
  "tr_schema_version (transcript_of es) = 1"
  "es \<noteq> [] \<Longrightarrow> tr_run_id (transcript_of es) = Some (ev_run_id (last es))"
  "es \<noteq> [] \<Longrightarrow> tr_last_stream_seq (transcript_of es) = ev_stream_seq (last es)"
  by (induction es rule: rev_induct) (simp_all add: transcript_empty_def)

lemma transcript_of_entries:
  "tr_entries (transcript_of es) =
     concat (map (\<lambda>e. case searchable_text e of None \<Rightarrow> [] | Some text \<Rightarrow> [entry_of e text]) es)"
  by (induction es rule: rev_induct)
     (simp_all add: transcript_empty_def transcript_apply_def Let_def split: option.split)

subsection \<open>Comparing projections\<close>

datatype projection_name = SessionStateProjection | TranscriptProjection

datatype session_path =
    SessionRoot | SessionSchemaVersion | SessionRunId | SessionSource | SessionStatus | SessionSessionRef
  | SessionWorkspace | SessionWaitReason | SessionResumeRef | SessionStopReason | SessionResultRef
  | SessionLastStreamSeq

datatype transcript_path =
    TranscriptRoot | TranscriptSchemaVersion | TranscriptRunId | TranscriptEntriesPath | TranscriptLastStreamSeq

datatype projection_path = SessionPath session_path | TranscriptPath transcript_path

datatype projection_value =
    Absent
  | SchemaVersionValue schema_version
  | RunIdValue run_id
  | SourceValue source
  | RunStatusValue run_status
  | SessionIdValue session_id
  | WorkspaceValue string
  | WaitReasonValue string
  | ResumeRefValue string
  | StopReasonValue string
  | EventIdValue event_id
  | StreamSeqValue nat
  | TranscriptEntriesValue "transcript_entry list"
  | SessionStateValue session_state
  | TranscriptValue transcript

record projection_diff_row =
  pd_projection :: projection_name
  pd_path :: projection_path
  pd_current :: projection_value
  pd_replayed :: projection_value

fun name_rank :: "projection_name \<Rightarrow> nat" where
  "name_rank SessionStateProjection = 0"
| "name_rank TranscriptProjection = 1"

fun session_path_rank :: "session_path \<Rightarrow> nat" where
  "session_path_rank SessionRoot = 0"
| "session_path_rank SessionSchemaVersion = 1"
| "session_path_rank SessionRunId = 2"
| "session_path_rank SessionSource = 3"
| "session_path_rank SessionStatus = 4"
| "session_path_rank SessionSessionRef = 5"
| "session_path_rank SessionWorkspace = 6"
| "session_path_rank SessionWaitReason = 7"
| "session_path_rank SessionResumeRef = 8"
| "session_path_rank SessionStopReason = 9"
| "session_path_rank SessionResultRef = 10"
| "session_path_rank SessionLastStreamSeq = 11"

fun transcript_path_rank :: "transcript_path \<Rightarrow> nat" where
  "transcript_path_rank TranscriptRoot = 0"
| "transcript_path_rank TranscriptSchemaVersion = 1"
| "transcript_path_rank TranscriptRunId = 2"
| "transcript_path_rank TranscriptEntriesPath = 3"
| "transcript_path_rank TranscriptLastStreamSeq = 4"

text \<open>The derived order of \<open>ProjectionPath\<close>: by variant, then by the variant's path.\<close>

fun path_rank :: "projection_path \<Rightarrow> nat \<times> nat" where
  "path_rank (SessionPath p) = (0, session_path_rank p)"
| "path_rank (TranscriptPath p) = (1, transcript_path_rank p)"

definition option_value :: "('a \<Rightarrow> projection_value) \<Rightarrow> 'a option \<Rightarrow> projection_value" where
  "option_value wrap v = (case v of None \<Rightarrow> Absent | Some x \<Rightarrow> wrap x)"

definition changed ::
  "projection_name \<Rightarrow> projection_path \<Rightarrow> projection_value \<Rightarrow> projection_value \<Rightarrow> projection_diff_row list" where
  "changed name path cur rep =
     (if cur \<noteq> rep then [\<lparr>pd_projection = name, pd_path = path, pd_current = cur, pd_replayed = rep\<rparr>] else [])"

definition diff_session_state :: "session_state option \<Rightarrow> session_state \<Rightarrow> projection_diff_row list" where
  "diff_session_state cur rep =
     (case cur of
        None \<Rightarrow> [\<lparr>pd_projection = SessionStateProjection, pd_path = SessionPath SessionRoot, pd_current = Absent,
                  pd_replayed = SessionStateValue rep\<rparr>]
      | Some c \<Rightarrow>
          let cmp = (\<lambda>path f. changed SessionStateProjection (SessionPath path) (f c) (f rep)) in
          cmp SessionSchemaVersion (SchemaVersionValue \<circ> st_schema_version)
          @ cmp SessionRunId (option_value RunIdValue \<circ> st_run_id)
          @ cmp SessionSource (option_value SourceValue \<circ> st_source)
          @ cmp SessionStatus (RunStatusValue \<circ> st_status)
          @ cmp SessionSessionRef (option_value SessionIdValue \<circ> st_session_ref)
          @ cmp SessionWorkspace (option_value WorkspaceValue \<circ> st_workspace)
          @ cmp SessionWaitReason (option_value WaitReasonValue \<circ> st_wait_reason)
          @ cmp SessionResumeRef (option_value ResumeRefValue \<circ> st_resume_ref)
          @ cmp SessionStopReason (option_value StopReasonValue \<circ> st_stop_reason)
          @ cmp SessionResultRef (option_value EventIdValue \<circ> st_result_ref)
          @ cmp SessionLastStreamSeq (StreamSeqValue \<circ> st_last_stream_seq))"

definition diff_transcript :: "transcript option \<Rightarrow> transcript \<Rightarrow> projection_diff_row list" where
  "diff_transcript cur rep =
     (case cur of
        None \<Rightarrow> [\<lparr>pd_projection = TranscriptProjection, pd_path = TranscriptPath TranscriptRoot, pd_current = Absent,
                  pd_replayed = TranscriptValue rep\<rparr>]
      | Some c \<Rightarrow>
          let cmp = (\<lambda>path f. changed TranscriptProjection (TranscriptPath path) (f c) (f rep)) in
          cmp TranscriptSchemaVersion (SchemaVersionValue \<circ> tr_schema_version)
          @ cmp TranscriptRunId (option_value RunIdValue \<circ> tr_run_id)
          @ cmp TranscriptEntriesPath (TranscriptEntriesValue \<circ> tr_entries)
          @ cmp TranscriptLastStreamSeq (StreamSeqValue \<circ> tr_last_stream_seq))"

definition projection_diff ::
  "session_state option \<Rightarrow> session_state \<Rightarrow> transcript option \<Rightarrow> transcript \<Rightarrow> projection_diff_row list" where
  "projection_diff cur_session rep_session cur_transcript rep_transcript =
     sort_key (\<lambda>d. (name_rank (pd_projection d), path_rank (pd_path d)))
       (diff_session_state cur_session rep_session @ diff_transcript cur_transcript rep_transcript)"

lemma changed_Nil [simp]: "changed name path cur rep = [] \<longleftrightarrow> cur = rep"
  by (simp add: changed_def)

lemma option_value_inj:
  assumes "\<And>x. wrap x \<noteq> Absent" "inj wrap"
  shows "option_value wrap a = option_value wrap b \<longleftrightarrow> a = b"
  using assms by (auto simp: option_value_def inj_def split: option.splits) (metis assms(1))+

lemma diff_session_Nil: "diff_session_state cur rep = [] \<longleftrightarrow> cur = Some rep"
proof (cases cur)
  case None
  then show ?thesis by (simp add: diff_session_state_def)
next
  case (Some c)
  show ?thesis
    by (cases c; cases rep)
       (simp add: Some diff_session_state_def Let_def option_value_inj inj_def conj_ac)
qed

lemma diff_transcript_Nil: "diff_transcript cur rep = [] \<longleftrightarrow> cur = Some rep"
proof (cases cur)
  case None
  then show ?thesis by (simp add: diff_transcript_def)
next
  case (Some c)
  show ?thesis
    by (cases c; cases rep)
       (simp add: Some diff_transcript_def Let_def option_value_inj inj_def conj_ac)
qed

lemma projection_diff_Nil:
  "projection_diff cs rs ct rt = [] \<longleftrightarrow> cs = Some rs \<and> ct = Some rt"
proof -
  have "projection_diff cs rs ct rt = [] \<longleftrightarrow> diff_session_state cs rs @ diff_transcript ct rt = []"
    unfolding projection_diff_def by (metis length_0_conv length_sort)
  then show ?thesis by (simp add: diff_session_Nil diff_transcript_Nil)
qed

end
