(* ===== verification/Event_Rows.thy ===== *)
theory Event_Rows
  imports Events
begin

text \<open>
  A row of the \<open>events\<close> table and the byte strings derived from it (\<open>store/src/sqlite.rs\<close>,
  \<open>store/src/checksum.rs\<close>): the corruption checksum, and the semantic encodings with which the store
  decides whether an event it is offered again is the one it has. JSON (\<open>serde_json\<close>) is a record of
  encoding and decoding functions; \<open>codec_roundtrip\<close> is the documented behaviour the store relies on,
  that decoding what was encoded gives the value back.
\<close>

subsection \<open>JSON\<close>

record 'x json_codec =
  encode :: "'x \<Rightarrow> bytes result"
  decode :: "bytes \<Rightarrow> 'x result"

definition roundtrip :: "'x json_codec \<Rightarrow> bool" where
  "roundtrip c \<longleftrightarrow> (\<forall>x bs. encode c x = Inr bs \<longrightarrow> decode c bs = Inr x)"

lemma roundtripD: "roundtrip c \<Longrightarrow> encode c x = Inr bs \<Longrightarrow> decode c bs = Inr x"
  by (simp add: roundtrip_def)

lemma roundtrip_inj: "roundtrip c \<Longrightarrow> encode c x = Inr bs \<Longrightarrow> encode c y = Inr bs \<Longrightarrow> x = y"
  by (metis roundtripD Inr_inject)

text \<open>\<open>store_error\<close>: the context is put before the message.\<close>

definition store_error :: "string \<Rightarrow> 'a result \<Rightarrow> 'a result" where
  "store_error what r = (case r of Inl (Error e) \<Rightarrow> fails (what @ '': '' @ e) | Inr v \<Rightarrow> Inr v)"

lemma store_error_Inr [simp]: "store_error what r = Inr v \<longleftrightarrow> r = Inr v"
  by (cases r) (auto simp: store_error_def split: error.split)

lemma store_error_of_Inr [simp]: "store_error what (Inr v) = Inr v"
  by simp

subsection \<open>Rows\<close>

record stored_event =
  se_event_id :: string
  se_run_id :: string
  se_stream_seq :: int
  se_turn_id :: "string option"
  se_kind :: string
  se_payload :: bytes
  se_schema_version :: int
  se_ts_unix_ms :: int
  se_provenance :: bytes
  se_checksum :: string

text \<open>The checksum of a persisted envelope; the sequence number is \<open>u64\<close>, the schema version \<open>u32\<close>.\<close>

definition calculate ::
  "string \<Rightarrow> string \<Rightarrow> nat \<Rightarrow> string option \<Rightarrow> string \<Rightarrow> bytes \<Rightarrow> nat \<Rightarrow> int \<Rightarrow> bytes \<Rightarrow> string" where
  "calculate event_id run_id seq turn kind payload version ts prov =
     (let h = fnv_write (le_bytes 8 seq) (fnv_write_sized run_id (fnv_write_sized event_id fnv_offset_basis));
          h = (case turn of
                 Some t \<Rightarrow> fnv_write_sized t (fnv_write [char_of (1::nat)] h)
               | None \<Rightarrow> fnv_write [char_of (0::nat)] h);
          h = fnv_write_sized payload (fnv_write_sized kind h);
          h = fnv_write (le_bytes_i64 ts) (fnv_write (le_bytes 4 version) h)
      in hex16 (fnv_write_sized prov h))"

subsection \<open>Semantic encodings\<close>

definition push_optional :: "bytes \<Rightarrow> bytes option \<Rightarrow> bytes" where
  "push_optional encoded v =
     (case v of Some bs \<Rightarrow> push_field (encoded @ [char_of (1::nat)]) bs | None \<Rightarrow> encoded @ [char_of (0::nat)])"

record semantic_fields =
  sf_event_id :: "string option"
  sf_run_id :: string
  sf_turn_id :: "string option"
  sf_kind :: string
  sf_payload :: bytes
  sf_schema_version :: nat
  sf_ts_unix_ms :: "int option"
  sf_provenance :: bytes

definition semantic_bytes :: "semantic_fields \<Rightarrow> bytes" where
  "semantic_bytes f =
     (let b = push_field [] ''forme-semantic-v1'';
          b = push_optional b (sf_event_id f);
          b = push_field b (sf_run_id f);
          b = push_optional b (sf_turn_id f);
          b = push_field b (sf_kind f);
          b = push_field b (sf_payload f);
          b = push_field b (le_bytes 4 (sf_schema_version f));
          b = push_optional b (map_option le_bytes_i64 (sf_ts_unix_ms f))
      in push_field b (sf_provenance f))"

definition event_semantic_bytes :: "event \<Rightarrow> bytes \<Rightarrow> bytes \<Rightarrow> bytes" where
  "event_semantic_bytes e payload prov =
     semantic_bytes \<lparr>sf_event_id = Some (ev_event_id e), sf_run_id = ev_run_id e, sf_turn_id = ev_turn_id e,
       sf_kind = as_str (ev_kind e), sf_payload = payload, sf_schema_version = ev_schema_version e,
       sf_ts_unix_ms = Some (ev_ts_unix_ms e), sf_provenance = prov\<rparr>"

definition domain_semantic_bytes :: "event \<Rightarrow> bytes \<Rightarrow> bytes \<Rightarrow> bytes" where
  "domain_semantic_bytes e payload prov =
     push_fields [] [''forme-domain-semantic-v1'', as_str (ev_kind e), payload, le_bytes 4 (ev_schema_version e), prov]"

text \<open>The key under which a request is remembered: the client's idempotency key of a run, the intent of
  an action, and the generation and intention of an intention lease.\<close>

definition lease_key :: "string \<Rightarrow> (string \<times> string) option" where
  "lease_key deltas =
     (case strip_prefix ''intention-lease|'' deltas of
        None \<Rightarrow> None
      | Some v \<Rightarrow>
          (case split_on CHR ''|'' v of
             [generation, _, intention] \<Rightarrow> Some (''intention_lease'', generation @ ''|'' @ intention)
           | _ \<Rightarrow> None))"

definition domain_idempotency_key :: "event \<Rightarrow> (string \<times> string) option" where
  "domain_idempotency_key e =
     (case ev_payload e of
        RunAcceptedPayload _ _ _ key \<Rightarrow> map_option (\<lambda>k. (''run_request'', k)) key
      | ActionPlannedPayload intent _ _ _ _ _ _ _ \<Rightarrow> Some (''action_intent'', intent)
      | MemoryMaintenanceAppliedPayload deltas \<Rightarrow> lease_key deltas
      | _ \<Rightarrow> None)"

subsection \<open>The semantic encoding is injective\<close>

definition fields_fit :: "semantic_fields \<Rightarrow> bool" where
  "fields_fit f \<longleftrightarrow> pred_option fits (sf_event_id f) \<and> fits (sf_run_id f) \<and> pred_option fits (sf_turn_id f)
     \<and> fits (sf_kind f) \<and> fits (sf_payload f) \<and> sf_schema_version f < 2 ^ 32
     \<and> pred_option is_i64 (sf_ts_unix_ms f) \<and> fits (sf_provenance f)"

text \<open>The encoding is a sequence of segments, each a plain or an optional field.\<close>

datatype segment = Plain bytes | Opt "bytes option"

fun segment_bytes :: "segment \<Rightarrow> bytes" where
  "segment_bytes (Plain v) = push_field [] v"
| "segment_bytes (Opt v) = push_optional [] v"

fun segment_fits :: "segment \<Rightarrow> bool" where
  "segment_fits (Plain v) = fits v"
| "segment_fits (Opt v) = pred_option fits v"

fun same_shape :: "segment \<Rightarrow> segment \<Rightarrow> bool" where
  "same_shape (Plain _) (Plain _) = True"
| "same_shape (Opt _) (Opt _) = True"
| "same_shape _ _ = False"

lemma segment_split:
  assumes "segment_bytes x @ r = segment_bytes y @ s" "same_shape x y" "segment_fits x" "segment_fits y"
  shows "x = y \<and> r = s"
proof -
  have optional: "v = w \<and> r = s"
    if "push_optional [] v @ r = push_optional [] w @ s" "pred_option fits v" "pred_option fits w" for v w
    using that push_field_split [of "the v" r "the w" s]
    by (cases v; cases w) (simp_all add: push_optional_def push_field_def)
  show ?thesis
  proof (cases x; cases y)
    fix v w assume "x = Plain v" "y = Plain w"
    then show ?thesis using assms push_field_split [of v r w s] by simp
  next
    fix v w assume "x = Opt v" "y = Opt w"
    then show ?thesis using assms optional [of v w] by simp
  qed (use assms(2) in simp_all)
qed

lemma segments_inj:
  assumes "concat (map segment_bytes xs) = concat (map segment_bytes ys)" "list_all2 same_shape xs ys"
    "list_all segment_fits xs" "list_all segment_fits ys"
  shows "xs = ys"
  using assms(2,1,3,4)
proof (induction rule: list_all2_induct)
  case (Cons x xs y ys)
  then have "x = y \<and> concat (map segment_bytes xs) = concat (map segment_bytes ys)"
    by (intro segment_split) simp_all
  then show ?case using Cons by simp
qed simp

definition segments :: "semantic_fields \<Rightarrow> segment list" where
  "segments f =
     [Plain ''forme-semantic-v1'', Opt (sf_event_id f), Plain (sf_run_id f), Opt (sf_turn_id f), Plain (sf_kind f),
      Plain (sf_payload f), Plain (le_bytes 4 (sf_schema_version f)),
      Opt (map_option le_bytes_i64 (sf_ts_unix_ms f)), Plain (sf_provenance f)]"

lemma semantic_bytes_segments: "semantic_bytes f = concat (map segment_bytes (segments f))"
  by (simp add: semantic_bytes_def segments_def Let_def push_field_def push_optional_def split: option.split)

lemma segments_fit: "fields_fit f \<Longrightarrow> list_all segment_fits (segments f)"
  by (cases "sf_ts_unix_ms f") (simp_all add: fields_fit_def segments_def le_bytes_i64_def fits_def)

lemma segments_determine:
  assumes "segments f = segments g" "fields_fit f" "fields_fit g"
  shows "f = g"
proof -
  have "256 ^ 4 = (2 ^ 32 :: nat)" by simp
  then have "sf_schema_version f = sf_schema_version g"
    using assms by (intro le_bytes_inj [of 4]) (simp_all add: segments_def fields_fit_def)
  moreover have "sf_ts_unix_ms f = sf_ts_unix_ms g"
    using assms le_bytes_i64_inj
    by (cases "sf_ts_unix_ms f"; cases "sf_ts_unix_ms g") (auto simp: segments_def fields_fit_def)
  ultimately show ?thesis using assms(1) by (simp add: segments_def)
qed

text \<open>The semantic encoding of an event determines every field it covers, whatever bytes the payload, the
  provenance or the identifiers contain; so the store may compare encodings to decide that an event offered
  again is the event it has.\<close>

lemma semantic_fields_equal:
  assumes "semantic_bytes f = semantic_bytes g" and "fields_fit f" and "fields_fit g"
  shows "f = g"
proof -
  have "segments f = segments g"
    using assms by (intro segments_inj) (simp_all add: semantic_bytes_segments segments_fit, simp add: segments_def)
  then show ?thesis using assms(2,3) by (rule segments_determine)
qed

lemma domain_semantic_bytes_inj:
  assumes "domain_semantic_bytes e payload prov = domain_semantic_bytes e' payload' prov'"
    "fits payload" "fits prov" "fits payload'" "fits prov'" "ev_schema_version e < 2 ^ 32" "ev_schema_version e' < 2 ^ 32"
  shows "ev_kind e = ev_kind e'" "payload = payload'" "prov = prov'" "ev_schema_version e = ev_schema_version e'"
proof -
  let ?f = "\<lambda>e payload prov. [''forme-domain-semantic-v1'', as_str (ev_kind e), payload, le_bytes 4 (ev_schema_version e), prov]"
  have "field_bytes (?f e payload prov) = field_bytes (?f e' payload' prov')"
    using assms(1) by (simp add: domain_semantic_bytes_def push_fields_eq del: push_fields_simps)
  moreover have "fits ''forme-domain-semantic-v1''" by (simp add: fits_def)
  ultimately have eq: "?f e payload prov = ?f e' payload' prov'"
    using assms(2-5) by (intro field_bytes_inj) (simp_all add: as_str_fits)
  then show "ev_kind e = ev_kind e'" "payload = payload'" "prov = prov'" by (simp_all add: as_str_inj)
  have "256 ^ 4 = (2 ^ 32 :: nat)" by simp
  then show "ev_schema_version e = ev_schema_version e'"
    using eq assms(6,7) by (intro le_bytes_inj [of 4]) simp_all
qed

end
