(* ===== verification/Evolution_Catalog.thy ===== *)
theory Evolution_Catalog
  imports Event_Rows
begin

text \<open>
  The catalog of strategy evolution that the store projects while it appends
  (\<open>update_evolution_catalog\<close> of \<open>store/src/sqlite.rs\<close>): candidates, evaluations and promoted
  strategies, each row with the event that created it. A table is the list of its rows in insertion
  order, keyed by its primary key; the unique columns are checked on insertion, as SQLite does.
\<close>

subsection \<open>Provenance\<close>

definition is_owner_evolution :: "provenance \<Rightarrow> bool" where
  "is_owner_evolution p \<longleftrightarrow> prov_actor p = Owner \<and> prov_trust_tier p = OwnerInput"

definition is_trusted_evolution :: "provenance \<Rightarrow> bool" where
  "is_trusted_evolution p \<longleftrightarrow> is_owner_evolution p
     \<or> (prov_actor p = System \<and> prov_trust_tier p = VerifiedProcess)"

definition validate_fact_provenance :: "provenance \<Rightarrow> unit result" where
  "validate_fact_provenance p =
     ensure (is_trusted_evolution p) ''evolution catalog facts require owner or verified-process provenance''"

subsection \<open>The tables\<close>

record catalog =
  cat_candidates :: "(string \<times> event_id \<times> bytes) list"
  cat_evaluations :: "(string \<times> event_id \<times> bytes) list"
  cat_stable :: "(string \<times> event_id \<times> event_id \<times> bytes) list"

definition empty_catalog :: catalog where
  "empty_catalog = \<lparr>cat_candidates = [], cat_evaluations = [], cat_stable = []\<rparr>"

fun all_versions_distinct :: "strategy_candidate json_codec \<Rightarrow> strategy_candidate \<Rightarrow> bytes list \<Rightarrow> unit result" where
  "all_versions_distinct j c [] = Inr ()"
| "all_versions_distinct j c (bs # rows) =
     and_then (store_error ''failed to decode strategy version identity'' (decode j bs)) (\<lambda>old.
     and_then (strategy_candidate_validate old) (\<lambda>_.
     if sc_proposed_version old \<noteq> sc_proposed_version c then all_versions_distinct j c rows
     else and_then (ensure (\<not> (sc_domain old \<noteq> sc_domain c \<or> sc_spec_ref old \<noteq> sc_spec_ref c
           \<or> sc_spec_digest old \<noteq> sc_spec_digest c))
         (''strategy version '' @ sc_proposed_version c @ '' is already bound to different immutable content'')) (\<lambda>_.
       and_then (ensure (sc_scope old \<noteq> sc_scope c)
         (''strategy version '' @ sc_proposed_version c @ '' already has a candidate in this scope'')) (\<lambda>_.
       all_versions_distinct j c rows))))"

definition validate_candidate_identity ::
  "strategy_candidate json_codec \<Rightarrow> strategy_candidate \<Rightarrow> catalog \<Rightarrow> unit result" where
  "validate_candidate_identity j c cat = all_versions_distinct j c (map (snd \<circ> snd) (cat_candidates cat))"

fun any_passing :: "evaluation_summary json_codec \<Rightarrow> strategy_candidate \<Rightarrow> bytes list \<Rightarrow> bool result" where
  "any_passing j c [] = Inr False"
| "any_passing j c (bs # rows) =
     and_then (store_error ''failed to decode strategy evaluation'' (decode j bs)) (\<lambda>v.
     if ev_verdict v = evaluation_verdict.Pass \<and> ev_baseline v = sc_baseline c
       \<and> ev_candidate v = sc_proposed_version c then Inr True
     else any_passing j c rows)"

definition has_passing_evaluation ::
  "evaluation_summary json_codec \<Rightarrow> strategy_candidate \<Rightarrow> catalog \<Rightarrow> bool result" where
  "has_passing_evaluation j c cat = any_passing j c (map (snd \<circ> snd) (cat_evaluations cat))"

subsection \<open>Projecting an event\<close>

definition project_candidate ::
  "strategy_candidate json_codec \<Rightarrow> event \<Rightarrow> string \<Rightarrow> string list \<Rightarrow> provenance \<Rightarrow> stability_tier
   \<Rightarrow> strategy_candidate \<Rightarrow> catalog \<Rightarrow> catalog result" where
  "project_candidate j e cid evidence prov tier c cat =
     and_then (strategy_candidate_validate c) (\<lambda>_.
     and_then (validate_fact_provenance (ev_provenance e)) (\<lambda>_.
     and_then (ensure (\<not> (sc_candidate c \<noteq> cid \<or> sc_target_tier c \<noteq> tier \<or> sc_evidence c \<noteq> evidence
         \<or> sc_provenance c \<noteq> prov \<or> sc_provenance c \<noteq> ev_provenance e))
       ''strategy candidate envelope does not match its verified candidate facts'') (\<lambda>_.
     and_then (store_error ''failed to encode strategy candidate'' (encode j c)) (\<lambda>encoded.
     case map_of (cat_candidates cat) (sc_candidate c) of
       Some (created, stored) \<Rightarrow>
         if created \<noteq> ev_event_id e \<or> stored \<noteq> encoded
         then fails (''conflicting strategy candidate '' @ sc_candidate c) else Inr cat
     | None \<Rightarrow>
         and_then (validate_candidate_identity j c cat) (\<lambda>_.
         and_then (ensure (ev_event_id e \<notin> (fst \<circ> snd) ` set (cat_candidates cat))
           ''failed to project strategy candidate'') (\<lambda>_.
         Inr (cat\<lparr>cat_candidates := cat_candidates cat @ [(sc_candidate c, ev_event_id e, encoded)]\<rparr>)))))))"

definition project_evaluation ::
  "evaluation_summary json_codec \<Rightarrow> event \<Rightarrow> evaluation_summary \<Rightarrow> catalog \<Rightarrow> catalog result" where
  "project_evaluation j e v cat =
     and_then (validate_fact_provenance (ev_provenance e)) (\<lambda>_.
     and_then (ensure (\<not> (blank (ev_evaluation v) \<or> blank (ev_baseline v) \<or> blank (ev_candidate v)
         \<or> ev_baseline v = ev_candidate v
         \<or> ev_hard_invariants v = [] \<or> (\<exists>r\<in>set (ev_hard_invariants v). blank r)
         \<or> ev_ground_truth v = [] \<or> (\<exists>r\<in>set (ev_ground_truth v). blank r)))
       ''evolution evaluation summary is incomplete'') (\<lambda>_.
     and_then (store_error ''failed to encode evolution evaluation'' (encode j v)) (\<lambda>encoded.
     case map_of (cat_evaluations cat) (ev_evaluation v) of
       Some (stored_event, stored) \<Rightarrow>
         if stored_event \<noteq> ev_event_id e \<or> stored \<noteq> encoded
         then fails (''conflicting evolution evaluation '' @ ev_evaluation v) else Inr cat
     | None \<Rightarrow>
         and_then (ensure (ev_event_id e \<notin> (fst \<circ> snd) ` set (cat_evaluations cat))
           ''failed to project evolution evaluation'') (\<lambda>_.
         Inr (cat\<lparr>cat_evaluations := cat_evaluations cat @ [(ev_evaluation v, ev_event_id e, encoded)]\<rparr>)))))"

definition project_promotion ::
  "strategy_candidate json_codec \<Rightarrow> evaluation_summary json_codec \<Rightarrow> event \<Rightarrow> string \<Rightarrow> decision_actor
   \<Rightarrow> catalog \<Rightarrow> catalog result" where
  "project_promotion jc jv e cid actor cat =
     (case map_of (cat_candidates cat) cid of
        None \<Rightarrow> Inr cat
      | Some (created, bs) \<Rightarrow>
          and_then (validate_fact_provenance (ev_provenance e)) (\<lambda>_.
          and_then (ensure (\<not> ((actor = User
                \<and> (prov_actor (ev_provenance e) \<noteq> Owner \<or> prov_trust_tier (ev_provenance e) \<noteq> OwnerInput))
              \<or> (actor = Auto \<and> prov_trust_tier (ev_provenance e) \<noteq> VerifiedProcess)))
            ''strategy promotion actor does not match its verified provenance'') (\<lambda>_.
          and_then (store_error ''failed to decode promoted strategy'' (decode jc bs)) (\<lambda>c.
          and_then (strategy_candidate_validate c) (\<lambda>_.
          and_then (has_passing_evaluation jv c cat) (\<lambda>passing.
          and_then (ensure passing ''strategy promotion requires a recorded passing evaluation'') (\<lambda>_.
          case map_of (cat_stable cat) cid of
            Some (stored_created, stored_promotion, stored) \<Rightarrow>
              if stored_created \<noteq> created \<or> stored_promotion \<noteq> ev_event_id e \<or> stored \<noteq> bs
              then fails (''conflicting stable strategy promotion '' @ cid) else Inr cat
          | None \<Rightarrow>
              and_then (ensure (ev_event_id e \<notin> (fst \<circ> snd \<circ> snd) ` set (cat_stable cat))
                ''failed to project stable strategy'') (\<lambda>_.
              Inr (cat\<lparr>cat_stable := cat_stable cat @ [(cid, created, ev_event_id e, bs)]\<rparr>)))))))))"

definition update_evolution_catalog ::
  "strategy_candidate json_codec \<Rightarrow> evaluation_summary json_codec \<Rightarrow> event \<Rightarrow> catalog \<Rightarrow> catalog result" where
  "update_evolution_catalog jc jv e cat =
     (case ev_payload e of
        CandidateCreatedPayload cid _ evidence _ prov tier _ candidate \<Rightarrow>
          (case candidate of
             None \<Rightarrow> Inr cat
           | Some c \<Rightarrow> project_candidate jc e cid evidence prov tier c cat)
      | EvolutionEvaluationRecordedPayload v \<Rightarrow> project_evaluation jv e v cat
      | CandidatePromotedPayload cid actor _ \<Rightarrow> project_promotion jc jv e cid actor cat
      | _ \<Rightarrow> Inr cat)"

subsection \<open>What the catalog guarantees\<close>

text \<open>Every row names its candidate truthfully, and every promoted strategy has a recorded candidate
  that passed an evaluation against its baseline.\<close>

definition candidate_rows_ok :: "strategy_candidate json_codec \<Rightarrow> catalog \<Rightarrow> bool" where
  "candidate_rows_ok j cat \<longleftrightarrow> distinct (map fst (cat_candidates cat)) \<and>
     (\<forall>(cid, created, bs)\<in>set (cat_candidates cat). \<exists>c. encode j c = Inr bs \<and> sc_candidate c = cid
        \<and> strategy_candidate_validate c = Inr ())"

definition evaluation_rows_ok :: "evaluation_summary json_codec \<Rightarrow> catalog \<Rightarrow> bool" where
  "evaluation_rows_ok j cat \<longleftrightarrow> distinct (map fst (cat_evaluations cat)) \<and>
     (\<forall>(ref, created, bs)\<in>set (cat_evaluations cat). \<exists>v. encode j v = Inr bs \<and> ev_evaluation v = ref)"

definition passing_row :: "evaluation_summary json_codec \<Rightarrow> strategy_candidate \<Rightarrow> catalog \<Rightarrow> bool" where
  "passing_row j c cat \<longleftrightarrow> (\<exists>(ref, created, bs)\<in>set (cat_evaluations cat). \<exists>v. decode j bs = Inr v
     \<and> ev_verdict v = evaluation_verdict.Pass \<and> ev_baseline v = sc_baseline c
     \<and> ev_candidate v = sc_proposed_version c)"








text \<open>The three projections, by the rows they add.\<close>

lemma project_candidate_cases:
  assumes "project_candidate j e cid evidence prov tier c cat = Inr cat'"
  shows "cat' = cat \<or> (map_of (cat_candidates cat) (sc_candidate c) = None \<and> strategy_candidate_validate c = Inr ()
    \<and> (\<exists>encoded. encode j c = Inr encoded
         \<and> cat' = cat\<lparr>cat_candidates := cat_candidates cat @ [(sc_candidate c, ev_event_id e, encoded)]\<rparr>))"
  using assms
  by (cases "map_of (cat_candidates cat) (sc_candidate c)")
     (auto simp: project_candidate_def and_then_Inr_iff split: if_splits)

lemma project_evaluation_cases:
  assumes "project_evaluation j e v cat = Inr cat'"
  shows "cat' = cat \<or> (map_of (cat_evaluations cat) (ev_evaluation v) = None
    \<and> (\<exists>encoded. encode j v = Inr encoded
         \<and> cat' = cat\<lparr>cat_evaluations := cat_evaluations cat @ [(ev_evaluation v, ev_event_id e, encoded)]\<rparr>))"
  using assms
  by (cases "map_of (cat_evaluations cat) (ev_evaluation v)")
     (auto simp: project_evaluation_def and_then_Inr_iff split: if_splits)

lemma project_promotion_cases:
  assumes "project_promotion jc jv e cid actor cat = Inr cat'"
  shows "cat' = cat \<or> (\<exists>created bs c. map_of (cat_candidates cat) cid = Some (created, bs) \<and> decode jc bs = Inr c
    \<and> strategy_candidate_validate c = Inr () \<and> has_passing_evaluation jv c cat = Inr True
    \<and> map_of (cat_stable cat) cid = None
    \<and> cat' = cat\<lparr>cat_stable := cat_stable cat @ [(cid, created, ev_event_id e, bs)]\<rparr>)"
proof (cases "map_of (cat_candidates cat) cid")
  case None
  then show ?thesis using assms by (simp add: project_promotion_def)
next
  case (Some row)
  obtain created bs where row: "row = (created, bs)" by (cases row)
  obtain c where c: "decode jc bs = Inr c" "strategy_candidate_validate c = Inr ()"
      "has_passing_evaluation jv c cat = Inr True"
    using assms Some unfolding row by (auto simp: project_promotion_def and_then_Inr_iff)
  show ?thesis
  proof (cases "map_of (cat_stable cat) cid")
    case None
    then have "cat' = cat\<lparr>cat_stable := cat_stable cat @ [(cid, created, ev_event_id e, bs)]\<rparr>"
      using assms Some c unfolding row by (simp add: project_promotion_def and_then_Inr_iff)
    then show ?thesis using Some c None unfolding row by blast
  next
    case stable: (Some old)
    then show ?thesis
      using assms Some c unfolding row
      by (cases old) (auto simp: project_promotion_def and_then_Inr_iff split: if_splits)
  qed
qed

lemma update_catalog_other:
  assumes "\<And>cid t ev cf pr ti cap c. ev_payload e \<noteq> CandidateCreatedPayload cid t ev cf pr ti cap (Some c)"
    "\<And>v. ev_payload e \<noteq> EvolutionEvaluationRecordedPayload v"
    "\<And>cid actor reason. ev_payload e \<noteq> CandidatePromotedPayload cid actor reason"
  shows "update_evolution_catalog jc jv e cat = Inr cat"
  using assms unfolding update_evolution_catalog_def
  by (cases "ev_payload e") (simp_all split: option.split, blast+)

lemma update_catalog_cases:
  assumes "update_evolution_catalog jc jv e cat = Inr cat'"
  obtains (same) "cat' = cat"
    | (candidate) c encoded where "map_of (cat_candidates cat) (sc_candidate c) = None" "encode jc c = Inr encoded"
        "strategy_candidate_validate c = Inr ()"
        "cat' = cat\<lparr>cat_candidates := cat_candidates cat @ [(sc_candidate c, ev_event_id e, encoded)]\<rparr>"
    | (evaluation) v encoded where "map_of (cat_evaluations cat) (ev_evaluation v) = None" "encode jv v = Inr encoded"
        "cat' = cat\<lparr>cat_evaluations := cat_evaluations cat @ [(ev_evaluation v, ev_event_id e, encoded)]\<rparr>"
    | (promotion) cid created bs c where "map_of (cat_candidates cat) cid = Some (created, bs)" "decode jc bs = Inr c"
        "strategy_candidate_validate c = Inr ()" "has_passing_evaluation jv c cat = Inr True"
        "map_of (cat_stable cat) cid = None"
        "cat' = cat\<lparr>cat_stable := cat_stable cat @ [(cid, created, ev_event_id e, bs)]\<rparr>"
proof -
  consider (c) cid t ev cf pr ti cap c where "ev_payload e = CandidateCreatedPayload cid t ev cf pr ti cap (Some c)"
    | (v) v where "ev_payload e = EvolutionEvaluationRecordedPayload v"
    | (p) cid actor reason where "ev_payload e = CandidatePromotedPayload cid actor reason"
    | (other) "update_evolution_catalog jc jv e cat = Inr cat"
    using update_catalog_other by metis
  then show ?thesis
  proof cases
    case (c cid t ev cf pr ti cap c)
    then have "project_candidate jc e cid ev pr ti c cat = Inr cat'"
      using assms by (simp add: update_evolution_catalog_def)
    from project_candidate_cases [OF this] show ?thesis using same candidate by blast
  next
    case (v v)
    then have "project_evaluation jv e v cat = Inr cat'" using assms by (simp add: update_evolution_catalog_def)
    from project_evaluation_cases [OF this] show ?thesis using same evaluation by blast
  next
    case (p cid actor reason)
    then have "project_promotion jc jv e cid actor cat = Inr cat'" using assms by (simp add: update_evolution_catalog_def)
    from project_promotion_cases [OF this] show ?thesis using same promotion by blast
  next
    case other
    then show ?thesis using assms same by simp
  qed
qed




lemma rows_ok_frame [simp]:
  "evaluation_rows_ok jv (cat\<lparr>cat_candidates := cs\<rparr>) = evaluation_rows_ok jv cat"
  "evaluation_rows_ok jv (cat\<lparr>cat_stable := ss\<rparr>) = evaluation_rows_ok jv cat"
  "candidate_rows_ok jc (cat\<lparr>cat_evaluations := es\<rparr>) = candidate_rows_ok jc cat"
  "candidate_rows_ok jc (cat\<lparr>cat_stable := ss\<rparr>) = candidate_rows_ok jc cat"
  "passing_row jv c (cat\<lparr>cat_stable := ss\<rparr>) = passing_row jv c cat"
  "passing_row jv c (cat\<lparr>cat_candidates := cs\<rparr>) = passing_row jv c cat"
  by (simp_all add: evaluation_rows_ok_def candidate_rows_ok_def passing_row_def)


subsection \<open>Rebuilding the catalog\<close>

fun project_all ::
  "strategy_candidate json_codec \<Rightarrow> evaluation_summary json_codec \<Rightarrow> event list \<Rightarrow> catalog \<Rightarrow> catalog result" where
  "project_all jc jv [] cat = Inr cat"
| "project_all jc jv (e # es) cat = and_then (update_evolution_catalog jc jv e cat) (project_all jc jv es)"

definition of_kind :: "candidate_kind \<Rightarrow> event \<Rightarrow> bool" where
  "of_kind k e \<longleftrightarrow> ev_kind e = Candidate k"

text \<open>The catalog part of \<open>rebuild_evolution_projection_in_transaction\<close>: all candidates, then all
  evaluations, then all promotions of the decoded log.\<close>

definition rebuild_catalog ::
  "strategy_candidate json_codec \<Rightarrow> evaluation_summary json_codec \<Rightarrow> event list \<Rightarrow> catalog result" where
  "rebuild_catalog jc jv es =
     and_then (project_all jc jv (filter (of_kind CandidateCreated) es) empty_catalog) (\<lambda>cat.
     and_then (project_all jc jv (filter (\<lambda>e. ev_kind e = Evolution EvolutionEvaluationRecorded) es) cat)
       (project_all jc jv (filter (of_kind CandidatePromoted) es)))"

lemma project_all_append:
  "project_all jc jv (xs @ ys) cat = and_then (project_all jc jv xs cat) (project_all jc jv ys)"
proof (induction xs arbitrary: cat)
  case (Cons x xs)
  then show ?case by (cases "update_evolution_catalog jc jv x cat") simp_all
qed simp



subsection \<open>When a rebuild agrees with the live catalog\<close>

text \<open>A projection of one kind of event reads and writes only its own tables. (A payload that is only
  stored never changes the catalog, whatever its kind.)\<close>

abbreviation tables :: "(string \<times> event_id \<times> bytes) list \<Rightarrow> (string \<times> event_id \<times> bytes) list
    \<Rightarrow> (string \<times> event_id \<times> event_id \<times> bytes) list \<Rightarrow> catalog" where
  "tables cs vs ss \<equiv> \<lparr>cat_candidates = cs, cat_evaluations = vs, cat_stable = ss\<rparr>"

lemma update_candidate_local:
  assumes "of_kind CandidateCreated e" "ev_kind e = payload_kind (ev_payload e)"
  shows "update_evolution_catalog jc jv e (tables cs vs ss) =
     and_then (update_evolution_catalog jc jv e (tables cs [] [])) (\<lambda>cat. Inr (tables (cat_candidates cat) vs ss))"
proof -
  have "project_candidate jc e cid ev pr ti c (tables cs vs ss) =
      and_then (project_candidate jc e cid ev pr ti c (tables cs [] [])) (\<lambda>cat. Inr (tables (cat_candidates cat) vs ss))"
    for cid ev pr ti c
    by (simp add: project_candidate_def validate_candidate_identity_def and_then_def split: sum.split option.split)
  then show ?thesis using assms
    by (cases "ev_payload e") (auto simp: of_kind_def update_evolution_catalog_def split: option.split)
qed

lemma update_evaluation_local:
  assumes "ev_kind e = Evolution EvolutionEvaluationRecorded" "ev_kind e = payload_kind (ev_payload e)"
  shows "update_evolution_catalog jc jv e (tables cs vs ss) =
     and_then (update_evolution_catalog jc jv e (tables [] vs [])) (\<lambda>cat. Inr (tables cs (cat_evaluations cat) ss))"
proof -
  have "project_evaluation jv e v (tables cs vs ss) =
      and_then (project_evaluation jv e v (tables [] vs [])) (\<lambda>cat. Inr (tables cs (cat_evaluations cat) ss))"
    for v
    by (simp add: project_evaluation_def and_then_def split: sum.split option.split)
  then show ?thesis using assms
    by (cases "ev_payload e") (auto simp: update_evolution_catalog_def)
qed

text \<open>A promotion that was accepted is accepted again, with the same row, when more candidates (not its
  own) and more evaluations are known.\<close>

definition promoted_id :: "event \<Rightarrow> string option" where
  "promoted_id e = (case ev_payload e of CandidatePromotedPayload cid _ _ \<Rightarrow> Some cid | _ \<Rightarrow> None)"

definition created_id :: "event \<Rightarrow> string option" where
  "created_id e = (case ev_payload e of CandidateCreatedPayload cid _ _ _ _ _ _ (Some c) \<Rightarrow> Some cid | _ \<Rightarrow> None)"

lemma update_promotion_weaken:
  assumes "of_kind CandidatePromoted e" "ev_kind e = payload_kind (ev_payload e)"
    and "update_evolution_catalog jc jv e (tables cs vs ss) = Inr cat"
    and "\<And>cid. promoted_id e = Some cid \<Longrightarrow> map_of cs' cid = map_of cs cid"
    and "\<And>c. has_passing_evaluation jv c (tables cs vs ss) = Inr True
      \<Longrightarrow> has_passing_evaluation jv c (tables cs' vs' ss) = Inr True"
  shows "cat = tables cs vs (cat_stable cat)"
    and "update_evolution_catalog jc jv e (tables cs' vs' ss) = Inr (tables cs' vs' (cat_stable cat))"
proof -
  have promotion: "cat = tables cs vs (cat_stable cat)
      \<and> project_promotion jc jv e cid actor (tables cs' vs' ss) = Inr (tables cs' vs' (cat_stable cat))"
    if p: "project_promotion jc jv e cid actor (tables cs vs ss) = Inr cat" and "map_of cs' cid = map_of cs cid"
    for cid actor
    using p that(2) assms(5)
    by (cases "map_of cs cid"; cases "map_of ss cid")
       (auto simp: project_promotion_def and_then_Inr_iff split: if_splits intro!: exI [of _ True])
  have "cat = tables cs vs (cat_stable cat)
    \<and> update_evolution_catalog jc jv e (tables cs' vs' ss) = Inr (tables cs' vs' (cat_stable cat))"
    using assms(1-4) promotion
    by (cases "ev_payload e") (auto simp: of_kind_def update_evolution_catalog_def promoted_id_def)
  then show "cat = tables cs vs (cat_stable cat)"
    and "update_evolution_catalog jc jv e (tables cs' vs' ss) = Inr (tables cs' vs' (cat_stable cat))" by blast+
qed

lemma project_promotions_weaken:
  assumes "project_all jc jv es (tables cs vs ss) = Inr cat"
    and "\<forall>e\<in>set es. of_kind CandidatePromoted e \<and> ev_kind e = payload_kind (ev_payload e)"
    and "\<forall>e\<in>set es. \<forall>cid. promoted_id e = Some cid \<longrightarrow> map_of cs' cid = map_of cs cid"
    and "\<And>c ss. has_passing_evaluation jv c (tables cs vs ss) = Inr True
      \<Longrightarrow> has_passing_evaluation jv c (tables cs' vs' ss) = Inr True"
  shows "cat = tables cs vs (cat_stable cat)
    \<and> project_all jc jv es (tables cs' vs' ss) = Inr (tables cs' vs' (cat_stable cat))"
  using assms(1-3)
proof (induction es arbitrary: ss)
  case (Cons e es)
  then obtain mid where mid: "update_evolution_catalog jc jv e (tables cs vs ss) = Inr mid"
      "project_all jc jv es mid = Inr cat" by (auto simp: and_then_Inr_iff)
  have e: "of_kind CandidatePromoted e" "ev_kind e = payload_kind (ev_payload e)"
      "\<And>cid. promoted_id e = Some cid \<Longrightarrow> map_of cs' cid = map_of cs cid" using Cons.prems by simp_all
  note step = update_promotion_weaken [OF e(1,2) mid(1) e(3) assms(4)]
  have "project_all jc jv es (tables cs vs (cat_stable mid)) = Inr cat" using mid(2) step(1) by simp
  from Cons.IH [OF this] Cons.prems(2,3)
  have "cat = tables cs vs (cat_stable cat)
      \<and> project_all jc jv es (tables cs' vs' (cat_stable mid)) = Inr (tables cs' vs' (cat_stable cat))" by simp
  then show ?case using step(2) by simp
qed auto

lemma update_candidate_rows:
  assumes "of_kind CandidateCreated e" "ev_kind e = payload_kind (ev_payload e)"
    "update_evolution_catalog jc jv e (tables cs [] []) = Inr cat"
  shows "cat_candidates cat = cs \<or> (\<exists>cid row. created_id e = Some cid \<and> cat_candidates cat = cs @ [(cid, row)])"
proof -
  have "cat_candidates cat = cs \<or> (\<exists>row. cat_candidates cat = cs @ [(cid, row)])"
    if "project_candidate jc e cid ev pr ti c (tables cs [] []) = Inr cat" for cid ev pr ti c
    using that by (cases "map_of cs (sc_candidate c)") (auto simp: project_candidate_def and_then_Inr_iff split: if_splits)
  then show ?thesis using assms
    by (cases "ev_payload e") (auto simp: of_kind_def update_evolution_catalog_def created_id_def split: option.splits)
qed

lemma any_passing_append: "any_passing j c rows = Inr True \<Longrightarrow> any_passing j c (rows @ extra) = Inr True"
  by (induction rows) (auto simp: and_then_Inr_iff split: if_splits)

lemma update_evaluation_rows:
  assumes "ev_kind e = Evolution EvolutionEvaluationRecorded" "ev_kind e = payload_kind (ev_payload e)"
    "update_evolution_catalog jc jv e (tables [] vs []) = Inr cat"
  shows "\<exists>extra. cat_evaluations cat = vs @ extra"
  using assms(3) by (cases rule: update_catalog_cases) auto

lemma project_evaluations_local:
  assumes "\<forall>e\<in>set es. ev_kind e = Evolution EvolutionEvaluationRecorded \<and> ev_kind e = payload_kind (ev_payload e)"
  shows "project_all jc jv es (tables cs vs ss) =
     and_then (project_all jc jv es (tables [] vs [])) (\<lambda>cat. Inr (tables cs (cat_evaluations cat) ss))"
  using assms
proof (induction es arbitrary: vs)
  case (Cons e es)
  have e: "ev_kind e = Evolution EvolutionEvaluationRecorded" "ev_kind e = payload_kind (ev_payload e)"
    using Cons.prems by (meson list.set_intros(1))+
  note local = update_evaluation_local [OF e]
  show ?case
  proof (cases "update_evolution_catalog jc jv e (tables [] vs [])")
    case (Inl err)
    then show ?thesis using local [of jc jv cs vs ss] by simp
  next
    case (Inr cat)
    then have "cat = tables [] (cat_evaluations cat) []" using local [of jc jv "[]" vs "[]"] by simp
    then have "project_all jc jv (e # es) (tables [] vs []) = project_all jc jv es (tables [] (cat_evaluations cat) [])"
      using Inr by simp
    moreover have "project_all jc jv (e # es) (tables cs vs ss) = project_all jc jv es (tables cs (cat_evaluations cat) ss)"
      using Inr local [of jc jv cs vs ss] by simp
    moreover have rest: "\<forall>e\<in>set es. ev_kind e = Evolution EvolutionEvaluationRecorded \<and> ev_kind e = payload_kind (ev_payload e)"
      using Cons.prems by (meson list.set_intros(2))
    ultimately show ?thesis using Cons.IH [OF rest, of "cat_evaluations cat"] by (simp only:)
  qed
qed simp

text \<open>The hypothesis under which the order of the rebuild does not matter: no promotion of a candidate was
  recorded before the candidate itself.\<close>

definition promotions_resolved :: "event list \<Rightarrow> bool" where
  "promotions_resolved es \<longleftrightarrow> (\<forall>xs e ys p. es = xs @ e # ys \<longrightarrow> p \<in> set xs \<longrightarrow> created_id e \<noteq> None
     \<longrightarrow> promoted_id p \<noteq> created_id e)"

lemma promotions_resolved_snoc:
  assumes "promotions_resolved (es @ [e])"
  shows "promotions_resolved es" "p \<in> set es \<Longrightarrow> created_id e \<noteq> None \<Longrightarrow> promoted_id p \<noteq> created_id e"
proof -
  show "promotions_resolved es"
    unfolding promotions_resolved_def
  proof (intro allI impI)
    fix xs d ys p
    assume "es = xs @ d # ys" "p \<in> set xs" "created_id d \<noteq> None"
    then have "es @ [e] = xs @ d # (ys @ [e])" by simp
    then show "promoted_id p \<noteq> created_id d"
      using assms \<open>p \<in> set xs\<close> \<open>created_id d \<noteq> None\<close> unfolding promotions_resolved_def by blast
  qed
  show "promoted_id p \<noteq> created_id e" if "p \<in> set es" "created_id e \<noteq> None"
    using assms that unfolding promotions_resolved_def by (metis append_Nil2)
qed

abbreviation candidates_in :: "event list \<Rightarrow> event list" where
  "candidates_in es \<equiv> filter (of_kind CandidateCreated) es"

abbreviation evaluations_in :: "event list \<Rightarrow> event list" where
  "evaluations_in es \<equiv> filter (\<lambda>e. ev_kind e = Evolution EvolutionEvaluationRecorded) es"

abbreviation promotions_in :: "event list \<Rightarrow> event list" where
  "promotions_in es \<equiv> filter (of_kind CandidatePromoted) es"

definition rebuilt_as :: "strategy_candidate json_codec \<Rightarrow> evaluation_summary json_codec \<Rightarrow> event list \<Rightarrow> catalog \<Rightarrow> bool" where
  "rebuilt_as jc jv es cat \<longleftrightarrow>
     project_all jc jv (candidates_in es) empty_catalog = Inr (tables (cat_candidates cat) [] [])
   \<and> project_all jc jv (evaluations_in es) (tables [] [] []) = Inr (tables [] (cat_evaluations cat) [])
   \<and> project_all jc jv (promotions_in es) (tables (cat_candidates cat) (cat_evaluations cat) []) = Inr cat"

lemma rebuilt_as_rebuild:
  assumes "rebuilt_as jc jv es cat" "\<forall>e\<in>set es. ev_kind e = payload_kind (ev_payload e)"
  shows "rebuild_catalog jc jv es = Inr cat"
proof -
  have "\<forall>e\<in>set (evaluations_in es). ev_kind e = Evolution EvolutionEvaluationRecorded \<and> ev_kind e = payload_kind (ev_payload e)"
    using assms(2) by auto
  from project_evaluations_local [OF this, of jc jv "cat_candidates cat" "[]" "[]"] show ?thesis
    using assms(1) by (simp add: rebuild_catalog_def rebuilt_as_def)
qed

text \<open>Appending an event to the log, by the kind of the event.\<close>

lemma rebuilt_as_parts:
  "rebuilt_as jc jv es (tables cs vs ss) \<longleftrightarrow>
     project_all jc jv (candidates_in es) empty_catalog = Inr (tables cs [] [])
   \<and> project_all jc jv (evaluations_in es) (tables [] [] []) = Inr (tables [] vs [])
   \<and> project_all jc jv (promotions_in es) (tables cs vs []) = Inr (tables cs vs ss)"
  by (simp add: rebuilt_as_def)

lemma rebuilt_as_candidate:
  assumes "rebuilt_as jc jv es (tables cs vs ss)" "update_evolution_catalog jc jv e (tables cs vs ss) = Inr cat'"
    and c: "of_kind CandidateCreated e" and kind: "ev_kind e = payload_kind (ev_payload e)"
    and ps: "\<forall>p\<in>set (promotions_in es). of_kind CandidatePromoted p \<and> ev_kind p = payload_kind (ev_payload p)"
    and resolved: "\<And>p. p \<in> set es \<Longrightarrow> created_id e \<noteq> None \<Longrightarrow> promoted_id p \<noteq> created_id e"
  shows "rebuilt_as jc jv (es @ [e]) cat'"
proof -
  note local = update_candidate_local [OF c kind, of jc jv cs]
  obtain cat1 where new: "update_evolution_catalog jc jv e (tables cs [] []) = Inr cat1"
      and cat': "cat' = tables (cat_candidates cat1) vs ss"
    using assms(2) unfolding local [of vs ss] and_then_Inr_iff by blast
  have cat1: "cat1 = tables (cat_candidates cat1) [] []"
    using new local [of "[]" "[]"] unfolding new by simp
  have built: "project_all jc jv (candidates_in es) empty_catalog = Inr (tables cs [] [])"
      "project_all jc jv (evaluations_in es) (tables [] [] []) = Inr (tables [] vs [])"
      "project_all jc jv (promotions_in es) (tables cs vs []) = Inr (tables cs vs ss)"
    using assms(1) unfolding rebuilt_as_parts by blast+
  have "map_of (cat_candidates cat1) cid = map_of cs cid" if "p \<in> set es" "promoted_id p = Some cid" for p cid
    using update_candidate_rows [OF c kind new] resolved [OF that(1)] that(2)
    by (auto simp: map_add_def split: option.split)
  then have same: "\<forall>p\<in>set (promotions_in es). \<forall>cid. promoted_id p = Some cid
      \<longrightarrow> map_of (cat_candidates cat1) cid = map_of cs cid" by (meson filter_is_subset subsetD)
  have "project_all jc jv (promotions_in es) (tables (cat_candidates cat1) vs [])
      = Inr (tables (cat_candidates cat1) vs ss)"
    using project_promotions_weaken [OF built(3) ps same, of vs]
    by (simp add: has_passing_evaluation_def)
  moreover have "project_all jc jv (candidates_in (es @ [e])) empty_catalog = Inr (tables (cat_candidates cat1) [] [])"
    using built(1) new c cat1 by (simp add: project_all_append)
  moreover have "evaluations_in (es @ [e]) = evaluations_in es" "promotions_in (es @ [e]) = promotions_in es"
    using c by (simp_all add: of_kind_def)
  ultimately show ?thesis using built(2) unfolding cat' rebuilt_as_parts by simp
qed

lemma rebuilt_as_evaluation:
  assumes "rebuilt_as jc jv es (tables cs vs ss)" "update_evolution_catalog jc jv e (tables cs vs ss) = Inr cat'"
    and v: "ev_kind e = Evolution EvolutionEvaluationRecorded" and kind: "ev_kind e = payload_kind (ev_payload e)"
    and ps: "\<forall>p\<in>set (promotions_in es). of_kind CandidatePromoted p \<and> ev_kind p = payload_kind (ev_payload p)"
  shows "rebuilt_as jc jv (es @ [e]) cat'"
proof -
  note local = update_evaluation_local [OF v kind, of jc jv _ vs]
  obtain cat1 where new: "update_evolution_catalog jc jv e (tables [] vs []) = Inr cat1"
      and cat': "cat' = tables cs (cat_evaluations cat1) ss"
    using assms(2) unfolding local [of cs ss] and_then_Inr_iff by blast
  have cat1: "cat1 = tables [] (cat_evaluations cat1) []"
    using new local [of "[]" "[]"] unfolding new by simp
  have built: "project_all jc jv (candidates_in es) empty_catalog = Inr (tables cs [] [])"
      "project_all jc jv (evaluations_in es) (tables [] [] []) = Inr (tables [] vs [])"
      "project_all jc jv (promotions_in es) (tables cs vs []) = Inr (tables cs vs ss)"
    using assms(1) unfolding rebuilt_as_parts by blast+
  obtain extra where extra: "cat_evaluations cat1 = vs @ extra" using update_evaluation_rows [OF v kind new] by blast
  have "project_all jc jv (promotions_in es) (tables cs (cat_evaluations cat1) [])
      = Inr (tables cs (cat_evaluations cat1) ss)"
    using project_promotions_weaken [OF built(3) ps, of cs "cat_evaluations cat1"]
    by (simp add: has_passing_evaluation_def any_passing_append extra)
  moreover have "project_all jc jv (evaluations_in (es @ [e])) (tables [] [] [])
      = Inr (tables [] (cat_evaluations cat1) [])"
    using built(2) new v cat1 by (simp add: project_all_append)
  moreover have "candidates_in (es @ [e]) = candidates_in es" "promotions_in (es @ [e]) = promotions_in es"
    using v by (simp_all add: of_kind_def)
  ultimately show ?thesis using built(1) unfolding cat' rebuilt_as_parts by simp
qed

lemma rebuilt_as_promotion:
  assumes "rebuilt_as jc jv es (tables cs vs ss)" "update_evolution_catalog jc jv e (tables cs vs ss) = Inr cat'"
    and p: "of_kind CandidatePromoted e" and kind: "ev_kind e = payload_kind (ev_payload e)"
  shows "rebuilt_as jc jv (es @ [e]) cat'"
proof -
  have "cat' = tables cs vs (cat_stable cat')" by (rule update_promotion_weaken(1) [OF p kind assms(2)]) simp
  then obtain ss1 where cat': "cat' = tables cs vs ss1" by blast
  have "project_all jc jv (promotions_in (es @ [e])) (tables cs vs []) = Inr (tables cs vs ss1)"
    using assms(1,2) p unfolding rebuilt_as_parts cat' by (simp add: project_all_append)
  moreover have "candidates_in (es @ [e]) = candidates_in es" "evaluations_in (es @ [e]) = evaluations_in es"
    using p by (simp_all add: of_kind_def)
  ultimately show ?thesis using assms(1) unfolding cat' rebuilt_as_parts by simp
qed

lemma rebuilt_as_snoc:
  assumes "rebuilt_as jc jv es cat" "update_evolution_catalog jc jv e cat = Inr cat'"
    and kinds: "\<forall>e\<in>set (es @ [e]). ev_kind e = payload_kind (ev_payload e)"
    and resolved: "\<And>p. p \<in> set es \<Longrightarrow> created_id e \<noteq> None \<Longrightarrow> promoted_id p \<noteq> created_id e"
  shows "rebuilt_as jc jv (es @ [e]) cat'"
proof -
  obtain cs vs ss where cat: "cat = tables cs vs ss" by (cases cat)
  note built = assms(1) [unfolded cat]
  note step = assms(2) [unfolded cat]
  have kind: "ev_kind e = payload_kind (ev_payload e)" using kinds by simp
  have ps: "\<forall>p\<in>set (promotions_in es). of_kind CandidatePromoted p \<and> ev_kind p = payload_kind (ev_payload p)"
    using kinds by simp
  consider (c) "of_kind CandidateCreated e" | (v) "ev_kind e = Evolution EvolutionEvaluationRecorded"
    | (p) "of_kind CandidatePromoted e" | (other) "\<not> of_kind CandidateCreated e"
      "ev_kind e \<noteq> Evolution EvolutionEvaluationRecorded" "\<not> of_kind CandidatePromoted e" by blast
  then show ?thesis
  proof cases
    case c
    then show ?thesis by (rule rebuilt_as_candidate [OF built step _ kind ps resolved])
  next
    case v
    then show ?thesis by (rule rebuilt_as_evaluation [OF built step _ kind ps])
  next
    case p
    then show ?thesis by (rule rebuilt_as_promotion [OF built step _ kind])
  next
    case other
    have "update_evolution_catalog jc jv e cat = Inr cat"
      using other kind by (intro update_catalog_other) (auto simp: of_kind_def)
    then show ?thesis using assms(1,2) other by (simp add: rebuilt_as_def)
  qed
qed

text \<open>C19: Rebuilding the catalog from the log (all candidates, then all evaluations, then all promotions)
  gives exactly the catalog that was projected event by event, whenever no promotion of a candidate was
  recorded before the candidate itself.\<close>

theorem catalog_rebuild_exact:
  assumes "project_all jc jv es empty_catalog = Inr cat"
    and "\<forall>e\<in>set es. ev_kind e = payload_kind (ev_payload e)"
    and "promotions_resolved es"
  shows "rebuild_catalog jc jv es = Inr cat"
proof -
  have "rebuilt_as jc jv es cat"
    using assms
  proof (induction es arbitrary: cat rule: rev_induct)
    case Nil
    then show ?case by (auto simp: rebuilt_as_def empty_catalog_def)
  next
    case (snoc e es)
    obtain mid where mid: "project_all jc jv es empty_catalog = Inr mid"
        "update_evolution_catalog jc jv e mid = Inr cat"
      using snoc.prems(1) unfolding project_all_append and_then_Inr_iff by (auto simp: and_then_Inr_iff)
    have "\<forall>e\<in>set es. ev_kind e = payload_kind (ev_payload e)" using snoc.prems(2) by simp
    then have "rebuilt_as jc jv es mid"
      by (rule snoc.IH [OF mid(1) _ promotions_resolved_snoc(1) [OF snoc.prems(3)]])
    then show ?case
      by (rule rebuilt_as_snoc [OF _ mid(2) snoc.prems(2) promotions_resolved_snoc(2) [OF snoc.prems(3)]])
  qed
  then show ?thesis by (rule rebuilt_as_rebuild [OF _ assms(2)])
qed

subsection \<open>An example, and a log whose rebuild fails\<close>

definition verified_system :: provenance where
  "verified_system = \<lparr>prov_source = source.Internal, prov_actor = System, prov_trust_tier = VerifiedProcess, prov_caused_by = None\<rparr>"

definition sample_candidate :: strategy_candidate where
  "sample_candidate = \<lparr>sc_schema_version = 2, sc_candidate = ''c'', sc_domain = LoopDomain, sc_scope = ''s'',
     sc_target_tier = Stable, sc_proposed_version = ''v2'', sc_baseline = ''v1'', sc_spec_ref = ''r'',
     sc_spec_digest = ''d'', sc_evidence = [''f''], sc_provenance = verified_system, sc_impact = Bounded,
     sc_rollback_policy = \<lparr>srp_schema_version = 2, srp_known_good = ''v1'', srp_rollback_on_hard_regression = True,
       srp_owner_on_unverifiable = True\<rparr>\<rparr>"

definition sample_summary :: evaluation_summary where
  "sample_summary = \<lparr>ev_evaluation = ''q'', ev_baseline = ''v1'', ev_candidate = ''v2'',
     ev_verdict = evaluation_verdict.Pass, ev_hard_invariants = [''h''], ev_ground_truth = [''g'']\<rparr>"

definition constant_codec :: "'x \<Rightarrow> 'x json_codec" where
  "constant_codec x = \<lparr>encode = (\<lambda>_. Inr ''j''), decode = (\<lambda>_. Inr x)\<rparr>"

definition system_event :: "event_id \<Rightarrow> event_payload \<Rightarrow> event" where
  "system_event eid pl = event_new eid ''run'' None pl 2 0 verified_system"

definition sample_created :: event where
  "sample_created = system_event ''e1'' (CandidateCreatedPayload ''c'' ''t'' [''f''] (JNumber ''0.5'') verified_system Stable
     None (Some sample_candidate))"

definition sample_evaluated :: event where
  "sample_evaluated = system_event ''e2'' (EvolutionEvaluationRecordedPayload sample_summary)"

definition sample_promoted :: event where
  "sample_promoted = system_event ''e3'' (CandidatePromotedPayload ''c'' Auto ''ok'')"

definition sample_catalog :: catalog where
  "sample_catalog = tables [(''c'', ''e1'', ''j'')] [(''q'', ''e2'', ''j'')] [(''c'', ''e1'', ''e3'', ''j'')]"

lemmas sample_defs = sample_created_def sample_evaluated_def sample_promoted_def system_event_def event_new_def
  verified_system_def constant_codec_def

lemma sample_candidate_valid:
  "strategy_candidate_validate sample_candidate = Inr ()" "sc_candidate sample_candidate = ''c''"
  "sc_target_tier sample_candidate = Stable" "sc_evidence sample_candidate = [''f'']"
  "sc_provenance sample_candidate = verified_system"
  "sc_baseline sample_candidate = ''v1''" "sc_proposed_version sample_candidate = ''v2''"
  by (simp_all add: sample_candidate_def strategy_candidate_validate_def rollback_policy_validate_def
      all_nonempty_def)

lemma verified_system_facts: "validate_fact_provenance verified_system = Inr ()"
  by (simp add: validate_fact_provenance_def is_trusted_evolution_def verified_system_def)

lemma sample_created_step:
  "update_evolution_catalog (constant_codec sample_candidate) jv sample_created (tables [] vs ss)
    = Inr (tables [(''c'', ''e1'', ''j'')] vs ss)"
  by (simp add: update_evolution_catalog_def sample_created_def system_event_def event_new_def
      project_candidate_def sample_candidate_valid verified_system_facts constant_codec_def
      validate_candidate_identity_def)

lemma sample_evaluated_step:
  "update_evolution_catalog jc (constant_codec sample_summary) sample_evaluated (tables cs [] ss)
    = Inr (tables cs [(''q'', ''e2'', ''j'')] ss)"
  by (simp add: update_evolution_catalog_def sample_evaluated_def system_event_def event_new_def
      project_evaluation_def verified_system_facts constant_codec_def sample_summary_def)

lemma sample_promoted_step:
  "update_evolution_catalog (constant_codec sample_candidate) (constant_codec sample_summary) sample_promoted
     (tables [(''c'', ''e1'', ''j'')] [(''q'', ''e2'', ''j'')] []) = Inr sample_catalog"
  by (simp add: update_evolution_catalog_def sample_promoted_def system_event_def event_new_def
      project_promotion_def sample_candidate_valid verified_system_facts constant_codec_def
      has_passing_evaluation_def sample_summary_def sample_catalog_def)
     (simp add: verified_system_def)

lemma sample_projected:
  "project_all (constant_codec sample_candidate) (constant_codec sample_summary)
     [sample_created, sample_evaluated, sample_promoted] empty_catalog = Inr sample_catalog"
  by (simp add: sample_created_step sample_evaluated_step sample_promoted_step empty_catalog_def)


lemma sample_resolved: "promotions_resolved [sample_created, sample_evaluated, sample_promoted]"
  unfolding promotions_resolved_def
proof (intro allI impI)
  fix xs e ys p
  assume "[sample_created, sample_evaluated, sample_promoted] = xs @ e # ys" "p \<in> set xs" "created_id e \<noteq> None"
  then show "promoted_id p \<noteq> created_id e"
    by (cases xs; cases "tl xs")
       (auto simp: created_id_def promoted_id_def sample_evaluated_def sample_promoted_def sample_created_def
         system_event_def event_new_def append_eq_Cons_conv Cons_eq_append_conv)
qed

lemma catalog_rebuild_exact_witness:
  "rebuild_catalog (constant_codec sample_candidate) (constant_codec sample_summary)
     [sample_created, sample_evaluated, sample_promoted] = Inr sample_catalog"
  by (rule catalog_rebuild_exact [OF sample_projected _ sample_resolved])
     (simp add: sample_created_def sample_evaluated_def sample_promoted_def system_event_def event_new_def)


end
