(* ===== verification/Event_Log.thy ===== *)
theory Event_Log
  imports Coordination Schema_Upcast Projections Evolution_Catalog
begin

text \<open>
  The append path of the event store (\<open>store/src/sqlite.rs\<close>): the tables an append reads and writes,
  the duplicate checks, the sequence number, the row with its checksum, the full-text index with its
  coverage marker, the projection caches and the evolution catalog. The database is a record of tables;
  a transaction that returns an error is rolled back, so an operation that fails leaves the store as it
  was. JSON is a codec per type. The \<open>events\<close> table is the list of its rows in the order of insertion, and
  the row id of a row is its position, counted from one: the triggers of the schema forbid update and
  deletion.
\<close>

subsection \<open>Tables\<close>

record log_codecs =
  jc_payload :: "event_payload json_codec"
  jc_provenance :: "provenance json_codec"
  jc_session :: "session_state json_codec"
  jc_transcript :: "transcript json_codec"
  jc_candidate :: "strategy_candidate json_codec"
  jc_evaluation :: "evaluation_summary json_codec"

record fts_coverage =
  fc_event_set :: bytes
  fc_schema_registry :: bytes
  fc_upcaster_graph :: bytes

text \<open>\<open>db_keys\<close> maps a namespace and a key to the event id, the run and the semantic bytes of the
  request; the projection caches map a run to the serialised state and its sequence number.\<close>

record event_db =
  db_events :: "stored_event list"
  db_keys :: "string \<times> string \<Rightarrow> (event_id \<times> run_id \<times> bytes) option"
  db_session :: "run_id \<Rightarrow> (bytes \<times> int) option"
  db_transcript :: "run_id \<Rightarrow> (bytes \<times> int) option"
  db_fts :: "(nat \<times> string) list"
  db_coverage :: "fts_coverage option"
  db_catalog :: catalog

definition empty_db :: event_db where
  "empty_db = \<lparr>db_events = [], db_keys = Map.empty, db_session = Map.empty, db_transcript = Map.empty,
     db_fts = [], db_coverage = None, db_catalog = empty_catalog\<rparr>"

record event_store =
  es_db :: event_db
  es_graph :: upcaster_graph
  es_current :: "(event_kind, schema_version) btree_map"
  es_fts :: bool
  es_page :: nat

subsection \<open>The identity of the event set\<close>

type_synonym event_token = "int \<times> string \<times> string"

definition event_token :: "stored_event \<Rightarrow> event_token" where
  "event_token r = (se_stream_seq r, se_event_id r, se_checksum r)"

definition token_insert :: "stored_event \<Rightarrow> (run_id, event_token list) btree_map \<Rightarrow> (run_id, event_token list) btree_map" where
  "token_insert r streams =
     bm_insert (se_run_id r)
       ((case bm_get streams (se_run_id r) of None \<Rightarrow> [] | Some ts \<Rightarrow> ts) @ [event_token r]) streams"

definition event_set_token :: "stored_event list \<Rightarrow> (run_id, event_token list) btree_map" where
  "event_set_token rows = map (\<lambda>(run, ts). (run, sort ts)) (fold token_insert rows bm_empty)"

definition token_fields :: "event_token \<Rightarrow> bytes list" where
  "token_fields t = (case t of (n, eid, checksum) \<Rightarrow> [le_bytes_i64 n, eid, checksum])"

definition stream_fields :: "run_id \<times> event_token list \<Rightarrow> bytes list" where
  "stream_fields s = (case s of (run, ts) \<Rightarrow> run # concat (map token_fields ts))"

definition event_set_identity :: "(run_id, event_token list) btree_map \<Rightarrow> bytes" where
  "event_set_identity streams =
     fold (\<lambda>s encoded. push_fields encoded (stream_fields s)) streams (push_field [] ''forme-event-set-v1'')"

definition schema_registry_identity :: "(event_kind, schema_version) btree_map \<Rightarrow> bytes" where
  "schema_registry_identity current =
     fold (\<lambda>(k, v) encoded. push_fields encoded [as_str k, le_bytes 4 v]) current
       (push_field [] ''forme-schema-registry-v1'')"

definition fts_coverage_new :: "(run_id, event_token list) btree_map \<Rightarrow> bytes \<Rightarrow> bytes \<Rightarrow> fts_coverage" where
  "fts_coverage_new streams registry graph =
     \<lparr>fc_event_set = event_set_identity streams, fc_schema_registry = registry, fc_upcaster_graph = graph\<rparr>"

subsection \<open>Preparing an event\<close>

record prepared_event =
  pe_event :: event
  pe_payload :: bytes
  pe_provenance :: bytes
  pe_semantics :: bytes
  pe_domain_key :: "(string \<times> string) option"
  pe_domain_semantics :: "bytes option"

definition reject_non_evolution_write_path :: "event \<Rightarrow> unit result" where
  "reject_non_evolution_write_path e =
     ensure (ev_kind e \<notin> {Evolution StrategyActivated, Evolution StrategyRolledBack,
         Federation FederatedPeerRegistered, Federation FederatedPeerRevoked,
         Federation RemoteExecutionLeaseChanged, Federation ReplicationCheckpointAdvanced,
         Ecosystem CapabilityPublisherChanged, Ecosystem CapabilityPackageAdmitted,
         Ecosystem CapabilityPackageStateChanged, Ecosystem CapabilityPackageDistributionRecorded})
       ''control events require their dedicated expected-version append''"

definition current_schema_for :: "event_kind \<Rightarrow> (event_kind, schema_version) btree_map \<Rightarrow> schema_version result" where
  "current_schema_for k current =
     ok_or (bm_get current k) (''current schema registry is missing version for '' @ as_str k)"

definition prepare_event ::
  "log_codecs \<Rightarrow> (event_kind, schema_version) btree_map \<Rightarrow> event \<Rightarrow> prepared_event result" where
  "prepare_event c current e =
     and_then (validate_payload_kind e) (\<lambda>_.
     and_then (current_schema_for (ev_kind e) current) (\<lambda>version.
     and_then (ensure (ev_schema_version e = version)
       (''event schema version '' @ show_nat (ev_schema_version e) @ '' is not current schema version ''
         @ show_nat version @ '' for '' @ as_str (ev_kind e))) (\<lambda>_.
     and_then (store_error ''failed to serialize event payload'' (encode (jc_payload c) (ev_payload e))) (\<lambda>payload.
     and_then (store_error ''failed to serialize event provenance'' (encode (jc_provenance c) (ev_provenance e))) (\<lambda>prov.
     Inr \<lparr>pe_event = e, pe_payload = payload, pe_provenance = prov,
          pe_semantics = event_semantic_bytes e payload prov,
          pe_domain_key = domain_idempotency_key e,
          pe_domain_semantics = map_option (\<lambda>_. domain_semantic_bytes e payload prov) (domain_idempotency_key e)\<rparr>)))))"

subsection \<open>The projection caches\<close>

definition validate_projection_row ::
  "string \<Rightarrow> run_id \<Rightarrow> run_id option \<Rightarrow> schema_version \<Rightarrow> nat \<Rightarrow> int \<Rightarrow> unit result" where
  "validate_projection_row projection expected state_run version state_seq stored_seq =
     and_then (ensure (state_run = Some expected)
       (projection @ '' projection run id does not match its cache key'')) (\<lambda>_.
     and_then (ensure (version = 1)
       (projection @ '' projection schema version '' @ show_nat version @ '' is unsupported'')) (\<lambda>_.
     and_then (ensure (0 \<le> stored_seq) (projection @ '' projection sequence is invalid'')) (\<lambda>_.
     ensure (state_seq = nat stored_seq)
       (projection @ '' projection sequence does not match its cache metadata''))))"

definition read_session_state :: "log_codecs \<Rightarrow> run_id \<Rightarrow> event_db \<Rightarrow> session_state option result" where
  "read_session_state c run db =
     (case db_session db run of
        None \<Rightarrow> Inr None
      | Some (bs, seq) \<Rightarrow>
          and_then (store_error ''failed to deserialize session projection'' (decode (jc_session c) bs)) (\<lambda>st.
          and_then (validate_projection_row ''session'' run (st_run_id st) (st_schema_version st)
            (st_last_stream_seq st) seq) (\<lambda>_. Inr (Some st))))"

definition read_transcript :: "log_codecs \<Rightarrow> run_id \<Rightarrow> event_db \<Rightarrow> transcript option result" where
  "read_transcript c run db =
     (case db_transcript db run of
        None \<Rightarrow> Inr None
      | Some (bs, seq) \<Rightarrow>
          and_then (store_error ''failed to deserialize transcript projection'' (decode (jc_transcript c) bs)) (\<lambda>t.
          and_then (validate_projection_row ''transcript'' run (tr_run_id t) (tr_schema_version t)
            (tr_last_stream_seq t) seq) (\<lambda>_. Inr (Some t))))"

definition write_session_state :: "log_codecs \<Rightarrow> session_state \<Rightarrow> event_db \<Rightarrow> event_db result" where
  "write_session_state c st db =
     and_then (ok_or (st_run_id st) ''session projection has no run id'') (\<lambda>run.
     and_then (ensure (st_last_stream_seq st < 2 ^ 63) ''session projection sequence is invalid'') (\<lambda>_.
     and_then (store_error ''failed to serialize session projection'' (encode (jc_session c) st)) (\<lambda>bs.
     Inr (db\<lparr>db_session := (db_session db)(run \<mapsto> (bs, int (st_last_stream_seq st)))\<rparr>))))"

definition write_transcript :: "log_codecs \<Rightarrow> transcript \<Rightarrow> event_db \<Rightarrow> event_db result" where
  "write_transcript c t db =
     and_then (ok_or (tr_run_id t) ''transcript projection has no run id'') (\<lambda>run.
     and_then (ensure (tr_last_stream_seq t < 2 ^ 63) ''transcript projection sequence is invalid'') (\<lambda>_.
     and_then (store_error ''failed to serialize transcript projection'' (encode (jc_transcript c) t)) (\<lambda>bs.
     Inr (db\<lparr>db_transcript := (db_transcript db)(run \<mapsto> (bs, int (tr_last_stream_seq t)))\<rparr>))))"

definition discontinuity :: "string \<Rightarrow> run_id \<Rightarrow> nat \<Rightarrow> string \<Rightarrow> 'a result" where
  "discontinuity projection run watermark found =
     fails (projection @ '' projection cache discontinuity for run '' @ run @ '': expected watermark ''
       @ show_nat watermark @ '', found '' @ found)"

definition update_builtin_projections :: "log_codecs \<Rightarrow> event \<Rightarrow> event_db \<Rightarrow> event_db result" where
  "update_builtin_projections c e db =
     and_then (ensure (0 < ev_stream_seq e) ''appended event sequence must start at one'') (\<lambda>_.
     let watermark = ev_stream_seq e - 1 in
     and_then (read_session_state c (ev_run_id e) db) (\<lambda>stored.
     and_then (case stored of
         Some st \<Rightarrow> if st_last_stream_seq st = watermark then Inr st
           else discontinuity ''session_state'' (ev_run_id e) watermark (show_nat (st_last_stream_seq st))
       | None \<Rightarrow> if ev_stream_seq e = 1 then Inr session_empty
           else discontinuity ''session_state'' (ev_run_id e) watermark ''no row'') (\<lambda>session.
     and_then (read_transcript c (ev_run_id e) db) (\<lambda>stored_t.
     and_then (case stored_t of
         Some t \<Rightarrow> if tr_last_stream_seq t = watermark then Inr t
           else discontinuity ''transcript'' (ev_run_id e) watermark (show_nat (tr_last_stream_seq t))
       | None \<Rightarrow> if ev_stream_seq e = 1 then Inr transcript_empty
           else discontinuity ''transcript'' (ev_run_id e) watermark ''no row'') (\<lambda>transcript.
     and_then (write_session_state c (session_apply e session) db) (\<lambda>db'.
     write_transcript c (transcript_apply e transcript) db'))))))"

subsection \<open>Appending\<close>

datatype append_disposition = Applied | Duplicate

record append_outcome =
  ao_event_id :: event_id
  ao_resulting_version :: nat
  ao_disposition :: append_disposition

text \<open>\<open>COALESCE(MAX(stream_seq), 0)\<close> of the rows of a run.\<close>

definition aggregate_version_in :: "run_id \<Rightarrow> event_db \<Rightarrow> nat result" where
  "aggregate_version_in run db =
     (let seqs = map se_stream_seq (filter (\<lambda>r. se_run_id r = run) (db_events db));
          value = (case seqs of [] \<Rightarrow> 0 | s # ss \<Rightarrow> fold max ss s)
      in if value < 0 then fails ''stored aggregate version is invalid'' else Inr (nat value))"

definition find_event :: "event_id \<Rightarrow> event_db \<Rightarrow> stored_event option" where
  "find_event eid db = List.find (\<lambda>r. se_event_id r = eid) (db_events db)"

definition stored_semantics :: "event_id \<Rightarrow> stored_event \<Rightarrow> bytes result" where
  "stored_semantics eid r =
     and_then (ensure (0 \<le> se_schema_version r \<and> se_schema_version r < 2 ^ 32)
       ''stored event schema version is invalid'') (\<lambda>_.
     Inr (semantic_bytes \<lparr>sf_event_id = Some eid, sf_run_id = se_run_id r, sf_turn_id = se_turn_id r,
       sf_kind = se_kind r, sf_payload = se_payload r, sf_schema_version = nat (se_schema_version r),
       sf_ts_unix_ms = Some (se_ts_unix_ms r), sf_provenance = se_provenance r\<rparr>))"

definition duplicate_outcome :: "event_id \<Rightarrow> run_id \<Rightarrow> event_db \<Rightarrow> (append_outcome \<times> event_db) result" where
  "duplicate_outcome eid run db =
     and_then (aggregate_version_in run db) (\<lambda>version.
     Inr (\<lparr>ao_event_id = eid, ao_resulting_version = version, ao_disposition = Duplicate\<rparr>, db))"

definition stored_row :: "event \<Rightarrow> bytes \<Rightarrow> bytes \<Rightarrow> stored_event" where
  "stored_row e payload prov =
     \<lparr>se_event_id = ev_event_id e, se_run_id = ev_run_id e, se_stream_seq = int (ev_stream_seq e),
      se_turn_id = ev_turn_id e, se_kind = as_str (ev_kind e), se_payload = payload,
      se_schema_version = int (ev_schema_version e), se_ts_unix_ms = ev_ts_unix_ms e, se_provenance = prov,
      se_checksum = calculate (ev_event_id e) (ev_run_id e) (ev_stream_seq e) (ev_turn_id e)
        (as_str (ev_kind e)) payload (ev_schema_version e) (ev_ts_unix_ms e) prov\<rparr>"

definition insert_event :: "stored_event \<Rightarrow> event_db \<Rightarrow> event_db result" where
  "insert_event r db =
     and_then (ensure (se_event_id r \<notin> se_event_id ` set (db_events db)
         \<and> (se_run_id r, se_stream_seq r) \<notin> (\<lambda>s. (se_run_id s, se_stream_seq s)) ` set (db_events db))
       ''failed to append event'') (\<lambda>_.
     Inr (db\<lparr>db_events := db_events db @ [r]\<rparr>))"

text \<open>The part of \<open>append_prepared\<close> after the duplicate checks: the event gets the next number of its
  run and is inserted, indexed and projected.\<close>

definition fts_is_current :: "bytes option \<Rightarrow> bytes option \<Rightarrow> event_db \<Rightarrow> bool result" where
  "fts_is_current registry graph db =
     and_then (ok_or registry ''FTS schema identity is unavailable'') (\<lambda>schema.
     and_then (ok_or graph ''FTS upcaster identity is unavailable'') (\<lambda>upcasters.
     let event_set = event_set_token (db_events db) in
     Inr (db_coverage db = Some (fts_coverage_new event_set schema upcasters)
       \<or> (db_coverage db = None \<and> event_set = []))))"

definition index_event :: "bool \<Rightarrow> event \<Rightarrow> event_db \<Rightarrow> event_db" where
  "index_event fts e db =
     (case (if fts then searchable_text e else None) of
        None \<Rightarrow> db
      | Some text \<Rightarrow> db\<lparr>db_fts := db_fts db @ [(length (db_events db), text)]\<rparr>)"

definition mark_coverage :: "bool \<Rightarrow> bool \<Rightarrow> bytes option \<Rightarrow> bytes option \<Rightarrow> event_db \<Rightarrow> event_db" where
  "mark_coverage fts was_current registry graph db =
     (if fts then
        if was_current then db\<lparr>db_coverage :=
          Some (fts_coverage_new (event_set_token (db_events db)) (the registry) (the graph))\<rparr>
        else db\<lparr>db_coverage := None\<rparr>
      else db)"

definition append_new ::
  "log_codecs \<Rightarrow> prepared_event \<Rightarrow> bool \<Rightarrow> bytes option \<Rightarrow> bytes option \<Rightarrow> event_db
   \<Rightarrow> (append_outcome \<times> event_db) result" where
  "append_new c p fts registry graph db =
     and_then (if fts then fts_is_current registry graph db else Inr False) (\<lambda>was_current.
     and_then (aggregate_version_in (ev_run_id (pe_event p)) db) (\<lambda>previous.
     and_then (ensure (previous + 1 < 2 ^ 64) ''event sequence is exhausted'') (\<lambda>_.
     and_then (ensure (previous + 1 < 2 ^ 63) ''event sequence is invalid'') (\<lambda>_.
     let e = (pe_event p)\<lparr>ev_stream_seq := previous + 1\<rparr> in
     and_then (insert_event (stored_row e (pe_payload p) (pe_provenance p)) db) (\<lambda>db1.
     and_then (update_builtin_projections c e (index_event fts e db1)) (\<lambda>db2.
     and_then (update_evolution_catalog (jc_candidate c) (jc_evaluation c) e (db_catalog db2)) (\<lambda>cat.
     Inr (\<lparr>ao_event_id = ev_event_id e, ao_resulting_version = previous + 1, ao_disposition = Applied\<rparr>,
          mark_coverage fts was_current registry graph (db2\<lparr>db_catalog := cat\<rparr>)))))))))"

definition append_prepared ::
  "log_codecs \<Rightarrow> prepared_event \<Rightarrow> bool \<Rightarrow> bytes option \<Rightarrow> bytes option \<Rightarrow> event_db
   \<Rightarrow> (append_outcome \<times> event_db) result" where
  "append_prepared c p fts registry graph db =
     (case find_event (ev_event_id (pe_event p)) db of
        Some r \<Rightarrow>
          and_then (stored_semantics (ev_event_id (pe_event p)) r) (\<lambda>stored.
          and_then (ensure (stored = pe_semantics p)
            (''event idempotency collision for event_id '' @ ev_event_id (pe_event p)
              @ '': existing event semantics differ'')) (\<lambda>_.
          duplicate_outcome (ev_event_id (pe_event p)) (ev_run_id (pe_event p)) db))
      | None \<Rightarrow>
          (case pe_domain_key p of
             None \<Rightarrow> append_new c p fts registry graph db
           | Some key \<Rightarrow>
               and_then (ok_or (pe_domain_semantics p) ''domain semantics exist when the domain key exists'') (\<lambda>semantics.
               case db_keys db key of
                 None \<Rightarrow> append_new c p fts registry graph (db\<lparr>db_keys := (db_keys db)
                   (key \<mapsto> (ev_event_id (pe_event p), ev_run_id (pe_event p), semantics))\<rparr>)
               | Some (original, run, original_semantics) \<Rightarrow>
                   and_then (ensure (original_semantics = semantics)
                     (fst key @ '' idempotency collision for key '' @ snd key @ '': existing request semantics differ'')) (\<lambda>_.
                   duplicate_outcome original (ev_run_id (pe_event p)) db))))"

text \<open>The identities of the open store that an append hands to the index.\<close>

definition fts_identities :: "event_store \<Rightarrow> bytes option \<times> bytes option" where
  "fts_identities st =
     (if es_fts st then (Some (schema_registry_identity (es_current st)), Some (identity_bytes (es_graph st)))
      else (None, None))"

definition event_append :: "log_codecs \<Rightarrow> event \<Rightarrow> event_store \<Rightarrow> event_id result \<times> event_store" where
  "event_append c e st =
     (case and_then (reject_non_evolution_write_path e) (\<lambda>_.
           and_then (prepare_event c (es_current st) e) (\<lambda>p.
           append_prepared c p (es_fts st) (fst (fts_identities st)) (snd (fts_identities st)) (es_db st))) of
        Inl err \<Rightarrow> (Inl err, st)
      | Inr (outcome, db) \<Rightarrow> (Inr (ao_event_id outcome), st\<lparr>es_db := db\<rparr>))"

datatype expected_append_status = AppliedExpected | DuplicateExpected | Conflict

record expected_append =
  xa_schema_version :: schema_version
  xa_status :: expected_append_status
  xa_expected_version :: nat
  xa_actual_version :: nat
  xa_resulting_version :: nat
  xa_event_id :: "event_id option"

definition aggregate_version_of :: "run_id \<Rightarrow> event_store \<Rightarrow> aggregate_version result" where
  "aggregate_version_of run st =
     and_then (ensure (\<not> blank run) ''aggregate identity is empty'') (\<lambda>_.
     and_then (aggregate_version_in run (es_db st)) (\<lambda>v.
     Inr \<lparr>av_schema_version = 1, aggregate = run, av_value = word_of_nat v\<rparr>))"

definition append_expected ::
  "log_codecs \<Rightarrow> event \<Rightarrow> aggregate_version \<Rightarrow> event_store \<Rightarrow> expected_append result \<times> event_store" where
  "append_expected c e expected st =
     (case and_then (reject_non_evolution_write_path e) (\<lambda>_.
           and_then (aggregate_version_validate expected) (\<lambda>_.
           and_then (ensure (ev_run_id e = aggregate expected)
             ''expected append aggregate does not match the event'') (\<lambda>_.
           and_then (prepare_event c (es_current st) e) (\<lambda>p.
           and_then (aggregate_version_in (aggregate expected) (es_db st)) (\<lambda>actual.
           if actual \<noteq> unat (av_value expected) then
             Inr (\<lparr>xa_schema_version = 1, xa_status = Conflict, xa_expected_version = unat (av_value expected),
               xa_actual_version = actual, xa_resulting_version = actual, xa_event_id = None\<rparr>, es_db st)
           else
             and_then (append_prepared c p (es_fts st) (fst (fts_identities st)) (snd (fts_identities st)) (es_db st))
               (\<lambda>(outcome, db). Inr (\<lparr>xa_schema_version = 1,
                  xa_status = (case ao_disposition outcome of Applied \<Rightarrow> AppliedExpected | Duplicate \<Rightarrow> DuplicateExpected),
                  xa_expected_version = unat (av_value expected), xa_actual_version = actual,
                  xa_resulting_version = ao_resulting_version outcome,
                  xa_event_id = Some (ao_event_id outcome)\<rparr>, db))))))) of
        Inl err \<Rightarrow> (Inl err, st)
      | Inr (report, db) \<Rightarrow> (Inr report, st\<lparr>es_db := db\<rparr>))"

end
