(* ===== verification/Event_Log_Refinement.thy ===== *)
theory Event_Log_Refinement
  imports Event_Log
begin

text \<open>
  What the tables of the event store mean: a list of events, the log, which the store represents. The
  rows are the encoded events with their checksums, the sequence numbers of a run are 1, 2, ... in the
  order of the log, the caches hold the folds of the projections over the run's events, the catalog is the
  projection of the log, and a coverage marker of the full-text index names a part of the log that the
  index really covers. Appending an event refines appending it to the log.
\<close>

subsection \<open>Representation\<close>

definition of_run :: "run_id \<Rightarrow> event list \<Rightarrow> event list" where
  "of_run run es = filter (\<lambda>e. ev_run_id e = run) es"

definition row_of :: "log_codecs \<Rightarrow> event \<Rightarrow> stored_event \<Rightarrow> bool" where
  "row_of c e r \<longleftrightarrow> (\<exists>payload prov. encode (jc_payload c) (ev_payload e) = Inr payload
     \<and> encode (jc_provenance c) (ev_provenance e) = Inr prov \<and> r = stored_row e payload prov)"

text \<open>The bounds of the types of an event: buffers shorter than \<open>isize::MAX\<close>, a \<open>u32\<close> version and an
  \<open>i64\<close> time stamp.\<close>

definition event_fits :: "event \<Rightarrow> bool" where
  "event_fits e \<longleftrightarrow> fits (ev_event_id e) \<and> fits (ev_run_id e) \<and> pred_option fits (ev_turn_id e)
     \<and> ev_schema_version e < 2 ^ 32 \<and> is_i64 (ev_ts_unix_ms e)"

definition well_logged :: "event \<Rightarrow> bool" where
  "well_logged e \<longleftrightarrow> ev_kind e = payload_kind (ev_payload e) \<and> event_fits e \<and> ev_stream_seq e < 2 ^ 63"

definition log_ok :: "event list \<Rightarrow> bool" where
  "log_ok es \<longleftrightarrow> distinct (map ev_event_id es) \<and> list_all well_logged es
     \<and> (\<forall>run. map ev_stream_seq (of_run run es) = [1..<length (of_run run es) + 1])"

definition cache_ok :: "'s json_codec \<Rightarrow> (event list \<Rightarrow> 's) \<Rightarrow> event list \<Rightarrow> (bytes \<times> int) option \<Rightarrow> bool" where
  "cache_ok j state es cell \<longleftrightarrow>
     (if es = [] then cell = None
      else \<exists>bs. encode j (state es) = Inr bs \<and> cell = Some (bs, int (length es)))"

definition key_of :: "log_codecs \<Rightarrow> event \<Rightarrow> string \<times> string \<Rightarrow> event_id \<times> run_id \<times> bytes \<Rightarrow> bool" where
  "key_of c e key row \<longleftrightarrow> domain_idempotency_key e = Some key \<and>
     (\<exists>payload prov. encode (jc_payload c) (ev_payload e) = Inr payload
       \<and> encode (jc_provenance c) (ev_provenance e) = Inr prov
       \<and> row = (ev_event_id e, ev_run_id e, domain_semantic_bytes e payload prov))"

definition keys_ok :: "log_codecs \<Rightarrow> event list \<Rightarrow> event_db \<Rightarrow> bool" where
  "keys_ok c es db \<longleftrightarrow> (\<forall>key row. db_keys db key = Some row \<longrightarrow> (\<exists>e\<in>set es. key_of c e key row))
     \<and> (\<forall>e\<in>set es. \<forall>key. domain_idempotency_key e = Some key \<longrightarrow> db_keys db key \<noteq> None)"

fun index_from :: "nat \<Rightarrow> event list \<Rightarrow> (nat \<times> string) list" where
  "index_from n [] = []"
| "index_from n (e # es) =
     (case searchable_text e of None \<Rightarrow> [] | Some text \<Rightarrow> [(n, text)]) @ index_from (Suc n) es"

definition index_of :: "event list \<Rightarrow> (nat \<times> string) list" where
  "index_of es = index_from 1 es"

definition fts_ok :: "event list \<Rightarrow> event_db \<Rightarrow> bool" where
  "fts_ok es db \<longleftrightarrow>
     (case db_coverage db of
        None \<Rightarrow> es = [] \<longrightarrow> db_fts db = []
      | Some cov \<Rightarrow> \<exists>n\<le>length es. fc_event_set cov = event_set_identity (event_set_token (take n (db_events db)))
          \<and> mset (db_fts db) = mset (index_of (take n es)))"

definition tables_ok :: "log_codecs \<Rightarrow> event list \<Rightarrow> event_db \<Rightarrow> bool" where
  "tables_ok c es db \<longleftrightarrow> list_all2 (row_of c) es (db_events db) \<and> log_ok es
     \<and> (\<forall>run. cache_ok (jc_session c) session_of (of_run run es) (db_session db run))
     \<and> (\<forall>run. cache_ok (jc_transcript c) transcript_of (of_run run es) (db_transcript db run))
     \<and> project_all (jc_candidate c) (jc_evaluation c) es empty_catalog = Inr (db_catalog db)
     \<and> fts_ok es db"

definition represents :: "log_codecs \<Rightarrow> event list \<Rightarrow> event_db \<Rightarrow> bool" where
  "represents c es db \<longleftrightarrow> tables_ok c es db \<and> keys_ok c es db"

text \<open>What the store relies on of \<open>serde_json\<close>: decoding an encoded value gives the value, and an
  encoding is a buffer.\<close>

definition sound_codec :: "'x json_codec \<Rightarrow> bool" where
  "sound_codec j \<longleftrightarrow> roundtrip j \<and> (\<forall>x bs. encode j x = Inr bs \<longrightarrow> fits bs)"

definition sound_codecs :: "log_codecs \<Rightarrow> bool" where
  "sound_codecs c \<longleftrightarrow> sound_codec (jc_payload c) \<and> sound_codec (jc_provenance c)
     \<and> roundtrip (jc_session c) \<and> roundtrip (jc_transcript c)"

lemma of_run_simps [simp]:
  "of_run run [] = []"
  "of_run run (es @ [e]) = of_run run es @ (if ev_run_id e = run then [e] else [])"
  by (simp_all add: of_run_def)

lemma of_run_member: "e \<in> set (of_run run es) \<Longrightarrow> ev_run_id e = run"
  by (simp add: of_run_def)

lemma stored_row_simps [simp]:
  "se_event_id (stored_row e payload prov) = ev_event_id e"
  "se_run_id (stored_row e payload prov) = ev_run_id e"
  "se_stream_seq (stored_row e payload prov) = int (ev_stream_seq e)"
  "se_turn_id (stored_row e payload prov) = ev_turn_id e"
  "se_kind (stored_row e payload prov) = as_str (ev_kind e)"
  "se_payload (stored_row e payload prov) = payload"
  "se_schema_version (stored_row e payload prov) = int (ev_schema_version e)"
  "se_ts_unix_ms (stored_row e payload prov) = ev_ts_unix_ms e"
  "se_provenance (stored_row e payload prov) = prov"
  by (simp_all add: stored_row_def)

lemma row_of_fields:
  "row_of c e r \<Longrightarrow> se_event_id r = ev_event_id e \<and> se_run_id r = ev_run_id e \<and> se_stream_seq r = int (ev_stream_seq e)"
  by (auto simp: row_of_def)

lemma rows_fields:
  assumes "list_all2 (row_of c) es rows"
  shows "map se_event_id rows = map ev_event_id es"
    and "map se_stream_seq (filter (\<lambda>r. se_run_id r = run) rows) = map (int \<circ> ev_stream_seq) (of_run run es)"
    and "length rows = length es"
  using assms by (induction rule: list_all2_induct) (simp_all add: of_run_def row_of_fields)

subsection \<open>Reading the tables\<close>

lemma max_upto: "(case map int [Suc 0..<Suc n] of [] \<Rightarrow> 0 | s # ss \<Rightarrow> fold max ss s) = int n"
proof (induction n)
  case (Suc n)
  have max_snoc: "(case xs @ [x] of [] \<Rightarrow> 0 | s # ss \<Rightarrow> fold max ss s)
      = (case xs of [] \<Rightarrow> x | s # ss \<Rightarrow> max x (fold max ss s))" for xs and x :: int
    by (cases xs) (simp_all add: max.commute)
  show ?case
    using Suc by (cases n) (simp_all add: max_snoc del: upt_Suc add: upt_Suc_append split: list.splits)
qed simp

lemma aggregate_version_represents:
  assumes "list_all2 (row_of c) es (db_events db)" "log_ok es"
  shows "aggregate_version_in run db = Inr (length (of_run run es))"
proof -
  have "map se_stream_seq (filter (\<lambda>r. se_run_id r = run) (db_events db)) = map int (map ev_stream_seq (of_run run es))"
    using rows_fields(2) [OF assms(1)] by simp
  also have "\<dots> = map int [1..<length (of_run run es) + 1]"
    using assms(2) by (simp add: log_ok_def del: upt_Suc)
  finally show ?thesis
    by (simp add: aggregate_version_in_def max_upto del: upt_Suc)
qed

lemma last_of_run:
  assumes "log_ok es" "of_run run es \<noteq> []"
  shows "ev_run_id (last (of_run run es)) = run" "ev_stream_seq (last (of_run run es)) = length (of_run run es)"
proof -
  show "ev_run_id (last (of_run run es)) = run" using assms(2) by (rule of_run_member [OF last_in_set])
  have "last (map ev_stream_seq (of_run run es)) = last [1..<length (of_run run es) + 1]"
    using assms(1) by (simp add: log_ok_def del: upt_Suc)
  moreover have "Suc 0 \<le> length (of_run run es)" using assms(2) by (simp add: Suc_leI)
  ultimately show "ev_stream_seq (last (of_run run es)) = length (of_run run es)"
    using assms(2) by (simp add: last_map)
qed

lemma read_session_represents:
  assumes "cache_ok (jc_session c) session_of (of_run run es) (db_session db run)" "log_ok es"
    and "roundtrip (jc_session c)"
  shows "read_session_state c run db = Inr (if of_run run es = [] then None else Some (session_of (of_run run es)))"
proof (cases "of_run run es = []")
  case False
  then obtain bs where "encode (jc_session c) (session_of (of_run run es)) = Inr bs"
      "db_session db run = Some (bs, int (length (of_run run es)))"
    using assms(1) by (auto simp: cache_ok_def)
  then show ?thesis
    using False roundtripD [OF assms(3)] last_of_run [OF assms(2) False] session_of_frame
    by (simp add: read_session_state_def validate_projection_row_def)
qed (use assms in \<open>simp add: cache_ok_def read_session_state_def\<close>)

lemma read_transcript_represents:
  assumes "cache_ok (jc_transcript c) transcript_of (of_run run es) (db_transcript db run)" "log_ok es"
    and "roundtrip (jc_transcript c)"
  shows "read_transcript c run db = Inr (if of_run run es = [] then None else Some (transcript_of (of_run run es)))"
proof (cases "of_run run es = []")
  case False
  then obtain bs where "encode (jc_transcript c) (transcript_of (of_run run es)) = Inr bs"
      "db_transcript db run = Some (bs, int (length (of_run run es)))"
    using assms(1) by (auto simp: cache_ok_def)
  then show ?thesis
    using False roundtripD [OF assms(3)] last_of_run [OF assms(2) False] transcript_of_frame
    by (simp add: read_transcript_def validate_projection_row_def)
qed (use assms in \<open>simp add: cache_ok_def read_transcript_def\<close>)

subsection \<open>The identity of the event set grows with the log\<close>

text \<open>An event that is added to the table makes the identity longer; so the identity of a part of the
  table is never the identity of a longer part, and a coverage marker that matches covers everything.\<close>

lemma bm_insert_weight:
  fixes g :: "'k::linorder \<times> 'v \<Rightarrow> nat"
  assumes "bm_wf m"
  shows "sum_list (map g (bm_insert k v m)) + (case bm_get m k of None \<Rightarrow> 0 | Some u \<Rightarrow> g (k, u))
    = sum_list (map g m) + g (k, v)"
  using assms
proof (induction k v m rule: bm_insert.induct)
  case (2 k v i w m)
  have rest: "bm_wf m" "\<And>j. j \<in> set (bm_keys m) \<Longrightarrow> i < j" using 2(2) by (auto simp: bm_wf_def bm_keys_def)
  show ?case
  proof (cases "i < k")
    case True
    then show ?thesis using 2(1) [OF True rest(1)] by (auto split: option.split)
  next
    case False
    have "bm_get m k = None" if "k < i"
      using that rest(2) by (force simp: bm_get_def bm_keys_def map_of_eq_None_iff)
    then show ?thesis using False by (auto simp: not_less le_less)
  qed
qed simp

definition fields_weight :: "bytes list \<Rightarrow> nat" where
  "fields_weight fs = sum_list (map (\<lambda>f. 8 + length f) fs)"

lemma length_field_bytes: "length (field_bytes fs) = fields_weight fs"
  by (simp add: field_bytes_def fields_weight_def push_field_def length_concat comp_def)

lemma fields_weight_simps [simp]:
  "fields_weight [] = 0" "fields_weight (f # fs) = 8 + length f + fields_weight fs"
  "fields_weight (fs @ gs) = fields_weight fs + fields_weight gs"
  by (simp_all add: fields_weight_def)

lemma fields_weight_concat: "fields_weight (concat (map f xs)) = sum_list (map (fields_weight \<circ> f) xs)"
  by (induction xs) simp_all

lemma identity_weight:
  "length (event_set_identity streams) = length (push_field [] ''forme-event-set-v1'')
     + sum_list (map (fields_weight \<circ> stream_fields) streams)"
  by (simp add: event_set_identity_def fold_push_fields length_field_bytes fields_weight_concat)

lemma sum_list_sort: "sum_list (map g (sort xs)) = sum_list (map g xs)" for g :: "'a::linorder \<Rightarrow> nat"
  by (metis mset_map mset_sort sum_mset_sum_list)

lemma stream_weight_sort:
  "fields_weight (stream_fields (run, sort ts)) = fields_weight (stream_fields (run, ts))"
  by (simp add: stream_fields_def fields_weight_concat sum_list_sort)

definition streams_of :: "stored_event list \<Rightarrow> (run_id, event_token list) btree_map" where
  "streams_of rows = fold token_insert rows bm_empty"

lemma streams_of_wf: "bm_wf (streams_of rows)"
  by (induction rows rule: rev_induct) (simp_all add: streams_of_def bm.wf_emp token_insert_def bm_wf_insert)

lemma identity_streams:
  "length (event_set_identity (event_set_token rows)) = length (push_field [] ''forme-event-set-v1'')
     + sum_list (map (fields_weight \<circ> stream_fields) (streams_of rows))"
proof -
  have "map (fields_weight \<circ> stream_fields) (event_set_token rows) = map (fields_weight \<circ> stream_fields) (streams_of rows)"
    by (auto simp: event_set_token_def streams_of_def stream_weight_sort)
  then show ?thesis by (simp add: identity_weight)
qed

lemma streams_weight_snoc:
  "sum_list (map (fields_weight \<circ> stream_fields) (streams_of rows))
    < sum_list (map (fields_weight \<circ> stream_fields) (streams_of (rows @ [r])))"
proof -
  let ?g = "fields_weight \<circ> stream_fields"
  let ?old = "bm_get (streams_of rows) (se_run_id r)"
  let ?ts = "case ?old of None \<Rightarrow> [] | Some ts \<Rightarrow> ts"
  have "sum_list (map ?g (streams_of (rows @ [r]))) + (case ?old of None \<Rightarrow> 0 | Some u \<Rightarrow> ?g (se_run_id r, u))
      = sum_list (map ?g (streams_of rows)) + ?g (se_run_id r, ?ts @ [event_token r])"
    using bm_insert_weight [OF streams_of_wf, of ?g "se_run_id r" "?ts @ [event_token r]" rows]
    by (simp add: streams_of_def token_insert_def)
  moreover have "(case ?old of None \<Rightarrow> 0 | Some u \<Rightarrow> ?g (se_run_id r, u)) < ?g (se_run_id r, ?ts @ [event_token r])"
    by (simp add: stream_fields_def token_fields_def event_token_def split: option.split)
  ultimately show ?thesis by linarith
qed

lemma identity_longer:
  "xs \<noteq> [] \<Longrightarrow> length (event_set_identity (event_set_token rows)) < length (event_set_identity (event_set_token (rows @ xs)))"
proof (induction xs rule: rev_induct)
  case (snoc x xs)
  have step: "length (event_set_identity (event_set_token (rows @ xs)))
      < length (event_set_identity (event_set_token (rows @ xs @ [x])))"
    using streams_weight_snoc [of "rows @ xs" x] by (simp add: identity_streams)
  show ?case
  proof (cases "xs = []")
    case False
    then show ?thesis using snoc.IH step by simp
  qed (use step in simp)
qed simp

lemma identity_take:
  assumes "event_set_identity (event_set_token (take n rows)) = event_set_identity (event_set_token rows)"
  shows "take n rows = rows"
proof (rule ccontr)
  assume "take n rows \<noteq> rows"
  then have "drop n rows \<noteq> []" by auto
  from identity_longer [OF this, of "take n rows"] show False using assms by simp
qed

lemma event_set_token_Nil: "event_set_token rows = [] \<longleftrightarrow> rows = []"
proof -
  have "bm_insert k v m \<noteq> []" for k :: run_id and v :: "event_token list" and m by (cases m) (auto split: if_splits)
  then show ?thesis
    by (cases rows rule: rev_cases) (simp_all add: event_set_token_def token_insert_def bm_empty_def)
qed

subsection \<open>Appending refines appending to the log\<close>

lemma update_projections_represents:
  assumes "cache_ok (jc_session c) session_of (of_run (ev_run_id e) es) (db_session db (ev_run_id e))"
    and "cache_ok (jc_transcript c) transcript_of (of_run (ev_run_id e) es) (db_transcript db (ev_run_id e))"
    and "log_ok es" "roundtrip (jc_session c)" "roundtrip (jc_transcript c)"
    and "ev_stream_seq e = length (of_run (ev_run_id e) es) + 1"
    and "update_builtin_projections c e db = Inr db'"
  shows "\<exists>s t. encode (jc_session c) (session_of (of_run (ev_run_id e) es @ [e])) = Inr s
    \<and> encode (jc_transcript c) (transcript_of (of_run (ev_run_id e) es @ [e])) = Inr t
    \<and> db' = db\<lparr>db_session := (db_session db)(ev_run_id e \<mapsto> (s, int (ev_stream_seq e))),
               db_transcript := (db_transcript db)(ev_run_id e \<mapsto> (t, int (ev_stream_seq e)))\<rparr>"
proof -
  note session = read_session_represents [OF assms(1,3,4)]
  note transcript = read_transcript_represents [OF assms(2,3,5)]
  let ?run = "of_run (ev_run_id e) es"
  have step: "and_then (write_session_state c (session_of (?run @ [e])) db) (write_transcript c (transcript_of (?run @ [e])))
      = Inr db'"
  proof (cases "?run = []")
    case True
    then show ?thesis
      using assms(6,7) session transcript
      by (simp add: update_builtin_projections_def Let_def session_of_def transcript_of_def)
  next
    case False
    have "st_last_stream_seq (session_of ?run) = length ?run" "tr_last_stream_seq (transcript_of ?run) = length ?run"
      using False last_of_run [OF assms(3) False] session_of_frame transcript_of_frame by simp_all
    then show ?thesis
      using False assms(6,7) session transcript by (simp add: update_builtin_projections_def Let_def)
  qed
  then show ?thesis
    by (auto simp: and_then_Inr_iff write_session_state_def write_transcript_def)
qed

lemma cache_ok_snoc:
  assumes "\<forall>run. cache_ok j state (of_run run es) (cells run)"
    and "encode j (state (of_run (ev_run_id e) es @ [e])) = Inr bs"
  shows "\<forall>run. cache_ok j state (of_run run (es @ [e]))
    ((cells(ev_run_id e \<mapsto> (bs, int (length (of_run (ev_run_id e) es) + 1)))) run)"
  using assms by (auto simp: cache_ok_def)

lemma log_ok_snoc:
  assumes "log_ok es" "ev_event_id e \<notin> ev_event_id ` set es" "well_logged e"
    "ev_stream_seq e = length (of_run (ev_run_id e) es) + 1"
  shows "log_ok (es @ [e])"
  using assms by (auto simp: log_ok_def)

lemma index_from_append: "index_from n (xs @ ys) = index_from n xs @ index_from (n + length xs) ys"
  by (induction xs arbitrary: n) simp_all

lemma index_of_snoc:
  "index_of (es @ [e]) = index_of es
     @ (case searchable_text e of None \<Rightarrow> [] | Some text \<Rightarrow> [(Suc (length es), text)])"
  by (simp add: index_of_def index_from_append)

lemma index_event_simps [simp]:
  "db_events (index_event fts e db) = db_events db"
  "db_keys (index_event fts e db) = db_keys db"
  "db_session (index_event fts e db) = db_session db"
  "db_transcript (index_event fts e db) = db_transcript db"
  "db_catalog (index_event fts e db) = db_catalog db"
  "db_coverage (index_event fts e db) = db_coverage db"
  "db_fts (index_event fts e db) = db_fts db
     @ (if fts then case searchable_text e of None \<Rightarrow> [] | Some text \<Rightarrow> [(length (db_events db), text)] else [])"
  by (simp_all add: index_event_def split: option.split)

lemma mark_coverage_simps [simp]:
  "db_events (mark_coverage fts cur r g db) = db_events db"
  "db_keys (mark_coverage fts cur r g db) = db_keys db"
  "db_session (mark_coverage fts cur r g db) = db_session db"
  "db_transcript (mark_coverage fts cur r g db) = db_transcript db"
  "db_catalog (mark_coverage fts cur r g db) = db_catalog db"
  "db_fts (mark_coverage fts cur r g db) = db_fts db"
  by (simp_all add: mark_coverage_def)

text \<open>Whatever the switch for the index, the coverage marker keeps naming a part of the log that the
  index covers: a marker that is current is moved to the longer log, any other is dropped.\<close>

lemma fts_ok_keys [simp]: "fts_ok es (db\<lparr>db_keys := ks\<rparr>) = fts_ok es db"
  by (cases "db_coverage db") (simp_all add: fts_ok_def)

lemma fts_current_covers:
  assumes "fts_ok es db" "length (db_events db) = length es" "fts_is_current registry graph db = Inr True"
  shows "mset (db_fts db) = mset (index_of es)"
proof (cases "db_coverage db")
  case None
  then have "db_events db = []"
    using assms(3) by (auto simp: fts_is_current_def and_then_Inr_iff Let_def event_set_token_Nil)
  then show ?thesis using assms(1,2) None by (simp add: fts_ok_def index_of_def)
next
  case (Some cov)
  obtain n where n: "n \<le> length es" "fc_event_set cov = event_set_identity (event_set_token (take n (db_events db)))"
      "mset (db_fts db) = mset (index_of (take n es))"
    using assms(1) Some by (auto simp: fts_ok_def)
  have "fc_event_set cov = event_set_identity (event_set_token (db_events db))"
    using assms(3) Some by (auto simp: fts_is_current_def and_then_Inr_iff Let_def fts_coverage_new_def)
  then have "take n (db_events db) = db_events db" using n(2) identity_take by metis
  then have "length es \<le> n" using assms(2) by (metis length_take min.cobounded2)
  then show ?thesis using n by simp
qed

lemma fts_ok_snoc:
  assumes "fts_ok es db" "length (db_events db) = length es"
    and "(if fts then fts_is_current registry graph db else Inr False) = Inr was_current"
    and "db_events db' = db_events db @ [r]" "db_coverage db' = db_coverage db"
    and "db_fts db' = db_fts db @ (if fts then case searchable_text e of None \<Rightarrow> []
       | Some text \<Rightarrow> [(Suc (length (db_events db)), text)] else [])"
  shows "fts_ok (es @ [e]) (mark_coverage fts was_current registry graph db')"
proof (cases fts)
  case False
  then show ?thesis
    using assms by (auto simp: fts_ok_def mark_coverage_def split: option.splits intro: le_SucI exI)
next
  case True
  show ?thesis
  proof (cases was_current)
    case False
    then show ?thesis using True by (simp add: fts_ok_def mark_coverage_def)
  next
    case current: True
    have "mset (db_fts db') = mset (index_of (es @ [e]))"
      using fts_current_covers [OF assms(1,2)] assms(2,3,6) True current
      by (simp add: index_of_snoc split: option.split)
    moreover have "take (Suc (length es)) (db_events db') = db_events db'" using assms(2,4) by simp
    ultimately show ?thesis
      using True current
      by (auto simp: fts_ok_def mark_coverage_def fts_coverage_new_def intro!: exI [of _ "Suc (length es)"])
  qed
qed

lemma append_new_tables:
  assumes "tables_ok c es db" "roundtrip (jc_session c)" "roundtrip (jc_transcript c)"
    and "ev_event_id e \<notin> ev_event_id ` set es" "ev_kind e = payload_kind (ev_payload e)" "event_fits e"
    and "encode (jc_payload c) (ev_payload e) = Inr (pe_payload p)"
    and "encode (jc_provenance c) (ev_provenance e) = Inr (pe_provenance p)" "pe_event p = e"
    and "append_new c p fts registry graph (db\<lparr>db_keys := ks\<rparr>) = Inr (outcome, db')"
  defines "e' \<equiv> e\<lparr>ev_stream_seq := length (of_run (ev_run_id e) es) + 1\<rparr>"
  shows "tables_ok c (es @ [e']) db' \<and> db_keys db' = ks \<and> outcome = \<lparr>ao_event_id = ev_event_id e,
      ao_resulting_version = length (of_run (ev_run_id e) es) + 1, ao_disposition = Applied\<rparr>"
proof -
  note rep = assms(1) [unfolded tables_ok_def]
  let ?db = "db\<lparr>db_keys := ks\<rparr>"
  have rows: "list_all2 (row_of c) es (db_events ?db)" and log: "log_ok es" using rep by simp_all
  have fields [simp]: "ev_event_id e' = ev_event_id e" "ev_run_id e' = ev_run_id e" "ev_kind e' = ev_kind e"
    "ev_payload e' = ev_payload e" "ev_provenance e' = ev_provenance e" "ev_schema_version e' = ev_schema_version e"
    "ev_stream_seq e' = length (of_run (ev_run_id e) es) + 1"
    by (simp_all add: e'_def)
  note version = aggregate_version_represents [OF rows log, of "ev_run_id e"]
  let ?r = "stored_row e' (pe_payload p) (pe_provenance p)"
  obtain was_current db1 db2 cat where
      cur: "(if fts then fts_is_current registry graph ?db else Inr False) = Inr was_current"
      and small: "length (of_run (ev_run_id e) es) + 1 < 2 ^ 63"
      and ins: "insert_event ?r ?db = Inr db1"
      and upd: "update_builtin_projections c e' (index_event fts e' db1) = Inr db2"
      and cat: "update_evolution_catalog (jc_candidate c) (jc_evaluation c) e' (db_catalog db2) = Inr cat"
      and outcome: "outcome = \<lparr>ao_event_id = ev_event_id e,
        ao_resulting_version = length (of_run (ev_run_id e) es) + 1, ao_disposition = Applied\<rparr>"
      and db': "db' = mark_coverage fts was_current registry graph (db2\<lparr>db_catalog := cat\<rparr>)"
    using assms(10) version
    by (auto simp: append_new_def and_then_Inr_iff Let_def assms(9) e'_def)
  have db1: "db1 = ?db\<lparr>db_events := db_events db @ [?r]\<rparr>"
    using ins by (auto simp: insert_event_def and_then_Inr_iff)
  let ?db1 = "index_event fts e' db1"
  have same: "db_session ?db1 = db_session db" "db_transcript ?db1 = db_transcript db" by (simp_all add: db1)
  obtain s t where s: "encode (jc_session c) (session_of (of_run (ev_run_id e) es @ [e'])) = Inr s"
      and t: "encode (jc_transcript c) (transcript_of (of_run (ev_run_id e) es @ [e'])) = Inr t"
      and db2: "db2 = ?db1\<lparr>db_session := (db_session db)(ev_run_id e \<mapsto> (s, int (length (of_run (ev_run_id e) es) + 1))),
               db_transcript := (db_transcript db)(ev_run_id e \<mapsto> (t, int (length (of_run (ev_run_id e) es) + 1)))\<rparr>"
    using update_projections_represents [of c e' es ?db1 db2] rep assms(2,3) upd
    unfolding same fields by auto
  have session_cells: "\<forall>run. cache_ok (jc_session c) session_of (of_run run es) (db_session db run)"
    and transcript_cells: "\<forall>run. cache_ok (jc_transcript c) transcript_of (of_run run es) (db_transcript db run)"
    using rep by blast+
  have session_cells': "db_session db' = (db_session db)(ev_run_id e \<mapsto> (s, int (length (of_run (ev_run_id e) es) + 1)))"
    and transcript_cells': "db_transcript db' = (db_transcript db)(ev_run_id e \<mapsto> (t, int (length (of_run (ev_run_id e) es) + 1)))"
    by (simp_all add: db' db2)
  have "tables_ok c (es @ [e']) db'"
    unfolding tables_ok_def
  proof (intro conjI)
    have "row_of c e' ?r" using assms(7,8) unfolding row_of_def by auto
    then show "list_all2 (row_of c) (es @ [e']) (db_events db')"
      using rows by (simp add: db' db2 db1 list_all2_appendI)
    show "log_ok (es @ [e'])"
      by (rule log_ok_snoc [OF log]) (use assms(4-6) small in \<open>simp_all add: well_logged_def event_fits_def e'_def\<close>)
    show "\<forall>run. cache_ok (jc_session c) session_of (of_run run (es @ [e'])) (db_session db' run)"
      using cache_ok_snoc [OF session_cells, of e' s] s unfolding fields session_cells' by blast
    show "\<forall>run. cache_ok (jc_transcript c) transcript_of (of_run run (es @ [e'])) (db_transcript db' run)"
      using cache_ok_snoc [OF transcript_cells, of e' t] t unfolding fields transcript_cells' by blast
    show "project_all (jc_candidate c) (jc_evaluation c) (es @ [e']) empty_catalog = Inr (db_catalog db')"
      using rep cat by (simp add: project_all_append db' db2 db1)
    have "fts_ok es ?db" using rep by simp
    moreover have "length (db_events ?db) = length es" using rows rows_fields(3) by simp
    ultimately show "fts_ok (es @ [e']) db'"
      unfolding db' by (rule fts_ok_snoc [OF _ _ cur]) (simp_all add: db2 db1 split: option.split)
  qed
  then show ?thesis using outcome by (simp add: db' db2 db1)
qed

subsection \<open>Duplicates\<close>

text \<open>Two events are the same request content when kind, payload, provenance and schema version agree, and
  the same event when they differ in the assigned sequence number only.\<close>

definition same_event :: "event \<Rightarrow> event \<Rightarrow> bool" where
  "same_event e old \<longleftrightarrow> e\<lparr>ev_stream_seq := ev_stream_seq old\<rparr> = old"

definition same_request :: "event \<Rightarrow> event \<Rightarrow> bool" where
  "same_request e old \<longleftrightarrow> domain_idempotency_key e \<noteq> None \<and> domain_idempotency_key e = domain_idempotency_key old
     \<and> ev_kind e = ev_kind old \<and> ev_payload e = ev_payload old \<and> ev_provenance e = ev_provenance old
     \<and> ev_schema_version e = ev_schema_version old"

text \<open>What an append that returns an event id does to the log: nothing, when the log holds that event or
  that request; otherwise the event, whose id and whose request are new, is put at the end.\<close>

definition append_spec :: "event \<Rightarrow> event list \<Rightarrow> event_id \<Rightarrow> event list \<Rightarrow> bool" where
  "append_spec e es eid es' \<longleftrightarrow>
     (es' = es \<and> (\<exists>old\<in>set es. ev_event_id old = eid \<and> (same_event e old \<or> same_request e old)))
   \<or> (eid = ev_event_id e \<and> eid \<notin> ev_event_id ` set es
     \<and> (\<forall>old\<in>set es. domain_idempotency_key e = None \<or> domain_idempotency_key old \<noteq> domain_idempotency_key e)
     \<and> es' = es @ [e\<lparr>ev_stream_seq := length (of_run (ev_run_id e) es) + 1\<rparr>])"

lemma sound_codecD:
  "sound_codec j \<Longrightarrow> roundtrip j"
  "sound_codec j \<Longrightarrow> encode j x = Inr bs \<Longrightarrow> fits bs"
  "sound_codec j \<Longrightarrow> encode j x = Inr bs \<Longrightarrow> encode j y = Inr bs \<Longrightarrow> x = y"
proof -
  show "sound_codec j \<Longrightarrow> roundtrip j" by (simp add: sound_codec_def)
  show "sound_codec j \<Longrightarrow> encode j x = Inr bs \<Longrightarrow> fits bs" by (simp add: sound_codec_def)
  show "sound_codec j \<Longrightarrow> encode j x = Inr bs \<Longrightarrow> encode j y = Inr bs \<Longrightarrow> x = y"
    by (rule roundtrip_inj) (simp_all add: sound_codec_def)
qed

lemma find_event_represents:
  assumes "list_all2 (row_of c) es (db_events db)"
  shows "find_event eid db = Some r \<Longrightarrow> \<exists>e\<in>set es. ev_event_id e = eid \<and> row_of c e r"
    and "find_event eid db = None \<longleftrightarrow> eid \<notin> ev_event_id ` set es"
proof -
  show "\<exists>e\<in>set es. ev_event_id e = eid \<and> row_of c e r" if "find_event eid db = Some r"
  proof -
    have r: "r \<in> set (db_events db)" "se_event_id r = eid"
      using that by (auto simp: find_event_def find_Some_iff)
    then obtain e where "e \<in> set es" "row_of c e r"
      using assms by (metis in_set_conv_nth list_all2_conv_all_nth)
    then show ?thesis using r(2) row_of_fields [of c e r] by auto
  qed
  have "se_event_id ` set (db_events db) = ev_event_id ` set es"
    using rows_fields(1) [OF assms] by (metis list.set_map)
  moreover have "find_event eid db = None \<longleftrightarrow> eid \<notin> se_event_id ` set (db_events db)"
    by (auto simp: find_event_def find_None_iff)
  ultimately show "find_event eid db = None \<longleftrightarrow> eid \<notin> ev_event_id ` set es" by simp
qed

lemma event_semantics_same:
  assumes "event_fits e" "event_fits old" "sound_codecs c" "ev_event_id old = ev_event_id e"
    and "encode (jc_payload c) (ev_payload e) = Inr payload" "encode (jc_provenance c) (ev_provenance e) = Inr prov"
    and "row_of c old r" "stored_semantics (ev_event_id e) r = Inr (event_semantic_bytes e payload prov)"
  shows "same_event e old"
proof -
  have sound: "sound_codec (jc_payload c)" "sound_codec (jc_provenance c)" using assms(3) by (simp_all add: sound_codecs_def)
  obtain payload' prov' where enc: "encode (jc_payload c) (ev_payload old) = Inr payload'"
      "encode (jc_provenance c) (ev_provenance old) = Inr prov'" and r: "r = stored_row old payload' prov'"
    using assms(7) by (auto simp: row_of_def)
  have "event_semantic_bytes old payload' prov' = event_semantic_bytes e payload prov"
    using assms(2,4,8) by (simp add: stored_semantics_def r event_semantic_bytes_def event_fits_def and_then_Inr_iff)
  moreover have "fits payload" "fits payload'" by (rule sound_codecD(2) [OF sound(1)], fact)+
  moreover have "fits prov" "fits prov'" by (rule sound_codecD(2) [OF sound(2)], fact)+
  ultimately have fields: "ev_run_id old = ev_run_id e \<and> ev_turn_id old = ev_turn_id e \<and> as_str (ev_kind old) = as_str (ev_kind e)
      \<and> payload' = payload \<and> ev_schema_version old = ev_schema_version e \<and> ev_ts_unix_ms old = ev_ts_unix_ms e
      \<and> prov' = prov"
    using assms(1,2) unfolding event_semantic_bytes_def
    by (auto dest!: semantic_fields_equal simp: fields_fit_def event_fits_def as_str_fits)
  then have "ev_payload old = ev_payload e" "ev_provenance old = ev_provenance e" "ev_kind old = ev_kind e"
    using assms(5,6) enc sound_codecD(3) [OF sound(1)] sound_codecD(3) [OF sound(2)] by (simp_all add: as_str_inj)
  then show ?thesis using fields assms(4) by (simp add: same_event_def)
qed

lemma request_same:
  assumes "event_fits e" "event_fits old" "sound_codecs c" "domain_idempotency_key e = Some key"
    and "encode (jc_payload c) (ev_payload e) = Inr payload" "encode (jc_provenance c) (ev_provenance e) = Inr prov"
    and "key_of c old key (eid, run, domain_semantic_bytes e payload prov)"
  shows "same_request e old" and "ev_event_id old = eid"
proof -
  have sound: "sound_codec (jc_payload c)" "sound_codec (jc_provenance c)" using assms(3) by (simp_all add: sound_codecs_def)
  obtain payload' prov' where enc: "encode (jc_payload c) (ev_payload old) = Inr payload'"
      "encode (jc_provenance c) (ev_provenance old) = Inr prov'"
      and eq: "domain_semantic_bytes e payload prov = domain_semantic_bytes old payload' prov'"
      and key: "domain_idempotency_key old = Some key" and eid: "ev_event_id old = eid"
    using assms(7) by (auto simp: key_of_def)
  have fit: "fits payload" "fits payload'" by (rule sound_codecD(2) [OF sound(1)], fact)+
  have fit': "fits prov" "fits prov'" by (rule sound_codecD(2) [OF sound(2)], fact)+
  have version: "ev_schema_version e < 2 ^ 32" "ev_schema_version old < 2 ^ 32"
    using assms(1,2) by (simp_all add: event_fits_def)
  note same = domain_semantic_bytes_inj [OF eq fit(1) fit'(1) fit(2) fit'(2) version]
  have "ev_payload old = ev_payload e" "ev_provenance old = ev_provenance e"
    using same assms(5,6) enc sound_codecD(3) [OF sound(1)] sound_codecD(3) [OF sound(2)] by simp_all
  then show "same_request e old" using same key assms(4) by (simp add: same_request_def)
  show "ev_event_id old = eid" by (rule eid)
qed

lemma keys_ok_snoc:
  assumes "keys_ok c es db" "db_keys db' = (case domain_idempotency_key e of None \<Rightarrow> db_keys db
      | Some key \<Rightarrow> (db_keys db)(key \<mapsto> (ev_event_id e, ev_run_id e, domain_semantic_bytes e payload prov)))"
    and "encode (jc_payload c) (ev_payload e) = Inr payload" "encode (jc_provenance c) (ev_provenance e) = Inr prov"
  shows "keys_ok c (es @ [e\<lparr>ev_stream_seq := n\<rparr>]) db'"
proof -
  have key [simp]: "domain_idempotency_key (e\<lparr>ev_stream_seq := n\<rparr>) = domain_idempotency_key e"
    by (simp add: domain_idempotency_key_def)
  have bytes [simp]: "domain_semantic_bytes (e\<lparr>ev_stream_seq := n\<rparr>) payload prov = domain_semantic_bytes e payload prov"
    by (simp add: domain_semantic_bytes_def)
  have new: "key_of c (e\<lparr>ev_stream_seq := n\<rparr>) key (ev_event_id e, ev_run_id e, domain_semantic_bytes e payload prov)"
    if "domain_idempotency_key e = Some key" for key
    using that assms(3,4) by (simp add: key_of_def)
  show ?thesis
    unfolding keys_ok_def
  proof (intro conjI allI impI)
    fix key row assume "db_keys db' key = Some row"
    then have "db_keys db key = Some row \<or> (domain_idempotency_key e = Some key
        \<and> row = (ev_event_id e, ev_run_id e, domain_semantic_bytes e payload prov))"
    proof (cases "domain_idempotency_key e")
      case (Some k)
      then show ?thesis using assms(2) \<open>db_keys db' key = Some row\<close> by (cases "k = key") simp_all
    qed (use assms(2) in simp)
    then consider "db_keys db key = Some row" | "domain_idempotency_key e = Some key"
        "row = (ev_event_id e, ev_run_id e, domain_semantic_bytes e payload prov)" by blast
    then show "\<exists>e\<in>set (es @ [e\<lparr>ev_stream_seq := n\<rparr>]). key_of c e key row"
    proof cases
      case 1
      then obtain d where "d \<in> set es" "key_of c d key row" using assms(1) unfolding keys_ok_def by blast
      then show ?thesis by auto
    qed (use new in simp)
  next
    show "\<forall>d\<in>set (es @ [e\<lparr>ev_stream_seq := n\<rparr>]). \<forall>key. domain_idempotency_key d = Some key \<longrightarrow> db_keys db' key \<noteq> None"
      using assms(1,2) by (auto simp: keys_ok_def split: option.split)
  qed
qed

lemma prepare_event_facts:
  assumes "prepare_event c current e = Inr p"
  shows "pe_event p = e" "ev_kind e = payload_kind (ev_payload e)"
    "encode (jc_payload c) (ev_payload e) = Inr (pe_payload p)"
    "encode (jc_provenance c) (ev_provenance e) = Inr (pe_provenance p)"
    "pe_semantics p = event_semantic_bytes e (pe_payload p) (pe_provenance p)"
    "pe_domain_key p = domain_idempotency_key e"
    "pe_domain_semantics p = map_option (\<lambda>_. domain_semantic_bytes e (pe_payload p) (pe_provenance p)) (domain_idempotency_key e)"
    "bm_get current (ev_kind e) = Some (ev_schema_version e)"
  using assms by (auto simp: prepare_event_def current_schema_for_def and_then_Inr_iff)

lemma append_new_represents:
  assumes "represents c es db" "sound_codecs c" "event_fits e" "prepare_event c current e = Inr p"
    and "ev_event_id e \<notin> ev_event_id ` set es"
    and "\<And>key. domain_idempotency_key e = Some key \<Longrightarrow> db_keys db key = None"
    and "append_new c p fts registry graph (db\<lparr>db_keys := (case domain_idempotency_key e of None \<Rightarrow> db_keys db
      | Some key \<Rightarrow> (db_keys db)(key \<mapsto> (ev_event_id e, ev_run_id e,
          domain_semantic_bytes e (pe_payload p) (pe_provenance p))))\<rparr>) = Inr (outcome, db')"
  shows "outcome = \<lparr>ao_event_id = ev_event_id e, ao_resulting_version = length (of_run (ev_run_id e) es) + 1,
      ao_disposition = Applied\<rparr>
    \<and> represents c (es @ [e\<lparr>ev_stream_seq := length (of_run (ev_run_id e) es) + 1\<rparr>]) db'
    \<and> (\<forall>old\<in>set es. domain_idempotency_key e = None \<or> domain_idempotency_key old \<noteq> domain_idempotency_key e)"
proof -
  note p = prepare_event_facts [OF assms(4)]
  have sound: "roundtrip (jc_session c)" "roundtrip (jc_transcript c)" using assms(2) by (simp_all add: sound_codecs_def)
  have rep: "tables_ok c es db" "keys_ok c es db" using assms(1) by (simp_all add: represents_def)
  note new = append_new_tables [OF rep(1) sound assms(5) p(2) assms(3) p(3,4,1) assms(7)]
  have "keys_ok c (es @ [e\<lparr>ev_stream_seq := length (of_run (ev_run_id e) es) + 1\<rparr>]) db'"
    by (rule keys_ok_snoc [OF rep(2) _ p(3,4)]) (use new in simp)
  moreover have "\<forall>old\<in>set es. domain_idempotency_key e = None \<or> domain_idempotency_key old \<noteq> domain_idempotency_key e"
    using rep(2) assms(6) unfolding keys_ok_def by (metis not_None_eq)
  ultimately show ?thesis using new by (simp add: represents_def)
qed

text \<open>What an append does to the log, whatever its branch.\<close>

lemma append_prepared_spec:
  assumes "represents c es db" "sound_codecs c" "event_fits e" "prepare_event c current e = Inr p"
    and "append_prepared c p fts registry graph db = Inr (outcome, db')"
  shows "\<exists>es'. append_spec e es (ao_event_id outcome) es' \<and> represents c es' db'
    \<and> (ao_disposition outcome = Duplicate \<longrightarrow> es' = es \<and> db' = db)
    \<and> (ao_disposition outcome = Applied \<longrightarrow> es' \<noteq> es \<and> ao_event_id outcome = ev_event_id e)
    \<and> ao_resulting_version outcome = length (of_run (ev_run_id e) es')"
proof -
  note p = prepare_event_facts [OF assms(4)]
  have rep: "list_all2 (row_of c) es (db_events db)" "log_ok es" "keys_ok c es db"
    using assms(1) by (simp_all add: represents_def tables_ok_def)
  have fit: "event_fits old" if "old \<in> set es" for old
    using rep(2) that by (auto simp: log_ok_def list_all_iff well_logged_def)
  have duplicate: ?thesis
    if "duplicate_outcome eid (ev_run_id e) db = Inr (outcome, db')" "old \<in> set es" "ev_event_id old = eid"
      "same_event e old \<or> same_request e old" for eid old
    using that assms(1) aggregate_version_represents [OF rep(1,2), of "ev_run_id e"]
    by (auto simp: duplicate_outcome_def and_then_Inr_iff append_spec_def intro!: exI [of _ es])
  have applied: ?thesis
    if "append_new c p fts registry graph (db\<lparr>db_keys := (case domain_idempotency_key e of None \<Rightarrow> db_keys db
        | Some key \<Rightarrow> (db_keys db)(key \<mapsto> (ev_event_id e, ev_run_id e,
          domain_semantic_bytes e (pe_payload p) (pe_provenance p))))\<rparr>) = Inr (outcome, db')"
      "ev_event_id e \<notin> ev_event_id ` set es" "\<And>key. domain_idempotency_key e = Some key \<Longrightarrow> db_keys db key = None"
    using append_new_represents [OF assms(1-4) that(2,3,1)] that(2)
    by (auto simp: append_spec_def intro!: exI [of _ "es @ [e\<lparr>ev_stream_seq := length (of_run (ev_run_id e) es) + 1\<rparr>]"])
  show ?thesis
  proof (cases "find_event (ev_event_id e) db")
    case (Some r)
    then obtain old where old: "old \<in> set es" "ev_event_id old = ev_event_id e" "row_of c old r"
      using find_event_represents(1) [OF rep(1)] by blast
    have "stored_semantics (ev_event_id e) r = Inr (event_semantic_bytes e (pe_payload p) (pe_provenance p))"
        "duplicate_outcome (ev_event_id e) (ev_run_id e) db = Inr (outcome, db')"
      using assms(5) Some p by (auto simp: append_prepared_def and_then_Inr_iff)
    then show ?thesis
      using duplicate [OF _ old(1,2)] event_semantics_same [OF assms(3) fit [OF old(1)] assms(2) old(2) p(3,4) old(3)]
      by blast
  next
    case None
    then have fresh: "ev_event_id e \<notin> ev_event_id ` set es" using find_event_represents(2) [OF rep(1)] by blast
    show ?thesis
    proof (cases "domain_idempotency_key e")
      case none: None
      then show ?thesis using assms(5) None p by (intro applied [OF _ fresh]) (simp_all add: append_prepared_def)
    next
      case key: (Some key)
      show ?thesis
      proof (cases "db_keys db key")
        case unclaimed: None
        then show ?thesis using assms(5) None key p by (intro applied [OF _ fresh]) (simp_all add: append_prepared_def)
      next
        case claimed: (Some row)
        obtain original run semantics where row: "row = (original, run, semantics)" by (cases row)
        have semantics: "semantics = domain_semantic_bytes e (pe_payload p) (pe_provenance p)"
            and dup: "duplicate_outcome original (ev_run_id e) db = Inr (outcome, db')"
          using assms(5) None key claimed p by (auto simp: append_prepared_def and_then_Inr_iff row)
        obtain old where old: "old \<in> set es" "key_of c old key row"
          using rep(3) claimed unfolding keys_ok_def by blast
        note request = request_same [OF assms(3) fit [OF old(1)] assms(2) key p(3,4) old(2) [unfolded row semantics]]
        show ?thesis using duplicate [OF dup old(1)] request by blast
      qed
    qed
  qed
qed

lemma event_append_represents:
  assumes "represents c es (es_db st)" and "sound_codecs c" and "event_fits e"
    and "event_append c e st = (res, st')"
  shows "case res of Inl err \<Rightarrow> st' = st
    | Inr eid \<Rightarrow> (\<exists>es'. append_spec e es eid es' \<and> represents c es' (es_db st') \<and> st' = st\<lparr>es_db := es_db st'\<rparr>)"
proof (cases "and_then (prepare_event c (es_current st) e) (\<lambda>p.
    append_prepared c p (es_fts st) (fst (fts_identities st)) (snd (fts_identities st)) (es_db st))")
  case (Inl err)
  then show ?thesis
    using assms(4) by (cases "reject_non_evolution_write_path e") (auto simp: event_append_def)
next
  case (Inr ret)
  then obtain p where p: "prepare_event c (es_current st) e = Inr p"
      "append_prepared c p (es_fts st) (fst (fts_identities st)) (snd (fts_identities st)) (es_db st) = Inr ret"
    by (auto simp: and_then_Inr_iff)
  show ?thesis
  proof (cases "reject_non_evolution_write_path e")
    case rejected: (Inl err)
    then show ?thesis using assms(4) by (auto simp: event_append_def)
  next
    case ok: (Inr u)
    obtain outcome db where d: "ret = (outcome, db)" by (cases ret)
    then have res: "res = Inr (ao_event_id outcome)" "st' = st\<lparr>es_db := db\<rparr>"
      using assms(4) Inr ok by (simp_all add: event_append_def)
    then show ?thesis using append_prepared_spec [OF assms(1-3) p(1) p(2) [unfolded d]] by auto
  qed
qed

text \<open>C21: Appending refines a list of events. On a store that represents a log, an append that returns an
  event id leaves a store that represents the log of the specification: the same log, when it holds the event
  or the request (the same idempotency key with the same content), and otherwise the log with the event,
  numbered next in its run, at its end. A failing append changes nothing.\<close>

theorem append_refines:
  assumes "represents c es (es_db st)" and "sound_codecs c" and "event_fits e"
    and "event_append c e st = (res, st')"
  shows "case res of Inl err \<Rightarrow> st' = st
    | Inr eid \<Rightarrow> (\<exists>es'. append_spec e es eid es' \<and> represents c es' (es_db st') \<and> st' = st\<lparr>es_db := es_db st'\<rparr>)"
  by (rule event_append_represents [OF assms])

subsection \<open>Repeating and racing appends\<close>

lemma event_append_Inr:
  assumes "event_append c e st = (Inr eid, st')"
  obtains p outcome db where "reject_non_evolution_write_path e = Inr ()" "prepare_event c (es_current st) e = Inr p"
    "append_prepared c p (es_fts st) (fst (fts_identities st)) (snd (fts_identities st)) (es_db st) = Inr (outcome, db)"
    "eid = ao_event_id outcome" "st' = st\<lparr>es_db := db\<rparr>"
proof -
  obtain outcome db where ok: "and_then (reject_non_evolution_write_path e) (\<lambda>_.
      and_then (prepare_event c (es_current st) e) (\<lambda>p.
      append_prepared c p (es_fts st) (fst (fts_identities st)) (snd (fts_identities st)) (es_db st))) = Inr (outcome, db)"
      and "eid = ao_event_id outcome" "st' = st\<lparr>es_db := db\<rparr>"
    using assms unfolding event_append_def by (auto split: sum.splits prod.splits)
  then show thesis using that by (auto simp: and_then_Inr_iff)
qed

lemma append_applied_again:
  assumes "represents c es db" "sound_codecs c" "event_fits e" "prepare_event c current e = Inr p"
    and "append_prepared c p fts registry graph db = Inr (outcome, db')" "ao_disposition outcome = Applied"
  shows "\<exists>again. append_prepared c p fts' registry' graph' db' = Inr (again, db') \<and> ao_event_id again = ev_event_id e"
proof -
  note p = prepare_event_facts [OF assms(4)]
  obtain es' where es': "append_spec e es (ao_event_id outcome) es'" "represents c es' db'" "es' \<noteq> es"
      "ao_event_id outcome = ev_event_id e"
    using append_prepared_spec [OF assms(1-5)] assms(6) by blast
  then have log: "es' = es @ [e\<lparr>ev_stream_seq := length (of_run (ev_run_id e) es) + 1\<rparr>]"
    by (auto simp: append_spec_def)
  have rep: "list_all2 (row_of c) es' (db_events db')" "log_ok es'"
    using es'(2) by (simp_all add: represents_def tables_ok_def)
  have "ev_event_id e \<in> ev_event_id ` set es'" by (simp add: log)
  then obtain r where r: "find_event (ev_event_id e) db' = Some r"
    using find_event_represents(2) [OF rep(1)] by (cases "find_event (ev_event_id e) db'") auto
  then obtain old where old: "old \<in> set es'" "ev_event_id old = ev_event_id e" "row_of c old r"
    using find_event_represents(1) [OF rep(1)] by blast
  have "ev_event_id e \<notin> ev_event_id ` set es" using rep(2) by (auto simp: log_ok_def log)
  then have "old \<notin> set es" using old(2) by (metis imageI)
  then have "old = e\<lparr>ev_stream_seq := length (of_run (ev_run_id e) es) + 1\<rparr>" using old(1) unfolding log by simp
  then have "stored_semantics (ev_event_id e) r = Inr (pe_semantics p)"
    using old(3) p(3-5) assms(3)
    by (auto simp: row_of_def stored_semantics_def event_semantic_bytes_def event_fits_def and_then_Inr_iff)
  moreover have "duplicate_outcome (ev_event_id e) (ev_run_id e) db'
      = Inr (\<lparr>ao_event_id = ev_event_id e, ao_resulting_version = length (of_run (ev_run_id e) es'),
          ao_disposition = Duplicate\<rparr>, db')"
    using aggregate_version_represents [OF rep] by (simp add: duplicate_outcome_def)
  ultimately show ?thesis using r p(1) by (simp add: append_prepared_def)
qed

text \<open>C22: Appending is idempotent: a client that lost the answer of a successful append may append the same
  event again; it gets the same event id, and the store, with its sequence numbers, its projections and its
  index, stays as it is.\<close>

theorem append_idempotent:
  assumes "represents c es (es_db st)" and "sound_codecs c" and "event_fits e"
    and "event_append c e st = (Inr eid, st')"
  shows "event_append c e st' = (Inr eid, st')"
proof -
  obtain p outcome db where p: "reject_non_evolution_write_path e = Inr ()" "prepare_event c (es_current st) e = Inr p"
      and app: "append_prepared c p (es_fts st) (fst (fts_identities st)) (snd (fts_identities st)) (es_db st) = Inr (outcome, db)"
      and eid: "eid = ao_event_id outcome" and st': "st' = st\<lparr>es_db := db\<rparr>"
    using assms(4) by (rule event_append_Inr)
  note spec = append_prepared_spec [OF assms(1-3) p(2) app]
  have ids: "fts_identities st' = fts_identities st" by (simp add: st' fts_identities_def)
  show ?thesis
  proof (cases "ao_disposition outcome")
    case Applied
    then obtain again where "append_prepared c p (es_fts st) (fst (fts_identities st)) (snd (fts_identities st)) db = Inr (again, db)"
        "ao_event_id again = ev_event_id e"
      using append_applied_again [OF assms(1-3) p(2) app] by blast
    moreover have "eid = ev_event_id e" using spec Applied eid by blast
    ultimately show ?thesis using p ids by (simp add: event_append_def st')
  next
    case Duplicate
    then have "st' = st" using spec st' by auto
    then show ?thesis using assms(4) by simp
  qed
qed

lemma append_expected_Inr:
  assumes "append_expected c e v st = (Inr report, st')"
  obtains (conflict) p actual where "prepare_event c (es_current st) e = Inr p" "ev_run_id e = aggregate v"
      "aggregate_version_in (aggregate v) (es_db st) = Inr actual" "actual \<noteq> unat (av_value v)" "st' = st"
      "report = \<lparr>xa_schema_version = 1, xa_status = Conflict, xa_expected_version = unat (av_value v),
               xa_actual_version = actual, xa_resulting_version = actual, xa_event_id = None\<rparr>"
    | (append) p outcome db where "prepare_event c (es_current st) e = Inr p" "ev_run_id e = aggregate v"
      "aggregate_version_in (aggregate v) (es_db st) = Inr (unat (av_value v))"
      "append_prepared c p (es_fts st) (fst (fts_identities st)) (snd (fts_identities st)) (es_db st) = Inr (outcome, db)"
      "st' = st\<lparr>es_db := db\<rparr>"
      "report = \<lparr>xa_schema_version = 1,
         xa_status = (case ao_disposition outcome of Applied \<Rightarrow> AppliedExpected | Duplicate \<Rightarrow> DuplicateExpected),
         xa_expected_version = unat (av_value v), xa_actual_version = unat (av_value v),
         xa_resulting_version = ao_resulting_version outcome, xa_event_id = Some (ao_event_id outcome)\<rparr>"
  using assms unfolding append_expected_def
  by (auto simp: and_then_Inr_iff split: sum.splits prod.splits if_splits)

text \<open>C23: The expected version decides a race: after an append that expected version v of a run was applied,
  the run has version v + 1, and every further append that expected v reports a conflict with that version and
  changes nothing.\<close>

theorem append_expected_once:
  assumes "represents c es (es_db st)" and "sound_codecs c" and "event_fits e"
    and "append_expected c e v st = (Inr report, st')" and "xa_status report = AppliedExpected"
    and "append_expected c e2 v st' = (Inr report2, st2)"
  shows "xa_resulting_version report = unat (av_value v) + 1 \<and> xa_status report2 = Conflict
    \<and> xa_actual_version report2 = unat (av_value v) + 1 \<and> st2 = st'"
proof -
  from assms(4) show ?thesis
  proof (cases rule: append_expected_Inr)
    case (append p outcome db)
    have applied: "ao_disposition outcome = Applied"
      using assms(5) append(6) by (cases "ao_disposition outcome") simp_all
    obtain es' where es': "append_spec e es (ao_event_id outcome) es'" "represents c es' db" "es' \<noteq> es"
        "ao_resulting_version outcome = length (of_run (ev_run_id e) es')"
      using append_prepared_spec [OF assms(1-3) append(1,4)] applied by blast
    have rows: "list_all2 (row_of c) es (db_events (es_db st))" "log_ok es"
      using assms(1) by (simp_all add: represents_def tables_ok_def)
    have rows': "list_all2 (row_of c) es' (db_events db)" "log_ok es'"
      using es'(2) by (simp_all add: represents_def tables_ok_def)
    have "length (of_run (ev_run_id e) es') = length (of_run (ev_run_id e) es) + 1"
      using es'(1,3) by (auto simp: append_spec_def)
    moreover have "length (of_run (ev_run_id e) es) = unat (av_value v)"
      using aggregate_version_represents [OF rows, of "ev_run_id e"] append(2,3) by simp
    ultimately have version: "length (of_run (aggregate v) es') = unat (av_value v) + 1" using append(2) by simp
    then have "aggregate_version_in (aggregate v) (es_db st') = Inr (unat (av_value v) + 1)"
      using aggregate_version_represents [OF rows'] append(5) by simp
    then have "xa_status report2 = Conflict \<and> xa_actual_version report2 = unat (av_value v) + 1 \<and> st2 = st'"
      using assms(6) by (auto elim!: append_expected_Inr)
    then show ?thesis using append(2,6) es'(4) version by simp
  qed (use assms(5) in simp)
qed

end
