(* ===== verification/Event_Replay.thy ===== *)
theory Event_Replay
  imports Event_Log_Refinement
begin

text \<open>
  Reading the event store: decoding a row (checksum, upcasting, JSON, payload kind), the cursor that pages
  through a run, the projection of a run, replay against the caches, the rebuild of the caches and the
  full-text search (\<open>store/src/sqlite.rs\<close>, \<open>store/src/cursor.rs\<close>). On a store that represents a log whose
  events have the schema versions that are asked for, reading gives the log back.
\<close>

subsection \<open>Decoding a row\<close>

fun apply_steps :: "upcast_step list \<Rightarrow> bytes \<Rightarrow> bytes result" where
  "apply_steps [] bs = Inr bs"
| "apply_steps (s # steps) bs = and_then (step_apply s bs) (apply_steps steps)"

definition decode_with_target ::
  "log_codecs \<Rightarrow> upcaster_graph \<Rightarrow> (event_kind \<Rightarrow> schema_version \<Rightarrow> schema_version result) \<Rightarrow> stored_event
   \<Rightarrow> event result" where
  "decode_with_target c graph target_for r =
     and_then (ensure (0 \<le> se_stream_seq r) ''stored event sequence is invalid'') (\<lambda>_.
     and_then (ensure (0 \<le> se_schema_version r \<and> se_schema_version r < 2 ^ 32)
       ''stored event schema version is invalid'') (\<lambda>_.
     let seq = nat (se_stream_seq r); version = nat (se_schema_version r) in
     and_then (ensure (calculate (se_event_id r) (se_run_id r) seq (se_turn_id r) (se_kind r) (se_payload r) version
           (se_ts_unix_ms r) (se_provenance r) = se_checksum r)
       (''event '' @ se_event_id r @ '' checksum mismatch'')) (\<lambda>_.
     and_then (kind_from_str (se_kind r)) (\<lambda>kind.
     and_then (target_for kind version) (\<lambda>target.
     and_then (upcast_plan graph kind version target) (\<lambda>steps.
     and_then (apply_steps steps (se_payload r)) (\<lambda>payload_bytes.
     and_then (store_error ''failed to deserialize event payload'' (decode (jc_payload c) payload_bytes)) (\<lambda>payload.
     and_then (store_error ''failed to deserialize event provenance'' (decode (jc_provenance c) (se_provenance r))) (\<lambda>prov.
     let e = \<lparr>ev_event_id = se_event_id r, ev_run_id = se_run_id r, ev_stream_seq = seq, ev_turn_id = se_turn_id r,
       ev_kind = kind, ev_payload = payload, ev_schema_version = target, ev_ts_unix_ms = se_ts_unix_ms r,
       ev_provenance = prov\<rparr> in
     and_then (validate_payload_kind e) (\<lambda>_. Inr e))))))))))"

definition decode_current ::
  "log_codecs \<Rightarrow> (event_kind, schema_version) btree_map \<Rightarrow> upcaster_graph \<Rightarrow> stored_event \<Rightarrow> event result" where
  "decode_current c current graph =
     decode_with_target c graph (\<lambda>k _. ok_or (bm_get current k)
       (''current schema registry is missing version for '' @ as_str k))"

definition decode_at ::
  "log_codecs \<Rightarrow> (event_kind, schema_version) btree_map \<Rightarrow> upcaster_graph \<Rightarrow> stored_event \<Rightarrow> event result" where
  "decode_at c snapshot graph =
     decode_with_target c graph (\<lambda>k _. ok_or (bm_get snapshot k)
       (''schema snapshot is missing version for '' @ as_str k))"

subsection \<open>The cursor\<close>

definition load_page ::
  "log_codecs \<Rightarrow> event_store \<Rightarrow> run_id \<Rightarrow> nat \<Rightarrow> nat \<Rightarrow> (nat \<times> event result list) result" where
  "load_page c st run first limit =
     and_then (ensure (first < 2 ^ 63) ''event cursor sequence is invalid'') (\<lambda>_.
     and_then (ensure (limit < 2 ^ 63) ''event cursor page size is invalid'') (\<lambda>_.
     let rows = take limit (sort_key se_stream_seq
       (filter (\<lambda>r. se_run_id r = run \<and> int first \<le> se_stream_seq r) (db_events (es_db st)))) in
     if rows = [] then Inr (first, [])
     else and_then (ensure (0 \<le> se_stream_seq (last rows)) ''stored event sequence is invalid'') (\<lambda>_.
       Inr (nat (se_stream_seq (last rows)) + 1, map (decode_current c (es_current st) (es_graph st)) rows))))"

record event_cursor =
  cu_run :: run_id
  cu_next_seq :: nat
  cu_page_size :: nat
  cu_buffered :: "event result list"
  cu_exhausted :: bool

definition cursor_new :: "run_id \<Rightarrow> nat \<Rightarrow> event_cursor" where
  "cursor_new run limit =
     \<lparr>cu_run = run, cu_next_seq = 1, cu_page_size = limit, cu_buffered = [], cu_exhausted = False\<rparr>"

text \<open>\<open>next\<close>: the loop of the code goes round once more only after it has filled the buffer.\<close>

definition cursor_next :: "log_codecs \<Rightarrow> event_store \<Rightarrow> event_cursor \<Rightarrow> event result option \<times> event_cursor" where
  "cursor_next c st cu =
     (case cu_buffered cu of
        item # rest \<Rightarrow> (Some item, cu\<lparr>cu_buffered := rest\<rparr>)
      | [] \<Rightarrow>
          if cu_exhausted cu then (None, cu)
          else (case load_page c st (cu_run cu) (cu_next_seq cu) (cu_page_size cu) of
              Inr (next_seq, []) \<Rightarrow> (None, cu\<lparr>cu_exhausted := True\<rparr>)
            | Inr (next_seq, item # rest) \<Rightarrow> (Some item, cu\<lparr>cu_next_seq := next_seq, cu_buffered := rest\<rparr>)
            | Inl err \<Rightarrow> (Some (Inl err), cu\<lparr>cu_exhausted := True\<rparr>)))"

text \<open>What the first n calls of \<open>next\<close> return.\<close>

fun cursor_items :: "nat \<Rightarrow> log_codecs \<Rightarrow> event_store \<Rightarrow> event_cursor \<Rightarrow> event result option list" where
  "cursor_items 0 c st cu = []"
| "cursor_items (Suc n) c st cu = (case cursor_next c st cu of (item, cu') \<Rightarrow> item # cursor_items n c st cu')"

definition read_run :: "event_store \<Rightarrow> run_id \<Rightarrow> event_cursor" where
  "read_run st run = cursor_new run (es_page st)"

subsection \<open>Replay\<close>

record replay_report =
  rr_run :: run_id
  rr_schema :: "(event_kind, schema_version) btree_map"
  rr_diff :: "projection_diff_row list"
  rr_session :: session_state
  rr_transcript :: transcript

definition replay :: "log_codecs \<Rightarrow> event_store \<Rightarrow> run_id \<Rightarrow> (event_kind, schema_version) btree_map \<Rightarrow> replay_report result" where
  "replay c st run snapshot =
     (let rows = sort_key se_stream_seq (filter (\<lambda>r. se_run_id r = run) (db_events (es_db st))) in
      and_then (read_session_state c run (es_db st)) (\<lambda>session.
      and_then (read_transcript c run (es_db st)) (\<lambda>transcript.
      and_then (try_map (decode_at c snapshot (es_graph st)) rows) (\<lambda>events.
      let session' = fold session_apply events session_empty;
          transcript' = fold transcript_apply events transcript_empty in
      Inr \<lparr>rr_run = run, rr_schema = snapshot, rr_diff = projection_diff session session' transcript transcript',
           rr_session = session', rr_transcript = transcript'\<rparr>))))"

subsection \<open>Rebuilding the caches\<close>

record builtin_projection =
  bp_session :: session_state
  bp_transcript :: transcript
  bp_fts :: "(event_id \<times> string) list"

definition stream_insert :: "stored_event \<Rightarrow> (run_id, stored_event list) btree_map \<Rightarrow> (run_id, stored_event list) btree_map" where
  "stream_insert r streams =
     bm_insert (se_run_id r) ((case bm_get streams (se_run_id r) of None \<Rightarrow> [] | Some rs \<Rightarrow> rs) @ [r]) streams"

definition fts_entries :: "event list \<Rightarrow> (event_id \<times> string) list" where
  "fts_entries es =
     concat (map (\<lambda>e. case searchable_text e of None \<Rightarrow> [] | Some text \<Rightarrow> [(ev_event_id e, text)]) es)"

definition fold_builtin_projections ::
  "log_codecs \<Rightarrow> (event_kind, schema_version) btree_map \<Rightarrow> upcaster_graph \<Rightarrow> stored_event list
   \<Rightarrow> builtin_projection list result" where
  "fold_builtin_projections c current graph rows =
     try_map (\<lambda>(run, stream).
       and_then (try_map (decode_current c current graph) (sort_key se_stream_seq stream)) (\<lambda>events.
       Inr \<lparr>bp_session = fold session_apply events session_empty,
            bp_transcript = fold transcript_apply events transcript_empty, bp_fts = fts_entries events\<rparr>))
     (fold stream_insert rows bm_empty)"

definition rowid_of :: "event_id \<Rightarrow> event_db \<Rightarrow> nat option" where
  "rowid_of eid db =
     map_option (\<lambda>(i, _). i) (List.find (\<lambda>(_, r). se_event_id r = eid) (enumerate 1 (db_events db)))"

fun write_fts_entries :: "(event_id \<times> string) list \<Rightarrow> event_db \<Rightarrow> event_db result" where
  "write_fts_entries [] db = Inr db"
| "write_fts_entries ((eid, text) # rest) db =
     and_then (ok_or (rowid_of eid db) ''authoritative event disappeared during full-text search rebuild'') (\<lambda>rowid.
     write_fts_entries rest (db\<lparr>db_fts := db_fts db @ [(rowid, text)]\<rparr>))"

fun write_projections :: "log_codecs \<Rightarrow> bool \<Rightarrow> builtin_projection list \<Rightarrow> event_db \<Rightarrow> event_db result" where
  "write_projections c fts [] db = Inr db"
| "write_projections c fts (p # ps) db =
     and_then (write_session_state c (bp_session p) db) (\<lambda>db1.
     and_then (write_transcript c (bp_transcript p) db1) (\<lambda>db2.
     and_then (if fts then write_fts_entries (bp_fts p) db2 else Inr db2) (\<lambda>db3.
     write_projections c fts ps db3)))"

text \<open>The rebuild reads the log, decodes it, and then, in a transaction of its own, replaces the caches if
  neither the log nor the upcasters have changed since; \<open>now\<close> is the store at that moment.\<close>

definition rebuild_builtin_projections ::
  "log_codecs \<Rightarrow> event_store \<Rightarrow> event_store \<Rightarrow> unit result \<times> event_store" where
  "rebuild_builtin_projections c st now =
     (case and_then (fold_builtin_projections c (es_current st) (es_graph st) (db_events (es_db st))) (\<lambda>rebuilt.
           and_then (ensure (Schema_Upcast.token (es_graph now) = Schema_Upcast.token (es_graph st))
             ''upcaster graph changed during projection rebuild; stale caches were not committed'') (\<lambda>_.
           and_then (ensure (event_set_token (db_events (es_db now)) = event_set_token (db_events (es_db st)))
             ''authoritative event set changed during projection rebuild; stale caches were not committed'') (\<lambda>_.
           let db1 = (es_db now)\<lparr>db_session := Map.empty, db_transcript := Map.empty\<rparr>;
               db2 = (if es_fts now then db1\<lparr>db_fts := []\<rparr> else db1) in
           and_then (write_projections c (es_fts now) rebuilt db2) (\<lambda>db3.
           Inr (if es_fts now then db3\<lparr>db_coverage := Some (fts_coverage_new (event_set_token (db_events (es_db st)))
                  (schema_registry_identity (es_current st)) (identity_bytes (es_graph st)))\<rparr> else db3))))) of
        Inl err \<Rightarrow> (Inl err, now)
      | Inr db \<Rightarrow> (Inr (), now\<lparr>es_db := db\<rparr>))"

subsection \<open>Search\<close>

record search_hit =
  sh_event_id :: event_id
  sh_run_id :: run_id
  sh_stream_seq :: nat
  sh_kind :: event_kind

text \<open>The full-text engine is the function \<open>engine\<close>: from a query and the indexed texts to row ids, best
  first. A row id without an event is dropped by the join.\<close>

definition event_at :: "nat \<Rightarrow> event_db \<Rightarrow> stored_event list" where
  "event_at rowid db = (if 1 \<le> rowid \<and> rowid \<le> length (db_events db) then [db_events db ! (rowid - 1)] else [])"

definition search_hit_of :: "stored_event \<Rightarrow> search_hit result" where
  "search_hit_of r =
     and_then (ensure (0 \<le> se_stream_seq r) ''stored event sequence is invalid'') (\<lambda>_.
     and_then (kind_from_str (se_kind r)) (\<lambda>kind.
     Inr \<lparr>sh_event_id = se_event_id r, sh_run_id = se_run_id r, sh_stream_seq = nat (se_stream_seq r), sh_kind = kind\<rparr>))"

definition search ::
  "(string \<Rightarrow> (nat \<times> string) list \<Rightarrow> nat list) \<Rightarrow> event_store \<Rightarrow> string \<Rightarrow> nat \<Rightarrow> search_hit list result" where
  "search engine st query limit =
     and_then (ensure (es_fts st) ''full-text search is disabled'') (\<lambda>_.
     and_then (ensure (limit < 2 ^ 63) ''full-text search limit is invalid'') (\<lambda>_.
     let event_set = event_set_token (db_events (es_db st));
         expected = fts_coverage_new event_set (schema_registry_identity (es_current st)) (identity_bytes (es_graph st));
         coverage = db_coverage (es_db st) in
     and_then (ensure (\<not> (coverage \<noteq> Some expected \<and> \<not> (coverage = None \<and> event_set = [])))
       ''full-text search coverage is stale; rebuild derived caches before searching'') (\<lambda>_.
     try_map search_hit_of
       (take limit (concat (map (\<lambda>rowid. event_at rowid (es_db st)) (engine query (db_fts (es_db st)))))))))"

subsection \<open>Reading gives the log back\<close>

text \<open>A snapshot of schema versions fits a list of events when it has the version of every one of them; then
  no upcaster is applied.\<close>

definition schema_fits :: "(event_kind, schema_version) btree_map \<Rightarrow> event list \<Rightarrow> bool" where
  "schema_fits snapshot es \<longleftrightarrow> (\<forall>e\<in>set es. bm_get snapshot (ev_kind e) = Some (ev_schema_version e))"

lemma schema_fits_of_run: "schema_fits snapshot es \<Longrightarrow> schema_fits snapshot (of_run run es)"
  by (simp add: schema_fits_def of_run_def)

lemma upcast_plan_same: "upcast_plan g k v v = Inr []"
  by (simp add: upcast_plan_def plan_loop.simps)

lemma decode_row:
  assumes "row_of c e r" "well_logged e" "sound_codecs c" "target_for (ev_kind e) (ev_schema_version e) = Inr (ev_schema_version e)"
  shows "decode_with_target c g target_for r = Inr e"
proof -
  obtain payload prov where enc: "encode (jc_payload c) (ev_payload e) = Inr payload"
      "encode (jc_provenance c) (ev_provenance e) = Inr prov" and r: "r = stored_row e payload prov"
    using assms(1) by (auto simp: row_of_def)
  have dec: "decode (jc_payload c) payload = Inr (ev_payload e)" "decode (jc_provenance c) prov = Inr (ev_provenance e)"
    using enc assms(3) roundtripD sound_codecD(1) unfolding sound_codecs_def by metis+
  have "se_checksum r = calculate (ev_event_id e) (ev_run_id e) (ev_stream_seq e) (ev_turn_id e)
      (as_str (ev_kind e)) payload (ev_schema_version e) (ev_ts_unix_ms e) prov"
    by (simp add: r stored_row_def)
  then show ?thesis
    using assms(2,4) dec
    by (cases e) (simp add: r decode_with_target_def upcast_plan_same well_logged_def event_fits_def Let_def validate_payload_kind_def)
qed

lemma decode_rows:
  assumes "list_all2 (row_of c) es rows" "list_all well_logged es" "sound_codecs c" "schema_fits snapshot es"
  shows "map (decode_current c snapshot g) rows = map Inr es" "map (decode_at c snapshot g) rows = map Inr es"
  using assms
  by (induction rule: list_all2_induct) (simp_all add: schema_fits_def decode_current_def decode_at_def decode_row)

lemma try_map_Inr: "map f xs = map Inr ys \<Longrightarrow> try_map f xs = Inr ys"
proof (induction xs arbitrary: ys)
  case (Cons x xs)
  then show ?case by (cases ys) simp_all
qed simp

definition run_rows :: "run_id \<Rightarrow> event_db \<Rightarrow> stored_event list" where
  "run_rows run db = filter (\<lambda>r. se_run_id r = run) (db_events db)"

lemma run_rows_represents:
  assumes "list_all2 (row_of c) es (db_events db)"
  shows "list_all2 (row_of c) (of_run run es) (run_rows run db)"
  using assms unfolding run_rows_def of_run_def
  by (induction rule: list_all2_induct) (auto simp: row_of_fields)

lemma run_rows_seqs:
  assumes "list_all2 (row_of c) es (db_events db)" "log_ok es"
  shows "map se_stream_seq (run_rows run db) = map int [1..<length (of_run run es) + 1]"
  using rows_fields(2) [OF assms(1), of run] assms(2)
  by (simp add: run_rows_def log_ok_def del: upt_Suc flip: map_map)

lemma run_rows_sorted:
  assumes "list_all2 (row_of c) es (db_events db)" "log_ok es"
  shows "sort_key se_stream_seq (run_rows run db) = run_rows run db"
  by (rule sort_key_id_if_sorted) (simp add: run_rows_seqs [OF assms] sorted_map sorted_wrt_upt del: upt_Suc)

lemma filter_from:
  fixes f :: "'a \<Rightarrow> int"
  assumes "map f xs = map int [1..<length xs + 1]"
  shows "filter (\<lambda>x. int (Suc k) \<le> f x) xs = drop k xs"
  using assms
proof (induction xs rule: rev_induct)
  case (snoc x xs)
  then have "map f xs = map int [1..<length xs + 1]" "f x = int (length xs + 1)" by simp_all
  then show ?case using snoc.IH by (simp del: of_nat_Suc upt_Suc)
qed simp

text \<open>C24: Replay is exact: replaying a run of a represented log, at schema versions that are those of its
  events, finds no difference with the caches, and its states are the folds of the projections over the
  events of the run in order.\<close>

theorem replay_exact:
  assumes "represents c es (es_db st)" and "sound_codecs c" and "schema_fits snapshot (of_run run es)"
    and "of_run run es \<noteq> []"
  shows "replay c st run snapshot = Inr \<lparr>rr_run = run, rr_schema = snapshot, rr_diff = [],
     rr_session = session_of (of_run run es), rr_transcript = transcript_of (of_run run es)\<rparr>"
proof -
  have rows: "list_all2 (row_of c) es (db_events (es_db st))" "log_ok es"
      and cells: "cache_ok (jc_session c) session_of (of_run run es) (db_session (es_db st) run)"
        "cache_ok (jc_transcript c) transcript_of (of_run run es) (db_transcript (es_db st) run)"
    using assms(1) by (simp_all add: represents_def tables_ok_def)
  have sound: "roundtrip (jc_session c)" "roundtrip (jc_transcript c)" using assms(2) by (simp_all add: sound_codecs_def)
  have "list_all well_logged (of_run run es)" using rows(2) by (auto simp: log_ok_def list_all_iff of_run_def)
  then have "map (decode_at c snapshot (es_graph st)) (run_rows run (es_db st)) = map Inr (of_run run es)"
    by (intro decode_rows(2) run_rows_represents rows assms(2,3))
  then have "try_map (decode_at c snapshot (es_graph st)) (sort_key se_stream_seq (run_rows run (es_db st))) = Inr (of_run run es)"
    by (simp add: run_rows_sorted [OF rows] try_map_Inr)
  moreover have "projection_diff (Some s) s (Some t) t = []" for s t by (simp add: projection_diff_Nil)
  ultimately show ?thesis
    using read_session_represents [OF cells(1) rows(2) sound(1)] read_transcript_represents [OF cells(2) rows(2) sound(2)]
      assms(4)
    by (simp add: replay_def run_rows_def session_of_def transcript_of_def Let_def)
qed

subsection \<open>The cursor gives the run\<close>

lemma load_page_represents:
  assumes "represents c es (es_db st)" "sound_codecs c" "schema_fits (es_current st) (of_run run es)"
    and "length (of_run run es) + 1 < 2 ^ 63" "k \<le> length (of_run run es)" "0 < m" "m < 2 ^ 63"
  shows "load_page c st run (Suc k) m =
     Inr (min (k + m) (length (of_run run es)) + 1, map Inr (take m (drop k (of_run run es))))"
proof -
  have rows: "list_all2 (row_of c) es (db_events (es_db st))" "log_ok es"
    using assms(1) by (simp_all add: represents_def tables_ok_def)
  let ?rows = "run_rows run (es_db st)" and ?es = "of_run run es"
  have seqs: "map se_stream_seq ?rows = map int [1..<length ?es + 1]" by (rule run_rows_seqs [OF rows])
  then have len: "length ?rows = length ?es" by (metis add_diff_cancel_right' length_map length_upt)
  have "filter (\<lambda>r. se_run_id r = run \<and> int (Suc k) \<le> se_stream_seq r) (db_events (es_db st))
      = filter (\<lambda>r. int (Suc k) \<le> se_stream_seq r) ?rows"
    unfolding run_rows_def filter_filter by (rule filter_cong) auto
  also have "\<dots> = drop k ?rows" by (rule filter_from) (simp only: seqs len)
  finally have page: "filter (\<lambda>r. se_run_id r = run \<and> int (Suc k) \<le> se_stream_seq r) (db_events (es_db st)) = drop k ?rows" .
  have "sorted (map se_stream_seq (drop k ?rows))"
    unfolding drop_map [symmetric] by (rule sorted_wrt_drop) (simp add: seqs sorted_map sorted_wrt_upt del: upt_Suc)
  then have sort: "sort_key se_stream_seq (drop k ?rows) = drop k ?rows" by (rule sort_key_id_if_sorted)
  have "list_all well_logged ?es" using rows(2) by (auto simp: log_ok_def list_all_iff of_run_def)
  then have decoded: "map (decode_current c (es_current st) (es_graph st)) ?rows = map Inr ?es"
    by (intro decode_rows(1) run_rows_represents rows assms(2,3))
  then have items: "map (decode_current c (es_current st) (es_graph st)) (take m (drop k ?rows)) = map Inr (take m (drop k ?es))"
    by (simp flip: take_map drop_map)
  show ?thesis
  proof (cases "k = length ?es")
    case True
    then show ?thesis using assms(4,7) page len by (simp add: load_page_def)
  next
    case False
    then have k: "k < length ?es" using assms(5) by simp
    then have nonempty: "take m (drop k ?rows) \<noteq> []" using assms(6) len by simp
    have "map se_stream_seq (take m (drop k ?rows)) = take m (drop k (map int [1..<length ?es + 1]))"
      by (simp only: seqs flip: take_map drop_map)
    then have "se_stream_seq (last (take m (drop k ?rows))) = last (take m (drop k (map int [1..<length ?es + 1])))"
      using nonempty by (metis last_map)
    also have "\<dots> = int (min (k + m) (length ?es))"
      using k assms(6) by (subst last_conv_nth) (auto simp: min_def nth_append simp del: upt_Suc)
    finally show ?thesis
      using nonempty page sort items assms(4,7) k by (simp add: load_page_def Let_def)
  qed
qed

text \<open>A cursor that has given k events of a run of n, with m of them fetched.\<close>

definition cursor_at :: "event list \<Rightarrow> run_id \<Rightarrow> nat \<Rightarrow> nat \<Rightarrow> event_cursor \<Rightarrow> bool" where
  "cursor_at es run limit k cu \<longleftrightarrow> (\<exists>m. k \<le> m \<and> m \<le> length (of_run run es) \<and> cu_run cu = run \<and> cu_page_size cu = limit
     \<and> cu_next_seq cu = m + 1 \<and> cu_buffered cu = map Inr (drop k (take m (of_run run es)))
     \<and> (cu_exhausted cu \<longrightarrow> m = length (of_run run es)))"

lemma cursor_next_at:
  assumes "represents c es (es_db st)" "sound_codecs c" "schema_fits (es_current st) (of_run run es)"
    and "length (of_run run es) + 1 < 2 ^ 63" "0 < limit" "limit < 2 ^ 63" "cursor_at es run limit k cu"
  shows "k < length (of_run run es) \<Longrightarrow> \<exists>cu'. cursor_next c st cu = (Some (Inr (of_run run es ! k)), cu')
      \<and> cursor_at es run limit (Suc k) cu'"
    and "k = length (of_run run es) \<Longrightarrow> \<exists>cu'. cursor_next c st cu = (None, cu') \<and> cursor_at es run limit k cu'"
proof -
  let ?es = "of_run run es"
  obtain m where m: "k \<le> m" "m \<le> length ?es" "cu_run cu = run" "cu_page_size cu = limit" "cu_next_seq cu = m + 1"
      "cu_buffered cu = map Inr (drop k (take m ?es))" "cu_exhausted cu \<longrightarrow> m = length ?es"
    using assms(7) by (auto simp: cursor_at_def)
  have page: "load_page c st (cu_run cu) (cu_next_seq cu) (cu_page_size cu) =
      Inr (min (m + limit) (length ?es) + 1, map Inr (take limit (drop m ?es)))"
    using load_page_represents [OF assms(1-4) m(2) assms(5,6)] by (simp add: m)
  show "\<exists>cu'. cursor_next c st cu = (Some (Inr (?es ! k)), cu') \<and> cursor_at es run limit (Suc k) cu'"
    if k: "k < length ?es"
  proof (cases "k < m")
    case True
    have "drop k (take m ?es) = ?es ! k # drop (Suc k) (take m ?es)"
      using True m(2) by (subst Cons_nth_drop_Suc [symmetric]) simp_all
    then have "cursor_next c st cu = (Some (Inr (?es ! k)), cu\<lparr>cu_buffered := map Inr (drop (Suc k) (take m ?es))\<rparr>)"
      using m(6) by (simp add: cursor_next_def)
    moreover have "cursor_at es run limit (Suc k) (cu\<lparr>cu_buffered := map Inr (drop (Suc k) (take m ?es))\<rparr>)"
      using True m unfolding cursor_at_def by (intro exI [of _ m]) simp
    ultimately show ?thesis by blast
  next
    case False
    then have km: "k = m" using m(1) by simp
    have "take limit (drop m ?es) = ?es ! k # drop (Suc k) (take (min (m + limit) (length ?es)) ?es)"
      using k km assms(5)
      by (simp add: Cons_nth_drop_Suc [symmetric, of m ?es] take_Cons' drop_take min_def)
    then have "cursor_next c st cu = (Some (Inr (?es ! k)), cu\<lparr>cu_next_seq := min (m + limit) (length ?es) + 1,
        cu_buffered := map Inr (drop (Suc k) (take (min (m + limit) (length ?es)) ?es))\<rparr>)"
      using m(6,7) k km page by (simp add: cursor_next_def)
    moreover have "cursor_at es run limit (Suc k) (cu\<lparr>cu_next_seq := min (m + limit) (length ?es) + 1,
        cu_buffered := map Inr (drop (Suc k) (take (min (m + limit) (length ?es)) ?es))\<rparr>)"
      using k km m assms(5) unfolding cursor_at_def by (intro exI [of _ "min (m + limit) (length ?es)"]) auto
    ultimately show ?thesis by blast
  qed
  show "\<exists>cu'. cursor_next c st cu = (None, cu') \<and> cursor_at es run limit k cu'" if k: "k = length ?es"
  proof -
    have "m = length ?es" "cu_buffered cu = []" using k m(1,2,6) by simp_all
    then have "cursor_next c st cu = (None, if cu_exhausted cu then cu else cu\<lparr>cu_exhausted := True\<rparr>)"
      using page by (simp add: cursor_next_def)
    moreover have "cursor_at es run limit k (if cu_exhausted cu then cu else cu\<lparr>cu_exhausted := True\<rparr>)"
      using m k unfolding cursor_at_def by (intro exI [of _ m]) auto
    ultimately show ?thesis by blast
  qed
qed

lemma cursor_items_at:
  assumes "represents c es (es_db st)" "sound_codecs c" "schema_fits (es_current st) (of_run run es)"
    and "length (of_run run es) + 1 < 2 ^ 63" "0 < limit" "limit < 2 ^ 63"
  shows "cursor_at es run limit k cu \<Longrightarrow> k \<le> length (of_run run es) \<Longrightarrow>
    cursor_items n c st cu = take n (map (Some \<circ> Inr) (drop k (of_run run es)) @ replicate n None)"
proof (induction n arbitrary: k cu)
  case (Suc n)
  note at = cursor_next_at [OF assms Suc.prems(1)]
  show ?case
  proof (cases "k < length (of_run run es)")
    case True
    obtain cu' where cu': "cursor_next c st cu = (Some (Inr (of_run run es ! k)), cu')" "cursor_at es run limit (Suc k) cu'"
      using at(1) [OF True] by blast
    have "drop k (of_run run es) = of_run run es ! k # drop (Suc k) (of_run run es)"
      using True by (simp add: Cons_nth_drop_Suc)
    then show ?thesis using Suc.IH [OF cu'(2)] True cu'(1) by (simp add: replicate_append_same [symmetric] del: replicate_Suc)
  next
    case False
    then have k: "k = length (of_run run es)" using Suc.prems(2) by simp
    obtain cu' where "cursor_next c st cu = (None, cu')" "cursor_at es run limit k cu'" using at(2) [OF k] by blast
    then show ?thesis using Suc.IH [of k cu'] k by simp
  qed
qed simp

text \<open>C25: A cursor gives exactly the events of its run, in order, whatever the page size: the first n calls of
  \<open>next\<close> return the first n events, and nothing after the last one.\<close>

theorem cursor_reads_run:
  assumes "represents c es (es_db st)" and "sound_codecs c" and "schema_fits (es_current st) (of_run run es)"
    and "length (of_run run es) + 1 < 2 ^ 63" and "0 < es_page st" and "es_page st < 2 ^ 63"
  shows "cursor_items n c st (read_run st run) = take n (map (Some \<circ> Inr) (of_run run es) @ replicate n None)"
proof -
  have "cursor_at es run (es_page st) 0 (read_run st run)"
    by (simp add: cursor_at_def read_run_def cursor_new_def)
  from cursor_items_at [OF assms this, of n] show ?thesis by simp
qed

subsection \<open>Rebuilding the caches changes nothing\<close>

lemma streams_get:
  "bm_get (fold stream_insert rows bm_empty) run =
     (let rs = filter (\<lambda>r. se_run_id r = run) rows in if rs = [] then None else Some rs)"
  by (induction rows rule: rev_induct) (auto simp: stream_insert_def Let_def)

lemma streams_wf: "bm_wf (fold stream_insert rows bm_empty)"
  by (induction rows rule: rev_induct) (simp_all add: bm.wf_emp stream_insert_def bm_wf_insert)

lemma streams_members:
  "(run, stream) \<in> set (fold stream_insert rows bm_empty) \<longleftrightarrow>
     stream = filter (\<lambda>r. se_run_id r = run) rows \<and> stream \<noteq> []"
proof -
  have "distinct (map fst (fold stream_insert rows bm_empty))"
    using bm.keys_distinct [OF streams_wf] by (simp add: bm_keys_def)
  then have "(run, stream) \<in> set (fold stream_insert rows bm_empty)
      \<longleftrightarrow> bm_get (fold stream_insert rows bm_empty) run = Some stream"
    by (simp add: bm_get_def)
  then show ?thesis by (auto simp: streams_get Let_def)
qed

text \<open>The runs of a log in the order of the rebuild, and what it computes for each.\<close>

definition runs_of :: "stored_event list \<Rightarrow> run_id list" where
  "runs_of rows = map fst (fold stream_insert rows bm_empty)"

definition projection_of :: "event list \<Rightarrow> run_id \<Rightarrow> builtin_projection" where
  "projection_of es run = \<lparr>bp_session = session_of (of_run run es), bp_transcript = transcript_of (of_run run es),
     bp_fts = fts_entries (of_run run es)\<rparr>"

lemma runs_of_distinct: "distinct (runs_of rows)"
  using bm.keys_distinct [OF streams_wf] by (simp add: runs_of_def bm_keys_def)

lemma runs_of_set:
  fixes db :: event_db
  assumes "list_all2 (row_of c) es (db_events db)"
  shows "run \<in> set (runs_of (db_events db)) \<longleftrightarrow> of_run run es \<noteq> []"
proof -
  have "run \<in> set (runs_of (db_events db)) \<longleftrightarrow> (\<exists>stream. (run, stream) \<in> set (fold stream_insert (db_events db) bm_empty))"
    by (auto simp: runs_of_def intro: rev_image_eqI)
  also have "\<dots> \<longleftrightarrow> run_rows run db \<noteq> []" by (simp add: streams_members run_rows_def)
  also have "\<dots> \<longleftrightarrow> of_run run es \<noteq> []"
    using run_rows_represents [OF assms, of run] by (auto simp: list_all2_iff)
  finally show ?thesis .
qed

lemma fold_builtin_represents:
  assumes "represents c es db" "sound_codecs c" "schema_fits current es"
  shows "fold_builtin_projections c current graph (db_events db)
    = Inr (map (projection_of es) (runs_of (db_events db)))"
proof -
  have rows: "list_all2 (row_of c) es (db_events db)" "log_ok es"
    using assms(1) by (simp_all add: represents_def tables_ok_def)
  have decoded: "try_map (decode_current c current graph) (sort_key se_stream_seq (run_rows run db)) = Inr (of_run run es)" for run
  proof -
    have "list_all well_logged (of_run run es)" using rows(2) by (auto simp: log_ok_def list_all_iff of_run_def)
    then have "map (decode_current c current graph) (run_rows run db) = map Inr (of_run run es)"
      by (intro decode_rows(1) run_rows_represents rows assms(2) schema_fits_of_run assms(3))
    then show ?thesis by (simp add: run_rows_sorted [OF rows] try_map_Inr)
  qed
  show ?thesis
    unfolding fold_builtin_projections_def runs_of_def
  proof (rule try_map_Inr, unfold map_map, rule map_cong [OF refl])
    fix s assume "s \<in> set (fold stream_insert (db_events db) bm_empty)"
    moreover obtain run stream where s: "s = (run, stream)" by (cases s)
    ultimately have "stream = run_rows run db" by (simp add: streams_members run_rows_def)
    then show "(case s of (run, stream) \<Rightarrow> and_then (try_map (decode_current c current graph) (sort_key se_stream_seq stream))
        (\<lambda>events. Inr \<lparr>bp_session = fold session_apply events session_empty,
          bp_transcript = fold transcript_apply events transcript_empty, bp_fts = fts_entries events\<rparr>))
      = (Inr \<circ> (projection_of es \<circ> fst)) s"
      using decoded by (simp add: s projection_of_def session_of_def transcript_of_def)
  qed
qed

text \<open>The index entries of some events, by the row ids of the event table.\<close>

definition row_entries :: "event_db \<Rightarrow> event list \<Rightarrow> (nat \<times> string) list" where
  "row_entries db es = concat (map (\<lambda>e. case searchable_text e of None \<Rightarrow> []
     | Some text \<Rightarrow> [(the (rowid_of (ev_event_id e) db), text)]) es)"

lemma rowid_of_frame: "db_events db' = db_events db \<Longrightarrow> rowid_of eid db' = rowid_of eid db"
  by (simp add: rowid_of_def)

lemma row_entries_frame: "db_events db' = db_events db \<Longrightarrow> row_entries db' es = row_entries db es"
  by (simp add: row_entries_def rowid_of_def cong: option.case_cong)

lemma write_fts_entries_rows:
  assumes "\<forall>e\<in>set es. rowid_of (ev_event_id e) db \<noteq> None"
  shows "write_fts_entries (fts_entries es) db = Inr (db\<lparr>db_fts := db_fts db @ row_entries db es\<rparr>)"
  using assms
proof (induction es arbitrary: db)
  case (Cons e es)
  have frame: "rowid_of i (db\<lparr>db_fts := f\<rparr>) = rowid_of i db" for i f by (rule rowid_of_frame) simp
  have rest: "row_entries (db\<lparr>db_fts := f\<rparr>) es = row_entries db es" for f by (rule row_entries_frame) simp
  have IH: "write_fts_entries (fts_entries es) (db\<lparr>db_fts := f\<rparr>) = Inr (db\<lparr>db_fts := f @ row_entries db es\<rparr>)" for f
    using Cons.IH [of "db\<lparr>db_fts := f\<rparr>"] Cons.prems by (simp add: frame rest)
  show ?case
  proof (cases "searchable_text e")
    case None
    then show ?thesis using IH [of "db_fts db"] by (simp add: fts_entries_def row_entries_def)
  next
    case (Some words)
    moreover obtain rowid where "rowid_of (ev_event_id e) db = Some rowid" using Cons.prems by auto
    ultimately show ?thesis
      using IH [of "db_fts db @ [(rowid, words)]"] by (simp add: fts_entries_def row_entries_def)
  qed
qed (simp add: fts_entries_def row_entries_def)

lemma rowid_of_nth:
  assumes "distinct (map se_event_id (db_events db))" "i < length (db_events db)"
  shows "rowid_of (se_event_id (db_events db ! i)) db = Some (Suc i)"
proof -
  let ?xs = "enumerate 1 (db_events db)" and ?P = "\<lambda>(_ :: nat, r). se_event_id r = se_event_id (db_events db ! i)"
  have "List.find ?P ?xs = Some (Suc i, db_events db ! i)"
    unfolding find_Some_iff
  proof (intro exI [of _ i] conjI allI impI)
    fix j assume "j < i"
    then have "map se_event_id (db_events db) ! j \<noteq> map se_event_id (db_events db) ! i"
      using assms by (simp add: nth_eq_iff_index_eq del: nth_map)
    then show "\<not> ?P (?xs ! j)" using \<open>j < i\<close> assms(2) by (simp add: nth_enumerate_eq)
  qed (use assms(2) in \<open>simp_all add: nth_enumerate_eq\<close>)
  then show ?thesis by (simp add: rowid_of_def)
qed

lemma row_entries_index:
  assumes "list_all2 (row_of c) es (db_events db)" "log_ok es"
  shows "row_entries db es = index_of es" and "\<forall>e\<in>set es. rowid_of (ev_event_id e) db \<noteq> None"
proof -
  have ids: "map se_event_id (db_events db) = map ev_event_id es" by (rule rows_fields(1) [OF assms(1)])
  have rowid: "rowid_of (ev_event_id (es ! i)) db = Some (Suc i)" if "i < length es" for i
  proof -
    have "i < length (db_events db)" using ids that by (metis length_map)
    moreover have "se_event_id (db_events db ! i) = ev_event_id (es ! i)" using ids that calculation by (metis nth_map)
    moreover have "distinct (map se_event_id (db_events db))" using ids assms(2) by (simp add: log_ok_def)
    ultimately show ?thesis using rowid_of_nth by metis
  qed
  then show "\<forall>e\<in>set es. rowid_of (ev_event_id e) db \<noteq> None" by (auto simp: in_set_conv_nth)
  have "row_entries db (drop k es) = index_from (Suc k) (drop k es)" if "k \<le> length es" for k
    using that
  proof (induction k rule: inc_induct)
    case (step k)
    then have k: "drop k es = es ! k # drop (Suc k) es" by (simp add: Cons_nth_drop_Suc)
    then show ?case using step rowid [of k] by (simp add: row_entries_def k split: option.split)
  qed (simp add: row_entries_def)
  from this [of 0] show "row_entries db es = index_of es" by (simp add: index_of_def)
qed

text \<open>Every event is in exactly one of the runs, so the entries of the runs are those of the log, in another
  order.\<close>

lemma of_run_subset: "set (of_run run es) \<subseteq> set es"
  by (auto simp: of_run_def)

lemma mset_runs:
  assumes "distinct runs" "\<forall>e\<in>set es. ev_run_id e \<in> set runs"
  shows "mset (concat (map (\<lambda>run. of_run run es) runs)) = mset es"
  using assms(2)
proof (induction es)
  case Nil
  then show ?case by (induction runs) (simp_all add: of_run_def)
next
  case (Cons e es)
  have "mset (concat (map (\<lambda>run. of_run run (e # es)) rs))
      = mset (concat (map (\<lambda>run. of_run run es) rs)) + (if ev_run_id e \<in> set rs then {#e#} else {#})"
    if "distinct rs" for rs
    using that by (induction rs) (auto simp: of_run_def)
  from this [OF assms(1)] show ?case using Cons by simp
qed

lemma row_entries_append: "row_entries db (xs @ ys) = row_entries db xs @ row_entries db ys"
  by (simp add: row_entries_def)

lemma row_entries_concat: "row_entries db (concat ess) = concat (map (row_entries db) ess)"
  by (induction ess) (simp_all add: row_entries_append, simp add: row_entries_def)

lemma row_entries_mset: "mset xs = mset ys \<Longrightarrow> mset (row_entries db xs) = mset (row_entries db ys)"
proof -
  have "mset (concat (map f zs)) = (\<Sum>x\<in>#mset zs. mset (f x))" for f :: "event \<Rightarrow> (nat \<times> string) list" and zs
    by (induction zs) simp_all
  then show "mset xs = mset ys \<Longrightarrow> mset (row_entries db xs) = mset (row_entries db ys)"
    unfolding row_entries_def by simp
qed

lemma cells_written:
  assumes "\<forall>run. cache_ok j state (of_run run es) (cells run)" "of_run run es \<noteq> []"
  obtains bs where "encode j (state (of_run run es)) = Inr bs" "cells run = Some (bs, int (length (of_run run es)))"
  using assms(1) [rule_format, of run] assms(2) unfolding cache_ok_def by auto

text \<open>Writing the projections of some runs into cleared caches restores the cells of those runs.\<close>

lemma write_projections_represents:
  assumes "represents c es db" and "\<forall>run\<in>set runs. of_run run es \<noteq> []"
    and "db_events db1 = db_events db"
  shows "write_projections c fts (map (projection_of es) runs) db1 =
    Inr (db1\<lparr>db_session := db_session db1 ++ (db_session db |` set runs),
             db_transcript := db_transcript db1 ++ (db_transcript db |` set runs),
             db_fts := db_fts db1 @ (if fts then concat (map (\<lambda>run. row_entries db (of_run run es)) runs) else [])\<rparr>)"
  using assms(2,3)
proof (induction runs arbitrary: db1)
  case (Cons run runs)
  have rows: "list_all2 (row_of c) es (db_events db)" "log_ok es"
    using assms(1) by (simp_all add: represents_def tables_ok_def)
  have nonempty: "of_run run es \<noteq> []" using Cons.prems(1) by simp
  obtain s where s: "encode (jc_session c) (session_of (of_run run es)) = Inr s"
      "db_session db run = Some (s, int (length (of_run run es)))"
    using assms(1) cells_written [where cells = "db_session db", OF _ nonempty] by (metis represents_def tables_ok_def)
  obtain t where t: "encode (jc_transcript c) (transcript_of (of_run run es)) = Inr t"
      "db_transcript db run = Some (t, int (length (of_run run es)))"
    using assms(1) cells_written [where cells = "db_transcript db", OF _ nonempty] by (metis represents_def tables_ok_def)
  note last = last_of_run [OF rows(2) nonempty]
  have "last (of_run run es) \<in> set (of_run run es)" using nonempty by simp
  then have "last (of_run run es) \<in> set es" by (simp add: of_run_def)
  then have small: "length (of_run run es) < 2 ^ 63"
    using rows(2) last(2) by (auto simp: log_ok_def list_all_iff well_logged_def)
  let ?db2 = "db1\<lparr>db_session := (db_session db1)(run \<mapsto> (s, int (length (of_run run es)))),
      db_transcript := (db_transcript db1)(run \<mapsto> (t, int (length (of_run run es))))\<rparr>"
  let ?db3 = "?db2\<lparr>db_fts := db_fts db1 @ (if fts then row_entries db (of_run run es) else [])\<rparr>"
  have ids: "rowid_of eid ?db2 = rowid_of eid db" for eid by (rule rowid_of_frame) (simp add: Cons.prems(2))
  have "\<forall>e\<in>set (of_run run es). rowid_of (ev_event_id e) ?db2 \<noteq> None"
    using row_entries_index(2) [OF rows] of_run_subset unfolding ids by blast
  from write_fts_entries_rows [OF this]
  have entries: "write_fts_entries (fts_entries (of_run run es)) ?db2 = Inr (?db2\<lparr>db_fts := db_fts db1 @ row_entries db (of_run run es)\<rparr>)"
    using row_entries_frame [of ?db2 db] Cons.prems(2) by simp
  have first: "write_projections c fts (map (projection_of es) (run # runs)) db1 = write_projections c fts (map (projection_of es) runs) ?db3"
    using s(1) t(1) nonempty small last entries session_of_frame transcript_of_frame
    by (simp add: projection_of_def write_session_state_def write_transcript_def)
  have rest: "write_projections c fts (map (projection_of es) runs) ?db3 =
    Inr (?db3\<lparr>db_session := db_session ?db3 ++ (db_session db |` set runs),
             db_transcript := db_transcript ?db3 ++ (db_transcript db |` set runs),
             db_fts := db_fts ?db3 @ (if fts then concat (map (\<lambda>run. row_entries db (of_run run es)) runs) else [])\<rparr>)"
    by (rule Cons.IH) (use Cons.prems in simp_all)
  have cells: "(m(run \<mapsto> v)) ++ (n |` set runs) = m ++ (n |` set (run # runs))" if "n run = Some v" for m n :: "run_id \<Rightarrow> 'v option" and v
    using that by (auto simp: fun_eq_iff map_add_def restrict_map_def split: option.split)
  show ?case unfolding first rest 
    using cells [where n1 = "db_session db", OF s(2)] cells [where n1 = "db_transcript db", OF t(2)] by simp
qed simp

text \<open>C26: Rebuilding the caches of a represented log, with no upcasting to do, succeeds and changes nothing
  that can be read: the session and transcript caches come out byte for byte as the appends left them, the
  full-text index holds exactly the searchable texts of the log under their row ids, and it is marked as
  covering the log.\<close>

theorem rebuild_exact:
  assumes "represents c es (es_db st)" and "sound_codecs c" and "schema_fits (es_current st) es" and "es_fts st"
  shows "\<exists>db. rebuild_builtin_projections c st st = (Inr (), st\<lparr>es_db := db\<rparr>)
    \<and> db_session db = db_session (es_db st) \<and> db_transcript db = db_transcript (es_db st)
    \<and> db_events db = db_events (es_db st) \<and> mset (db_fts db) = mset (index_of es) \<and> represents c es db
    \<and> db_coverage db = Some (fts_coverage_new (event_set_token (db_events db))
        (schema_registry_identity (es_current st)) (identity_bytes (es_graph st)))"
proof -
  let ?db = "es_db st" and ?runs = "runs_of (db_events (es_db st))"
  have rep: "tables_ok c es ?db" "keys_ok c es ?db" using assms(1) by (simp_all add: represents_def)
  then have rows: "list_all2 (row_of c) es (db_events ?db)" "log_ok es" by (simp_all add: tables_ok_def)
  have runs: "\<forall>run\<in>set ?runs. of_run run es \<noteq> []" using runs_of_set [OF rows(1)] by blast
  have cells: "db_session ?db |` set ?runs = db_session ?db" "db_transcript ?db |` set ?runs = db_transcript ?db"
    using rep(1) runs_of_set [OF rows(1)] unfolding tables_ok_def cache_ok_def
    by (auto simp: fun_eq_iff restrict_map_def)
  define fts where "fts = concat (map (\<lambda>run. row_entries ?db (of_run run es)) ?runs)"
  define cov where "cov = fts_coverage_new (event_set_token (db_events ?db)) (schema_registry_identity (es_current st))
     (identity_bytes (es_graph st))"
  define db where "db = ?db\<lparr>db_fts := fts, db_coverage := Some cov\<rparr>"
  have written: "write_projections c True (map (projection_of es) ?runs)
      (?db\<lparr>db_session := Map.empty, db_transcript := Map.empty, db_fts := []\<rparr>) = Inr (?db\<lparr>db_fts := fts\<rparr>)"
    using write_projections_represents [OF assms(1) runs,
        of "?db\<lparr>db_session := Map.empty, db_transcript := Map.empty, db_fts := []\<rparr>" True]
    by (simp add: cells fts_def)
  have "rebuild_builtin_projections c st st = (Inr (), st\<lparr>es_db := db\<rparr>)"
    using fold_builtin_represents [OF assms(1-3)] written assms(4)
    by (simp add: rebuild_builtin_projections_def db_def cov_def)
  moreover have index: "mset fts = mset (index_of es)"
  proof -
    have "\<forall>e\<in>set es. ev_run_id e \<in> set ?runs"
      by (auto simp: runs_of_set [OF rows(1)] of_run_def filter_empty_conv)
    then have "mset (concat (map (\<lambda>run. of_run run es) ?runs)) = mset es"
      by (rule mset_runs [OF runs_of_distinct])
    then have "mset (row_entries ?db (concat (map (\<lambda>run. of_run run es) ?runs))) = mset (row_entries ?db es)"
      by (rule row_entries_mset)
    moreover have "fts = row_entries ?db (concat (map (\<lambda>run. of_run run es) ?runs))"
      by (simp add: fts_def row_entries_concat comp_def)
    ultimately show ?thesis by (simp add: row_entries_index(1) [OF rows])
  qed
  moreover have "represents c es db"
  proof -
    have "length (db_events ?db) = length es" using rows_fields(3) [OF rows(1)] .
    then have "fts_ok es db"
      using index by (auto simp: fts_ok_def db_def cov_def fts_coverage_new_def intro!: exI [of _ "length es"])
    then show ?thesis
      using rep by (simp add: represents_def tables_ok_def keys_ok_def db_def)
  qed
  ultimately show ?thesis by (intro exI [of _ db]) (simp add: db_def cov_def)
qed

text \<open>C27: A search never answers from an incomplete index: when it returns hits at all, the index holds
  exactly the searchable texts of the log, and every hit is an event of the log.\<close>

theorem search_complete_index:
  assumes "represents c es (es_db st)" and "search engine st query limit = Inr hits"
  shows "mset (db_fts (es_db st)) = mset (index_of es)
    \<and> (\<forall>hit\<in>set hits. \<exists>e\<in>set es. sh_event_id hit = ev_event_id e \<and> sh_run_id hit = ev_run_id e
         \<and> sh_stream_seq hit = ev_stream_seq e \<and> sh_kind hit = ev_kind e)"
proof
  let ?db = "es_db st"
  have rows: "list_all2 (row_of c) es (db_events ?db)" "fts_ok es ?db"
    using assms(1) by (simp_all add: represents_def tables_ok_def)
  have len: "length (db_events ?db) = length es" by (rule rows_fields(3) [OF rows(1)])
  have "fts_is_current (Some (schema_registry_identity (es_current st))) (Some (identity_bytes (es_graph st))) ?db = Inr True"
    using assms(2) by (auto simp: search_def fts_is_current_def and_then_Inr_iff Let_def)
  from fts_current_covers [OF rows(2) len this] show "mset (db_fts ?db) = mset (index_of es)" .
  obtain rowids where hits: "try_map search_hit_of (take limit (concat (map (\<lambda>rowid. event_at rowid ?db) rowids))) = Inr hits"
    using assms(2) by (auto simp: search_def and_then_Inr_iff Let_def)
  show "\<forall>hit\<in>set hits. \<exists>e\<in>set es. sh_event_id hit = ev_event_id e \<and> sh_run_id hit = ev_run_id e
      \<and> sh_stream_seq hit = ev_stream_seq e \<and> sh_kind hit = ev_kind e"
  proof
    fix hit assume "hit \<in> set hits"
    then obtain r where r: "r \<in> set (concat (map (\<lambda>rowid. event_at rowid ?db) rowids))" "search_hit_of r = Inr hit"
      using try_map_source [OF hits] in_set_takeD by fast
    from r(1) obtain rowid where "r \<in> set (event_at rowid ?db)" by auto
    then have "rowid - 1 < length (db_events ?db)" "r = db_events ?db ! (rowid - 1)"
      by (auto simp: event_at_def split: if_splits)
    then obtain i where "i < length (db_events ?db)" "r = db_events ?db ! i" by blast
    then have "row_of c (es ! i) r" "es ! i \<in> set es" using rows(1) len by (auto simp: list_all2_conv_all_nth)
    then show "\<exists>e\<in>set es. sh_event_id hit = ev_event_id e \<and> sh_run_id hit = ev_run_id e
        \<and> sh_stream_seq hit = ev_stream_seq e \<and> sh_kind hit = ev_kind e"
      using r(2) by (auto simp: row_of_def search_hit_of_def and_then_Inr_iff intro!: bexI [of _ "es ! i"])
  qed
qed

end
