(* ===== verification/Event_Log_Witnesses.thy ===== *)
theory Event_Log_Witnesses
  imports Event_Replay
begin

text \<open>
  A concrete event store on which the hypotheses of the theorems about appending and reading hold: JSON
  is a table of the values that occur, each encoded by its position, and the log is one accepted run.
\<close>

fun position_in :: "'x \<Rightarrow> 'x list \<Rightarrow> nat option" where
  "position_in x [] = None"
| "position_in x (y # ys) = (if x = y then Some 0 else map_option Suc (position_in x ys))"

definition table_codec :: "'x list \<Rightarrow> 'x json_codec" where
  "table_codec xs =
     \<lparr>encode = (\<lambda>x. case position_in x xs of None \<Rightarrow> fails ''not in the table'' | Some i \<Rightarrow> Inr (replicate i CHR ''j'')),
      decode = (\<lambda>bs. if length bs < length xs then Inr (xs ! length bs) else fails ''not in the table'')\<rparr>"

lemma position_in_Some: "position_in x xs = Some i \<Longrightarrow> i < length xs \<and> xs ! i = x"
  by (induction xs arbitrary: i) (auto split: if_splits)

lemma table_codec_sound: "length xs < 2 ^ 63 \<Longrightarrow> sound_codec (table_codec xs)"
  by (auto simp: sound_codec_def roundtrip_def table_codec_def fits_def dest!: position_in_Some split: option.splits)

definition accepted :: event where
  "accepted = event_new ''e1'' ''r'' None (RunAcceptedPayload UserTurn ''s'' ''hello'' (Some ''k'')) 2 0 verified_system"

definition logged :: event where
  "logged = accepted\<lparr>ev_stream_seq := Suc 0\<rparr>"

definition sample_codecs :: log_codecs where
  "sample_codecs =
     \<lparr>jc_payload = table_codec [ev_payload accepted], jc_provenance = table_codec [verified_system],
      jc_session = table_codec [session_of [logged]], jc_transcript = table_codec [transcript_of [logged]],
      jc_candidate = table_codec [], jc_evaluation = table_codec []\<rparr>"

definition sample_store :: event_store where
  "sample_store = \<lparr>es_db = empty_db, es_graph = empty_graph, es_current = [(Lifecycle RunAccepted, 2)],
     es_fts = True, es_page = 1\<rparr>"

definition first_store :: event_store where
  "first_store = snd (event_append sample_codecs accepted sample_store)"

lemma sample_sound: "sound_codecs sample_codecs"
  by (simp add: sound_codecs_def sample_codecs_def table_codec_sound sound_codecD(1))

lemma sample_fits: "event_fits accepted"
  by (simp add: event_fits_def accepted_def event_new_def fits_def is_i64_def)

lemma empty_represented: "represents sample_codecs [] (es_db sample_store)"
  by (simp add: represents_def tables_ok_def keys_ok_def log_ok_def cache_ok_def fts_ok_def sample_store_def empty_db_def)

lemma accepted_fields [simp]:
  "ev_event_id accepted = ''e1''" "ev_run_id accepted = ''r''" "ev_kind accepted = Lifecycle RunAccepted"
  "ev_schema_version accepted = 2" "ev_provenance accepted = verified_system" "ev_stream_seq accepted = 0"
  "payload_kind (ev_payload accepted) = Lifecycle RunAccepted"
  "domain_idempotency_key accepted = Some (''run_request'', ''k'')"
  by (simp_all add: accepted_def event_new_def domain_idempotency_key_def)

lemma sample_prepared:
  "prepare_event sample_codecs (es_current sample_store) accepted =
     Inr \<lparr>pe_event = accepted, pe_payload = [], pe_provenance = [], pe_semantics = event_semantic_bytes accepted [] [],
       pe_domain_key = Some (''run_request'', ''k''), pe_domain_semantics = Some (domain_semantic_bytes accepted [] [])\<rparr>"
  by (simp add: prepare_event_def sample_codecs_def table_codec_def current_schema_for_def sample_store_def
      validate_payload_kind_def)

lemma logged_catalog: "update_evolution_catalog jc jv (accepted\<lparr>ev_stream_seq := n\<rparr>) cat = Inr cat"
  by (simp add: update_evolution_catalog_def accepted_def event_new_def)

lemma sample_append:
  assumes "prepare_event sample_codecs (es_current sample_store) accepted = Inr p"
  shows "\<exists>db. append_prepared sample_codecs p True (Some s) (Some g) empty_db
    = Inr (\<lparr>ao_event_id = ''e1'', ao_resulting_version = 1, ao_disposition = Applied\<rparr>, db)"
proof -
  have p: "p = \<lparr>pe_event = accepted, pe_payload = [], pe_provenance = [], pe_semantics = event_semantic_bytes accepted [] [],
       pe_domain_key = Some (''run_request'', ''k''), pe_domain_semantics = Some (domain_semantic_bytes accepted [] [])\<rparr>"
    using assms by (simp add: sample_prepared)
  have session: "session_apply (accepted\<lparr>ev_stream_seq := Suc 0\<rparr>) session_empty = session_of [logged]"
    and transcript: "transcript_apply (accepted\<lparr>ev_stream_seq := Suc 0\<rparr>) transcript_empty = transcript_of [logged]"
    by (simp_all add: session_of_def transcript_of_def logged_def)
  have frame: "st_run_id (session_of [logged]) = Some ''r''" "st_last_stream_seq (session_of [logged]) = 1"
    "tr_run_id (transcript_of [logged]) = Some ''r''" "tr_last_stream_seq (transcript_of [logged]) = 1"
    by (simp_all add: session_of_def transcript_of_def logged_def)
  have enc: "encode (jc_session sample_codecs) (session_of [logged]) = Inr []"
    "encode (jc_transcript sample_codecs) (transcript_of [logged]) = Inr []"
    by (simp_all add: sample_codecs_def table_codec_def)
  show ?thesis
    by (simp add: append_prepared_def p find_event_def empty_db_def append_new_def fts_is_current_def Let_def
        event_set_token_Nil aggregate_version_in_def insert_event_def update_builtin_projections_def
        read_session_state_def read_transcript_def session transcript write_session_state_def write_transcript_def
        frame enc logged_catalog)
qed

lemma sample_ids: "fts_identities sample_store
    = (Some (schema_registry_identity (es_current sample_store)), Some (identity_bytes (es_graph sample_store)))"
  by (simp add: fts_identities_def sample_store_def)

lemma sample_allowed: "reject_non_evolution_write_path accepted = Inr ()"
  by (simp add: reject_non_evolution_write_path_def)

lemma first_append: "event_append sample_codecs accepted sample_store = (Inr ''e1'', first_store)"
proof -
  obtain p where p: "prepare_event sample_codecs (es_current sample_store) accepted = Inr p" using sample_prepared by blast
  have store: "es_fts sample_store" "es_db sample_store = empty_db" by (simp_all add: sample_store_def)
  obtain db where "append_prepared sample_codecs p True (fst (fts_identities sample_store)) (snd (fts_identities sample_store)) empty_db
      = Inr (\<lparr>ao_event_id = ''e1'', ao_resulting_version = 1, ao_disposition = Applied\<rparr>, db)"
    using sample_append [OF p] unfolding sample_ids by auto
  then have "fst (event_append sample_codecs accepted sample_store) = Inr ''e1''"
    by (simp add: event_append_def p sample_allowed store)
  then show ?thesis unfolding first_store_def by (metis prod.collapse)
qed

lemma first_represented:
  "represents sample_codecs [logged] (es_db first_store)" "first_store = sample_store\<lparr>es_db := es_db first_store\<rparr>"
  using event_append_represents [OF empty_represented sample_sound sample_fits first_append]
  by (auto simp: append_spec_def logged_def)

lemma append_refines_witness:
  "\<exists>es'. append_spec accepted [] ''e1'' es' \<and> represents sample_codecs es' (es_db first_store)
     \<and> first_store = sample_store\<lparr>es_db := es_db first_store\<rparr>"
  using append_refines [OF empty_represented sample_sound sample_fits first_append] by simp

lemma append_idempotent_witness: "event_append sample_codecs accepted first_store = (Inr ''e1'', first_store)"
  by (rule append_idempotent [OF empty_represented sample_sound sample_fits first_append])

definition version_zero :: aggregate_version where
  "version_zero = \<lparr>av_schema_version = 1, aggregate = ''r'', av_value = 0\<rparr>"

definition raced :: "expected_append result \<times> event_store" where
  "raced = append_expected sample_codecs accepted version_zero sample_store"

lemma raced_applied: "\<exists>report. raced = (Inr report, snd raced) \<and> xa_status report = AppliedExpected"
proof -
  obtain p where p: "prepare_event sample_codecs (es_current sample_store) accepted = Inr p" using sample_prepared by blast
  have store: "es_fts sample_store" "es_db sample_store = empty_db" by (simp_all add: sample_store_def)
  obtain db where "append_prepared sample_codecs p True (fst (fts_identities sample_store)) (snd (fts_identities sample_store)) empty_db
      = Inr (\<lparr>ao_event_id = ''e1'', ao_resulting_version = 1, ao_disposition = Applied\<rparr>, db)"
    using sample_append [OF p] unfolding sample_ids by auto
  moreover have "aggregate_version_validate version_zero = Inr ()"
    by (simp add: aggregate_version_validate_def version_zero_def)
  moreover have "aggregate_version_in ''r'' empty_db = Inr 0" by (simp add: aggregate_version_in_def empty_db_def)
  moreover have "aggregate version_zero = ''r''" "unat (av_value version_zero) = 0" by (simp_all add: version_zero_def)
  ultimately show ?thesis by (simp add: raced_def append_expected_def p sample_allowed store)
qed

lemma sample_append_version:
  assumes "append_prepared sample_codecs p fts s g empty_db = Inr (outcome, db)" "ao_disposition outcome = Applied"
    and "prepare_event sample_codecs (es_current sample_store) accepted = Inr p"
  shows "aggregate_version_in ''r'' db = Inr (Suc 0)"
proof -
  have rep: "represents sample_codecs [] empty_db" using empty_represented by (simp add: sample_store_def)
  obtain es' where es': "append_spec accepted [] (ao_event_id outcome) es'" "represents sample_codecs es' db" "es' \<noteq> []"
    using append_prepared_spec [OF rep sample_sound sample_fits assms(3,1)] assms(2) by blast
  then have "es' = [logged]" by (simp add: append_spec_def logged_def)
  then have "list_all2 (row_of sample_codecs) [logged] (db_events db)" "log_ok [logged]"
    using es'(2) by (simp_all add: represents_def tables_ok_def)
  from aggregate_version_represents [OF this, of "''r''"] show ?thesis by (simp add: of_run_def logged_def)
qed

lemma append_expected_once_witness:
  "\<exists>report report2 st2. raced = (Inr report, snd raced)
     \<and> append_expected sample_codecs accepted version_zero (snd raced) = (Inr report2, st2)
     \<and> xa_resulting_version report = 1 \<and> xa_status report2 = Conflict \<and> xa_actual_version report2 = 1 \<and> st2 = snd raced"
proof -
  obtain report where report: "raced = (Inr report, snd raced)" "xa_status report = AppliedExpected"
    using raced_applied by blast
  have step: "append_expected sample_codecs accepted version_zero sample_store = (Inr report, snd raced)"
    using report(1) by (simp add: raced_def)
  from step obtain db where after: "snd raced = sample_store\<lparr>es_db := db\<rparr>"
      "aggregate_version_in ''r'' db = Inr (Suc 0)"
  proof (cases rule: append_expected_Inr)
    case (append p outcome db)
    have "ao_disposition outcome = Applied" using report(2) append(6) by (cases "ao_disposition outcome") simp_all
    moreover have "es_db sample_store = empty_db" by (simp add: sample_store_def)
    ultimately show ?thesis using that append sample_append_version by metis
  qed (use report(2) in simp)
  have p: "prepare_event sample_codecs (es_current (snd raced)) accepted = prepare_event sample_codecs (es_current sample_store) accepted"
    by (simp add: after)
  have "aggregate_version_validate version_zero = Inr ()" "aggregate version_zero = ''r''" "unat (av_value version_zero) = 0"
    by (simp_all add: aggregate_version_validate_def version_zero_def)
  then obtain report2 st2 where again: "append_expected sample_codecs accepted version_zero (snd raced) = (Inr report2, st2)"
    by (simp add: append_expected_def sample_allowed p sample_prepared after)
  have "unat (av_value version_zero) = 0" by (simp add: version_zero_def)
  then show ?thesis
    using append_expected_once [OF empty_represented sample_sound sample_fits step report(2) again] report(1) again by auto
qed

lemma logged_fields: "schema_fits (es_current first_store) [logged]" "of_run ''r'' [logged] = [logged]"
proof -
  have "es_current first_store = [(Lifecycle RunAccepted, 2)]" by (subst first_represented(2)) (simp add: sample_store_def)
  then show "schema_fits (es_current first_store) [logged]" by (simp add: schema_fits_def logged_def)
  show "of_run ''r'' [logged] = [logged]" by (simp add: of_run_def logged_def)
qed

lemma first_settings: "es_page first_store = 1" "es_fts first_store"
  by (subst first_represented(2), simp add: sample_store_def)+

lemma replay_exact_witness:
  "replay sample_codecs first_store ''r'' (es_current first_store) = Inr \<lparr>rr_run = ''r'', rr_schema = es_current first_store,
     rr_diff = [], rr_session = session_of [logged], rr_transcript = transcript_of [logged]\<rparr>"
  using replay_exact [OF first_represented(1) sample_sound, of "es_current first_store" "''r''"] logged_fields by simp

lemma cursor_reads_run_witness:
  "cursor_items 3 sample_codecs first_store (read_run first_store ''r'') = [Some (Inr logged), None, None]"
proof -
  have items: "take 3 (map (Some \<circ> Inr) [logged] @ replicate 3 None) = [Some (Inr logged), None, None]"
    by (simp add: eval_nat_numeral)
  have "cursor_items 3 sample_codecs first_store (read_run first_store ''r'')
      = take 3 (map (Some \<circ> Inr) (of_run ''r'' [logged]) @ replicate 3 None)"
    by (rule cursor_reads_run [OF first_represented(1) sample_sound]) (simp_all add: logged_fields first_settings)
  then show ?thesis using items by (simp only: logged_fields(2))
qed

lemma rebuild_exact_witness:
  "\<exists>db. rebuild_builtin_projections sample_codecs first_store first_store = (Inr (), first_store\<lparr>es_db := db\<rparr>)
    \<and> db_session db = db_session (es_db first_store) \<and> db_transcript db = db_transcript (es_db first_store)
    \<and> mset (db_fts db) = mset (index_of [logged])"
  using rebuild_exact [OF first_represented(1) sample_sound logged_fields(1) first_settings(2)] by blast

definition whole_index :: "string \<Rightarrow> (nat \<times> string) list \<Rightarrow> nat list" where
  "whole_index query rows = map fst rows"

lemma search_complete_index_witness:
  "mset (db_fts (es_db sample_store)) = mset (index_of [])
    \<and> search whole_index sample_store ''hello'' 5 = Inr []"
proof -
  have hits: "search whole_index sample_store ''hello'' 5 = Inr []"
    by (simp add: search_def sample_store_def empty_db_def event_set_token_Nil Let_def whole_index_def)
  show ?thesis using search_complete_index [OF empty_represented hits] hits by simp
qed

end
