(* ===== verification/Context_Build.thy ===== *)
theory Context_Build
  imports Containment Events "HOL-Library.Product_Lexorder" "HOL-Library.Multiset"
begin

text \<open>
  The assembly of a model context (\<open>crates/context/src/lib.rs\<close>): the sources of a run, the layers in which
  \<open>LayeredContextBuilder\<close> offers them, and the budget that admits a layer's sections. Rules are required, so
  a build fails when they do not fit; every other section is left out when it does not fit and the build
  goes on. A token estimate is a \<open>u64\<close>, one for every four characters.
\<close>

subsection \<open>The sources of a run\<close>

record context_rule =
  cr_schema_version :: schema_version
  cr_id :: string
  cr_content :: string
  cr_provenance :: provenance

record history_entry =
  he_schema_version :: schema_version
  he_event_ref :: event_id
  he_content :: string
  he_provenance :: provenance

record history_window =
  hw_schema_version :: schema_version
  hw_entries :: "history_entry list"

record skill_metadata =
  sm_schema_version :: schema_version
  sm_id :: string
  sm_summary :: string
  sm_scope :: scope
  sm_version :: version
  sm_trust :: trust_tier

record loaded_skill_body =
  lb_schema_version :: schema_version
  lb_id :: string
  lb_body :: string
  lb_trigger :: string
  lb_provenance :: provenance

record tool_schema_entry =
  te_schema_version :: schema_version
  te_tool :: string
  te_schema :: string

record tool_schema =
  ts_schema_version :: schema_version
  ts_version :: version
  ts_entries :: "tool_schema_entry list"
  ts_provenance :: provenance

record context_slice =
  sl_schema_version :: schema_version
  sl_id :: string
  sl_content :: string
  sl_provenance :: provenance

record agent_workspace_item =
  wi_schema_version :: schema_version
  wi_id :: string
  wi_content :: string
  wi_value :: u64
  wi_urgency :: u64
  wi_provenance :: provenance

record agent_workspace =
  aw_schema_version :: schema_version
  aw_snapshot_ref :: string
  aw_items :: "agent_workspace_item list"

record memory_summary =
  ms_schema_version :: schema_version
  ms_scope :: scope
  ms_text :: string
  ms_source_refs :: "event_id list"
  ms_raw_event_count :: nat
  ms_is_raw_dump :: bool
  ms_provenance :: provenance

record context_sources =
  src_schema_version :: schema_version
  src_rules :: "context_rule list"
  src_history :: history_window
  src_memory :: memory_summary
  src_skills :: "skill_metadata list"
  src_bodies :: "loaded_skill_body list"
  src_tools :: tool_schema
  src_slices :: "context_slice list"
  src_workspace :: "agent_workspace option"

definition empty_sources :: "scope \<Rightarrow> provenance \<Rightarrow> context_sources" where
  "empty_sources scp prov =
     \<lparr>src_schema_version = 1, src_rules = [], src_history = \<lparr>hw_schema_version = 1, hw_entries = []\<rparr>,
      src_memory = \<lparr>ms_schema_version = 1, ms_scope = scp, ms_text = [], ms_source_refs = [],
        ms_raw_event_count = 0, ms_is_raw_dump = False, ms_provenance = prov\<rparr>,
      src_skills = [], src_bodies = [],
      src_tools = \<lparr>ts_schema_version = 1, ts_version = 1, ts_entries = [], ts_provenance = prov\<rparr>,
      src_slices = [], src_workspace = None\<rparr>"

record context_run =
  cx_schema_version :: schema_version
  cx_run :: run_id
  cx_session :: session_id
  cx_scope :: scope
  cx_selected_skills :: "string list"
  cx_brain_call :: bool
  cx_sources :: context_sources

record context_budget =
  cb_schema_version :: schema_version
  cb_max_tokens :: u64
  cb_reserve :: u64

record context_limits =
  max_rules :: nat
  max_history_entries :: nat
  max_skills :: nat
  max_tools :: nat
  max_slices :: nat
  max_workspace_items :: nat

definition default_limits :: context_limits where
  "default_limits = \<lparr>max_rules = 32, max_history_entries = 64, max_skills = 64, max_tools = 128,
     max_slices = 32, max_workspace_items = 10\<rparr>"

subsection \<open>Sections\<close>

datatype section_kind =
    RuleSection | WorkspaceSection | HistorySection | MemorySection | SkillMetadataSection
  | SkillBodySection | ToolSchemaSection | SliceSection

datatype content_treatment = Instruction | Data | UntrustedData

record context_section =
  sec_kind :: section_kind
  sec_source_ref :: string
  sec_content :: string
  sec_token_cost :: u64
  sec_treatment :: content_treatment
  sec_provenance :: provenance

record excluded_source =
  ex_kind :: section_kind
  ex_source_ref :: string
  ex_reason :: string

record model_context =
  mc_sections :: "context_section list"
  mc_rendered :: string
  mc_token_cost :: u64
  mc_provenance :: "provenance list"
  mc_excluded :: "excluded_source list"

text \<open>The characters of a string: its bytes that do not continue a character.\<close>

definition char_count :: "string \<Rightarrow> nat" where
  "char_count s = length (filter (\<lambda>c. byte c < 128 \<or> 192 \<le> byte c) s)"

definition div_ceil :: "u64 \<Rightarrow> u64 \<Rightarrow> u64" where
  "div_ceil a b = a div b + (if a mod b = 0 then 0 else 1)"

definition estimate_tokens :: "string \<Rightarrow> u64" where
  "estimate_tokens content = max (div_ceil (of_nat (char_count content)) 4) 1"

definition data_treatment :: "provenance \<Rightarrow> content_treatment" where
  "data_treatment p = (if prov_trust_tier p = Untrusted then UntrustedData else Data)"

definition rule_treatment :: "provenance \<Rightarrow> content_treatment" where
  "rule_treatment p =
     (if prov_trust_tier p = OwnerInput \<and> prov_actor p \<in> {Owner, System} then Instruction
      else data_treatment p)"

definition make_section ::
  "section_kind \<Rightarrow> string \<Rightarrow> string \<Rightarrow> provenance \<Rightarrow> content_treatment \<Rightarrow> context_section result" where
  "make_section k ref content prov treatment =
     (if blank ref \<or> blank content then fails ''context source is incomplete''
      else Inr \<lparr>sec_kind = k, sec_source_ref = ref, sec_content = content,
        sec_token_cost = estimate_tokens content, sec_treatment = treatment, sec_provenance = prov\<rparr>)"

fun kind_debug :: "section_kind \<Rightarrow> string" where
  "kind_debug RuleSection = ''Rule''"
| "kind_debug WorkspaceSection = ''AgentWorkspace''"
| "kind_debug HistorySection = ''History''"
| "kind_debug MemorySection = ''MemorySummary''"
| "kind_debug SkillMetadataSection = ''SkillMetadata''"
| "kind_debug SkillBodySection = ''SkillBody''"
| "kind_debug ToolSchemaSection = ''ToolSchema''"
| "kind_debug SliceSection = ''Slice''"

fun treatment_debug :: "content_treatment \<Rightarrow> string" where
  "treatment_debug Instruction = ''Instruction''"
| "treatment_debug Data = ''Data''"
| "treatment_debug UntrustedData = ''UntrustedData''"

abbreviation line_feed :: char where
  "line_feed \<equiv> CHR 0x0A"

definition render_section :: "context_section \<Rightarrow> string" where
  "render_section s = CHR ''['' # kind_debug (sec_kind s) @ ''; '' @ treatment_debug (sec_treatment s)
     @ ''; source='' @ sec_source_ref s @ '']'' @ [line_feed] @ sec_content s"

definition render_sections :: "context_section list \<Rightarrow> string" where
  "render_sections ss = join_with [line_feed, line_feed] (map render_section ss)"

subsection \<open>The budget\<close>

record assembly =
  as_sections :: "context_section list"
  as_excluded :: "excluded_source list"
  as_spent :: u64

definition exhausted :: "context_section \<Rightarrow> excluded_source" where
  "exhausted s = \<lparr>ex_kind = sec_kind s, ex_source_ref = sec_source_ref s, ex_reason = ''token budget exhausted''\<rparr>"

definition push_section :: "u64 \<Rightarrow> bool \<Rightarrow> context_section \<Rightarrow> assembly \<Rightarrow> assembly result" where
  "push_section available required s a =
     (if saturating_add (as_spent a) (sec_token_cost s) \<le> available
      then Inr (a\<lparr>as_spent := as_spent a + sec_token_cost s, as_sections := as_sections a @ [s]\<rparr>)
      else if required then fails ''context budget cannot fit the required rule layer''
      else Inr (a\<lparr>as_excluded := as_excluded a @ [exhausted s]\<rparr>))"

text \<open>One loop of the builder: each source becomes a section, which is pushed before the next is made.\<close>

fun push_layer :: "u64 \<Rightarrow> bool \<Rightarrow> context_section result list \<Rightarrow> assembly \<Rightarrow> assembly result" where
  "push_layer available required [] a = Inr a"
| "push_layer available required (r # rs) a =
     and_then r (\<lambda>s. and_then (push_section available required s a) (push_layer available required rs))"

definition mark_over_limit :: "section_kind \<Rightarrow> string list \<Rightarrow> assembly \<Rightarrow> assembly" where
  "mark_over_limit k refs a = a\<lparr>as_excluded := as_excluded a
     @ map (\<lambda>ref. \<lparr>ex_kind = k, ex_source_ref = ref, ex_reason = ''source count limit reached''\<rparr>) refs\<rparr>"

subsection \<open>The layers\<close>

definition rule_layer :: "context_limits \<Rightarrow> context_run \<Rightarrow> context_section result list" where
  "rule_layer lim cx = map (\<lambda>r. make_section RuleSection (cr_id r) (cr_content r) (cr_provenance r)
       (rule_treatment (cr_provenance r)))
     (take (max_rules lim) (src_rules (cx_sources cx)))"

text \<open>A stable sort by decreasing value and urgency.\<close>

definition by_value_and_urgency :: "agent_workspace_item list \<Rightarrow> agent_workspace_item list" where
  "by_value_and_urgency xs = rev (sort_key (\<lambda>i. (wi_value i, wi_urgency i)) (rev xs))"

definition workspace_layer :: "context_limits \<Rightarrow> context_run \<Rightarrow> context_section result list" where
  "workspace_layer lim cx =
     (case src_workspace (cx_sources cx) of
        None \<Rightarrow> []
      | Some w \<Rightarrow> if cx_brain_call cx
          then map (\<lambda>i. make_section WorkspaceSection (wi_id i) (wi_content i) (wi_provenance i)
                 (data_treatment (wi_provenance i)))
               (take (max_workspace_items lim) (by_value_and_urgency (aw_items w)))
          else [])"

definition history_layer :: "context_limits \<Rightarrow> context_run \<Rightarrow> context_section result list" where
  "history_layer lim cx =
     (let es = hw_entries (src_history (cx_sources cx)) in
      map (\<lambda>h. make_section HistorySection (he_event_ref h) (he_content h) (he_provenance h)
          (data_treatment (he_provenance h)))
        (drop (length es - max_history_entries lim) es))"

definition memory_layer :: "context_run \<Rightarrow> context_section result list" where
  "memory_layer cx =
     (let m = src_memory (cx_sources cx) in
      if blank (ms_text m) then []
      else [make_section MemorySection (''memory:'' @ ms_scope m) (ms_text m) (ms_provenance m)
        (data_treatment (ms_provenance m))])"

text \<open>The check of the context crate is the one of the policy crate, \<open>scope_contains\<close>, repeated.\<close>

definition context_scope_contains :: "scope \<Rightarrow> scope \<Rightarrow> bool" where
  "context_scope_contains granted requested \<longleftrightarrow>
     (if granted = ''*'' \<or> granted = requested then True
      else case strip_prefix granted requested of
        None \<Rightarrow> False
      | Some suffix \<Rightarrow> starts_with '':'' suffix \<or> starts_with ''/'' suffix)"

definition skill_provenance :: "trust_tier \<Rightarrow> provenance" where
  "skill_provenance t = \<lparr>prov_source = source.Internal, prov_actor = System, prov_trust_tier = t, prov_caused_by = None\<rparr>"

definition metadata_layer :: "context_limits \<Rightarrow> context_run \<Rightarrow> context_section result list" where
  "metadata_layer lim cx =
     map (\<lambda>m. make_section SkillMetadataSection (sm_id m) (sm_summary m) (skill_provenance (sm_trust m))
         (data_treatment (skill_provenance (sm_trust m))))
       (take (max_skills lim)
         (filter (\<lambda>m. context_scope_contains (sm_scope m) (cx_scope cx)) (src_skills (cx_sources cx))))"

definition body_layer :: "context_limits \<Rightarrow> context_run \<Rightarrow> context_section result list" where
  "body_layer lim cx =
     map (\<lambda>b. make_section SkillBodySection (lb_id b) (lb_body b) (lb_provenance b)
         (data_treatment (lb_provenance b)))
       (take (max_skills lim)
         (filter (\<lambda>b. lb_id b \<in> set (cx_selected_skills cx)) (src_bodies (cx_sources cx))))"

definition tool_layer :: "context_limits \<Rightarrow> context_run \<Rightarrow> context_section result list" where
  "tool_layer lim cx =
     (let t = src_tools (cx_sources cx) in
      map (\<lambda>e. make_section ToolSchemaSection (te_tool e) (te_schema e) (ts_provenance t)
          (data_treatment (ts_provenance t)))
        (take (max_tools lim) (ts_entries t)))"

definition slice_layer :: "context_limits \<Rightarrow> context_run \<Rightarrow> context_section result list" where
  "slice_layer lim cx =
     map (\<lambda>s. make_section SliceSection (sl_id s) (sl_content s) (sl_provenance s)
         (data_treatment (sl_provenance s)))
       (take (max_slices lim) (src_slices (cx_sources cx)))"

definition assemble :: "context_limits \<Rightarrow> context_run \<Rightarrow> u64 \<Rightarrow> assembly result" where
  "assemble lim cx available =
     and_then (push_layer available True (rule_layer lim cx) \<lparr>as_sections = [], as_excluded = [], as_spent = 0\<rparr>) (\<lambda>rules.
     and_then (push_layer available False (workspace_layer lim cx)
       (mark_over_limit RuleSection (map cr_id (drop (max_rules lim) (src_rules (cx_sources cx)))) rules)) (\<lambda>a.
     and_then (push_layer available False (history_layer lim cx) a) (\<lambda>a.
     and_then (push_layer available False (memory_layer cx) a) (\<lambda>a.
     and_then (push_layer available False (metadata_layer lim cx) a) (\<lambda>a.
     and_then (push_layer available False (body_layer lim cx) a) (\<lambda>a.
     and_then (push_layer available False (tool_layer lim cx) a) (\<lambda>a.
     push_layer available False (slice_layer lim cx) a)))))))"

subsection \<open>Building a context\<close>

definition validate_build :: "context_run \<Rightarrow> context_budget \<Rightarrow> unit result" where
  "validate_build cx b =
     and_then (ensure (\<not> (cx_schema_version cx = 0 \<or> src_schema_version (cx_sources cx) = 0
         \<or> cb_schema_version b = 0 \<or> cb_max_tokens b = 0 \<or> cb_max_tokens b \<le> cb_reserve b))
       ''context build inputs or budget are invalid'') (\<lambda>_.
     and_then (ensure (\<not> (ms_schema_version (src_memory (cx_sources cx)) = 0
         \<or> ms_scope (src_memory (cx_sources cx)) \<noteq> cx_scope cx))
       ''memory summary is not scoped to this run'') (\<lambda>_.
     ensure (\<not> ms_is_raw_dump (src_memory (cx_sources cx)))
       ''raw memory event dumps cannot be inserted as a summary''))"

definition source_kinds :: "context_sources \<Rightarrow> context_source list" where
  "source_kinds s =
     (if src_rules s \<noteq> [] then [Rules] else [])
     @ (if hw_entries (src_history s) \<noteq> [] then [History] else [])
     @ (if \<not> blank (ms_text (src_memory s)) then [MemorySummary] else [])
     @ (if src_skills s \<noteq> [] then [SkillsMetadata] else [])
     @ (if ts_entries (src_tools s) \<noteq> [] then [ToolSchema] else [])"

record layered_builder =
  bd_limits :: context_limits
  bd_events :: "event_payload list"

definition emit_build :: "event_payload \<Rightarrow> layered_builder \<Rightarrow> layered_builder" where
  "emit_build e bd = bd\<lparr>bd_events := bd_events bd @ [e]\<rparr>"

definition context_of_assembly :: "assembly \<Rightarrow> model_context" where
  "context_of_assembly a = \<lparr>mc_sections = as_sections a, mc_rendered = render_sections (as_sections a),
     mc_token_cost = as_spent a, mc_provenance = map sec_provenance (as_sections a), mc_excluded = as_excluded a\<rparr>"

definition build :: "context_run \<Rightarrow> context_budget \<Rightarrow> layered_builder \<Rightarrow> model_context result \<times> layered_builder" where
  "build cx b bd =
     (case validate_build cx b of
        Inl err \<Rightarrow> (Inl err, bd)
      | Inr _ \<Rightarrow>
          let refs = map sl_id (take (max_slices (bd_limits bd)) (src_slices (cx_sources cx)));
              kinds = source_kinds (cx_sources cx);
              started = emit_build (ContextBuildStartedPayload kinds refs) bd
          in (case assemble (bd_limits bd) cx (cb_max_tokens b - cb_reserve b) of
                Inl err \<Rightarrow> (Inl err, started)
              | Inr a \<Rightarrow> (Inr (context_of_assembly a),
                  emit_build (ContextBuildFinishedPayload kinds refs) started)))"

subsection \<open>What the budget admits\<close>

text \<open>
  The contract of the builder: of the sections offered in order, those that still fit are kept. The room
  is a natural number, so nothing here can wrap around.
\<close>

abbreviation cost :: "context_section \<Rightarrow> nat" where
  "cost s \<equiv> unat (sec_token_cost s)"

fun fitting :: "nat \<Rightarrow> context_section list \<Rightarrow> context_section list" where
  "fitting room [] = []"
| "fitting room (s # ss) = (if cost s \<le> room then s # fitting (room - cost s) ss else fitting room ss)"

fun left_out :: "nat \<Rightarrow> context_section list \<Rightarrow> context_section list" where
  "left_out room [] = []"
| "left_out room (s # ss) = (if cost s \<le> room then left_out (room - cost s) ss else s # left_out room ss)"

lemma fitting_cost: "sum_list (map cost (fitting room ss)) \<le> room"
proof (induction ss arbitrary: room)
  case (Cons s ss)
  show ?case using Cons [of "room - cost s"] Cons [of room] by (auto simp: le_diff_conv2)
qed simp

lemma fitting_left_out: "mset (fitting room ss) + mset (left_out room ss) = mset ss"
  by (induction ss arbitrary: room) auto

lemma fitting_subset: "set (fitting room ss) \<subseteq> set ss"
  by (induction ss arbitrary: room) auto

lemma fitting_all: "sum_list (map cost ss) \<le> room \<Longrightarrow> fitting room ss = ss \<and> left_out room ss = []"
  by (induction ss arbitrary: room) (auto simp: le_diff_conv2 add.commute)

lemma saturating_fits:
  assumes "unat available < 2 ^ 64 - 1"
  shows "saturating_add (spent :: u64) c \<le> available \<longleftrightarrow> unat spent + unat c \<le> unat available"
  using assms by (auto simp: word_le_nat_alt unat_saturating_add)

lemma spent_fits:
  fixes spent :: u64
  assumes "unat spent + unat c \<le> unat (available :: u64)"
  shows "unat (spent + c) = unat spent + unat c"
  using assms unsigned_less [of available, where ?'a = nat] by (intro unat_add_no_wrap) simp

definition keep :: "context_section list \<Rightarrow> context_section list \<Rightarrow> assembly \<Rightarrow> assembly" where
  "keep kept left a = \<lparr>as_sections = as_sections a @ kept, as_excluded = as_excluded a @ map exhausted left,
     as_spent = as_spent a + sum_list (map sec_token_cost kept)\<rparr>"

lemma push_layer_append:
  "push_layer av req (xs @ ys) a = and_then (push_layer av req xs a) (push_layer av req ys)"
proof (induction xs arbitrary: a)
  case (Cons r rs)
  show ?case
  proof (cases r)
    case (Inr s)
    then show ?thesis using Cons by (cases "push_section av req s a") simp_all
  qed simp
qed simp

lemma push_layer_append_fun:
  "push_layer av req (xs @ ys) = (\<lambda>a. and_then (push_layer av req xs a) (push_layer av req ys))"
  by (rule ext) (rule push_layer_append)

lemma push_required:
  assumes "unat av < 2 ^ 64 - 1" "unat (as_spent a) \<le> unat av"
  shows "push_layer av True rs a = Inr a' \<longleftrightarrow>
    (\<exists>ss. rs = map Inr ss \<and> unat (as_spent a) + sum_list (map cost ss) \<le> unat av \<and> a' = keep ss [] a)"
  using assms(2)
proof (induction rs arbitrary: a)
  case Nil
  then show ?case by (cases a) (auto simp: keep_def)
next
  case (Cons r rs)
  show ?case
  proof (cases r)
    case (Inl e)
    then show ?thesis by (auto simp: map_eq_Cons_conv)
  next
    case (Inr s)
    show ?thesis
    proof (cases "unat (as_spent a) + cost s \<le> unat av")
      case True
      let ?a = "a\<lparr>as_spent := as_spent a + sec_token_cost s, as_sections := as_sections a @ [s]\<rparr>"
      have "unat (as_spent ?a) = unat (as_spent a) + cost s" using spent_fits [OF True] by simp
      moreover have "push_section av True s a = Inr ?a"
        using True by (simp add: push_section_def saturating_fits [OF assms(1)])
      moreover have "keep ss [] ?a = keep (s # ss) [] a" for ss by (simp add: keep_def add.assoc)
      ultimately show ?thesis
        using True Inr Cons.IH [of ?a] by (auto simp: Cons_eq_map_conv add.assoc)
    next
      case False
      then have "push_section av True s a = fails ''context budget cannot fit the required rule layer''"
        by (simp add: push_section_def saturating_fits [OF assms(1)])
      then show ?thesis using Inr False by (auto simp: Cons_eq_map_conv)
    qed
  qed
qed

lemma push_optional:
  assumes "unat av < 2 ^ 64 - 1" "unat (as_spent a) \<le> unat av"
  shows "push_layer av False rs a = Inr a' \<longleftrightarrow>
    (\<exists>ss. rs = map Inr ss \<and> a' = keep (fitting (unat av - unat (as_spent a)) ss) (left_out (unat av - unat (as_spent a)) ss) a)"
  using assms(2)
proof (induction rs arbitrary: a)
  case Nil
  then show ?case by (cases a) (auto simp: keep_def)
next
  case (Cons r rs)
  show ?case
  proof (cases r)
    case (Inl e)
    then show ?thesis by (auto simp: map_eq_Cons_conv)
  next
    case (Inr s)
    show ?thesis
    proof (cases "unat (as_spent a) + cost s \<le> unat av")
      case True
      let ?a = "a\<lparr>as_spent := as_spent a + sec_token_cost s, as_sections := as_sections a @ [s]\<rparr>"
      have spent: "unat (as_spent ?a) = unat (as_spent a) + cost s" using spent_fits [OF True] by simp
      have push: "push_section av False s a = Inr ?a"
        using True by (simp add: push_section_def saturating_fits [OF assms(1)])
      have "keep xs ys ?a = keep (s # xs) ys a" for xs ys by (simp add: keep_def add.assoc)
      moreover have "unat av - unat (as_spent ?a) = unat av - unat (as_spent a) - cost s"
        "cost s \<le> unat av - unat (as_spent a)" using spent True by simp_all
      ultimately show ?thesis
        using Cons.IH [of ?a] spent True by (auto simp: Inr push Cons_eq_map_conv)
    next
      case False
      let ?a = "a\<lparr>as_excluded := as_excluded a @ [exhausted s]\<rparr>"
      have "push_section av False s a = Inr ?a"
        using False by (simp add: push_section_def saturating_fits [OF assms(1)])
      moreover have "keep xs ys ?a = keep xs (s # ys) a" for xs ys by (simp add: keep_def)
      moreover have "\<not> cost s \<le> unat av - unat (as_spent a)" using False Cons.prems by linarith
      ultimately show ?thesis
        using Cons.IH [of ?a] Cons.prems by (auto simp: Inr Cons_eq_map_conv)
    qed
  qed
qed

subsection \<open>What a build returns\<close>

definition optional_layers :: "context_limits \<Rightarrow> context_run \<Rightarrow> context_section result list" where
  "optional_layers lim cx = workspace_layer lim cx @ history_layer lim cx @ memory_layer cx @ metadata_layer lim cx
     @ body_layer lim cx @ tool_layer lim cx @ slice_layer lim cx"

lemma assemble_layers:
  "assemble lim cx av =
     and_then (push_layer av True (rule_layer lim cx) \<lparr>as_sections = [], as_excluded = [], as_spent = 0\<rparr>) (\<lambda>rules.
       push_layer av False (optional_layers lim cx)
         (mark_over_limit RuleSection (map cr_id (drop (max_rules lim) (src_rules (cx_sources cx)))) rules))"
  by (simp only: assemble_def optional_layers_def push_layer_append_fun)

definition usable :: "context_budget \<Rightarrow> nat" where
  "usable b = unat (cb_max_tokens b) - unat (cb_reserve b)"

text \<open>The context a build must return for the rules and the other sections that a run offers.\<close>

definition context_spec :: "context_run \<Rightarrow> context_limits \<Rightarrow> nat \<Rightarrow> context_section list \<Rightarrow> context_section list \<Rightarrow> model_context" where
  "context_spec cx lim room rules rest =
     (let left = room - sum_list (map cost rules); sections = rules @ fitting left rest in
      \<lparr>mc_sections = sections, mc_rendered = render_sections sections,
       mc_token_cost = sum_list (map sec_token_cost sections), mc_provenance = map sec_provenance sections,
       mc_excluded = map (\<lambda>ref. \<lparr>ex_kind = RuleSection, ex_source_ref = ref, ex_reason = ''source count limit reached''\<rparr>)
           (map cr_id (drop (max_rules lim) (src_rules (cx_sources cx))))
         @ map exhausted (left_out left rest)\<rparr>)"

lemma available_usable:
  assumes "validate_build cx b = Inr u"
  shows "unat (cb_max_tokens b - cb_reserve b) = usable b" and "0 < usable b"
proof -
  have "cb_reserve b < cb_max_tokens b" using assms by (auto simp: validate_build_def and_then_Inr_iff)
  then show "unat (cb_max_tokens b - cb_reserve b) = usable b" "0 < usable b"
    by (simp_all add: usable_def unat_sub word_le_nat_alt word_less_nat_alt)
qed

lemma unat_sum_costs:
  "sum_list (map cost ss) < 2 ^ 64 \<Longrightarrow> unat (sum_list (map sec_token_cost ss)) = sum_list (map cost ss)"
proof (induction ss)
  case (Cons s ss)
  then show ?case using unat_add_no_wrap [of "sec_token_cost s" "sum_list (map sec_token_cost ss)"] by simp
qed simp

lemma usable_bound: "usable b < 2 ^ 64"
  using unsigned_less [of "cb_max_tokens b", where ?'a = nat] by (simp add: usable_def)

lemma assemble_exact:
  assumes "unat av < 2 ^ 64 - 1"
  shows "assemble lim cx av = Inr a \<longleftrightarrow> (\<exists>rules rest. rule_layer lim cx = map Inr rules
    \<and> optional_layers lim cx = map Inr rest \<and> sum_list (map cost rules) \<le> unat av
    \<and> context_of_assembly a = context_spec cx lim (unat av) rules rest)"
proof -
  let ?a0 = "\<lparr>as_sections = [], as_excluded = [], as_spent = 0\<rparr>"
  let ?mark = "mark_over_limit RuleSection (map cr_id (drop (max_rules lim) (src_rules (cx_sources cx))))"
  have step: "push_layer av False (optional_layers lim cx) (?mark (keep rules [] ?a0)) = Inr a \<longleftrightarrow>
      (\<exists>rest. optional_layers lim cx = map Inr rest \<and> context_of_assembly a = context_spec cx lim (unat av) rules rest)"
    if fits: "sum_list (map cost rules) \<le> unat av" for rules
  proof -
    have spent: "unat (as_spent (?mark (keep rules [] ?a0))) = sum_list (map cost rules)"
      using fits assms by (simp add: mark_over_limit_def keep_def unat_sum_costs)
    let ?left = "unat av - sum_list (map cost rules)"
    have "a = keep (fitting ?left rest) (left_out ?left rest) (?mark (keep rules [] ?a0)) \<longleftrightarrow>
        context_of_assembly a = context_spec cx lim (unat av) rules rest" for rest
      by (cases a) (auto simp: keep_def mark_over_limit_def context_of_assembly_def context_spec_def Let_def)
    then show ?thesis using push_optional [OF assms, of "?mark (keep rules [] ?a0)"] fits by (simp add: spent)
  qed
  have "assemble lim cx av = Inr a \<longleftrightarrow> (\<exists>rules. rule_layer lim cx = map Inr rules
      \<and> sum_list (map cost rules) \<le> unat av
      \<and> push_layer av False (optional_layers lim cx) (?mark (keep rules [] ?a0)) = Inr a)"
    using push_required [OF assms, of ?a0] by (auto simp: assemble_layers and_then_Inr_iff)
  then show ?thesis using step by blast
qed

lemma context_spec_assembly: "\<exists>a. context_of_assembly a = context_spec cx lim room rules rest"
  by (intro exI [of _ "let c = context_spec cx lim room rules rest in
      \<lparr>as_sections = mc_sections c, as_excluded = mc_excluded c, as_spent = mc_token_cost c\<rparr>"])
    (simp add: context_spec_def context_of_assembly_def Let_def)

lemma build_Inr_iff:
  assumes "usable b < 2 ^ 64 - 1"
  shows "fst (build cx b bd) = Inr c \<longleftrightarrow> validate_build cx b = Inr () \<and>
    (\<exists>rules rest. rule_layer (bd_limits bd) cx = map Inr rules \<and> optional_layers (bd_limits bd) cx = map Inr rest
      \<and> sum_list (map cost rules) \<le> usable b \<and> c = context_spec cx (bd_limits bd) (usable b) rules rest)"
proof (cases "validate_build cx b")
  case (Inl e)
  then show ?thesis by (simp add: build_def)
next
  case (Inr u)
  have av: "unat (cb_max_tokens b - cb_reserve b) = usable b" using available_usable [OF Inr] by simp
  have built: "fst (build cx b bd) = Inr c \<longleftrightarrow>
      (\<exists>a. assemble (bd_limits bd) cx (cb_max_tokens b - cb_reserve b) = Inr a \<and> c = context_of_assembly a)"
    using Inr by (auto simp: build_def Let_def split: sum.splits)
  show ?thesis
    using assemble_exact [of "cb_max_tokens b - cb_reserve b" "bd_limits bd" cx] assms Inr context_spec_assembly
    unfolding built av by (simp del: not_less) metis
qed


subsection \<open>Which content may instruct\<close>

lemma push_layer_sections:
  "push_layer av req rs a = Inr a' \<Longrightarrow> s \<in> set (as_sections a') \<Longrightarrow> s \<in> set (as_sections a) \<or> Inr s \<in> set rs"
proof (induction rs arbitrary: a)
  case (Cons r rs)
  obtain x a1 where x: "r = Inr x" "push_section av req x a = Inr a1" "push_layer av req rs a1 = Inr a'"
    using Cons.prems(1) by (auto simp: and_then_Inr_iff)
  have "set (as_sections a1) \<subseteq> insert x (set (as_sections a))"
    using x(2) by (auto simp: push_section_def split: if_splits)
  then show ?case using Cons.IH [OF x(3) Cons.prems(2)] x(1) by auto
qed simp

definition labelled :: "context_section \<Rightarrow> bool" where
  "labelled s \<longleftrightarrow> (sec_treatment s = Instruction \<longleftrightarrow> sec_kind s = RuleSection
       \<and> prov_trust_tier (sec_provenance s) = OwnerInput \<and> prov_actor (sec_provenance s) \<in> {Owner, System})
     \<and> (sec_treatment s = UntrustedData \<longleftrightarrow> prov_trust_tier (sec_provenance s) = Untrusted)"

lemma make_section_Inr:
  "make_section k ref content prov t = Inr s \<longleftrightarrow> \<not> blank ref \<and> \<not> blank content \<and>
    s = \<lparr>sec_kind = k, sec_source_ref = ref, sec_content = content, sec_token_cost = estimate_tokens content,
      sec_treatment = t, sec_provenance = prov\<rparr>"
  by (auto simp: make_section_def)

lemma rule_layer_labelled: "Inr s \<in> set (rule_layer lim cx) \<Longrightarrow> labelled s"
  by (auto simp: rule_layer_def labelled_def rule_treatment_def data_treatment_def eq_commute [of "Inr s"]
      make_section_Inr split: if_splits)

lemma data_section_labelled:
  "make_section k ref content prov (data_treatment prov) = Inr s \<Longrightarrow> k \<noteq> RuleSection \<Longrightarrow> labelled s"
  by (auto simp: labelled_def data_treatment_def make_section_Inr)

lemma optional_layer_labelled: "Inr s \<in> set (optional_layers lim cx) \<Longrightarrow> labelled s"
  by (auto simp: optional_layers_def workspace_layer_def history_layer_def memory_layer_def metadata_layer_def
      body_layer_def tool_layer_def slice_layer_def Let_def eq_commute [of "Inr s"]
      split: option.splits if_splits elim!: data_section_labelled)

lemma assemble_labelled: "assemble lim cx av = Inr a \<Longrightarrow> s \<in> set (as_sections a) \<Longrightarrow> labelled s"
  by (auto simp: assemble_layers and_then_Inr_iff mark_over_limit_def
      dest!: push_layer_sections intro: rule_layer_labelled optional_layer_labelled)

text \<open>C31: A context keeps to its budget and to the trust of its sources: the token cost is the exact sum over its
  sections and at most the usable budget, a section is labelled an instruction exactly when it is a rule that
  the owner or the system wrote with the owner's trust, and every untrusted source is labelled untrusted.\<close>

theorem context_bounded_and_labelled:
  assumes "fst (build cx b bd) = Inr c" and "usable b < 2 ^ 64 - 1"
  shows "unat (mc_token_cost c) = sum_list (map cost (mc_sections c)) \<and> unat (mc_token_cost c) \<le> usable b
    \<and> (\<forall>s\<in>set (mc_sections c). labelled s)"
proof -
  obtain rules rest where r: "validate_build cx b = Inr ()" "rule_layer (bd_limits bd) cx = map Inr rules"
      "optional_layers (bd_limits bd) cx = map Inr rest" "sum_list (map cost rules) \<le> usable b"
      "c = context_spec cx (bd_limits bd) (usable b) rules rest"
    using assms by (auto simp: build_Inr_iff)
  let ?kept = "rules @ fitting (usable b - sum_list (map cost rules)) rest"
  have sections: "mc_sections c = ?kept" "mc_token_cost c = sum_list (map sec_token_cost ?kept)"
    using r(5) by (simp_all add: context_spec_def Let_def)
  have le: "sum_list (map cost ?kept) \<le> usable b"
    using r(4) fitting_cost [of "usable b - sum_list (map cost rules)" rest] by simp
  then have "unat (mc_token_cost c) = sum_list (map cost ?kept)"
    using sections(2) usable_bound [of b] unat_sum_costs [of ?kept] by simp
  moreover have "labelled s" if "s \<in> set ?kept" for s
  proof -
    have "Inr s \<in> set (rule_layer (bd_limits bd) cx) \<or> Inr s \<in> set (optional_layers (bd_limits bd) cx)"
      using that r(2,3) fitting_subset [of "usable b - sum_list (map cost rules)" rest] by auto
    then show ?thesis using rule_layer_labelled optional_layer_labelled by blast
  qed
  ultimately show ?thesis using le sections(1) by simp
qed

subsection \<open>Sources over a limit\<close>

definition with_slices :: "context_slice list \<Rightarrow> context_run \<Rightarrow> context_run" where
  "with_slices ss cx = cx\<lparr>cx_sources := cx_sources cx\<lparr>src_slices := ss\<rparr>\<rparr>"

lemma with_slices_frame:
  "rule_layer lim (with_slices ss cx) = rule_layer lim cx"
  "workspace_layer lim (with_slices ss cx) = workspace_layer lim cx"
  "history_layer lim (with_slices ss cx) = history_layer lim cx"
  "memory_layer (with_slices ss cx) = memory_layer cx"
  "metadata_layer lim (with_slices ss cx) = metadata_layer lim cx"
  "body_layer lim (with_slices ss cx) = body_layer lim cx"
  "tool_layer lim (with_slices ss cx) = tool_layer lim cx"
  "src_rules (cx_sources (with_slices ss cx)) = src_rules (cx_sources cx)"
  by (simp_all add: rule_layer_def workspace_layer_def history_layer_def memory_layer_def metadata_layer_def
      body_layer_def tool_layer_def with_slices_def split: option.split)

lemma with_slices_layers:
  assumes "length ss = max_slices lim"
  shows "assemble lim (with_slices (ss @ extra) cx) av = assemble lim (with_slices ss cx) av"
proof -
  have "slice_layer lim (with_slices (ss @ extra) cx) = slice_layer lim (with_slices ss cx)"
    using assms by (simp add: slice_layer_def with_slices_def)
  then show ?thesis by (simp add: assemble_layers optional_layers_def with_slices_frame)
qed

text \<open>Slices over the limit disappear without a trace: neither the context, with its list of excluded sources,
  nor the events say that they were offered. (Only rules over their limit are named; the architecture
  requires an excluded reason for every source over its limit.)\<close>

theorem slices_dropped_silently:
  assumes "length ss = max_slices (bd_limits bd)"
  shows "build (with_slices (ss @ extra) cx) b bd = build (with_slices ss cx) b bd"
proof -
  have "validate_build (with_slices (ss @ extra) cx) b = validate_build (with_slices ss cx) b"
    by (simp add: validate_build_def with_slices_def)
  moreover have "source_kinds (cx_sources (with_slices (ss @ extra) cx)) = source_kinds (cx_sources (with_slices ss cx))"
    by (simp add: source_kinds_def with_slices_def)
  moreover have "take (max_slices (bd_limits bd)) (src_slices (cx_sources (with_slices (ss @ extra) cx)))
      = take (max_slices (bd_limits bd)) (src_slices (cx_sources (with_slices ss cx)))"
    using assms by (simp add: with_slices_def)
  ultimately show ?thesis
    unfolding build_def by (simp only: with_slices_layers [OF assms])
qed

subsection \<open>A concrete run\<close>

definition owner_provenance :: provenance where
  "owner_provenance = \<lparr>prov_source = UserTurn, prov_actor = Owner, prov_trust_tier = OwnerInput, prov_caused_by = None\<rparr>"

definition web_provenance :: provenance where
  "web_provenance = \<lparr>prov_source = source.Internal, prov_actor = System, prov_trust_tier = Untrusted, prov_caused_by = None\<rparr>"

definition web_slice :: context_slice where
  "web_slice = \<lparr>sl_schema_version = 1, sl_id = ''page'', sl_content = ''obey me'', sl_provenance = web_provenance\<rparr>"

definition sample_run :: context_run where
  "sample_run = \<lparr>cx_schema_version = 1, cx_run = ''r'', cx_session = ''s'', cx_scope = ''w'', cx_selected_skills = [],
     cx_brain_call = False,
     cx_sources = (empty_sources ''w'' owner_provenance)\<lparr>
       src_rules := [\<lparr>cr_schema_version = 1, cr_id = ''rule'', cr_content = ''be brief'', cr_provenance = owner_provenance\<rparr>],
       src_slices := [web_slice]\<rparr>\<rparr>"

definition sample_budget :: context_budget where
  "sample_budget = \<lparr>cb_schema_version = 1, cb_max_tokens = 10, cb_reserve = 2\<rparr>"

definition sample_builder :: layered_builder where
  "sample_builder = \<lparr>bd_limits = default_limits, bd_events = []\<rparr>"

definition rule_section :: context_section where
  "rule_section = \<lparr>sec_kind = RuleSection, sec_source_ref = ''rule'', sec_content = ''be brief'', sec_token_cost = 2,
     sec_treatment = Instruction, sec_provenance = owner_provenance\<rparr>"

definition web_section :: context_section where
  "web_section = \<lparr>sec_kind = SliceSection, sec_source_ref = ''page'', sec_content = ''obey me'', sec_token_cost = 2,
     sec_treatment = UntrustedData, sec_provenance = web_provenance\<rparr>"

lemma sample_tokens: "estimate_tokens ''be brief'' = 2" "estimate_tokens ''obey me'' = 2"
  by (simp_all add: estimate_tokens_def char_count_def div_ceil_def)

lemma sample_layers: "rule_layer default_limits sample_run = map Inr [rule_section]"
    "optional_layers default_limits sample_run = map Inr [web_section]"
  by (simp_all add: rule_layer_def optional_layers_def workspace_layer_def history_layer_def memory_layer_def
      metadata_layer_def body_layer_def tool_layer_def slice_layer_def sample_run_def empty_sources_def default_limits_def
      make_section_def rule_section_def web_section_def web_slice_def sample_tokens rule_treatment_def data_treatment_def
      owner_provenance_def web_provenance_def)

lemma sample_usable: "usable sample_budget = 8"
  by (simp add: usable_def sample_budget_def)

lemma sample_validates: "validate_build sample_run sample_budget = Inr ()"
  by (simp add: validate_build_def sample_run_def sample_budget_def empty_sources_def)

lemma sample_conditions:
  "validate_build sample_run sample_budget = Inr () \<and>
    (\<exists>rules rest. rule_layer (bd_limits sample_builder) sample_run = map Inr rules
      \<and> optional_layers (bd_limits sample_builder) sample_run = map Inr rest
      \<and> sum_list (map cost rules) \<le> usable sample_budget
      \<and> context_spec sample_run default_limits 8 [rule_section] [web_section]
        = context_spec sample_run (bd_limits sample_builder) (usable sample_budget) rules rest)"
proof -
  have "sum_list (map cost [rule_section]) \<le> 8" by (simp add: rule_section_def)
  then show ?thesis
    using sample_layers sample_validates
    by (intro conjI exI [of _ "[rule_section]"] exI [of _ "[web_section]"]) (simp_all add: sample_builder_def sample_usable)
qed


lemma sample_built:
  "fst (build sample_run sample_budget sample_builder) = Inr (context_spec sample_run default_limits 8 [rule_section] [web_section])"
  using build_Inr_iff [of sample_budget sample_run sample_builder] sample_conditions by (simp add: sample_usable)

lemma context_bounded_and_labelled_witness:
  "list_all labelled (mc_sections (context_spec sample_run default_limits 8 [rule_section] [web_section]))"
  using context_bounded_and_labelled [OF sample_built] by (simp add: sample_usable list_all_iff)

lemma slices_dropped_silently_witness:
  "build (with_slices (replicate 32 web_slice @ [web_slice]) sample_run) sample_budget sample_builder
    = build (with_slices (replicate 32 web_slice) sample_run) sample_budget sample_builder"
  by (rule slices_dropped_silently) (simp add: sample_builder_def default_limits_def)

end
