(* ===== verification/Compaction.thy ===== *)
theory Compaction
  imports Context_Build Event_Replay
begin

text \<open>
  Governed compaction (\<open>crates/context/src/lib.rs\<close>): the estimate that decides whether a context is
  compacted, the pl that keeps the references to every event of the run that carries lineage, its
  application to the sources, and the automatic compactor with its threshold. The compactor reads the run
  from the event store; what it needs of that reader is the locale \<open>run_reader\<close>, which the cursor of
  \<open>Event_Replay\<close> satisfies on every store that represents a log.
\<close>

subsection \<open>Reading a run to its end\<close>

text \<open>\<open>collect\<close> of a cursor into a result: the loop ends with the first error or the end of the run.\<close>

partial_function (option) collect_cursor :: "log_codecs \<Rightarrow> event_store \<Rightarrow> event_cursor \<Rightarrow> event list result option" where
  "collect_cursor c st cu =
     (case cursor_next c st cu of
        (None, _) \<Rightarrow> Some (Inr [])
      | (Some (Inl err), _) \<Rightarrow> Some (Inl err)
      | (Some (Inr e), cu') \<Rightarrow> Option.bind (collect_cursor c st cu') (\<lambda>r. Some (and_then r (\<lambda>es. Inr (e # es)))))"

definition collect_run :: "log_codecs \<times> event_store \<Rightarrow> run_id \<Rightarrow> event list result option" where
  "collect_run cs run = collect_cursor (fst cs) (snd cs) (read_run (snd cs) run)"

subsection \<open>Plans\<close>

record compaction_boundary =
  bo_schema_version :: schema_version
  bo_session :: session_id
  bo_run :: run_id
  bo_through_stream_seq :: nat
  bo_preserved_kinds :: "event_kind list"

record compaction_plan =
  cp_schema_version :: schema_version
  cp_boundary :: compaction_boundary
  cp_preserved :: "event_id list"
  cp_summary :: string

record compaction_policy =
  po_schema_version :: schema_version
  po_threshold_percent :: u8

definition default_compaction_policy :: compaction_policy where
  "default_compaction_policy = \<lparr>po_schema_version = 1, po_threshold_percent = 80\<rparr>"

definition compaction_policy_validate :: "compaction_policy \<Rightarrow> compaction_policy result" where
  "compaction_policy_validate p =
     (if po_schema_version p = 0 \<or> \<not> (1 \<le> po_threshold_percent p \<and> po_threshold_percent p \<le> 100)
      then fails ''automatic compaction policy is invalid'' else Inr p)"

record compaction_report =
  ar_plan :: compaction_plan
  ar_before_tokens :: u64
  ar_after_tokens :: u64

text \<open>The hooks are code of the caller.\<close>

record compaction_hook =
  pre_compact :: "session_id \<Rightarrow> unit result"
  post_compact :: "compaction_plan \<Rightarrow> unit result"

record compaction_registration =
  rg_run :: run_id
  rg_summary :: string

record manual_compactor =
  mp_registrations :: "(session_id, compaction_registration) btree_map"
  mp_hooks :: "compaction_hook list"
  mp_events :: "event_payload list"

definition compactor_new :: manual_compactor where
  "compactor_new = \<lparr>mp_registrations = bm_empty, mp_hooks = [], mp_events = []\<rparr>"

definition preserves_lineage :: "event_kind \<Rightarrow> bool" where
  "preserves_lineage k \<longleftrightarrow> k \<in>
     {ToolEvent ApprovalRequested, ToolEvent ApprovalResolved, ToolEvent ToolCallProposed,
      ToolEvent ToolPolicyEvaluated, Action ActionPlanned, Action ActionStarted, Action ActionCompleted,
      Action ActionFailed, Action ActionDenied, Action ActionCancelled, Action ActionOutcomeUnknown,
      VerificationEvent VerificationStarted, VerificationEvent VerificationFinished,
      Failure FailureEvidenceRecorded, Failure FailureDigestUpdated, Cognitive ObservationRecorded,
      Cognitive ReflectionProduced, Capability capability_kind.CapabilityEvidenceRecorded, Candidate CandidateCreated,
      Candidate CandidateConflictDetected, Candidate CandidatePromoted, Candidate CandidateRejected,
      Candidate CandidateDowngraded, Candidate CandidateDecayed, Candidate RetractionEvent,
      Candidate RevocationEvent, Candidate ReevaluationTaskCreated, MemoryEvent UserAttributeCandidateCreated,
      MemoryEvent ImportedHistoricalEvidenceRecorded, MemoryEvent CognitiveMapUpdateProposed,
      CoordinationEvent GoalFramed, CoordinationEvent ResourcePlanned, CoordinationEvent DoneContractSet,
      CoordinationEvent AutonomyEnvelopeSet, CoordinationEvent DecisionTraceRecorded,
      Turn CompactionStarted, Turn CompactionFinished}"

subsection \<open>The manual compactor\<close>

definition register_compaction ::
  "session_id \<Rightarrow> run_id \<Rightarrow> string \<Rightarrow> manual_compactor \<Rightarrow> unit result \<times> manual_compactor" where
  "register_compaction session run label mc =
     (if blank session \<or> blank run \<or> blank label then (fails ''compaction registration is incomplete'', mc)
      else (Inr (), mc\<lparr>mp_registrations :=
        bm_insert session \<lparr>rg_run = run, rg_summary = label\<rparr> (mp_registrations mc)\<rparr>))"

definition plan_of :: "session_id \<Rightarrow> compaction_registration \<Rightarrow> event list \<Rightarrow> compaction_plan" where
  "plan_of session reg es =
     (let kept = filter (\<lambda>e. preserves_lineage (ev_kind e)) es in
      \<lparr>cp_schema_version = 1,
       cp_boundary = \<lparr>bo_schema_version = 1, bo_session = session, bo_run = rg_run reg,
         bo_through_stream_seq = ev_stream_seq (last es), bo_preserved_kinds = map ev_kind kept\<rparr>,
       cp_preserved = map ev_event_id kept, cp_summary = rg_summary reg\<rparr>)"

definition compaction_events :: "session_id \<Rightarrow> compaction_plan \<Rightarrow> event_payload list" where
  "compaction_events session pl =
     (let lineage = ''compaction:'' @ session @ '':'' @ show_nat (bo_through_stream_seq (cp_boundary pl)) in
      [CompactionStartedPayload lineage (cp_preserved pl),
       CompactionFinishedPayload lineage (cp_preserved pl) (Some (cp_summary pl))])"

text \<open>\<open>compact\<close>, on a reader of runs; it returns nothing when the reader does not.\<close>

definition compact ::
  "(run_id \<Rightarrow> event list result option) \<Rightarrow> session_id \<Rightarrow> manual_compactor
    \<Rightarrow> (compaction_plan result \<times> manual_compactor) option" where
  "compact read session mc =
     (case bm_get (mp_registrations mc) session of
        None \<Rightarrow> Some (fails ''session has no compaction source'', mc)
      | Some reg \<Rightarrow> (case try_all (\<lambda>h. pre_compact h session) (mp_hooks mc) of
          Inl err \<Rightarrow> Some (Inl err, mc)
        | Inr _ \<Rightarrow> (case read (rg_run reg) of
            None \<Rightarrow> None
          | Some (Inl err) \<Rightarrow> Some (Inl err, mc)
          | Some (Inr []) \<Rightarrow> Some (fails ''run has no events to compact'', mc)
          | Some (Inr (e # es)) \<Rightarrow>
              let pl = plan_of session reg (e # es) in
              (case try_all (\<lambda>h. post_compact h pl) (mp_hooks mc) of
                 Inl err \<Rightarrow> Some (Inl err, mc)
               | Inr _ \<Rightarrow> Some (Inr pl, mc\<lparr>mp_events := mp_events mc @ compaction_events session pl\<rparr>)))))"

subsection \<open>Applying a plan\<close>

definition preserved_entry ::
  "(event_id, provenance) btree_map \<Rightarrow> provenance \<Rightarrow> event_id \<times> event_kind \<Rightarrow> history_entry" where
  "preserved_entry prior fallback = (\<lambda>(ref, k).
     \<lparr>he_schema_version = 1, he_event_ref = ref,
      he_content = ''preserved '' @ as_str k @ '' reference '' @ ref,
      he_provenance = (case bm_get prior ref of Some p \<Rightarrow> p | None \<Rightarrow> fallback)\<rparr>)"

definition summary_text :: "compaction_plan \<Rightarrow> string" where
  "summary_text pl = ''Context summary '' @ cp_summary pl @ '' preserves ''
     @ show_nat (length (cp_preserved pl)) @ '' governed event references through stream sequence ''
     @ show_nat (bo_through_stream_seq (cp_boundary pl)) @ ''.''"

definition apply_compaction :: "compaction_plan \<Rightarrow> context_run \<Rightarrow> context_run" where
  "apply_compaction pl cx =
     (let s = cx_sources cx; m = src_memory s;
          prior = bm_collect (map (\<lambda>h. (he_event_ref h, he_provenance h)) (hw_entries (src_history s)))
      in cx\<lparr>cx_sources := s\<lparr>
        src_history := (src_history s)\<lparr>hw_entries := map (preserved_entry prior (ms_provenance m))
          (zip (cp_preserved pl) (bo_preserved_kinds (cp_boundary pl)))\<rparr>,
        src_memory := m\<lparr>ms_text := summary_text pl, ms_source_refs := cp_preserved pl,
          ms_raw_event_count := bo_through_stream_seq (cp_boundary pl), ms_is_raw_dump := False\<rparr>,
        src_slices := []\<rparr>\<rparr>)"

subsection \<open>The estimate\<close>

definition source_contents :: "context_sources \<Rightarrow> string list" where
  "source_contents s =
     map cr_content (src_rules s) @ map he_content (hw_entries (src_history s)) @ [ms_text (src_memory s)]
     @ map sm_summary (src_skills s) @ map lb_body (src_bodies s) @ map te_schema (ts_entries (src_tools s))
     @ map sl_content (src_slices s)"

definition workspace_contents :: "context_sources \<Rightarrow> string list" where
  "workspace_contents s = (case src_workspace s of None \<Rightarrow> [] | Some w \<Rightarrow> map wi_content (aw_items w))"

definition estimate_context_tokens :: "context_run \<Rightarrow> u64" where
  "estimate_context_tokens cx =
     saturating_add (sum_list (map estimate_tokens (source_contents (cx_sources cx))))
       (sum_list (map estimate_tokens (workspace_contents (cx_sources cx))))"

subsection \<open>The automatic compactor\<close>

record automatic_compactor =
  ac_manual :: manual_compactor
  ac_policy :: compaction_policy

definition automatic_new :: "compaction_policy \<Rightarrow> automatic_compactor result" where
  "automatic_new p = and_then (compaction_policy_validate p) (\<lambda>p. Inr \<lparr>ac_manual = compactor_new, ac_policy = p\<rparr>)"

text \<open>The products are computed in \<open>u128\<close>, where those of 64-bit numbers and percentages are exact.\<close>

definition compact_if_needed ::
  "(run_id \<Rightarrow> event list result option) \<Rightarrow> context_budget \<Rightarrow> string \<Rightarrow> context_run \<Rightarrow> automatic_compactor
    \<Rightarrow> (compaction_report option result \<times> context_run \<times> automatic_compactor) option" where
  "compact_if_needed read b label cx ac =
     (case validate_build cx b of
        Inl err \<Rightarrow> Some (Inl err, cx, ac)
      | Inr _ \<Rightarrow>
          if blank label then Some (fails ''automatic compaction summary is unidentified'', cx, ac)
          else let room = saturating_sub (cb_max_tokens b) (cb_reserve b);
              before = estimate_context_tokens cx;
              threshold = unat room * unat (po_threshold_percent (ac_policy ac))
            in if unat before * 100 < threshold then Some (Inr None, cx, ac)
            else (case register_compaction (cx_session cx) (cx_run cx) label (ac_manual ac) of
                (Inl err, mc) \<Rightarrow> Some (Inl err, cx, ac\<lparr>ac_manual := mc\<rparr>)
              | (Inr _, mc) \<Rightarrow> (case compact read (cx_session cx) mc of
                    None \<Rightarrow> None
                  | Some (Inl err, mc') \<Rightarrow> Some (Inl err, cx, ac\<lparr>ac_manual := mc'\<rparr>)
                  | Some (Inr pl, mc') \<Rightarrow>
                      let compacted = apply_compaction pl cx; after = estimate_context_tokens compacted in
                      if before \<le> after \<or> room < after \<or> threshold \<le> unat after * 100
                      then Some (fails ''automatic compaction could not reduce context below its trigger threshold'',
                        cx, ac\<lparr>ac_manual := mc'\<rparr>)
                      else Some (Inr (Some \<lparr>ar_plan = pl, ar_before_tokens = before, ar_after_tokens = after\<rparr>),
                        compacted, ac\<lparr>ac_manual := mc'\<rparr>))))"

subsection \<open>What the compactor needs of a reader\<close>

locale run_reader =
  fixes read :: "'store \<Rightarrow> run_id \<Rightarrow> event list result option"
    and holds :: "'store \<Rightarrow> run_id \<Rightarrow> event list \<Rightarrow> bool"
  assumes read_holds: "holds st run es \<Longrightarrow> read st run = Some (Inr es)"
begin

lemma compact_holds:
  assumes "holds st (rg_run reg) es" "bm_get (mp_registrations mc) session = Some reg" "mp_hooks mc = []"
  shows "compact (read st) session mc = Some (if es = [] then (fails ''run has no events to compact'', mc)
    else (Inr (plan_of session reg es),
      mc\<lparr>mp_events := mp_events mc @ compaction_events session (plan_of session reg es)\<rparr>))"
  using assms read_holds [OF assms(1)]
  by (cases es) (simp_all add: compact_def try_all_def Let_def)

text \<open>On a run that can be read, the automatic compactor returns.\<close>

lemma compaction_ends:
  assumes "holds st (cx_run cx) es" "mp_hooks (ac_manual ac) = []"
  shows "\<exists>r cx' ac'. compact_if_needed (read st) b label cx ac = Some (r, cx', ac')
    \<and> ((\<forall>report. r \<noteq> Inr (Some report)) \<longrightarrow> cx' = cx)"
proof -
  let ?reg = "\<lparr>rg_run = cx_run cx, rg_summary = label\<rparr>"
  let ?mc = "(ac_manual ac)\<lparr>mp_registrations := bm_insert (cx_session cx) ?reg (mp_registrations (ac_manual ac))\<rparr>"
  have "compact (read st) (cx_session cx) ?mc = Some (if es = [] then (fails ''run has no events to compact'', ?mc)
    else (Inr (plan_of (cx_session cx) ?reg es),
      ?mc\<lparr>mp_events := mp_events ?mc @ compaction_events (cx_session cx) (plan_of (cx_session cx) ?reg es)\<rparr>))"
    using compact_holds [of st ?reg es ?mc "cx_session cx"] assms by simp
  then show ?thesis
    by (cases "validate_build cx b"; cases "es = []")
      (auto simp: compact_if_needed_def register_compaction_def Let_def fails_def)
qed

lemma compaction_report:
  assumes "holds st (cx_run cx) es" "mp_hooks (ac_manual ac) = []"
    and "compact_if_needed (read st) b label cx ac = Some (Inr (Some report), cx', ac')"
  shows "es \<noteq> [] \<and> ar_plan report = plan_of (cx_session cx) \<lparr>rg_run = cx_run cx, rg_summary = label\<rparr> es
    \<and> cx' = apply_compaction (ar_plan report) cx \<and> ar_after_tokens report = estimate_context_tokens cx'
    \<and> ar_before_tokens report = estimate_context_tokens cx \<and> ar_after_tokens report < ar_before_tokens report
    \<and> unat (estimate_context_tokens cx') * 100
      < unat (saturating_sub (cb_max_tokens b) (cb_reserve b)) * unat (po_threshold_percent (ac_policy ac))
    \<and> estimate_context_tokens cx' \<le> saturating_sub (cb_max_tokens b) (cb_reserve b)
    \<and> ac_policy ac' = ac_policy ac \<and> validate_build cx b = Inr () \<and> \<not> blank label"
proof -
  let ?reg = "\<lparr>rg_run = cx_run cx, rg_summary = label\<rparr>"
  let ?mc = "(ac_manual ac)\<lparr>mp_registrations := bm_insert (cx_session cx) ?reg (mp_registrations (ac_manual ac))\<rparr>"
  have "compact (read st) (cx_session cx) ?mc = Some (if es = [] then (fails ''run has no events to compact'', ?mc)
    else (Inr (plan_of (cx_session cx) ?reg es),
      ?mc\<lparr>mp_events := mp_events ?mc @ compaction_events (cx_session cx) (plan_of (cx_session cx) ?reg es)\<rparr>))"
    using compact_holds [of st ?reg es ?mc "cx_session cx"] assms by simp
  then show ?thesis
    using assms(3)
    by (cases "validate_build cx b"; cases "es = []")
      (auto simp: compact_if_needed_def register_compaction_def Let_def fails_def not_le not_less split: if_splits)
qed

end

subsection \<open>The cursor is such a reader\<close>

definition readable :: "log_codecs \<times> event_store \<Rightarrow> run_id \<Rightarrow> event list \<Rightarrow> bool" where
  "readable cs run es \<longleftrightarrow> (\<exists>ls. represents (fst cs) ls (es_db (snd cs)) \<and> sound_codecs (fst cs)
     \<and> schema_fits (es_current (snd cs)) (of_run run ls) \<and> length (of_run run ls) + 1 < 2 ^ 63
     \<and> 0 < es_page (snd cs) \<and> es_page (snd cs) < 2 ^ 63 \<and> es = of_run run ls)"

lemma collect_cursor_at:
  assumes "represents c ls (es_db st)" "sound_codecs c" "schema_fits (es_current st) (of_run run ls)"
    and "length (of_run run ls) + 1 < 2 ^ 63" "0 < limit" "limit < 2 ^ 63"
  shows "cursor_at ls run limit k cu \<Longrightarrow> k \<le> length (of_run run ls) \<Longrightarrow>
    collect_cursor c st cu = Some (Inr (drop k (of_run run ls)))"
proof (induction "length (of_run run ls) - k" arbitrary: k cu)
  case 0
  obtain cu' where "cursor_next c st cu = (None, cu')"
    using cursor_next_at(2) [OF assms 0(2)] 0(1,3) by auto
  then show ?case using 0 by (simp add: collect_cursor.simps)
next
  case (Suc n)
  have k: "k < length (of_run run ls)" using Suc.hyps(2) by linarith
  obtain cu' where step: "cursor_next c st cu = (Some (Inr (of_run run ls ! k)), cu')"
      and at: "cursor_at ls run limit (Suc k) cu'"
    using cursor_next_at(1) [OF assms Suc.prems(1) k] by blast
  have "collect_cursor c st cu' = Some (Inr (drop (Suc k) (of_run run ls)))"
    using Suc.hyps k at by (intro Suc.hyps(1)) auto
  then show ?case using step k by (subst collect_cursor.simps) (simp add: Cons_nth_drop_Suc)
qed

lemma collect_readable: "readable cs run es \<Longrightarrow> collect_run cs run = Some (Inr es)"
proof -
  assume "readable cs run es"
  then obtain ls where ls: "represents (fst cs) ls (es_db (snd cs))" "sound_codecs (fst cs)"
      "schema_fits (es_current (snd cs)) (of_run run ls)" "length (of_run run ls) + 1 < 2 ^ 63"
      "0 < es_page (snd cs)" "es_page (snd cs) < 2 ^ 63" "es = of_run run ls"
    by (auto simp: readable_def)
  have "cursor_at ls run (es_page (snd cs)) 0 (read_run (snd cs) run)"
    by (simp add: cursor_at_def read_run_def cursor_new_def)
  from collect_cursor_at [OF ls(1-6) this] show ?thesis by (simp add: collect_run_def ls(7))
qed

interpretation store: run_reader collect_run readable
  by unfold_locales (rule collect_readable)

subsection \<open>What compaction guarantees\<close>

text \<open>On a run the store can read, automatic compaction ends; when it does not compact, with or without an error,
  the context is left as it was.\<close>

theorem automatic_compaction_ends:
  assumes "readable cs (cx_run cx) es" and "mp_hooks (ac_manual ac) = []"
  shows "\<exists>r cx' ac'. compact_if_needed (collect_run cs) b label cx ac = Some (r, cx', ac')
    \<and> ((\<forall>report. r \<noteq> Inr (Some report)) \<longrightarrow> cx' = cx)"
  by (rule store.compaction_ends [OF assms])






subsection \<open>The estimate is conservative\<close>

abbreviation tokens :: "string \<Rightarrow> nat" where
  "tokens content \<equiv> unat (estimate_tokens content)"

definition token_total :: "context_run \<Rightarrow> nat" where
  "token_total cx = sum_list (map tokens (source_contents (cx_sources cx)))
     + sum_list (map tokens (workspace_contents (cx_sources cx)))"

lemma unat_sum_tokens:
  "sum_list (map tokens cs) < 2 ^ 64 \<Longrightarrow> unat (sum_list (map estimate_tokens cs)) = sum_list (map tokens cs)"
proof (induction cs)
  case (Cons c cs)
  then show ?case using unat_add_no_wrap [of "estimate_tokens c" "sum_list (map estimate_tokens cs)"] by simp
qed simp

lemma estimate_total: "token_total cx < 2 ^ 64 \<Longrightarrow> unat (estimate_context_tokens cx) = token_total cx"
  by (simp add: estimate_context_tokens_def token_total_def unat_saturating_add unat_sum_tokens)

lemma layer_costs:
  "map (\<lambda>x. make_section k (f x) (g x) (p x) (t x)) xs = map Inr ss \<Longrightarrow> map cost ss = map (tokens \<circ> g) xs"
proof (induction xs arbitrary: ss)
  case (Cons x xs)
  then show ?case by (auto simp: Cons_eq_map_conv make_section_Inr)
qed simp

lemma take_sum: "sum_list (map f (take n xs)) \<le> sum_list (map f xs)" for f :: "'x \<Rightarrow> nat"
  by (metis append_take_drop_id le_add1 map_append sum_list_append)

lemma drop_sum: "sum_list (map f (drop n xs)) \<le> sum_list (map f xs)" for f :: "'x \<Rightarrow> nat"
  by (metis append_take_drop_id le_add2 map_append sum_list_append)

lemma filter_sum: "sum_list (map f (filter P xs)) \<le> sum_list (map f xs)" for f :: "'x \<Rightarrow> nat"
  by (induction xs) auto

lemma take_filter_sum: "sum_list (map f (take n (filter P xs))) \<le> sum_list (map f xs)" for f :: "'x \<Rightarrow> nat"
  using order_trans [OF take_sum filter_sum] .

lemma by_value_sum: "sum_list (map f (by_value_and_urgency xs)) = sum_list (map f xs)" for f :: "agent_workspace_item \<Rightarrow> nat"
proof -
  have "mset (by_value_and_urgency xs) = mset xs" by (simp add: by_value_and_urgency_def)
  then show ?thesis by (metis mset_map sum_mset_sum_list)
qed

lemma rule_costs:
  "rule_layer lm cx = map Inr ss \<Longrightarrow> sum_list (map cost ss) \<le> sum_list (map (tokens \<circ> cr_content) (src_rules (cx_sources cx)))"
  unfolding rule_layer_def by (drule layer_costs) (simp only: take_sum)

lemma workspace_costs:
  "workspace_layer lm cx = map Inr ss \<Longrightarrow> sum_list (map cost ss) \<le> sum_list (map tokens (workspace_contents (cx_sources cx)))"
proof (cases "src_workspace (cx_sources cx)")
  case (Some w)
  assume ss: "workspace_layer lm cx = map Inr ss"
  show ?thesis
  proof (cases "cx_brain_call cx")
    case True
    then have "map cost ss = map (tokens \<circ> wi_content) (take (max_workspace_items lm) (by_value_and_urgency (aw_items w)))"
      using ss Some by (intro layer_costs) (simp add: workspace_layer_def)
    then show ?thesis
      using Some take_sum [of "tokens \<circ> wi_content" "max_workspace_items lm" "by_value_and_urgency (aw_items w)"]
      by (simp add: workspace_contents_def by_value_sum)
  qed (use ss Some in \<open>simp add: workspace_layer_def\<close>)
qed (simp add: workspace_layer_def)

lemma history_costs:
  "history_layer lm cx = map Inr ss \<Longrightarrow>
    sum_list (map cost ss) \<le> sum_list (map (tokens \<circ> he_content) (hw_entries (src_history (cx_sources cx))))"
  unfolding history_layer_def Let_def by (drule layer_costs) (simp only: drop_sum)

lemma memory_costs:
  "memory_layer cx = map Inr ss \<Longrightarrow> sum_list (map cost ss) \<le> tokens (ms_text (src_memory (cx_sources cx)))"
  by (auto simp: memory_layer_def Let_def Cons_eq_map_conv make_section_Inr split: if_splits)

lemma metadata_costs:
  "metadata_layer lm cx = map Inr ss \<Longrightarrow> sum_list (map cost ss) \<le> sum_list (map (tokens \<circ> sm_summary) (src_skills (cx_sources cx)))"
  unfolding metadata_layer_def by (drule layer_costs) (simp only: take_filter_sum)

lemma body_costs:
  "body_layer lm cx = map Inr ss \<Longrightarrow> sum_list (map cost ss) \<le> sum_list (map (tokens \<circ> lb_body) (src_bodies (cx_sources cx)))"
  unfolding body_layer_def by (drule layer_costs) (simp only: take_filter_sum)

lemma tool_costs:
  "tool_layer lm cx = map Inr ss \<Longrightarrow>
    sum_list (map cost ss) \<le> sum_list (map (tokens \<circ> te_schema) (ts_entries (src_tools (cx_sources cx))))"
  unfolding tool_layer_def Let_def by (drule layer_costs) (simp only: take_sum)

lemma slice_costs:
  "slice_layer lm cx = map Inr ss \<Longrightarrow> sum_list (map cost ss) \<le> sum_list (map (tokens \<circ> sl_content) (src_slices (cx_sources cx)))"
  unfolding slice_layer_def by (drule layer_costs) (simp only: take_sum)

lemma offered_costs:
  assumes "rule_layer lm cx = map Inr rs" "optional_layers lm cx = map Inr os"
  shows "sum_list (map cost rs) + sum_list (map cost os) \<le> token_total cx"
proof -
  obtain ws hs ms sms bs ts sls where l: "workspace_layer lm cx = map Inr ws" "history_layer lm cx = map Inr hs"
      "memory_layer cx = map Inr ms" "metadata_layer lm cx = map Inr sms" "body_layer lm cx = map Inr bs"
      "tool_layer lm cx = map Inr ts" "slice_layer lm cx = map Inr sls"
      "os = ws @ hs @ ms @ sms @ bs @ ts @ sls"
    using assms(2) unfolding optional_layers_def append_eq_map_conv by blast
  note costs = rule_costs [OF assms(1)] workspace_costs [OF l(1)] history_costs [OF l(2)] memory_costs [OF l(3)]
    metadata_costs [OF l(4)] body_costs [OF l(5)] tool_costs [OF l(6)] slice_costs [OF l(7)]
  have "token_total cx = sum_list (map (tokens \<circ> cr_content) (src_rules (cx_sources cx)))
      + sum_list (map (tokens \<circ> he_content) (hw_entries (src_history (cx_sources cx))))
      + tokens (ms_text (src_memory (cx_sources cx))) + sum_list (map (tokens \<circ> sm_summary) (src_skills (cx_sources cx)))
      + sum_list (map (tokens \<circ> lb_body) (src_bodies (cx_sources cx)))
      + sum_list (map (tokens \<circ> te_schema) (ts_entries (src_tools (cx_sources cx))))
      + sum_list (map (tokens \<circ> sl_content) (src_slices (cx_sources cx)))
      + sum_list (map tokens (workspace_contents (cx_sources cx)))"
    by (simp add: token_total_def source_contents_def comp_def)
  moreover have "sum_list (map cost os) = sum_list (map cost ws) + sum_list (map cost hs) + sum_list (map cost ms)
      + sum_list (map cost sms) + sum_list (map cost bs) + sum_list (map cost ts) + sum_list (map cost sls)"
    by (simp add: l(8))
  ultimately show ?thesis using costs by linarith
qed

text \<open>The estimate is conservative: when it is within the usable budget, as it is after a compaction, a build of
  complete sources succeeds and leaves nothing out for lack of room.\<close>

theorem estimate_conservative:
  assumes "unat (estimate_context_tokens cx) \<le> usable b" and "token_total cx < 2 ^ 64" and "usable b < 2 ^ 64 - 1"
    and "validate_build cx b = Inr ()"
    and "rule_layer (bd_limits bd) cx = map Inr rs" and "optional_layers (bd_limits bd) cx = map Inr os"
  shows "\<exists>c. fst (build cx b bd) = Inr c \<and> mc_sections c = rs @ os
    \<and> (\<forall>x\<in>set (mc_excluded c). ex_kind x = RuleSection \<and> ex_reason x = ''source count limit reached'')"
proof -
  have total: "sum_list (map cost rs) + sum_list (map cost os) \<le> usable b"
    using offered_costs [OF assms(5,6)] estimate_total [OF assms(2)] assms(1) by linarith
  let ?c = "context_spec cx (bd_limits bd) (usable b) rs os"
  have "fst (build cx b bd) = Inr ?c"
    using assms total by (subst build_Inr_iff) auto
  moreover have "fitting (usable b - sum_list (map cost rs)) os = os
      \<and> left_out (usable b - sum_list (map cost rs)) os = []"
    using total by (intro fitting_all) linarith
  ultimately show ?thesis by (intro exI [of _ ?c]) (auto simp: context_spec_def Let_def)
qed

end
