(* ===== verification/Context_Witnesses.thy ===== *)
theory Context_Witnesses
  imports Compaction Event_Log_Witnesses
begin

text \<open>
  Concrete contexts for the theorems of \<open>Compaction\<close>: a run with a slice of 400 characters, in a budget that
  has to compact it, over the store of \<open>Event_Log_Witnesses\<close>.
\<close>

definition long_slice :: context_slice where
  "long_slice = web_slice\<lparr>sl_content := replicate 400 CHR ''x''\<rparr>"

definition long_run :: context_run where
  "long_run = with_slices [long_slice] sample_run"

definition long_budget :: context_budget where
  "long_budget = \<lparr>cb_schema_version = 1, cb_max_tokens = 110, cb_reserve = 10\<rparr>"

definition sample_automatic :: automatic_compactor where
  "sample_automatic = \<lparr>ac_manual = compactor_new, ac_policy = default_compaction_policy\<rparr>"



lemma sample_automatic_new: "automatic_new default_compaction_policy = Inr sample_automatic"
  by (simp add: automatic_new_def compaction_policy_validate_def default_compaction_policy_def sample_automatic_def)

lemma store_readable: "readable (sample_codecs, first_store) ''r'' [logged]"
  unfolding readable_def
  by (intro exI [of _ "[logged]"])
    (simp add: first_represented(1) sample_sound logged_fields first_settings)

lemma long_run_fields: "cx_run long_run = ''r''" "cx_session long_run = ''s''"
  by (simp_all add: long_run_def with_slices_def sample_run_def)

lemma automatic_compaction_ends_witness:
  "\<exists>r cx' ac'. compact_if_needed (collect_run (sample_codecs, first_store)) long_budget ''s1'' long_run sample_automatic
    = Some (r, cx', ac')"
  using automatic_compaction_ends [of "(sample_codecs, first_store)" long_run "[logged]" sample_automatic long_budget "''s1''"]
    store_readable
  by (auto simp: long_run_fields sample_automatic_def compactor_new_def)


lemma empty_tokens: "estimate_tokens [] = 1"
  by (simp add: estimate_tokens_def char_count_def div_ceil_def)














lemma sample_estimate: "estimate_context_tokens sample_run = 5" "token_total sample_run = 5"
  by (simp_all add: estimate_context_tokens_def token_total_def source_contents_def workspace_contents_def sample_run_def
      empty_sources_def web_slice_def sample_tokens empty_tokens saturating_add_def)

lemma estimate_conservative_witness:
  "\<exists>c. fst (build sample_run sample_budget sample_builder) = Inr c \<and> mc_sections c = [rule_section, web_section]"
  using estimate_conservative [of sample_run sample_budget sample_builder "[rule_section]" "[web_section]"]
    sample_layers sample_validates
  by (auto simp: sample_estimate sample_usable sample_builder_def)

end
