(* ===== verification/Strategy_Specs.thy ===== *)
theory Strategy_Specs
  imports Ordered_Map Primitives
begin

text \<open>
  The strategies that evolution may activate (\<open>protocol/src/m3_b.rs\<close>): how the loop runs, how work is
  divided, how a resource is selected and how a model is supported, each with the validation that keeps it
  bounded; and the registries of versions, which four crates repeat over their own kind of strategy
  (\<open>loop\<close>, \<open>coordination\<close>, \<open>capabilities\<close> and \<open>models\<close>, all in \<open>src/m3_b.rs\<close>). What the registries
  promise is stated once, in the locale \<open>strategy_registry\<close>.
\<close>

subsection \<open>Compatibility and identity\<close>

record runtime_compatibility =
  rtc_schema_version :: schema_version
  rtc_minimum_runtime_schema :: schema_version
  rtc_event_schema :: schema_version
  rtc_model_profile :: "string option"
  rtc_tool_schema :: "schema_digest option"
  rtc_backend_schema :: "schema_digest option"

definition blank_option :: "string option \<Rightarrow> bool" where
  "blank_option v = (case v of None \<Rightarrow> False | Some s \<Rightarrow> blank s)"

definition compatibility_validate :: "runtime_compatibility \<Rightarrow> unit result" where
  "compatibility_validate c =
     ensure (\<not> (rtc_schema_version c = 0 \<or> rtc_minimum_runtime_schema c = 0 \<or> rtc_event_schema c = 0
         \<or> blank_option (rtc_model_profile c) \<or> blank_option (rtc_tool_schema c) \<or> blank_option (rtc_backend_schema c)))
       ''strategy runtime compatibility is incomplete''"

definition validate_spec_identity ::
  "schema_version \<Rightarrow> string \<Rightarrow> scope \<Rightarrow> string \<Rightarrow> schema_digest \<Rightarrow> runtime_compatibility \<Rightarrow> unit result" where
  "validate_spec_identity v ver scp content digest c =
     and_then (compatibility_validate c) (\<lambda>_.
     ensure (\<not> (v = 0 \<or> blank ver \<or> blank scp \<or> blank content \<or> blank digest))
       ''strategy spec identity is incomplete'')"

text \<open>\<open>len\<close> of the set of a list differs from the list's: the list repeats an element.\<close>

definition repeats :: "'x list \<Rightarrow> bool" where
  "repeats xs \<longleftrightarrow> length (remdups xs) \<noteq> length xs"

lemma repeats_distinct [simp]: "repeats xs \<longleftrightarrow> \<not> distinct xs"
  by (simp add: repeats_def length_remdups_eq)

subsection \<open>Loop strategies\<close>

datatype loop_phase = ContextPhase | Deliberate | PolicyPhase | ApprovalPhase | ExecutePhase | VerifyPhase
  | CheckpointPhase | Finish

datatype loop_trigger = Reactive | Scheduled | CheckpointResume

datatype loop_failure_fallback = Stop | AskOwner | PreserveCheckpoint

record loop_budget_profile =
  lp_schema_version :: schema_version
  lp_max_turns :: u32
  lp_max_tokens :: u64
  lp_max_wall_time_ms :: u64
  lp_max_cost_microunits :: u64
  lp_max_tool_calls :: u32

definition loop_budget_validate :: "loop_budget_profile \<Rightarrow> unit result" where
  "loop_budget_validate b =
     ensure (\<not> (lp_schema_version b = 0 \<or> lp_max_turns b = 0 \<or> lp_max_tokens b = 0 \<or> lp_max_wall_time_ms b = 0
         \<or> lp_max_cost_microunits b = 0 \<or> lp_max_tool_calls b = 0))
       ''loop budget profile is zero or unbounded''"

record loop_strategy =
  ls_schema_version :: schema_version
  ls_version :: string
  ls_scope :: scope
  ls_content_ref :: string
  ls_content_digest :: schema_digest
  ls_compatibility :: runtime_compatibility
  ls_phases :: "loop_phase list"
  ls_triggers :: "loop_trigger list"
  ls_checkpoint_cadence_turns :: u32
  ls_verification_cadence_turns :: u32
  ls_budget :: loop_budget_profile
  ls_failure_fallback :: loop_failure_fallback

fun position :: "'x \<Rightarrow> 'x list \<Rightarrow> nat option" where
  "position x [] = None"
| "position x (y # ys) = (if y = x then Some 0 else map_option Suc (position x ys))"

definition ordered_before :: "'x list \<Rightarrow> 'x \<Rightarrow> 'x \<Rightarrow> bool" where
  "ordered_before xs l r = (case (position l xs, position r xs) of (Some i, Some j) \<Rightarrow> i < j | _ \<Rightarrow> False)"

definition contains_all :: "'x list \<Rightarrow> 'x list \<Rightarrow> bool" where
  "contains_all actual required \<longleftrightarrow> (\<forall>x\<in>set required. x \<in> set actual)"

definition loop_strategy_validate :: "loop_strategy \<Rightarrow> unit result" where
  "loop_strategy_validate s =
     and_then (validate_spec_identity (ls_schema_version s) (ls_version s) (ls_scope s) (ls_content_ref s)
       (ls_content_digest s) (ls_compatibility s)) (\<lambda>_.
     and_then (loop_budget_validate (ls_budget s)) (\<lambda>_.
     ensure (\<not> (ls_phases s = [] \<or> repeats (ls_phases s) \<or> ls_triggers s = [] \<or> repeats (ls_triggers s)
         \<or> ls_checkpoint_cadence_turns s = 0 \<or> ls_verification_cadence_turns s = 0
         \<or> lp_max_turns (ls_budget s) < ls_checkpoint_cadence_turns s
         \<or> lp_max_turns (ls_budget s) < ls_verification_cadence_turns s
         \<or> \<not> contains_all (ls_phases s)
             [ContextPhase, Deliberate, PolicyPhase, ApprovalPhase, ExecutePhase, VerifyPhase, Finish]
         \<or> \<not> ordered_before (ls_phases s) ContextPhase Deliberate
         \<or> \<not> ordered_before (ls_phases s) PolicyPhase ApprovalPhase
         \<or> \<not> ordered_before (ls_phases s) ApprovalPhase ExecutePhase
         \<or> \<not> ordered_before (ls_phases s) ExecutePhase VerifyPhase
         \<or> \<not> ordered_before (ls_phases s) VerifyPhase Finish))
       ''loop strategy removes a governed phase or has invalid cadence''))"

subsection \<open>Coordination strategies\<close>

datatype coordination_mode = Single | Multi

datatype coordination_task_scale = SingleTask | MultiStage | LongRunning

datatype coordination_decomposability = Whole | ParallelWork | SequentialWork | IterativeWork

datatype coordination_verifiability = SelfCheck | IndependentReview | EnvironmentCheck

datatype coordination_topology = Direct | IndependentSlices | ReviewGate

datatype checkpoint_topology = PerNode | PerReviewGate | PerRoute

record coordination_applicability =
  ca_schema_version :: schema_version
  ca_scale :: coordination_task_scale
  ca_decomposability :: coordination_decomposability
  ca_verifiability :: coordination_verifiability

record coordination_pattern =
  cpt_schema_version :: schema_version
  cpt_pattern :: string
  cpt_topology :: coordination_topology

record coordination_role_weight =
  rw_schema_version :: schema_version
  rw_role :: string
  rw_weight_basis_points :: u16

record coordination_strategy =
  cst_schema_version :: schema_version
  cst_version :: string
  cst_scope :: scope
  cst_content_ref :: string
  cst_content_digest :: schema_digest
  cst_compatibility :: runtime_compatibility
  cst_applicability :: coordination_applicability
  cst_patterns :: "coordination_pattern list"
  cst_mode :: coordination_mode
  cst_role_weights :: "coordination_role_weight list"
  cst_max_subagents :: u16
  cst_checkpoint_topology :: checkpoint_topology

text \<open>\<open>try_fold\<close> of a checked addition over basis points widened to 32 bits.\<close>

fun checked_total :: "u32 \<Rightarrow> u16 list \<Rightarrow> u32 option" where
  "checked_total acc [] = Some acc"
| "checked_total acc (w # ws) = (case checked_add acc (ucast w) of None \<Rightarrow> None | Some s \<Rightarrow> checked_total s ws)"

definition coordination_strategy_validate :: "coordination_strategy \<Rightarrow> unit result" where
  "coordination_strategy_validate s =
     and_then (validate_spec_identity (cst_schema_version s) (cst_version s) (cst_scope s) (cst_content_ref s)
       (cst_content_digest s) (cst_compatibility s)) (\<lambda>_.
     ensure (\<not> (ca_schema_version (cst_applicability s) = 0 \<or> cst_patterns s = [] \<or> repeats (map cpt_pattern (cst_patterns s))
         \<or> (\<exists>p\<in>set (cst_patterns s). cpt_schema_version p = 0 \<or> blank (cpt_pattern p))
         \<or> cst_role_weights s = [] \<or> repeats (map rw_role (cst_role_weights s))
         \<or> (\<exists>r\<in>set (cst_role_weights s). rw_schema_version r = 0 \<or> blank (rw_role r) \<or> rw_weight_basis_points r = 0
              \<or> 10000 < rw_weight_basis_points r)
         \<or> checked_total 0 (map rw_weight_basis_points (cst_role_weights s)) \<noteq> Some 10000
         \<or> cst_max_subagents s = 0 \<or> 16 < cst_max_subagents s \<or> (cst_mode s = Single \<and> cst_max_subagents s \<noteq> 1)))
       ''coordination strategy is empty, duplicated, overflowing, or unbounded'')"

subsection \<open>Selection strategies\<close>

datatype selection_target = CapabilityTarget | ModelTarget | BackendTarget

datatype selection_feature = VerifiedSuccess | FailurePenalty | Compatibility | ReliabilityFeature | CostFeature
  | LatencyFeature

datatype selection_tie_breaker = StableIdentity | LowerCost | RecentVerifiedSuccess

datatype selection_fallback = NoSelection | SeedOrder

record selection_feature_weight =
  fw_schema_version :: schema_version
  fw_feature :: selection_feature
  fw_weight_basis_points :: u16

record selection_strategy =
  ss_schema_version :: schema_version
  ss_version :: string
  ss_scope :: scope
  ss_content_ref :: string
  ss_content_digest :: schema_digest
  ss_compatibility :: runtime_compatibility
  ss_target :: selection_target
  ss_weights :: "selection_feature_weight list"
  ss_tie_breaker :: selection_tie_breaker
  ss_fallback :: selection_fallback
  ss_max_results :: u16

definition selection_strategy_validate :: "selection_strategy \<Rightarrow> unit result" where
  "selection_strategy_validate s =
     and_then (validate_spec_identity (ss_schema_version s) (ss_version s) (ss_scope s) (ss_content_ref s)
       (ss_content_digest s) (ss_compatibility s)) (\<lambda>_.
     ensure (\<not> (ss_weights s = [] \<or> repeats (map fw_feature (ss_weights s))
         \<or> VerifiedSuccess \<notin> set (map fw_feature (ss_weights s))
         \<or> FailurePenalty \<notin> set (map fw_feature (ss_weights s))
         \<or> Compatibility \<notin> set (map fw_feature (ss_weights s))
         \<or> (\<exists>w\<in>set (ss_weights s). fw_schema_version w = 0 \<or> fw_weight_basis_points w = 0 \<or> 10000 < fw_weight_basis_points w)
         \<or> checked_total 0 (map fw_weight_basis_points (ss_weights s)) \<noteq> Some 10000
         \<or> ss_max_results s = 0 \<or> 256 < ss_max_results s))
       ''selection strategy lacks result evidence or has invalid weights'')"

subsection \<open>Model adaptations\<close>

datatype model_strength_band = BasicBand | StandardBand | StrongBand

record model_capability_predicate =
  mp_schema_version :: schema_version
  mp_minimum_context_window :: u32
  mp_requires_tool_use :: bool
  mp_minimum_strength :: model_strength_band

record model_scaffold =
  sf_schema_version :: schema_version
  sf_externalized_steps :: u16
  sf_verification_passes :: u16
  sf_checkpoint_cadence_steps :: u16

record model_adaptation =
  ma_schema_version :: schema_version
  ma_version :: string
  ma_scope :: scope
  ma_content_ref :: string
  ma_content_digest :: schema_digest
  ma_compatibility :: runtime_compatibility
  ma_predicate :: model_capability_predicate
  ma_scaffold :: model_scaffold

definition model_adaptation_validate :: "model_adaptation \<Rightarrow> unit result" where
  "model_adaptation_validate s =
     and_then (validate_spec_identity (ma_schema_version s) (ma_version s) (ma_scope s) (ma_content_ref s)
       (ma_content_digest s) (ma_compatibility s)) (\<lambda>_.
     ensure (\<not> (mp_schema_version (ma_predicate s) = 0 \<or> mp_minimum_context_window (ma_predicate s) = 0
         \<or> sf_schema_version (ma_scaffold s) = 0 \<or> sf_externalized_steps (ma_scaffold s) = 0
         \<or> 16 < sf_externalized_steps (ma_scaffold s) \<or> sf_verification_passes (ma_scaffold s) = 0
         \<or> 8 < sf_verification_passes (ma_scaffold s) \<or> sf_checkpoint_cadence_steps (ma_scaffold s) = 0
         \<or> sf_externalized_steps (ma_scaffold s) < sf_checkpoint_cadence_steps (ma_scaffold s)))
       ''model adaptation strategy is zero, unbounded, or unverifiable'')"

subsection \<open>What validation guarantees\<close>

lemma checked_total_exact: "checked_total acc ws = Some t \<Longrightarrow> unat t = unat acc + sum_list (map unat ws)"
proof (induction ws arbitrary: acc)
  case (Cons w ws)
  then obtain s where s: "checked_add acc (ucast w) = Some s" "checked_total s ws = Some t"
    by (auto split: option.splits)
  have "unat (ucast w :: u32) = unat w"
    using unsigned_less [of w, where ?'a = nat] by (simp add: unsigned_ucast_eq take_bit_nat_eq_self)
  then show ?case using Cons.IH [OF s(2)] checked_add_Some [OF s(1)] by simp
qed simp

lemma position_Some: "position x xs = Some i \<longleftrightarrow> i < length xs \<and> xs ! i = x \<and> x \<notin> set (take i xs)"
proof (induction xs arbitrary: i)
  case (Cons y ys)
  then show ?case by (cases i) auto
qed simp

lemma ordered_before_split:
  assumes "ordered_before xs l r"
  shows "\<exists>as bs cs. xs = as @ l # bs @ r # cs"
proof -
  obtain i j where ij: "position l xs = Some i" "position r xs = Some j" "i < j"
    using assms by (auto simp: ordered_before_def split: option.splits)
  then have "i < length xs" "j < length xs" "xs ! i = l" "xs ! j = r" by (simp_all add: position_Some)
  then have "xs = take i xs @ l # take (j - Suc i) (drop (Suc i) xs) @ r # drop (Suc j) xs"
    using ij(3) by (metis Cons_nth_drop_Suc Suc_leI append_take_drop_id drop_drop le_add_diff_inverse2)
  then show ?thesis by blast
qed

subsection \<open>Registries of versions\<close>

type_synonym 's registry = "string \<times> (string, 's) btree_map"

definition registry_with_seed :: "('s \<Rightarrow> unit result) \<Rightarrow> ('s \<Rightarrow> string) \<Rightarrow> 's \<Rightarrow> 's registry result" where
  "registry_with_seed check ver seed =
     and_then (check seed) (\<lambda>_. Inr (ver seed, bm_insert (ver seed) seed bm_empty))"

definition registry_register ::
  "('s \<Rightarrow> unit result) \<Rightarrow> ('s \<Rightarrow> string) \<Rightarrow> string \<Rightarrow> 's \<Rightarrow> 's registry \<Rightarrow> unit result \<times> 's registry" where
  "registry_register check ver conflict s reg =
     (case check s of
        Inl err \<Rightarrow> (Inl err, reg)
      | Inr _ \<Rightarrow> (case bm_get (snd reg) (ver s) of
          Some existing \<Rightarrow> (if existing = s then Inr () else fails conflict, reg)
        | None \<Rightarrow> (Inr (), (fst reg, bm_insert (ver s) s (snd reg)))))"

definition registry_resolve :: "string \<Rightarrow> string \<Rightarrow> 's registry \<Rightarrow> 's result" where
  "registry_resolve label v reg = ok_or (bm_get (snd reg) v) (label @ v)"

locale strategy_registry =
  fixes check :: "'s \<Rightarrow> unit result"
    and ver :: "'s \<Rightarrow> string"
    and register :: "'s \<Rightarrow> 's registry \<Rightarrow> unit result \<times> 's registry"
    and resolve :: "string \<Rightarrow> 's registry \<Rightarrow> 's result"
  assumes register_invalid: "check s \<noteq> Inr () \<Longrightarrow> register s reg = (check s, reg)"
    and register_known: "bm_get (snd reg) (ver s) = Some old \<Longrightarrow> check s = Inr () \<Longrightarrow>
      snd (register s reg) = reg \<and> (fst (register s reg) = Inr () \<longleftrightarrow> old = s)"
    and register_new: "bm_get (snd reg) (ver s) = None \<Longrightarrow> check s = Inr () \<Longrightarrow>
      register s reg = (Inr (), (fst reg, bm_insert (ver s) s (snd reg)))"
    and resolve_get: "resolve v reg = Inr s \<longleftrightarrow> bm_get (snd reg) v = Some s"
begin

text \<open>The registry after any sequence of registrations, whatever they return.\<close>

definition after :: "'s list \<Rightarrow> 's registry \<Rightarrow> 's registry" where
  "after ss reg = fold (\<lambda>s reg. snd (register s reg)) ss reg"

definition sound :: "'s registry \<Rightarrow> bool" where
  "sound reg \<longleftrightarrow> (\<forall>v s. bm_get (snd reg) v = Some s \<longrightarrow> check s = Inr () \<and> ver s = v)"

lemma register_cases:
  "snd (register s reg) = reg \<or> check s = Inr () \<and> bm_get (snd reg) (ver s) = None
    \<and> snd (register s reg) = (fst reg, bm_insert (ver s) s (snd reg))"
proof (cases "check s = Inr ()")
  case True
  then show ?thesis
    using register_new [of reg s] register_known [of reg s] by (cases "bm_get (snd reg) (ver s)") auto
next
  case False
  then show ?thesis using register_invalid [of s reg] by simp
qed

text \<open>What a version resolves to never changes.\<close>

lemma register_stable: "resolve v reg = Inr s \<Longrightarrow> resolve v (snd (register s' reg)) = Inr s"
  using register_cases [of s' reg] by (auto simp: resolve_get)

lemma after_stable: "resolve v reg = Inr s \<Longrightarrow> resolve v (after ss reg) = Inr s"
  unfolding after_def by (induction ss arbitrary: reg) (simp_all add: register_stable)

lemma register_sound: "sound reg \<Longrightarrow> sound (snd (register s reg))"
  using register_cases [of s reg] by (auto simp: sound_def split: if_splits)

lemma after_sound: "sound reg \<Longrightarrow> sound (after ss reg)"
  unfolding after_def by (induction ss arbitrary: reg) (simp_all add: register_sound)

lemma resolve_sound: "sound reg \<Longrightarrow> resolve v reg = Inr s \<Longrightarrow> check s = Inr () \<and> ver s = v"
  by (simp add: sound_def resolve_get)

lemma register_resolves: "fst (register s reg) = Inr () \<longleftrightarrow> check s = Inr () \<and> resolve (ver s) (snd (register s reg)) = Inr s"
proof (cases "check s = Inr ()")
  case True
  then show ?thesis
    using register_new [of reg s] register_known [of reg s]
    by (cases "bm_get (snd reg) (ver s)") (auto simp: resolve_get)
next
  case False
  then show ?thesis using register_invalid [of s reg] by auto
qed

end

lemma registry_laws:
  "strategy_registry check ver (registry_register check ver conflict) (registry_resolve label)"
proof
  fix s :: 'a and reg :: "'a registry"
  assume "check s \<noteq> Inr ()"
  then show "registry_register check ver conflict s reg = (check s, reg)"
    by (cases "check s") (simp_all add: registry_register_def)
qed (auto simp: registry_register_def registry_resolve_def)

end
