(* ===== verification/Loop_Engine.thy ===== *)
theory Loop_Engine
  imports Models Context_Build
begin

text \<open>
  The model/tool loop of one run (\<open>crates/loop/src/lib.rs\<close>, \<open>m3_b.rs\<close>): the state of a run with its
  budget, messages and pending effect, the operations the harness calls between turns, the strategy that
  narrows the budget, and \<open>drive\<close>, which advances a run by one turn. The context builder and the model
  provider are parameters with a state of their own. \<open>governed\<close> is the runs that the harness can reach when it
  follows its own loop (\<open>crates/harness/src/lib.rs\<close>, \<open>drive\<close>): a turn starts only when no effect is pending, an
  effect is continued only when it is the pending one, and a failed turn ends the run.
\<close>

subsection \<open>States\<close>

datatype pending_kind = ApprovalPending approval_id | ToolInterrupt action_id | HandoffPending string

record handoff_resolution =
  hr_schema_version :: schema_version
  hr_target :: string
  hr_accepted :: bool
  hr_result :: "string option"

datatype resolved_outcome = CompletedOutcome string string | FailedOutcome string string | CancelledOutcome string

datatype loop_state =
    AcceptedState | SessionBoundState | TurnStartedState | ContextBuildState | ModelCallState
  | OutputClassifiedState output_kind | ToolProposedState | ToolPolicyState policy_decision
  | ApprovalWaitState | ApprovalResolvedState approval_outcome | ActionPlannedState | ActionRunningState
  | ActionDoneState | HandoffState | VerificationState | CompactionState | TurnCompleteState
  | Suspended pending_kind | Terminal run_status

fun is_suspended :: "loop_state \<Rightarrow> bool" where
  "is_suspended (Suspended _) = True"
| "is_suspended _ = False"

fun is_terminal :: "loop_state \<Rightarrow> bool" where
  "is_terminal (Terminal _) = True"
| "is_terminal _ = False"

datatype budget_kind = TokensBudget | WallTimeBudget | CostBudget | ToolCallsBudget | TurnsBudget

datatype stop_reason =
    FinalOutputStop | MaxTurns | BudgetExhausted budget_kind | UserCancel | ApprovalDenied | RetryExhausted
  | ContextOverflow | HandoffNoTargetOrLoop | VerifyUnfixable | HitlWait

fun stop_reason_protocol :: "stop_reason \<Rightarrow> string" where
  "stop_reason_protocol FinalOutputStop = ''final_output''"
| "stop_reason_protocol MaxTurns = ''max_turns''"
| "stop_reason_protocol (BudgetExhausted TokensBudget) = ''budget_tokens''"
| "stop_reason_protocol (BudgetExhausted WallTimeBudget) = ''budget_wall_time''"
| "stop_reason_protocol (BudgetExhausted CostBudget) = ''budget_cost''"
| "stop_reason_protocol (BudgetExhausted ToolCallsBudget) = ''budget_tool_calls''"
| "stop_reason_protocol (BudgetExhausted TurnsBudget) = ''budget_turns''"
| "stop_reason_protocol UserCancel = ''user_cancel''"
| "stop_reason_protocol ApprovalDenied = ''approval_denied''"
| "stop_reason_protocol RetryExhausted = ''retry_exhausted''"
| "stop_reason_protocol ContextOverflow = ''context_overflow''"
| "stop_reason_protocol HandoffNoTargetOrLoop = ''handoff_no_target_or_loop''"
| "stop_reason_protocol VerifyUnfixable = ''verification_unfixable''"
| "stop_reason_protocol HitlWait = ''hitl_wait''"

record loop_budget =
  bg_schema_version :: schema_version
  bg_tokens :: "u64 option"
  bg_wall_time :: "duration_ms option"
  bg_cost_microunits :: "u64 option"
  bg_tool_calls :: "u32 option"
  bg_max_turns :: u32

definition default_loop_budget :: loop_budget where
  "default_loop_budget = \<lparr>bg_schema_version = 1, bg_tokens = None, bg_wall_time = None, bg_cost_microunits = None,
     bg_tool_calls = None, bg_max_turns = 8\<rparr>"

datatype loop_effect = NoEffect | FinalEffect string | ToolEffect model_tool_call | HandoffEffect model_handoff

record loop_run =
  lr_session :: session_id
  lr_context :: context_run
  lr_context_budget :: context_budget
  lr_budget :: loop_budget
  lr_state :: loop_state
  lr_turn_index :: u32
  lr_tokens_used :: u64
  lr_tool_calls :: u32
  lr_stop_reason :: "stop_reason option"
  lr_effect :: loop_effect
  lr_bound_strategy :: "loop_strategy option"
  lr_model_scaffold :: "model_scaffold option"
  lr_messages :: "model_message list"
  lr_final_output :: "string option"
  lr_events :: "event_payload list"

definition run_new ::
  "session_id \<Rightarrow> string \<Rightarrow> context_run \<Rightarrow> context_budget \<Rightarrow> loop_budget \<Rightarrow> provenance \<Rightarrow> loop_run result" where
  "run_new session input cx cb b prov =
     (if blank session \<or> blank input \<or> bg_schema_version b = 0 \<or> bg_max_turns b = 0
      then fails ''loop run context is incomplete''
      else Inr \<lparr>lr_session = session, lr_context = cx, lr_context_budget = cb, lr_budget = b, lr_state = SessionBoundState,
        lr_turn_index = 0, lr_tokens_used = 0, lr_tool_calls = 0, lr_stop_reason = None, lr_effect = NoEffect,
        lr_bound_strategy = None, lr_model_scaffold = None, lr_messages = [message_input input prov],
        lr_final_output = None, lr_events = []\<rparr>)"

definition take_loop_events :: "loop_run \<Rightarrow> event_payload list \<times> loop_run" where
  "take_loop_events c = (lr_events c, c\<lparr>lr_events := []\<rparr>)"

subsection \<open>Strategies\<close>

definition loop_with_seed :: "loop_strategy \<Rightarrow> loop_strategy registry result" where
  "loop_with_seed = registry_with_seed loop_strategy_validate ls_version"

definition loop_register :: "loop_strategy \<Rightarrow> loop_strategy registry \<Rightarrow> unit result \<times> loop_strategy registry" where
  "loop_register = registry_register loop_strategy_validate ls_version
     ''loop strategy version is already bound to different content''"

definition loop_resolve :: "string \<Rightarrow> loop_strategy registry \<Rightarrow> loop_strategy result" where
  "loop_resolve = registry_resolve ''unsupported loop strategy version ''"

interpretation loops: strategy_registry loop_strategy_validate ls_version loop_register loop_resolve
  unfolding loop_register_def loop_resolve_def by (rule registry_laws)

definition reject_wider :: "string \<Rightarrow> 'a::len word \<Rightarrow> 'a word option \<Rightarrow> unit result" where
  "reject_wider label strategy hard =
     (if (case hard of None \<Rightarrow> False | Some limit \<Rightarrow> limit < strategy)
      then fails (''loop strategy exceeds the runtime '' @ label @ '' limit'') else Inr ())"

definition apply_loop_strategy :: "loop_strategy \<Rightarrow> loop_budget \<Rightarrow> loop_budget result" where
  "apply_loop_strategy spec hard =
     and_then (loop_strategy_validate spec) (\<lambda>_.
     and_then (ensure (\<not> (bg_schema_version hard = 0 \<or> bg_max_turns hard = 0)) ''runtime loop budget is incomplete'') (\<lambda>_.
     and_then (reject_wider ''token'' (lp_max_tokens (ls_budget spec)) (bg_tokens hard)) (\<lambda>_.
     and_then (reject_wider ''wall-time'' (lp_max_wall_time_ms (ls_budget spec)) (bg_wall_time hard)) (\<lambda>_.
     and_then (reject_wider ''cost'' (lp_max_cost_microunits (ls_budget spec)) (bg_cost_microunits hard)) (\<lambda>_.
     and_then (reject_wider ''tool-call'' (lp_max_tool_calls (ls_budget spec)) (bg_tool_calls hard)) (\<lambda>_.
     and_then (ensure (\<not> bg_max_turns hard < lp_max_turns (ls_budget spec))
       ''loop strategy exceeds the runtime turn limit'') (\<lambda>_.
     Inr \<lparr>bg_schema_version = bg_schema_version hard, bg_tokens = Some (lp_max_tokens (ls_budget spec)),
        bg_wall_time = Some (lp_max_wall_time_ms (ls_budget spec)),
        bg_cost_microunits = Some (lp_max_cost_microunits (ls_budget spec)),
        bg_tool_calls = Some (lp_max_tool_calls (ls_budget spec)), bg_max_turns = lp_max_turns (ls_budget spec)\<rparr>)))))))"

definition bind_strategy :: "loop_strategy \<Rightarrow> loop_run \<Rightarrow> unit result \<times> loop_run" where
  "bind_strategy spec c =
     (if lr_state c \<noteq> SessionBoundState \<or> lr_bound_strategy c \<noteq> None
      then (fails ''loop strategy can only be bound once at SessionBound'', c)
      else (case apply_loop_strategy spec (lr_budget c) of
          Inl err \<Rightarrow> (Inl err, c)
        | Inr b \<Rightarrow> (Inr (), c\<lparr>lr_budget := b, lr_bound_strategy := Some spec\<rparr>)))"

definition bind_model_scaffold :: "model_scaffold \<Rightarrow> loop_run \<Rightarrow> unit result \<times> loop_run" where
  "bind_model_scaffold sf c =
     (if lr_state c \<noteq> SessionBoundState \<or> lr_model_scaffold c \<noteq> None
      then (fails ''model scaffold can only be bound once at SessionBound'', c)
      else if sf_schema_version sf = 0 \<or> sf_externalized_steps sf = 0 \<or> sf_verification_passes sf = 0
          \<or> sf_checkpoint_cadence_steps sf = 0 \<or> sf_externalized_steps sf < sf_checkpoint_cadence_steps sf
      then (fails ''model scaffold is invalid'', c)
      else (Inr (), c\<lparr>lr_model_scaffold := Some sf\<rparr>))"

subsection \<open>The operations between turns\<close>

definition suspend :: "pending_kind \<Rightarrow> loop_run \<Rightarrow> loop_run" where
  "suspend pk c = c\<lparr>lr_state := Suspended pk\<rparr>"

definition mark_policy :: "policy_decision \<Rightarrow> loop_run \<Rightarrow> loop_run" where
  "mark_policy d c = c\<lparr>lr_state := ToolPolicyState d\<rparr>"

definition mark_approval :: "approval_outcome \<Rightarrow> loop_run \<Rightarrow> loop_run" where
  "mark_approval a c = c\<lparr>lr_state := ApprovalResolvedState a\<rparr>"

definition mark_action_planned :: "loop_run \<Rightarrow> loop_run" where
  "mark_action_planned c = c\<lparr>lr_state := ActionPlannedState\<rparr>"

definition mark_action_running :: "loop_run \<Rightarrow> loop_run" where
  "mark_action_running c = c\<lparr>lr_state := ActionRunningState\<rparr>"

definition complete_final :: "loop_run \<Rightarrow> unit result \<times> loop_run" where
  "complete_final c =
     (case lr_effect c of
        FinalEffect out \<Rightarrow> (Inr (), c\<lparr>lr_events := lr_events c @ [TurnCompletePayload (lr_turn_index c)],
          lr_final_output := Some out, lr_stop_reason := Some FinalOutputStop, lr_state := Terminal run_status.Complete\<rparr>)
      | _ \<Rightarrow> (fails ''loop has no final output to complete'', c))"

definition terminate :: "run_status \<Rightarrow> stop_reason \<Rightarrow> loop_run \<Rightarrow> loop_run" where
  "terminate status reason c = c\<lparr>lr_stop_reason := Some reason, lr_effect := NoEffect, lr_state := Terminal status\<rparr>"

text \<open>The end of a turn whose effect was carried out: the observation becomes a message.\<close>

definition next_turn :: "string \<Rightarrow> provenance \<Rightarrow> loop_run \<Rightarrow> loop_run" where
  "next_turn content prov c = c\<lparr>lr_events := lr_events c @ [TurnCompletePayload (lr_turn_index c)],
     lr_messages := lr_messages c @ [message_data ToolRole content prov],
     lr_turn_index := saturating_add (lr_turn_index c) 1, lr_effect := NoEffect, lr_state := TurnCompleteState\<rparr>"

fun outcome_content :: "resolved_outcome \<Rightarrow> string" where
  "outcome_content (CompletedOutcome _ output) = output"
| "outcome_content (FailedOutcome _ detail) = ''tool failure: '' @ detail"
| "outcome_content (CancelledOutcome reason) = ''tool cancelled: '' @ reason"

definition continue_after_tool :: "resolved_outcome \<Rightarrow> provenance \<Rightarrow> loop_run \<Rightarrow> loop_run" where
  "continue_after_tool outcome prov c = next_turn (outcome_content outcome) prov c"

definition handoff_provenance :: provenance where
  "handoff_provenance = \<lparr>prov_source = Subagent, prov_actor = System, prov_trust_tier = VerifiedProcess, prov_caused_by = None\<rparr>"

definition continue_after_handoff :: "handoff_resolution \<Rightarrow> loop_run \<Rightarrow> unit result \<times> loop_run" where
  "continue_after_handoff r c =
     (if hr_schema_version r = 0 \<or> blank (hr_target r) then (fails ''handoff resolution is incomplete'', c)
      else if \<not> hr_accepted r then (Inr (), terminate run_status.Aborted HandoffNoTargetOrLoop c)
      else (Inr (), next_turn (or_else (hr_result r) ''handoff completed'') handoff_provenance c))"

subsection \<open>One turn\<close>

definition loop_context_sources :: "context_sources \<Rightarrow> context_source list" where
  "loop_context_sources s =
     (if src_rules s \<noteq> [] then [Rules] else [])
     @ (if hw_entries (src_history s) \<noteq> [] then [History] else [])
     @ (if ms_text (src_memory s) \<noteq> [] then [MemorySummary] else [])
     @ (if src_skills s \<noteq> [] then [SkillsMetadata] else [])
     @ (if ts_entries (src_tools s) \<noteq> [] then [ToolSchema] else [])"

text \<open>The checks before a turn: the state in which \<open>drive\<close> returns at once, if it does.\<close>

definition held :: "loop_run \<Rightarrow> loop_run option" where
  "held c =
     (if is_suspended (lr_state c) \<or> is_terminal (lr_state c) then Some c
      else if bg_max_turns (lr_budget c) \<le> lr_turn_index c then Some (terminate Limited MaxTurns c)
      else if (case bg_tool_calls (lr_budget c) of None \<Rightarrow> False | Some limit \<Rightarrow> limit \<le> lr_tool_calls c)
      then Some (terminate Limited (BudgetExhausted ToolCallsBudget) c)
      else None)"

definition start_turn :: "loop_run \<Rightarrow> loop_run" where
  "start_turn c = c\<lparr>lr_state := ContextBuildState, lr_events := lr_events c @
     [TurnStartedPayload (lr_turn_index c),
      ContextBuildStartedPayload (loop_context_sources (cx_sources (lr_context c)))
        (map sl_id (src_slices (cx_sources (lr_context c))))]\<rparr>"

definition process_provenance :: provenance where
  "process_provenance = \<lparr>prov_source = source.Internal, prov_actor = System, prov_trust_tier = VerifiedProcess, prov_caused_by = None\<rparr>"

definition scaffold_text :: "model_scaffold \<Rightarrow> string" where
  "scaffold_text sf = ''Use '' @ show_nat (unat (sf_externalized_steps sf))
     @ '' inspectable work stage(s), preserve a checkpoint every '' @ show_nat (unat (sf_checkpoint_cadence_steps sf))
     @ '' stage(s), and leave verification to the runtime.''"

definition request_messages :: "loop_run \<Rightarrow> model_context \<Rightarrow> model_message list" where
  "request_messages c mc =
     (if mc_rendered mc = [] then [] else [message_instruction SystemRole (mc_rendered mc) process_provenance])
     @ (case lr_model_scaffold c of None \<Rightarrow> [] | Some sf \<Rightarrow> [message_instruction SystemRole (scaffold_text sf) process_provenance])
     @ lr_messages c"

definition call_id :: "run_id \<Rightarrow> loop_run \<Rightarrow> string" where
  "call_id run c = ''model:'' @ run @ '':'' @ show_nat (unat (lr_turn_index c))"

definition start_call :: "run_id \<Rightarrow> model_profile \<Rightarrow> loop_run \<Rightarrow> loop_run" where
  "start_call run mp c = c\<lparr>lr_state := ModelCallState, lr_events := lr_events c @
     [ContextBuildFinishedPayload (loop_context_sources (cx_sources (lr_context c)))
        (map sl_id (src_slices (cx_sources (lr_context c)))),
      ModelCallStartedPayload (call_id run c) (profile_ref mp)]\<rparr>"

definition turn_request :: "loop_run \<Rightarrow> model_context \<Rightarrow> model_request" where
  "turn_request c mc = \<lparr>req_schema_version = 1, req_messages = request_messages c mc, req_tools = [],
     req_max_output_tokens = map_option (\<lambda>limit. max (saturating_sub limit (lr_tokens_used c)) 1) (bg_tokens (lr_budget c))\<rparr>"

definition record_reply :: "run_id \<Rightarrow> model_profile \<Rightarrow> model_response \<Rightarrow> loop_run \<Rightarrow> loop_run" where
  "record_reply run mp resp c = c\<lparr>lr_events := lr_events c
       @ (case resp_output resp of FinalOutput out \<Rightarrow> [ModelCallDeltaPayload (call_id run c) out] | _ \<Rightarrow> [])
       @ [ModelCallFinishedPayload (call_id run c) (profile_ref mp) (resp_usage resp) (resp_finish_reason resp)],
     lr_tokens_used := saturating_add (saturating_add (lr_tokens_used c) (input_tokens (resp_usage resp)))
       (output_tokens (resp_usage resp))\<rparr>"

definition over_tokens :: "loop_run \<Rightarrow> bool" where
  "over_tokens c \<longleftrightarrow> (case bg_tokens (lr_budget c) of None \<Rightarrow> False | Some limit \<Rightarrow> limit < lr_tokens_used c)"

definition classify :: "model_output \<Rightarrow> loop_run \<Rightarrow> loop_run" where
  "classify out c =
     (case out of
        FinalOutput t \<Rightarrow> c\<lparr>lr_events := lr_events c @ [OutputClassifiedPayload Final], lr_effect := FinalEffect t,
          lr_state := VerificationState\<rparr>
      | ToolOutput tc \<Rightarrow> c\<lparr>lr_tool_calls := saturating_add (lr_tool_calls c) 1,
          lr_events := lr_events c @ [OutputClassifiedPayload Tool], lr_effect := ToolEffect tc, lr_state := ToolProposedState\<rparr>
      | HandoffOutput h \<Rightarrow> c\<lparr>lr_events := lr_events c @ [OutputClassifiedPayload Handoff], lr_effect := HandoffEffect h,
          lr_state := HandoffState\<rparr>)"

definition finish_call :: "run_id \<Rightarrow> model_profile \<Rightarrow> model_response \<Rightarrow> loop_run \<Rightarrow> loop_run" where
  "finish_call run mp resp c =
     (let c = record_reply run mp resp c in
      if over_tokens c then terminate Limited (BudgetExhausted TokensBudget) c else classify (resp_output resp) c)"

definition drive ::
  "(context_run \<Rightarrow> context_budget \<Rightarrow> 'b \<Rightarrow> model_context result \<times> 'b)
    \<Rightarrow> ('p \<Rightarrow> model_request \<Rightarrow> model_response result \<times> 'p) \<Rightarrow> ('p \<Rightarrow> model_profile)
    \<Rightarrow> run_id \<Rightarrow> loop_run \<times> 'b \<times> 'p \<Rightarrow> loop_state result \<times> loop_run \<times> 'b \<times> 'p" where
  "drive builder call profile run = (\<lambda>(c, bd, pr).
     (case held c of
        Some c' \<Rightarrow> (Inr (lr_state c'), c', bd, pr)
      | None \<Rightarrow>
          let c1 = start_turn c in
          (case builder (lr_context c) (lr_context_budget c) bd of
             (Inl err, bd') \<Rightarrow> (Inl err, c1, bd', pr)
           | (Inr mc, bd') \<Rightarrow>
               let c2 = start_call run (profile pr) c1 in
               (case call pr (turn_request c2 mc) of
                  (Inl err, pr') \<Rightarrow> (Inl err, c2, bd', pr')
                | (Inr resp, pr') \<Rightarrow>
                    let c3 = finish_call run (profile pr) resp c2 in (Inr (lr_state c3), c3, bd', pr')))))"

subsection \<open>What a strategy may do to a budget\<close>

definition within :: "'a::len word option \<Rightarrow> 'a word option \<Rightarrow> bool" where
  "within narrow hard \<longleftrightarrow> (case hard of None \<Rightarrow> True | Some limit \<Rightarrow> (case narrow of None \<Rightarrow> False | Some v \<Rightarrow> v \<le> limit))"

definition narrower :: "loop_budget \<Rightarrow> loop_budget \<Rightarrow> bool" where
  "narrower b hard \<longleftrightarrow> within (bg_tokens b) (bg_tokens hard) \<and> within (bg_wall_time b) (bg_wall_time hard)
     \<and> within (bg_cost_microunits b) (bg_cost_microunits hard) \<and> within (bg_tool_calls b) (bg_tool_calls hard)
     \<and> bg_max_turns b \<le> bg_max_turns hard"

lemma within_refl [simp]: "within a a"
  by (simp add: within_def split: option.split)

lemma within_trans: "within a b \<Longrightarrow> within b c \<Longrightarrow> within a c"
  by (auto simp: within_def split: option.splits)

lemma narrower_refl [simp]: "narrower b b"
  by (simp add: narrower_def)

lemma narrower_trans: "narrower a b \<Longrightarrow> narrower b c \<Longrightarrow> narrower a c"
  by (auto simp: narrower_def intro: within_trans)

lemma reject_wider_Inr [simp]: "reject_wider label v hard = Inr u \<longleftrightarrow> within (Some v) hard"
  by (cases u) (auto simp: reject_wider_def within_def not_less not_le split: option.split)

lemma apply_loop_strategy_narrows:
  "apply_loop_strategy spec hard = Inr b \<Longrightarrow> loop_strategy_validate spec = Inr () \<and> narrower b hard
    \<and> bg_max_turns b \<noteq> 0 \<and> bg_tokens b \<noteq> None \<and> bg_wall_time b \<noteq> None \<and> bg_cost_microunits b \<noteq> None \<and> bg_tool_calls b \<noteq> None"
  by (auto simp: apply_loop_strategy_def and_then_Inr_iff narrower_def not_less loop_strategy_validate_def loop_budget_validate_def)

lemma after_unique:
  assumes "xs = as @ x # bs" "xs = as' @ x # bs'" "distinct xs"
  shows "bs = bs'"
proof -
  have "x \<notin> set as" "x \<notin> set bs" using assms(1,3) by auto
  then show ?thesis using append_Cons_eq_iff [of x as bs as' bs'] assms(1,2) by simp
qed

lemma loop_phases_governed:
  assumes "loop_strategy_validate spec = Inr ()"
  shows "distinct (ls_phases spec) \<and> (\<exists>as bs cs ds es. ls_phases spec
    = as @ PolicyPhase # bs @ ApprovalPhase # cs @ ExecutePhase # ds @ VerifyPhase # es)"
proof -
  let ?ps = "ls_phases spec"
  have ps: "distinct ?ps" "ordered_before ?ps PolicyPhase ApprovalPhase" "ordered_before ?ps ApprovalPhase ExecutePhase"
      "ordered_before ?ps ExecutePhase VerifyPhase"
    using assms by (auto simp: loop_strategy_validate_def and_then_Inr_iff)
  obtain as bs cs where a: "?ps = as @ PolicyPhase # bs @ ApprovalPhase # cs" using ordered_before_split [OF ps(2)] by blast
  obtain as' bs' cs' where b: "?ps = as' @ ApprovalPhase # bs' @ ExecutePhase # cs'" using ordered_before_split [OF ps(3)] by blast
  obtain as'' bs'' cs'' where c: "?ps = as'' @ ExecutePhase # bs'' @ VerifyPhase # cs''" using ordered_before_split [OF ps(4)] by blast
  have "cs = bs' @ ExecutePhase # cs'"
    by (rule after_unique [of ?ps "as @ PolicyPhase # bs" ApprovalPhase _ as']) (use a b ps(1) in simp_all)
  moreover have "cs' = bs'' @ VerifyPhase # cs''"
    by (rule after_unique [of ?ps "as' @ ApprovalPhase # bs'" ExecutePhase _ as'']) (use b c ps(1) in simp_all)
  ultimately have "?ps = as @ PolicyPhase # bs @ ApprovalPhase # bs' @ ExecutePhase # bs'' @ VerifyPhase # cs''"
    using a by simp
  then show ?thesis using ps(1) by blast
qed

text \<open>Binding a strategy never widens a run: it happens at most once and only before the first turn, every limit of
  the new budget is set, positive in turns and within the hard limit, and the phases of the strategy execute
  only after policy and approval and before verification.\<close>

theorem strategy_never_widens:
  assumes "bind_strategy spec c = (Inr (), c')"
  shows "lr_state c = SessionBoundState \<and> lr_bound_strategy c = None \<and> narrower (lr_budget c') (lr_budget c)
    \<and> bg_max_turns (lr_budget c') \<noteq> 0 \<and> bg_tokens (lr_budget c') \<noteq> None \<and> bg_tool_calls (lr_budget c') \<noteq> None
    \<and> (\<exists>as bs cs ds es. ls_phases spec = as @ PolicyPhase # bs @ ApprovalPhase # cs @ ExecutePhase # ds @ VerifyPhase # es)
    \<and> bind_strategy spec' c' = (fails ''loop strategy can only be bound once at SessionBound'', c')"
proof -
  obtain b where b: "lr_state c = SessionBoundState" "lr_bound_strategy c = None" "apply_loop_strategy spec (lr_budget c) = Inr b"
      "c' = c\<lparr>lr_budget := b, lr_bound_strategy := Some spec\<rparr>"
    using assms by (auto simp: bind_strategy_def split: if_splits sum.splits)
  have phases: "\<exists>as bs cs ds es. ls_phases spec = as @ PolicyPhase # bs @ ApprovalPhase # cs @ ExecutePhase # ds @ VerifyPhase # es"
    using apply_loop_strategy_narrows [OF b(3)] loop_phases_governed [of spec] by blast
  show ?thesis
    using apply_loop_strategy_narrows [OF b(3)] phases b by (auto simp: bind_strategy_def)
qed

subsection \<open>The runs the harness reaches\<close>

text \<open>
  One step of the harness on a run, with the number of turns it starts. The states of the builder and of the
  provider are those of the moment; the harness may replace the context (compaction) and drain the events.
\<close>

inductive loop_step ::
  "(context_run \<Rightarrow> context_budget \<Rightarrow> 'b \<Rightarrow> model_context result \<times> 'b)
    \<Rightarrow> ('p \<Rightarrow> model_request \<Rightarrow> model_response result \<times> 'p) \<Rightarrow> ('p \<Rightarrow> model_profile)
    \<Rightarrow> run_id \<Rightarrow> loop_run \<Rightarrow> nat \<Rightarrow> loop_run \<Rightarrow> bool"
  for builder call profile run where
  step_bind: "bind_strategy spec c = (r, c') \<Longrightarrow> loop_step builder call profile run c 0 c'"
| step_scaffold: "bind_model_scaffold sf c = (r, c') \<Longrightarrow> loop_step builder call profile run c 0 c'"
| step_suspend: "\<not> is_terminal (lr_state c) \<Longrightarrow> loop_step builder call profile run c 0 (suspend pk c)"
| step_mark: "\<not> is_terminal (lr_state c) \<Longrightarrow>
    m \<in> {mark_policy d, mark_approval a, mark_action_planned, mark_action_running} \<Longrightarrow>
    loop_step builder call profile run c 0 (m c)"
| step_context: "loop_step builder call profile run c 0 (c\<lparr>lr_context := cx\<rparr>)"
| step_events: "loop_step builder call profile run c 0 (snd (take_loop_events c))"
| step_terminate: "loop_step builder call profile run c 0 (terminate status reason c)"
| step_complete: "complete_final c = (r, c') \<Longrightarrow> loop_step builder call profile run c 0 c'"
| step_tool: "lr_effect c = ToolEffect tc \<Longrightarrow> loop_step builder call profile run c 0 (continue_after_tool outcome prov c)"
| step_handoff: "lr_effect c = HandoffEffect h \<Longrightarrow> continue_after_handoff r c = (res, c') \<Longrightarrow>
    loop_step builder call profile run c 0 c'"
| step_held: "held c = Some c' \<Longrightarrow> loop_step builder call profile run c 0 c'"
| step_turn: "held c = None \<Longrightarrow> lr_effect c = NoEffect \<Longrightarrow>
    drive builder call profile run (c, bd, pr) = (Inr st, c', bd', pr') \<Longrightarrow> loop_step builder call profile run c 1 c'"
| step_failed: "held c = None \<Longrightarrow> lr_effect c = NoEffect \<Longrightarrow>
    drive builder call profile run (c, bd, pr) = (Inl err, c', bd', pr') \<Longrightarrow>
    loop_step builder call profile run c 1 (terminate run_status.Failed RetryExhausted c')"

inductive governed ::
  "(context_run \<Rightarrow> context_budget \<Rightarrow> 'b \<Rightarrow> model_context result \<times> 'b)
    \<Rightarrow> ('p \<Rightarrow> model_request \<Rightarrow> model_response result \<times> 'p) \<Rightarrow> ('p \<Rightarrow> model_profile)
    \<Rightarrow> run_id \<Rightarrow> loop_budget \<Rightarrow> nat \<Rightarrow> loop_run \<Rightarrow> bool"
  for builder call profile run b where
  accepted: "run_new session input cx cb b prov = Inr c \<Longrightarrow> governed builder call profile run b 0 c"
| advanced: "governed builder call profile run b n c \<Longrightarrow> loop_step builder call profile run c k c' \<Longrightarrow>
    governed builder call profile run b (n + k) c'"

text \<open>What a turn does, whether or not it succeeds: either it failed, or the reply was recorded.\<close>

lemma drive_cases:
  assumes "held c = None" "drive builder call profile run (c, bd, pr) = (r, c', bd', pr')"
  obtains (failed) err evs st where "r = Inl err" "c' = c\<lparr>lr_state := st, lr_events := evs\<rparr>" "\<not> is_terminal st"
  | (replied) mc resp pr0 evs where "r = Inr (lr_state c')" "fst (builder (lr_context c) (lr_context_budget c) bd) = Inr mc"
      "fst (call pr0 (turn_request c mc)) = Inr resp"
      "c' = finish_call run (profile pr0) resp (c\<lparr>lr_state := ModelCallState, lr_events := evs\<rparr>)"
proof -
  have request: "turn_request (start_call run mp (start_turn c)) mc = turn_request c mc" for mp mc
    by (simp add: turn_request_def start_call_def start_turn_def request_messages_def)
  obtain res bd1 where b: "builder (lr_context c) (lr_context_budget c) bd = (res, bd1)" by (cases "builder (lr_context c) (lr_context_budget c) bd")
  show thesis
  proof (cases res)
    case (Inl err)
    then show thesis using assms b by (auto simp: drive_def Let_def start_turn_def intro!: failed)
  next
    case (Inr mc)
    let ?c2 = "start_call run (profile pr) (start_turn c)"
    obtain res2 pr1 where call: "call pr (turn_request ?c2 mc) = (res2, pr1)" by (cases "call pr (turn_request ?c2 mc)")
    have c2: "?c2 = c\<lparr>lr_state := ModelCallState, lr_events := lr_events ?c2\<rparr>"
      by (simp add: start_call_def start_turn_def)
    show thesis
    proof (cases res2)
      case (Inl err)
      then have "r = Inl err" "c' = ?c2" using assms b Inr call by (auto simp: drive_def Let_def)
      then show thesis using c2 by (intro failed [of err "lr_events ?c2" ModelCallState]) simp_all
    next
      case resp: (Inr resp)
      then have "r = Inr (lr_state c')" "c' = finish_call run (profile pr) resp ?c2"
        using assms b Inr call by (auto simp: drive_def Let_def)
      then show thesis
        using c2 b Inr call resp by (intro replied [of mc pr resp "lr_events ?c2"]) (simp_all add: request)
    qed
  qed
qed

subsection \<open>The invariant of governed runs\<close>

definition tools_within :: "loop_run \<Rightarrow> bool" where
  "tools_within c \<longleftrightarrow> (\<forall>limit. bg_tool_calls (lr_budget c) = Some limit \<longrightarrow> lr_tool_calls c \<le> limit)"

lemma over_tokens_iff: "over_tokens c \<longleftrightarrow> (\<exists>limit. bg_tokens (lr_budget c) = Some limit \<and> limit < lr_tokens_used c)"
  by (simp add: over_tokens_def split: option.split)

definition turns_within :: "nat \<Rightarrow> loop_run \<Rightarrow> bool" where
  "turns_within n c \<longleftrightarrow> n \<le> unat (bg_max_turns (lr_budget c)) \<and>
     (\<not> is_terminal (lr_state c) \<longrightarrow> lr_turn_index c \<le> bg_max_turns (lr_budget c) \<and>
       (if lr_effect c = NoEffect then n \<le> unat (lr_turn_index c)
        else lr_turn_index c < bg_max_turns (lr_budget c) \<and> n \<le> Suc (unat (lr_turn_index c))))"

definition fresh :: "nat \<Rightarrow> loop_run \<Rightarrow> bool" where
  "fresh n c \<longleftrightarrow> n = 0 \<and> lr_turn_index c = 0 \<and> lr_tool_calls c = 0 \<and> lr_tokens_used c = 0 \<and> lr_effect c = NoEffect"

definition loop_invariant :: "loop_budget \<Rightarrow> nat \<Rightarrow> loop_run \<Rightarrow> bool" where
  "loop_invariant b n c \<longleftrightarrow> narrower (lr_budget c) b \<and> tools_within c \<and> turns_within n c
     \<and> (over_tokens c \<longrightarrow> is_terminal (lr_state c))
     \<and> (is_terminal (lr_state c) \<longrightarrow> (\<forall>tc. lr_effect c \<noteq> ToolEffect tc) \<and> (\<forall>h. lr_effect c \<noteq> HandoffEffect h))
     \<and> (lr_state c = SessionBoundState \<longrightarrow> fresh n c)"

lemmas invariant_defs = loop_invariant_def tools_within_def turns_within_def over_tokens_iff

lemma invariant_new: "run_new session input cx cb b prov = Inr c \<Longrightarrow> loop_invariant b 0 c"
  by (auto simp: run_new_def invariant_defs fresh_def split: if_splits option.splits)

lemma terminate_simps [simp]:
  "lr_state (terminate s r c) = Terminal s" "lr_effect (terminate s r c) = NoEffect" "lr_budget (terminate s r c) = lr_budget c"
  "lr_turn_index (terminate s r c) = lr_turn_index c" "lr_tool_calls (terminate s r c) = lr_tool_calls c"
  "lr_tokens_used (terminate s r c) = lr_tokens_used c" "lr_messages (terminate s r c) = lr_messages c"
  by (simp_all add: terminate_def)

lemma next_turn_simps [simp]:
  "lr_state (next_turn t p c) = TurnCompleteState" "lr_effect (next_turn t p c) = NoEffect" "lr_budget (next_turn t p c) = lr_budget c"
  "lr_turn_index (next_turn t p c) = saturating_add (lr_turn_index c) 1" "lr_tool_calls (next_turn t p c) = lr_tool_calls c"
  "lr_tokens_used (next_turn t p c) = lr_tokens_used c" "lr_messages (next_turn t p c) = lr_messages c @ [message_data ToolRole t p]"
  by (simp_all add: next_turn_def)

lemma invariant_terminate: "loop_invariant b n c \<Longrightarrow> loop_invariant b n (terminate s r c)"
  by (simp add: invariant_defs)

lemma saturating_inc: "(a :: 'a::len word) < m \<Longrightarrow> unat (saturating_add a 1) = Suc (unat a)"
proof -
  assume "a < m"
  then have "unat a < unat m" by (simp add: word_less_nat_alt)
  moreover have "unat m < 2 ^ LENGTH('a)" by (rule unsigned_less)
  ultimately have "Suc (unat a) \<le> 2 ^ LENGTH('a) - 1" by linarith
  then show ?thesis by (simp add: unat_saturating_add unsigned_1)
qed

lemma invariant_next_turn:
  assumes "loop_invariant b n c" "lr_effect c = ToolEffect tc \<or> lr_effect c = HandoffEffect h"
  shows "loop_invariant b n (next_turn t p c)"
proof -
  have live: "\<not> is_terminal (lr_state c)" using assms by (auto simp: loop_invariant_def)
  then have turn: "lr_turn_index c < bg_max_turns (lr_budget c)" "n \<le> Suc (unat (lr_turn_index c))"
    using assms by (auto simp: loop_invariant_def turns_within_def)
  then have "unat (saturating_add (lr_turn_index c) 1) = Suc (unat (lr_turn_index c))" by (intro saturating_inc)
  then have "turns_within n (next_turn t p c)"
    using turn assms(1) by (auto simp: loop_invariant_def turns_within_def word_le_nat_alt word_less_nat_alt)
  then show ?thesis using assms(1) live by (simp add: loop_invariant_def tools_within_def over_tokens_iff)
qed

lemma invariant_bind:
  assumes "loop_invariant b n c" "bind_strategy spec c = (r, c')"
  shows "loop_invariant b n c'"
proof (cases "c' = c")
  case False
  then obtain nb where nb: "lr_state c = SessionBoundState" "apply_loop_strategy spec (lr_budget c) = Inr nb"
      "c' = c\<lparr>lr_budget := nb, lr_bound_strategy := Some spec\<rparr>"
    using assms(2) by (auto simp: bind_strategy_def split: if_splits sum.splits)
  have "fresh n c" "narrower nb b"
    using assms(1) nb(1) apply_loop_strategy_narrows [OF nb(2)] by (auto simp: loop_invariant_def intro: narrower_trans)
  then show ?thesis
    using nb(1,3) by (auto simp: invariant_defs fresh_def split: option.splits)
qed (use assms in simp)

lemma held_None:
  assumes "held c = None"
  shows "\<not> is_terminal (lr_state c)" "\<not> is_suspended (lr_state c)" "lr_turn_index c < bg_max_turns (lr_budget c)"
    "bg_tool_calls (lr_budget c) = Some limit \<Longrightarrow> lr_tool_calls c < limit"
  using assms by (auto simp: held_def not_le split: if_splits option.splits)

lemma invariant_held: "loop_invariant b n c \<Longrightarrow> held c = Some c' \<Longrightarrow> loop_invariant b n c'"
  by (auto simp: held_def invariant_terminate split: if_splits)

lemma record_reply_simps [simp]:
  "lr_state (record_reply run mp resp c) = lr_state c" "lr_effect (record_reply run mp resp c) = lr_effect c"
  "lr_budget (record_reply run mp resp c) = lr_budget c" "lr_turn_index (record_reply run mp resp c) = lr_turn_index c"
  "lr_tool_calls (record_reply run mp resp c) = lr_tool_calls c" "lr_messages (record_reply run mp resp c) = lr_messages c"
  by (simp_all add: record_reply_def)

lemma classify_simps [simp]:
  "lr_budget (classify out c) = lr_budget c" "lr_turn_index (classify out c) = lr_turn_index c"
  "lr_tokens_used (classify out c) = lr_tokens_used c" "lr_messages (classify out c) = lr_messages c"
  "\<not> is_terminal (lr_state (classify out c))" "lr_effect (classify out c) \<noteq> NoEffect" "lr_state (classify out c) \<noteq> SessionBoundState"
  by (cases out; simp add: classify_def)+

lemma classify_tools: "lr_tool_calls (classify out c) = lr_tool_calls c \<or> lr_tool_calls (classify out c) = saturating_add (lr_tool_calls c) 1"
  by (cases out) (simp_all add: classify_def)

lemma invariant_turn:
  assumes inv: "loop_invariant b n c" and idle: "held c = None" "lr_effect c = NoEffect"
    and step: "drive builder call profile run (c, bd, pr) = (r, c', bd', pr')"
  shows "case r of Inl err \<Rightarrow> loop_invariant b (Suc n) (terminate run_status.Failed RetryExhausted c')
    | Inr st \<Rightarrow> loop_invariant b (Suc n) c'"
proof -
  note h = held_None [OF idle(1)]
  have n: "Suc n \<le> unat (bg_max_turns (lr_budget c))" "n \<le> unat (lr_turn_index c)"
    using inv idle(2) h(1,3) by (auto simp: loop_invariant_def turns_within_def word_less_nat_alt)
  show ?thesis
  proof (rule drive_cases [OF idle(1) step])
    fix err evs st
    assume "r = Inl err" "c' = c\<lparr>lr_state := st, lr_events := evs\<rparr>"
    then show ?thesis using inv n by (auto simp: invariant_defs)
  next
    fix mc resp pr0 evs
    let ?c2 = "c\<lparr>lr_state := ModelCallState, lr_events := evs\<rparr>"
    let ?c3 = "record_reply run (profile pr0) resp ?c2"
    assume r: "r = Inr (lr_state c')" "c' = finish_call run (profile pr0) resp ?c2"
    show ?thesis
    proof (cases "over_tokens ?c3")
      case True
      then have "c' = terminate Limited (BudgetExhausted TokensBudget) ?c3" using r(2) by (simp add: finish_call_def Let_def)
      then show ?thesis using inv n r(1) by (auto simp: invariant_defs)
    next
      case False
      then have c': "c' = classify (resp_output resp) ?c3" using r(2) by (simp add: finish_call_def Let_def)
      have "tools_within c'"
      proof (cases "bg_tool_calls (lr_budget c)")
        case (Some limit)
        then have "unat (saturating_add (lr_tool_calls c) 1) = Suc (unat (lr_tool_calls c))" "lr_tool_calls c < limit"
          using h(4) [OF Some] saturating_inc [of "lr_tool_calls c" limit] by simp_all
        then show ?thesis
          using Some classify_tools [of "resp_output resp" ?c3] by (auto simp: c' tools_within_def word_le_nat_alt word_less_nat_alt)
      qed (simp add: c' tools_within_def)
      moreover have "\<not> over_tokens c'" using False by (simp add: c' over_tokens_iff)
      moreover have "turns_within (Suc n) c'" using n h(3) by (simp add: c' turns_within_def)
      ultimately show ?thesis using inv r(1) by (simp add: loop_invariant_def c')
    qed
  qed
qed

lemma invariant_step:
  assumes "loop_invariant b n c" "loop_step builder call profile run c k c'"
  shows "loop_invariant b (n + k) c'"
  using assms(2,1)
proof cases
  case step_bind
  then show ?thesis using invariant_bind assms(1) by simp
next
  case step_scaffold
  then show ?thesis using assms(1)
    by (auto simp: bind_model_scaffold_def invariant_defs fresh_def split: if_splits option.splits)
next
  case step_suspend
  then show ?thesis using assms(1) by (auto simp: suspend_def invariant_defs)
next
  case step_mark
  then show ?thesis using assms(1)
    by (auto simp: mark_policy_def mark_approval_def mark_action_planned_def mark_action_running_def invariant_defs)
next
  case step_context
  then show ?thesis using assms(1) by (simp add: invariant_defs fresh_def)
next
  case step_events
  then show ?thesis using assms(1) by (simp add: take_loop_events_def invariant_defs fresh_def)
next
  case step_terminate
  then show ?thesis using assms(1) invariant_terminate by simp
next
  case step_complete
  then show ?thesis using assms(1)
    by (auto simp: complete_final_def invariant_defs split: loop_effect.splits)
next
  case step_tool
  then show ?thesis using assms(1) invariant_next_turn by (auto simp: continue_after_tool_def)
next
  case step_handoff
  then show ?thesis using assms(1) invariant_next_turn invariant_terminate
    by (auto simp: continue_after_handoff_def split: if_splits)
next
  case step_held
  then show ?thesis using assms(1) invariant_held by simp
next
  case (step_turn bd pr st bd' pr')
  then show ?thesis using invariant_turn [OF assms(1) step_turn(2-4)] by simp
next
  case (step_failed bd pr err c2 bd' pr')
  then show ?thesis using invariant_turn [OF assms(1) step_failed(3-5)] by simp
qed

lemma governed_invariant: "governed builder call profile run b n c \<Longrightarrow> loop_invariant b n c"
  by (induction rule: governed.induct) (auto intro: invariant_new invariant_step)

text \<open>C29: The loop keeps its budget: along every governed run the turns started, and so the calls of the model, never
  exceed the turn limit it was accepted with, the tool calls never exceed their limit, and the tokens exceed
  theirs only once, by the reply that ends the run.\<close>

theorem loop_keeps_budget:
  assumes "governed builder call profile run b n c"
  shows "n \<le> unat (bg_max_turns b) \<and> (\<forall>limit. bg_tool_calls b = Some limit \<longrightarrow> lr_tool_calls c \<le> limit)
    \<and> (\<forall>limit. bg_tokens b = Some limit \<longrightarrow> limit < lr_tokens_used c \<longrightarrow> is_terminal (lr_state c))"
proof -
  have inv: "loop_invariant b n c" using governed_invariant [OF assms] .
  then have "narrower (lr_budget c) b" "n \<le> unat (bg_max_turns (lr_budget c))"
    by (simp_all add: loop_invariant_def turns_within_def)
  then show ?thesis
    using inv by (auto simp: invariant_defs narrower_def within_def word_le_nat_alt word_less_nat_alt split: option.splits)
qed

text \<open>A governed run that has ended stays ended: no step of the harness leaves a terminal state or starts a turn.\<close>

theorem ended_stays_ended:
  assumes "governed builder call profile run b n c" and "is_terminal (lr_state c)"
    and "loop_step builder call profile run c k c'"
  shows "is_terminal (lr_state c') \<and> k = 0"
  using assms(3)
proof cases
  case step_bind
  then show ?thesis using assms(2) by (auto simp: bind_strategy_def split: if_splits sum.splits)
next
  case step_scaffold
  then show ?thesis using assms(2) by (auto simp: bind_model_scaffold_def split: if_splits)
next
  case step_complete
  then show ?thesis using assms(2) by (auto simp: complete_final_def split: loop_effect.splits)
next
  case step_tool
  then show ?thesis using governed_invariant [OF assms(1)] assms(2) by (simp add: loop_invariant_def)
next
  case step_handoff
  then show ?thesis using governed_invariant [OF assms(1)] assms(2) by (simp add: loop_invariant_def)
next
  case step_held
  then show ?thesis using assms(2) by (auto simp: held_def split: if_splits)
next
  case step_turn
  then show ?thesis using assms(2) held_None(1) by blast
next
  case step_failed
  then show ?thesis using assms(2) held_None(1) by blast
qed (use assms(2) in \<open>auto simp: take_loop_events_def\<close>)

subsection \<open>What reaches the model\<close>

definition typed_message :: "model_message \<Rightarrow> bool" where
  "typed_message m \<longleftrightarrow> msg_schema_version m \<noteq> 0
     \<and> (msg_treatment m = InstructionContent \<longrightarrow> prov_trust_tier (msg_provenance m) \<in> {OwnerInput, VerifiedProcess})
     \<and> (msg_treatment m = UntrustedContent \<longleftrightarrow> prov_trust_tier (msg_provenance m) = Untrusted)"

lemma typed_valid: "typed_message m \<Longrightarrow> message_validate m \<longleftrightarrow> \<not> blank (msg_content m)"
  by (cases "msg_treatment m") (auto simp: typed_message_def message_validate_def)

lemma typed_constructors:
  "typed_message (message_data r t p)" "typed_message (message_input t p)"
  "typed_message (message_instruction r t process_provenance)"
  by (auto simp: typed_message_def message_data_def message_input_def message_instruction_def process_provenance_def)

lemma finish_call_messages [simp]: "lr_messages (finish_call run mp resp c) = lr_messages c"
  by (simp add: finish_call_def Let_def)

lemma drive_messages:
  assumes "held c = None" "drive builder call profile run (c, bd, pr) = (r, c', bd', pr')"
  shows "lr_messages c' = lr_messages c"
  using assms by (rule drive_cases) simp_all

text \<open>Messages are never removed; the only new ones are observations.\<close>

lemma step_messages:
  assumes "loop_step builder call profile run c k c'"
  shows "lr_messages c' = lr_messages c \<or> (\<exists>t p. lr_messages c' = lr_messages c @ [message_data ToolRole t p])"
  using assms
proof cases
  case step_bind
  then show ?thesis by (auto simp: bind_strategy_def split: if_splits sum.splits)
next
  case step_scaffold
  then show ?thesis by (auto simp: bind_model_scaffold_def split: if_splits)
next
  case step_mark
  then show ?thesis
    by (auto simp: mark_policy_def mark_approval_def mark_action_planned_def mark_action_running_def)
next
  case step_complete
  then show ?thesis by (auto simp: complete_final_def split: loop_effect.splits)
next
  case (step_handoff h r res)
  then have "lr_messages c' = lr_messages c
      \<or> lr_messages c' = lr_messages c @ [message_data ToolRole (or_else (hr_result r) ''handoff completed'') handoff_provenance]"
    by (auto simp: continue_after_handoff_def split: if_splits)
  then show ?thesis by blast
next
  case step_held
  then show ?thesis by (auto simp: held_def split: if_splits)
next
  case (step_turn bd pr st bd' pr')
  then show ?thesis using drive_messages [OF step_turn(2,4)] by simp
next
  case (step_failed bd pr err c2 bd' pr')
  then show ?thesis using drive_messages [OF step_failed(3,5)] by simp
qed (auto simp: suspend_def take_loop_events_def continue_after_tool_def)

lemma governed_messages:
  "governed builder call profile run b n c \<Longrightarrow> lr_messages c \<noteq> [] \<and> (\<forall>m\<in>set (lr_messages c). typed_message m)"
proof (induction rule: governed.induct)
  case (accepted session input cx cb prov c)
  then show ?case by (auto simp: run_new_def typed_constructors split: if_splits)
next
  case (advanced n c k c')
  then show ?case using step_messages [OF advanced.hyps(2)] by (auto simp: typed_constructors)
qed

text \<open>What the loop needs of its builder and of its provider.\<close>

locale loop_environment = model_provider call for call :: "'p \<Rightarrow> model_request \<Rightarrow> model_response result \<times> 'p" +
  fixes builder :: "context_run \<Rightarrow> context_budget \<Rightarrow> 'b \<Rightarrow> model_context result \<times> 'b"
    and profile :: "'p \<Rightarrow> model_profile"
  assumes rendered: "fst (builder cx cb bd) = Inr mc \<Longrightarrow> mc_rendered mc = [] \<or> \<not> blank (mc_rendered mc)"
begin

lemma request_messages_typed:
  assumes "\<forall>m\<in>set (lr_messages c). typed_message m"
  shows "\<forall>m\<in>set (request_messages c mc). typed_message m"
  using assms by (auto simp: request_messages_def typed_constructors split: option.splits)

lemma request_valid_iff:
  assumes "fst (builder cx cb bd) = Inr mc" "lr_messages c \<noteq> []" "\<forall>m\<in>set (lr_messages c). typed_message m"
  shows "request_validate (turn_request c mc) = Inr () \<longleftrightarrow> (\<forall>m\<in>set (lr_messages c). \<not> blank (msg_content m))"
proof -
  have "message_validate (message_instruction SystemRole (mc_rendered mc) process_provenance)" if "mc_rendered mc \<noteq> []"
    using that rendered [OF assms(1)] by (simp add: message_validate_def message_instruction_def process_provenance_def)
  moreover have "message_validate (message_instruction SystemRole (scaffold_text sf) process_provenance)" for sf
    by (simp add: message_validate_def message_instruction_def process_provenance_def scaffold_text_def)
  ultimately have "\<forall>m\<in>set (request_messages c mc). m \<in> set (lr_messages c) \<or> message_validate m"
    by (auto simp: request_messages_def split: option.splits)
  moreover have "set (lr_messages c) \<subseteq> set (request_messages c mc)" "request_messages c mc \<noteq> []"
    using assms(2) by (auto simp: request_messages_def)
  ultimately have "(\<forall>m\<in>set (request_messages c mc). message_validate m) \<longleftrightarrow> (\<forall>m\<in>set (lr_messages c). \<not> blank (msg_content m))"
    using assms(3) typed_valid by blast
  then show ?thesis
    using \<open>request_messages c mc \<noteq> []\<close> by (auto simp: request_validate_def turn_request_def and_then_Inr_iff)
qed

text \<open>A turn of a run that holds a blank message gets no reply.\<close>

lemma blank_message_fails:
  assumes "held c = None" "fst (builder (lr_context c) (lr_context_budget c) bd) = Inr mc"
    and "m \<in> set (lr_messages c)" "blank (msg_content m)"
  shows "fst (drive builder call profile run (c, bd, pr)) = fails ''model request has no usable messages''"
proof -
  obtain bd' where b: "builder (lr_context c) (lr_context_budget c) bd = (Inr mc, bd')"
    using assms(2) by (cases "builder (lr_context c) (lr_context_budget c) bd") simp
  let ?c2 = "start_call run (profile pr) (start_turn c)"
  have "m \<in> set (req_messages (turn_request ?c2 mc))" "\<not> message_validate m"
    using assms(3,4) by (auto simp: turn_request_def request_messages_def start_call_def start_turn_def message_validate_def)
  then have "request_validate (turn_request ?c2 mc) = fails ''model request has no usable messages''"
    by (auto simp: request_validate_def ensure_def)
  then have "call pr (turn_request ?c2 mc) = (fails ''model request has no usable messages'', pr)"
    using call_invalid by (simp add: fails_def)
  then show ?thesis using assms(1) b by (simp add: drive_def fails_def Let_def)
qed

end

lemma render_visible: "blank (render_sections ss) \<Longrightarrow> ss = []"
proof (cases ss)
  case (Cons s rest)
  assume "blank (render_sections ss)"
  moreover obtain t where "render_sections ss = CHR ''['' # t"
    using Cons by (cases rest) (simp_all add: render_sections_def render_section_def)
  ultimately show ?thesis by simp
qed simp

lemma build_rendered: "fst (build cx cb bd) = Inr mc \<Longrightarrow> mc_rendered mc = [] \<or> \<not> blank (mc_rendered mc)"
proof -
  assume "fst (build cx cb bd) = Inr mc"
  then obtain a where "mc = context_of_assembly a" by (auto simp: build_def Let_def split: sum.splits)
  then show ?thesis
    using render_visible [of "as_sections a"] by (auto simp: context_of_assembly_def render_sections_def)
qed

interpretation chat_loop: loop_environment "chat_call print_json parse_json http" build ch_profile
  by unfold_locales (rule build_rendered)

interpretation scripted_loop: loop_environment scripted_call build sp_profile
  by unfold_locales (rule build_rendered)

text \<open>C30: In every governed run each message a turn sends carries the treatment its provenance calls for (only the owner
  or a verified process instructs, and untrusted content is marked), and the request is accepted by the
  provider exactly when no stored message is blank.\<close>

theorem requests_typed:
  assumes "governed build (chat_call print_json parse_json http) ch_profile run b n c"
    and "fst (build (lr_context c) (lr_context_budget c) bd) = Inr mc"
  shows "(\<forall>m\<in>set (req_messages (turn_request c mc)). typed_message m)
    \<and> (request_validate (turn_request c mc) = Inr () \<longleftrightarrow> (\<forall>m\<in>set (lr_messages c). \<not> blank (msg_content m)))"
proof -
  note ms = governed_messages [OF assms(1)]
  show ?thesis
    using chat_loop.request_valid_iff [OF assms(2)] chat_loop.request_messages_typed [of c mc] ms
    by (simp add: turn_request_def)
qed


lemma join_with_member: "x \<in> set xs \<Longrightarrow> \<exists>pre post. join_with sep xs = pre @ x @ post"
proof (induction sep xs rule: join_with.induct)
  case (3 sep y z zs)
  show ?case
  proof (cases "x = y")
    case True
    then show ?thesis by (intro exI [of _ "[]"] exI [of _ "sep @ join_with sep (z # zs)"]) simp
  next
    case False
    then obtain pre post where "join_with sep (z # zs) = pre @ x @ post" using 3 by auto
    then show ?thesis by (intro exI [of _ "y @ sep @ pre"] exI [of _ post]) simp
  qed
next
  case (2 sep y)
  then show ?case by (intro exI [of _ "[]"]) simp
qed simp

text \<open>The content of every section of a built context, the untrusted ones included, reaches the model inside one
  system message treated as an instruction of a verified process: it is sent as it is, without the notice
  that marks untrusted data. (The architecture keeps external content as data.)\<close>

theorem context_sent_as_instruction:
  assumes "fst (build cx cb bd) = Inr mc" and "s \<in> set (mc_sections mc)"
  shows "\<exists>m rest pre post. request_messages c mc = m # rest \<and> msg_treatment m = InstructionContent
    \<and> msg_role m = SystemRole \<and> prov_trust_tier (msg_provenance m) = VerifiedProcess
    \<and> transport_content m = pre @ sec_content s @ post"
proof -
  obtain a where a: "mc = context_of_assembly a" using assms(1) by (auto simp: build_def Let_def split: sum.splits)
  then have rendered: "mc_rendered mc = render_sections (mc_sections mc)" by (simp add: context_of_assembly_def)
  obtain pre post where "render_sections (mc_sections mc) = pre @ render_section s @ post"
    using join_with_member [of "render_section s" "map render_section (mc_sections mc)" "[line_feed, line_feed]"] assms(2)
    unfolding render_sections_def by auto
  then have r: "mc_rendered mc = (pre @ CHR ''['' # kind_debug (sec_kind s) @ ''; '' @ treatment_debug (sec_treatment s)
     @ ''; source='' @ sec_source_ref s @ '']'' @ [line_feed]) @ sec_content s @ post"
    by (simp add: rendered render_section_def)
  then obtain p q where pq: "mc_rendered mc = p @ sec_content s @ q" by blast
  let ?m = "message_instruction SystemRole (mc_rendered mc) process_provenance"
  obtain rest where "request_messages c mc = ?m # rest" using r by (simp add: request_messages_def)
  moreover have "transport_content ?m = p @ sec_content s @ q"
    by (simp add: transport_content_def message_instruction_def pq)
  moreover have "msg_treatment ?m = InstructionContent" "msg_role ?m = SystemRole"
      "prov_trust_tier (msg_provenance ?m) = VerifiedProcess"
    by (simp_all add: message_instruction_def process_provenance_def)
  ultimately show ?thesis by blast
qed

end
