(* ===== verification/Loop_Witnesses.thy ===== *)
theory Loop_Witnesses
  imports Loop_Engine
begin

text \<open>A concrete run of the loop, over the sources of \<open>Context_Build\<close> and a scripted model that asks for a tool.\<close>

definition sample_profile :: model_profile where
  "sample_profile = \<lparr>mpr_schema_version = 1, mpr_provider = ''p'', mpr_model = ''m'', mpr_base_url = ''https://h'',
     mpr_capability = \<lparr>mcap_schema_version = 1, mcap_context_window = 100, mcap_tool_use = True, mcap_strength = Strong\<rparr>,
     mpr_cost = \<lparr>mcost_schema_version = 1, mcost_input_microunits_per_million = 1, mcost_output_microunits_per_million = 1\<rparr>,
     mpr_rate_limit = \<lparr>rl_schema_version = 1, rl_requests_per_minute = 1, rl_tokens_per_minute = 1\<rparr>,
     mpr_credential_ref = ''key''\<rparr>"

definition sample_secret :: string where
  "sample_secret = [CHR ''s'', CHR 0x22, CHR 0x5C, CHR 0x0A]"

definition sample_chat :: chat_provider where
  "sample_chat = \<lparr>ch_profile = sample_profile, ch_credential = sample_secret, ch_executable = ''curl'', ch_timeout = 1500\<rparr>"

lemma curl_config_closed_witness:
  "\<exists>cfg url cred content. curl_config sample_chat ''{}'' = Inr cfg \<and>
    split_on newline cfg = [''silent'', ''show-error'', ''fail-with-body'', quoted_line ''request = '' ''POST'',
        quoted_line ''max-time = '' (show_nat (timeout_seconds 1500)), quoted_line ''url = '' url,
        quoted_line ''header = '' ''Content-Type: application/json'',
        quoted_line ''header = '' (''Authorization: Bearer '' @ cred), quoted_line ''data = '' content, []]
    \<and> unescape cred = sample_secret"
proof -
  have "CHR 0x00 \<notin> set (endpoint ''https://h'')" "CHR 0x00 \<notin> set sample_secret" "CHR 0x00 \<notin> set ''{}''"
    by (simp_all add: endpoint_def sample_secret_def)
  then obtain cfg where "curl_config sample_chat ''{}'' = Inr cfg"
    by (simp add: curl_config_def quote_curl_config_def sample_chat_def sample_profile_def)
  then show ?thesis using curl_config_closed [of sample_chat "''{}''" cfg] by (auto simp: sample_chat_def)
qed

subsection \<open>Binding a strategy\<close>

definition sample_compatibility :: runtime_compatibility where
  "sample_compatibility = \<lparr>rtc_schema_version = 1, rtc_minimum_runtime_schema = 1, rtc_event_schema = 1, rtc_model_profile = None,
     rtc_tool_schema = None, rtc_backend_schema = None\<rparr>"

definition sample_strategy :: loop_strategy where
  "sample_strategy = \<lparr>ls_schema_version = 1, ls_version = ''v1'', ls_scope = ''w'', ls_content_ref = ''c'', ls_content_digest = ''d'',
     ls_compatibility = sample_compatibility,
     ls_phases = [ContextPhase, Deliberate, PolicyPhase, ApprovalPhase, ExecutePhase, VerifyPhase, Finish],
     ls_triggers = [Reactive], ls_checkpoint_cadence_turns = 1, ls_verification_cadence_turns = 1,
     ls_budget = \<lparr>lp_schema_version = 1, lp_max_turns = 4, lp_max_tokens = 1000, lp_max_wall_time_ms = 1000,
       lp_max_cost_microunits = 1000, lp_max_tool_calls = 2\<rparr>, ls_failure_fallback = Stop\<rparr>"

definition sample_loop :: loop_run where
  "sample_loop = \<lparr>lr_session = ''s'', lr_context = sample_run, lr_context_budget = sample_budget, lr_budget = default_loop_budget,
     lr_state = SessionBoundState, lr_turn_index = 0, lr_tokens_used = 0, lr_tool_calls = 0, lr_stop_reason = None,
     lr_effect = NoEffect, lr_bound_strategy = None, lr_model_scaffold = None, lr_messages = [message_input ''hello'' owner_provenance],
     lr_final_output = None, lr_events = []\<rparr>"

lemma sample_loop_new: "run_new ''s'' ''hello'' sample_run sample_budget default_loop_budget owner_provenance = Inr sample_loop"
  by (simp add: run_new_def sample_loop_def default_loop_budget_def)

lemma sample_strategy_valid: "loop_strategy_validate sample_strategy = Inr ()"
  by (simp add: loop_strategy_validate_def validate_spec_identity_def compatibility_validate_def blank_option_def
      loop_budget_validate_def contains_all_def ordered_before_def sample_strategy_def sample_compatibility_def)

lemma strategy_never_widens_witness:
  "\<exists>c'. bind_strategy sample_strategy sample_loop = (Inr (), c') \<and> narrower (lr_budget c') default_loop_budget"
proof -
  obtain c' where "bind_strategy sample_strategy sample_loop = (Inr (), c')"
    by (simp add: bind_strategy_def sample_loop_def apply_loop_strategy_def sample_strategy_valid reject_wider_def
        default_loop_budget_def) (simp add: sample_strategy_def)
  then show ?thesis using strategy_never_widens [of sample_strategy sample_loop c'] by (auto simp: sample_loop_def)
qed

subsection \<open>A turn\<close>

definition tool_reply :: model_response where
  "tool_reply = \<lparr>resp_schema_version = 1, resp_output = ToolOutput \<lparr>mtc_schema_version = 1, mtc_call_id = ''t'', mtc_tool = ''touch'',
       mtc_arguments = JObject [], mtc_intent = None\<rparr>,
     resp_usage = \<lparr>input_tokens = 10, output_tokens = 5\<rparr>, resp_finish_reason = ''tool''\<rparr>"

definition sample_script :: scripted_provider where
  "sample_script = \<lparr>sp_profile = sample_profile, sp_responses = [tool_reply]\<rparr>"

definition sample_context :: model_context where
  "sample_context = context_spec sample_run default_limits 8 [rule_section] [web_section]"

lemma sample_loop_built: "fst (build (lr_context sample_loop) (lr_context_budget sample_loop) sample_builder) = Inr sample_context"
  using sample_built by (simp add: sample_loop_def sample_context_def)

lemma sample_held: "held sample_loop = None"
  by (simp add: held_def sample_loop_def default_loop_budget_def)

lemma sample_messages: "lr_messages sample_loop = [message_input ''hello'' owner_provenance]"
  by (simp add: sample_loop_def)

lemma sample_request_valid: "request_validate (turn_request sample_loop sample_context) = Inr ()"
  using scripted_loop.request_valid_iff [OF sample_loop_built, of sample_loop]
  by (simp add: sample_messages typed_constructors)
    (simp add: message_input_def message_instruction_def owner_provenance_def message_data_def)

definition tool_run :: loop_run where
  "tool_run = finish_call ''r'' sample_profile tool_reply (start_call ''r'' sample_profile (start_turn sample_loop))"

lemma sample_drive:
  "\<exists>bd'. drive build scripted_call sp_profile ''r'' (sample_loop, sample_builder, sample_script)
    = (Inr (lr_state tool_run), tool_run, bd', sample_script\<lparr>sp_responses := []\<rparr>)"
proof -
  obtain bd' where b: "build (lr_context sample_loop) (lr_context_budget sample_loop) sample_builder = (Inr sample_context, bd')"
    using sample_loop_built by (cases "build (lr_context sample_loop) (lr_context_budget sample_loop) sample_builder") simp
  have "turn_request (start_call ''r'' sample_profile (start_turn sample_loop)) sample_context = turn_request sample_loop sample_context"
    by (simp add: turn_request_def start_call_def start_turn_def request_messages_def)
  then show ?thesis
    using sample_held b sample_request_valid
    by (simp add: drive_def scripted_call_def sample_script_def tool_run_def Let_def)
qed

lemma tool_run_governed: "governed build scripted_call sp_profile ''r'' default_loop_budget 1 tool_run"
proof -
  have "governed build scripted_call sp_profile ''r'' default_loop_budget 0 sample_loop"
    by (rule governed.accepted [OF sample_loop_new])
  moreover have "loop_step build scripted_call sp_profile ''r'' sample_loop 1 tool_run"
  proof -
    obtain bd' where d: "drive build scripted_call sp_profile ''r'' (sample_loop, sample_builder, sample_script)
        = (Inr (lr_state tool_run), tool_run, bd', sample_script\<lparr>sp_responses := []\<rparr>)"
      using sample_drive by blast
    have "lr_effect sample_loop = NoEffect" by (simp add: sample_loop_def)
    from loop_step.step_turn [OF sample_held this d] show ?thesis .
  qed
  ultimately show ?thesis using governed.advanced by fastforce
qed

lemma loop_keeps_budget_witness: "(1::nat) \<le> unat (bg_max_turns default_loop_budget)"
  using loop_keeps_budget [OF tool_run_governed] by simp

definition ended_run :: loop_run where
  "ended_run = terminate run_status.Aborted UserCancel tool_run"

lemma ended_stays_ended_witness: "is_terminal (lr_state (ended_run\<lparr>lr_context := sample_run\<rparr>))"
proof -
  have "governed build scripted_call sp_profile ''r'' default_loop_budget 1 ended_run"
    unfolding ended_run_def using governed.advanced [OF tool_run_governed loop_step.step_terminate] by simp
  moreover have "is_terminal (lr_state ended_run)" by (simp add: ended_run_def)
  ultimately show ?thesis
    using ended_stays_ended loop_step.step_context [of build scripted_call sp_profile "''r''" ended_run sample_run] by blast
qed

lemma requests_typed_witness:
  "request_validate (turn_request sample_loop sample_context) = Inr () \<and>
    list_all typed_message (req_messages (turn_request sample_loop sample_context))"
proof -
  have "governed build (chat_call (\<lambda>_. []) (\<lambda>_. None) (\<lambda>_. fails [])) ch_profile ''r'' default_loop_budget 0 sample_loop"
    by (rule governed.accepted [OF sample_loop_new])
  from requests_typed [OF this sample_loop_built] show ?thesis
    by (simp add: list_all_iff sample_messages message_input_def message_instruction_def owner_provenance_def)
qed




lemma context_sent_as_instruction_witness:
  "\<exists>m rest pre post. request_messages sample_loop sample_context = m # rest \<and> msg_treatment m = InstructionContent
    \<and> transport_content m = pre @ ''obey me'' @ post"
proof -
  have "web_section \<in> set (mc_sections sample_context)"
    by (simp add: sample_context_def context_spec_def rule_section_def web_section_def Let_def)
  from context_sent_as_instruction [OF sample_loop_built this, of sample_loop] show ?thesis
    by (auto simp: web_section_def)
qed

end
