(* ===== verification/Selection.thy ===== *)
theory Selection
  imports Capabilities Strategy_Specs "HOL-Library.Product_Lexorder" "HOL-Library.Multiset"
begin

text \<open>
  The selection of resources under a selection strategy (\<open>crates/capabilities/src/m3_b.rs\<close>): the registry
  of strategies, the set of candidates that were authorised before ranking, the score of a candidate from
  verified evidence and recorded failures, and the ranking. Scores are \<open>i128\<close> sums of products that stay far
  below the bounds of that type, so they are integers.
\<close>

subsection \<open>The registry\<close>

definition selection_with_seed :: "selection_strategy \<Rightarrow> selection_strategy registry result" where
  "selection_with_seed = registry_with_seed selection_strategy_validate ss_version"

definition selection_register ::
  "selection_strategy \<Rightarrow> selection_strategy registry \<Rightarrow> unit result \<times> selection_strategy registry" where
  "selection_register = registry_register selection_strategy_validate ss_version
     ''selection strategy version is already bound to different content''"

definition selection_resolve :: "string \<Rightarrow> selection_strategy registry \<Rightarrow> selection_strategy result" where
  "selection_resolve = registry_resolve ''unsupported selection strategy version ''"

interpretation selections: strategy_registry selection_strategy_validate ss_version selection_register selection_resolve
  unfolding selection_register_def selection_resolve_def by (rule registry_laws)

subsection \<open>Candidates\<close>

record selection_candidate =
  sca_schema_version :: schema_version
  sca_reference :: string
  sca_evidence_key :: capability_ref
  sca_cost_microunits :: u64
  sca_latency_ms :: u64
  sca_compatible :: bool
  sca_lifecycle_active :: bool
  sca_managed_allowed :: bool
  sca_permission_allowed :: bool
  sca_scope_allowed :: bool

record prefiltered_set =
  pf_target :: selection_target
  pf_candidates :: "selection_candidate list"

text \<open>\<open>filter\<close> with \<open>seen.insert\<close>: the first candidate of each reference.\<close>

fun first_seen :: "string set \<Rightarrow> selection_candidate list \<Rightarrow> selection_candidate list" where
  "first_seen seen [] = []"
| "first_seen seen (c # cs) =
     (if sca_reference c \<in> seen then first_seen seen cs
      else c # first_seen (insert (sca_reference c) seen) cs)"

definition admissible_candidate :: "string list \<Rightarrow> selection_candidate \<Rightarrow> bool" where
  "admissible_candidate authorized c \<longleftrightarrow> sca_lifecycle_active c \<and> sca_managed_allowed c \<and> sca_permission_allowed c
     \<and> sca_scope_allowed c \<and> sca_reference c \<in> set authorized"

definition from_authorized ::
  "selection_target \<Rightarrow> selection_candidate list \<Rightarrow> string list \<Rightarrow> prefiltered_set result" where
  "from_authorized target cs authorized =
     (if \<exists>c\<in>set cs. sca_schema_version c = 0 \<or> blank (sca_reference c) \<or> blank (sca_evidence_key c)
      then fails ''selection candidate is incomplete''
      else Inr \<lparr>pf_target = target, pf_candidates = first_seen {} (filter (admissible_candidate authorized) cs)\<rparr>)"

definition toolset_candidate :: "toolset_item \<Rightarrow> selection_candidate" where
  "toolset_candidate i = \<lparr>sca_schema_version = ti_schema_version i, sca_reference = ti_id i, sca_evidence_key = ti_id i,
     sca_cost_microunits = 0, sca_latency_ms = 0, sca_compatible = True, sca_lifecycle_active = True,
     sca_managed_allowed = True, sca_permission_allowed = True, sca_scope_allowed = True\<rparr>"

definition from_toolset :: "toolset \<Rightarrow> prefiltered_set result" where
  "from_toolset ts =
     (if ts_schema_version ts = 0 \<or> blank (toolset_ref ts) then fails ''resolved toolset is incomplete''
      else from_authorized CapabilityTarget (map toolset_candidate (items ts)) (map ti_id (items ts)))"

subsection \<open>Evidence\<close>

record selection_evidence =
  sev_schema_version :: schema_version
  sev_capability :: "capability_evidence list"
  sev_failures :: "(capability_ref, string list) btree_map"

definition is_verified :: "capability_evidence \<Rightarrow> bool" where
  "is_verified e \<longleftrightarrow> to_ascii_lowercase (ce_reliability e) \<in> {''verified'', ''independent'', ''owner-verified''}"

definition is_success :: "string \<Rightarrow> bool" where
  "is_success v \<longleftrightarrow> to_ascii_lowercase v \<in> {''pass'', ''passed'', ''success'', ''succeeded''}"

definition is_failure :: "string \<Rightarrow> bool" where
  "is_failure v \<longleftrightarrow> to_ascii_lowercase v \<in> {''fail'', ''failed'', ''failure'', ''revoked''}"

definition matching :: "selection_evidence \<Rightarrow> selection_candidate \<Rightarrow> capability_evidence list" where
  "matching ev c = filter (\<lambda>e. ce_capability e = sca_evidence_key c) (sev_capability ev)"

definition verified_success :: "selection_evidence \<Rightarrow> selection_candidate \<Rightarrow> int" where
  "verified_success ev c = int (length (filter (\<lambda>e. is_verified e \<and> is_success (ce_outcome e)) (matching ev c)))"

definition verified_failure :: "selection_evidence \<Rightarrow> selection_candidate \<Rightarrow> int" where
  "verified_failure ev c = int (length (filter (\<lambda>e. is_verified e \<and> is_failure (ce_outcome e)) (matching ev c)))
     + (case bm_get (sev_failures ev) (sca_evidence_key c) of None \<Rightarrow> 0 | Some fs \<Rightarrow> int (length fs))"

definition reliability_count :: "selection_evidence \<Rightarrow> selection_candidate \<Rightarrow> int" where
  "reliability_count ev c = int (length (filter is_verified (matching ev c)))"

definition evidence_refs :: "selection_evidence \<Rightarrow> selection_candidate \<Rightarrow> string list" where
  "evidence_refs ev c = map (\<lambda>e. ''capability-evidence:'' @ ce_capability e @ '':'' @ ce_outcome e @ '':'' @ ce_reliability e)
     (filter is_verified (matching ev c))"

subsection \<open>Ranking\<close>

text \<open>The weight of a feature, 0 when the strategy has none; validation gives every strategy the first three.\<close>

definition feature_weight :: "selection_strategy \<Rightarrow> selection_feature \<Rightarrow> int" where
  "feature_weight s f = (case map_of (rev (map (\<lambda>w. (fw_feature w, fw_weight_basis_points w)) (ss_weights s))) f of
     None \<Rightarrow> 0 | Some w \<Rightarrow> int (unat w))"

definition score :: "selection_strategy \<Rightarrow> selection_evidence \<Rightarrow> selection_candidate \<Rightarrow> int" where
  "score s ev c =
     feature_weight s VerifiedSuccess * verified_success ev c
     - feature_weight s FailurePenalty * verified_failure ev c
     + feature_weight s Compatibility * (if sca_compatible c then 1 else 0)
     + feature_weight s ReliabilityFeature * reliability_count ev c
     - feature_weight s CostFeature * int (unat (min (sca_cost_microunits c) 10000))
     - feature_weight s LatencyFeature * int (unat (min (sca_latency_ms c) 10000))"

text \<open>The comparison of the sort as a key: higher scores first, then the tie breaker, the reference and the position.\<close>

definition tie_key :: "selection_strategy \<Rightarrow> selection_evidence \<Rightarrow> selection_candidate \<Rightarrow> int" where
  "tie_key s ev c = (case ss_tie_breaker s of
       StableIdentity \<Rightarrow> 0
     | LowerCost \<Rightarrow> int (unat (sca_cost_microunits c))
     | RecentVerifiedSuccess \<Rightarrow> - verified_success ev c)"

definition rank_key :: "selection_strategy \<Rightarrow> selection_evidence \<Rightarrow> nat \<times> selection_candidate \<Rightarrow> int \<times> int \<times> string \<times> nat" where
  "rank_key s ev = (\<lambda>(i, c). (- score s ev c, tie_key s ev c, sca_reference c, i))"

definition eligible :: "selection_strategy \<Rightarrow> selection_evidence \<Rightarrow> selection_candidate \<Rightarrow> bool" where
  "eligible s ev c \<longleftrightarrow> 0 < verified_success ev c \<or> ss_fallback s = SeedOrder"

definition scored :: "selection_strategy \<Rightarrow> prefiltered_set \<Rightarrow> selection_evidence \<Rightarrow> (nat \<times> selection_candidate) list" where
  "scored s pf ev = sort_key (rank_key s ev) (filter (\<lambda>(i, c). eligible s ev c) (List.enumerate 0 (pf_candidates pf)))"

record ranked_selection =
  rs_strategy :: string
  rs_considered :: "string list"
  rs_ordered :: "string list"
  rs_verified_evidence :: "(string, string list) btree_map"

definition rank_prefiltered ::
  "selection_strategy \<Rightarrow> prefiltered_set \<Rightarrow> selection_evidence \<Rightarrow> ranked_selection result" where
  "rank_prefiltered s pf ev =
     and_then (selection_strategy_validate s) (\<lambda>_.
     and_then (ensure (\<not> (sev_schema_version ev = 0 \<or> ss_target s \<noteq> pf_target pf))
       ''selection evidence or target does not match the active strategy'') (\<lambda>_.
     let chosen = map snd (take (unat (ss_max_results s)) (scored s pf ev)) in
     Inr \<lparr>rs_strategy = ss_version s, rs_considered = map sca_reference (pf_candidates pf),
       rs_ordered = map sca_reference chosen,
       rs_verified_evidence = bm_collect (map (\<lambda>c. (sca_reference c, evidence_refs ev c)) chosen)\<rparr>))"

subsection \<open>What is selected\<close>

lemma first_seen_set: "set (first_seen seen cs) \<subseteq> set cs"
  by (induction cs arbitrary: seen) (auto split: if_splits)

lemma first_seen_distinct:
  "distinct (map sca_reference (first_seen seen cs)) \<and> sca_reference ` set (first_seen seen cs) \<inter> seen = {}"
  by (induction cs arbitrary: seen) auto

lemma from_authorized_Inr:
  assumes "from_authorized target cs authorized = Inr pf"
  shows "distinct (map sca_reference (pf_candidates pf))"
    "c \<in> set (pf_candidates pf) \<Longrightarrow> c \<in> set cs \<and> admissible_candidate authorized c"
  using assms first_seen_set [of "{}" "filter (admissible_candidate authorized) cs"]
    first_seen_distinct [of "{}" "filter (admissible_candidate authorized) cs"]
  by (auto simp: from_authorized_def split: if_splits)

lemma enumerated_set: "snd ` set (filter (\<lambda>(i, c). P c) (List.enumerate n xs)) = {c \<in> set xs. P c}"
  by (induction xs arbitrary: n) auto

lemma scored_facts:
  "snd ` set (scored s pf ev) = {c \<in> set (pf_candidates pf). eligible s ev c}"
  "sorted (map (rank_key s ev) (scored s pf ev))"
  unfolding scored_def set_sort enumerated_set by simp_all

lemma scored_distinct: "distinct (map sca_reference (pf_candidates pf)) \<Longrightarrow> distinct (map (sca_reference \<circ> snd) (scored s pf ev))"
proof -
  assume d: "distinct (map sca_reference (pf_candidates pf))"
  let ?es = "filter (\<lambda>(i, c). eligible s ev c) (List.enumerate 0 (pf_candidates pf))"
  have "map (sca_reference \<circ> snd) (List.enumerate 0 (pf_candidates pf)) = map sca_reference (pf_candidates pf)"
    by (simp flip: map_map)
  then have "distinct (map (sca_reference \<circ> snd) ?es)" using d by (metis distinct_map_filter)
  moreover have "mset (map (sca_reference \<circ> snd) (scored s pf ev)) = mset (map (sca_reference \<circ> snd) ?es)"
    by (simp add: scored_def)
  ultimately show ?thesis by (metis mset_eq_imp_distinct_iff)
qed

text \<open>C34: A ranking names only authorised candidates, each once and at most as many as the strategy allows: it is the head
  of the eligible candidates in the order of their rank, so no eligible candidate left out ranks before one
  that is selected. Without verified success a candidate is selected only if the strategy falls back to the
  seed order.\<close>

theorem selection_exact:
  assumes "from_authorized target cs authorized = Inr pf" and "rank_prefiltered s pf ev = Inr sel"
  shows "\<exists>chosen left. rs_ordered sel = map (sca_reference \<circ> snd) chosen \<and> distinct (rs_ordered sel)
    \<and> length (rs_ordered sel) \<le> unat (ss_max_results s)
    \<and> set (rs_ordered sel) \<subseteq> set authorized
    \<and> snd ` set (chosen @ left) = {c \<in> set (pf_candidates pf). 0 < verified_success ev c \<or> ss_fallback s = SeedOrder}
    \<and> (left \<noteq> [] \<longrightarrow> length chosen = unat (ss_max_results s))
    \<and> sorted (map (rank_key s ev) (chosen @ left))"
proof -
  let ?all = "scored s pf ev" and ?k = "unat (ss_max_results s)"
  have ordered: "rs_ordered sel = map (sca_reference \<circ> snd) (take ?k ?all)"
    using assms(2) by (auto simp: rank_prefiltered_def and_then_Inr_iff Let_def)
  moreover have "distinct (map (sca_reference \<circ> snd) ?all)"
    using scored_distinct from_authorized_Inr(1) [OF assms(1)] by blast
  then have "distinct (map (sca_reference \<circ> snd) (take ?k ?all))" by (simp flip: take_map add: distinct_take)
  moreover have "set (rs_ordered sel) \<subseteq> set authorized"
  proof
    fix v
    assume "v \<in> set (rs_ordered sel)"
    then obtain x where "x \<in> set ?all" "v = sca_reference (snd x)"
      using ordered by (auto dest: in_set_takeD)
    then show "v \<in> set authorized"
      using scored_facts(1) [of s pf ev] from_authorized_Inr(2) [OF assms(1)] by (force simp: admissible_candidate_def)
  qed
  moreover have "snd ` set (take ?k ?all @ drop ?k ?all) = {c \<in> set (pf_candidates pf). 0 < verified_success ev c \<or> ss_fallback s = SeedOrder}"
    using scored_facts(1) [of s pf ev] by (simp add: eligible_def)
  moreover have "drop ?k ?all \<noteq> [] \<longrightarrow> length (take ?k ?all) = ?k" by auto
  moreover have "sorted (map (rank_key s ev) (take ?k ?all @ drop ?k ?all))" using scored_facts(2) by simp
  ultimately show ?thesis by (intro exI [of _ "take ?k ?all"] exI [of _ "drop ?k ?all"]) simp
qed

text \<open>Evidence that nobody verified changes nothing, wherever it stands.\<close>

theorem unverified_evidence_ignored:
  assumes "\<not> is_verified e" and "sev_capability ev = xs @ ys"
  shows "rank_prefiltered s pf (ev\<lparr>sev_capability := xs @ e # ys\<rparr>) = rank_prefiltered s pf ev"
proof -
  let ?ev = "ev\<lparr>sev_capability := xs @ e # ys\<rparr>"
  have filters: "filter (\<lambda>e. is_verified e \<and> P e) (matching ?ev c) = filter (\<lambda>e. is_verified e \<and> P e) (matching ev c)" for P c
    using assms by (simp add: matching_def)
  have "verified_success ?ev = verified_success ev" "verified_failure ?ev = verified_failure ev"
    "reliability_count ?ev = reliability_count ev" "evidence_refs ?ev = evidence_refs ev"
    using filters filters [of "\<lambda>_. True"]
    by (simp_all add: fun_eq_iff verified_success_def verified_failure_def reliability_count_def evidence_refs_def)
  then have "rank_key s ?ev = rank_key s ev" "eligible s ?ev = eligible s ev" "evidence_refs ?ev = evidence_refs ev"
    by (simp_all add: fun_eq_iff rank_key_def score_def tie_key_def eligible_def split: selection_tie_breaker.split)
  then show ?thesis by (simp add: rank_prefiltered_def scored_def)
qed

end
