(* ===== verification/Coordination_Strategy.thy ===== *)
theory Coordination_Strategy
  imports Strategy_Facts Strategy_Specs Route_Graph "HOL-Library.Product_Lexorder"
begin

text \<open>
  How an active coordination strategy reshapes a route (\<open>crates/coordination/src/m3_b.rs\<close>): the registry of
  strategies, the comparison of a candidate's outcomes with a baseline, and the selection of the nodes with
  the heaviest roles.
\<close>

subsection \<open>The registry\<close>

definition coordination_with_seed :: "coordination_strategy \<Rightarrow> coordination_strategy registry result" where
  "coordination_with_seed = registry_with_seed coordination_strategy_validate cst_version"

definition coordination_register ::
  "coordination_strategy \<Rightarrow> coordination_strategy registry \<Rightarrow> unit result \<times> coordination_strategy registry" where
  "coordination_register = registry_register coordination_strategy_validate cst_version
     ''coordination strategy version is already bound to different content''"

definition coordination_resolve :: "string \<Rightarrow> coordination_strategy registry \<Rightarrow> coordination_strategy result" where
  "coordination_resolve = registry_resolve ''unsupported coordination strategy version ''"

interpretation coordinations:
  strategy_registry coordination_strategy_validate cst_version coordination_register coordination_resolve
  unfolding coordination_register_def coordination_resolve_def by (rule registry_laws)

subsection \<open>Fitness\<close>

record coordination_metrics =
  me_schema_version :: schema_version
  me_verified_complete :: bool
  me_correctness_basis_points :: u16
  me_cost_microunits :: u64
  me_latency_ms :: u64
  me_delegated_children :: u16
  me_required_children :: u16
  me_handoff_failures :: u16

definition metrics_validate :: "coordination_metrics \<Rightarrow> unit result" where
  "metrics_validate m =
     ensure (\<not> (me_schema_version m = 0 \<or> 10000 < me_correctness_basis_points m
         \<or> me_delegated_children m < me_required_children m))
       ''coordination fitness input is invalid''"

definition over_delegation :: "coordination_metrics \<Rightarrow> u16" where
  "over_delegation m = me_delegated_children m - me_required_children m"

record coordination_fitness =
  cf_verdict :: evaluation_verdict
  cf_hard_failures :: "string list"
  cf_candidate_improvements :: "string list"

definition hard_failures :: "coordination_metrics \<Rightarrow> coordination_metrics \<Rightarrow> string list" where
  "hard_failures base cand =
     (if me_verified_complete cand then [] else [''candidate result is not independently complete''])
     @ (if me_correctness_basis_points cand < me_correctness_basis_points base then [''candidate correctness regressed''] else [])
     @ (if me_handoff_failures base < me_handoff_failures cand then [''candidate handoff failures increased''] else [])
     @ (if over_delegation base < over_delegation cand then [''candidate over-delegation increased''] else [])"

definition improvements :: "coordination_metrics \<Rightarrow> coordination_metrics \<Rightarrow> string list" where
  "improvements base cand =
     (if me_correctness_basis_points base < me_correctness_basis_points cand then [''correctness''] else [])
     @ (if me_cost_microunits cand < me_cost_microunits base then [''cost''] else [])
     @ (if me_latency_ms cand < me_latency_ms base then [''latency''] else [])
     @ (if over_delegation cand < over_delegation base then [''over-delegation''] else [])"

definition compare_coordination_fitness ::
  "coordination_metrics \<Rightarrow> coordination_metrics \<Rightarrow> coordination_fitness result" where
  "compare_coordination_fitness base cand =
     and_then (metrics_validate base) (\<lambda>_.
     and_then (metrics_validate cand) (\<lambda>_.
     Inr \<lparr>cf_verdict = (if hard_failures base cand \<noteq> [] then evaluation_verdict.Fail
         else if \<not> me_verified_complete base \<or> improvements base cand = [] then evaluation_verdict.Unverifiable
         else evaluation_verdict.Pass),
       cf_hard_failures = hard_failures base cand, cf_candidate_improvements = improvements base cand\<rparr>))"

text \<open>A candidate that passes is complete, regresses in nothing the comparison guards, and is better somewhere.\<close>

lemma fitness_pass:
  assumes "compare_coordination_fitness base cand = Inr f"
  shows "cf_verdict f = evaluation_verdict.Pass \<longleftrightarrow> me_verified_complete base \<and> me_verified_complete cand
    \<and> me_correctness_basis_points base \<le> me_correctness_basis_points cand
    \<and> me_handoff_failures cand \<le> me_handoff_failures base
    \<and> unat (me_delegated_children cand) - unat (me_required_children cand)
      \<le> unat (me_delegated_children base) - unat (me_required_children base)
    \<and> improvements base cand \<noteq> []"
proof -
  have exact: "unat (over_delegation m) = unat (me_delegated_children m) - unat (me_required_children m)"
    if "metrics_validate m = Inr ()" for m
    using that by (simp add: metrics_validate_def over_delegation_def unat_sub not_less)
  have "metrics_validate base = Inr ()" "metrics_validate cand = Inr ()"
    using assms by (auto simp: compare_coordination_fitness_def and_then_Inr_iff)
  then show ?thesis
    using assms exact [of base] exact [of cand]
    by (auto simp: compare_coordination_fitness_def and_then_Inr_iff hard_failures_def not_less word_le_nat_alt
        word_less_nat_alt split: if_splits)
qed

subsection \<open>Applying a strategy\<close>

record applied_route =
  ap_strategy :: string
  ap_checkpoint_topology :: checkpoint_topology
  ap_route :: execution_route

definition role_weights_of :: "coordination_strategy \<Rightarrow> (string, u16) btree_map" where
  "role_weights_of s = bm_collect (map (\<lambda>w. (rw_role w, rw_weight_basis_points w)) (cst_role_weights s))"

text \<open>Every role of the route has a weight when nodes are ordered; the code would panic otherwise.\<close>

definition node_weight :: "coordination_strategy \<Rightarrow> route_node \<Rightarrow> u16" where
  "node_weight s n = (case bm_get (role_weights_of s) (sp_role (role n)) of Some w \<Rightarrow> w | None \<Rightarrow> 0)"

definition subagent_limit :: "coordination_strategy \<Rightarrow> nat" where
  "subagent_limit s = (case cst_mode s of Single \<Rightarrow> 1 | Multi \<Rightarrow> unat (cst_max_subagents s))"

text \<open>Heavier roles first, then the smaller identifier.\<close>

definition node_rank :: "coordination_strategy \<Rightarrow> route_node \<Rightarrow> int \<times> string" where
  "node_rank s n = (- int (unat (node_weight s n)), node_id n)"

definition selected_nodes :: "coordination_strategy \<Rightarrow> execution_route \<Rightarrow> route_node list" where
  "selected_nodes s r = take (min (subagent_limit s) (length (nodes r))) (sort_key (node_rank s) (nodes r))"

definition selected_ids :: "coordination_strategy \<Rightarrow> execution_route \<Rightarrow> string set" where
  "selected_ids s r = set (map node_id (selected_nodes s r))"

definition apply_coordination_strategy :: "coordination_strategy \<Rightarrow> execution_route \<Rightarrow> applied_route result" where
  "apply_coordination_strategy s r =
     and_then (coordination_strategy_validate s) (\<lambda>_.
     and_then (ok_or (pattern_ref r) ''coordination strategy requires an identified work pattern'') (\<lambda>pattern.
     and_then (ensure (\<exists>p\<in>set (cst_patterns s). cpt_pattern p = pattern)
       ''execution route pattern is outside the active coordination strategy'') (\<lambda>_.
     and_then (ensure (\<not> (\<exists>n\<in>set (nodes r). bm_get (role_weights_of s) (sp_role (role n)) = None))
       ''execution route contains a role absent from the active strategy'') (\<lambda>_.
     Inr \<lparr>ap_strategy = cst_version s, ap_checkpoint_topology = cst_checkpoint_topology s,
       ap_route = \<lparr>er_schema_version = er_schema_version r, er_reference = er_reference r, pattern_ref = pattern_ref r,
         nodes = filter (\<lambda>n. node_id n \<in> selected_ids s r) (nodes r),
         edges = filter (\<lambda>e. edge_from e \<in> selected_ids s r \<and> edge_to e \<in> selected_ids s r) (edges r)\<rparr>\<rparr>))))"

lemma apply_Inr:
  assumes "apply_coordination_strategy s r = Inr a"
  shows "coordination_strategy_validate s = Inr ()" "nodes (ap_route a) = filter (\<lambda>n. node_id n \<in> selected_ids s r) (nodes r)"
    "edges (ap_route a) = filter (\<lambda>e. edge_from e \<in> selected_ids s r \<and> edge_to e \<in> selected_ids s r) (edges r)"
    "er_schema_version (ap_route a) = er_schema_version r" "er_reference (ap_route a) = er_reference r"
  using assms by (auto simp: apply_coordination_strategy_def and_then_Inr_iff)

lemma selected_subset: "set (selected_nodes s r) \<subseteq> set (nodes r)"
  using set_take_subset [of "min (subagent_limit s) (length (nodes r))" "sort_key (node_rank s) (nodes r)"]
  by (simp add: selected_nodes_def)

lemma length_selected: "length (selected_nodes s r) = min (subagent_limit s) (length (nodes r))"
  by (simp add: selected_nodes_def)

lemma kept_is_selected:
  assumes "distinct (map node_id (nodes r))" "n \<in> set (nodes r)"
  shows "node_id n \<in> selected_ids s r \<longleftrightarrow> n \<in> set (selected_nodes s r)"
proof -
  have "inj_on node_id (set (nodes r))" using assms(1) by (simp add: distinct_map)
  then show ?thesis using selected_subset [of s r] assms(2) by (auto simp: selected_ids_def inj_on_def)
qed

lemma kept_count:
  assumes "distinct (map node_id (nodes r))"
  shows "length (filter (\<lambda>n. node_id n \<in> selected_ids s r) (nodes r)) = min (subagent_limit s) (length (nodes r))"
proof -
  have d: "distinct (nodes r)" using assms by (simp add: distinct_map)
  then have "distinct (selected_nodes s r)" by (simp add: selected_nodes_def)
  moreover have "set (filter (\<lambda>n. node_id n \<in> selected_ids s r) (nodes r)) = set (selected_nodes s r)"
    using kept_is_selected [OF assms] selected_subset [of s r] by auto
  ultimately show ?thesis using d length_selected [of s r] by (metis distinct_card distinct_filter)
qed

lemma selected_before_left:
  assumes "n \<in> set (selected_nodes s r)" "m \<in> set (nodes r)" "m \<notin> set (selected_nodes s r)"
  shows "node_rank s n \<le> node_rank s m"
proof -
  let ?sorted = "sort_key (node_rank s) (nodes r)" and ?k = "min (subagent_limit s) (length (nodes r))"
  have sorted: "sorted (map (node_rank s) (take ?k ?sorted @ drop ?k ?sorted))" by simp
  have "m \<in> set (drop ?k ?sorted)"
  proof -
    have "m \<in> set (take ?k ?sorted @ drop ?k ?sorted)" unfolding append_take_drop_id using assms(2) by simp
    then show ?thesis using assms(3) by (auto simp only: set_append Un_iff selected_nodes_def)
  qed
  then show ?thesis using sorted assms(1) by (simp only: map_append sorted_append) (simp add: selected_nodes_def)
qed

text \<open>C35: A strategy applied to a valid route gives a valid route again: it keeps as many nodes as the strategy admits,
  those with the heaviest roles (then the smallest identifiers), in their order, and exactly the edges
  between them; so a node that is kept loses the prerequisites that are not.\<close>

theorem applied_route_exact:
  assumes "apply_coordination_strategy s r = Inr a" and "validate_route r = Inr ()"
  shows "validate_route (ap_route a) = Inr ()
    \<and> length (nodes (ap_route a)) = min (subagent_limit s) (length (nodes r)) \<and> 1 \<le> subagent_limit s \<and> subagent_limit s \<le> 16
    \<and> (\<forall>n\<in>set (nodes (ap_route a)). \<forall>m\<in>set (nodes r) - set (nodes (ap_route a)). node_rank s n \<le> node_rank s m)
    \<and> (\<forall>e. e \<in> set (edges (ap_route a)) \<longleftrightarrow>
        e \<in> set (edges r) \<and> edge_from e \<in> route_ids (ap_route a) \<and> edge_to e \<in> route_ids (ap_route a))"
proof -
  note ap = apply_Inr [OF assms(1)]
  have wf: "well_formed_route r" using assms(2) by (simp add: validate_route_ok)
  have d: "distinct (map node_id (nodes r))" using wf by (simp add: well_formed_route_def)
  have ids: "route_ids (ap_route a) = selected_ids s r"
    using kept_is_selected [OF d] selected_subset [of s r] by (force simp: route_ids_def ap selected_ids_def)
  have "edge_rel (edges (ap_route a)) \<subseteq> edge_rel (edges r)" by (auto simp: edge_rel_def ap)
  then have "acyclic (edge_rel (edges (ap_route a)))"
    using wf by (auto simp: well_formed_route_def intro: acyclic_subset)
  moreover have "distinct (map node_id (nodes (ap_route a)))" using d by (simp add: ap distinct_map_filter)
  ultimately have "well_formed_route (ap_route a)"
    using wf ids by (auto simp: well_formed_route_def ap)
  moreover have "1 \<le> subagent_limit s \<and> subagent_limit s \<le> 16"
    using ap(1) by (auto simp: subagent_limit_def coordination_strategy_validate_def and_then_Inr_iff word_le_nat_alt
        not_less unat_gt_0 Suc_le_eq split: coordination_mode.split)
  moreover have "node_rank s n \<le> node_rank s m"
    if "n \<in> set (nodes (ap_route a))" "m \<in> set (nodes r) - set (nodes (ap_route a))" for n m
    using that kept_is_selected [OF d] selected_before_left [of n s r m] by (auto simp: ap)
  ultimately show ?thesis
    using kept_count [OF d] ids by (auto simp: validate_route_ok ap(2,3))
qed

end
