(* ===== verification/Strategy_Witnesses.thy ===== *)
theory Strategy_Witnesses
  imports Selection Coordination_Strategy
begin

text \<open>Concrete strategies: one that keeps a single writer of the review route, and one that ranks two tools.\<close>

definition plain_compatibility :: runtime_compatibility where
  "plain_compatibility = \<lparr>rtc_schema_version = 1, rtc_minimum_runtime_schema = 1, rtc_event_schema = 1, rtc_model_profile = None,
     rtc_tool_schema = None, rtc_backend_schema = None\<rparr>"

definition single_writer :: coordination_strategy where
  "single_writer = \<lparr>cst_schema_version = 1, cst_version = ''v1'', cst_scope = ''ws'', cst_content_ref = ''c'', cst_content_digest = ''d'',
     cst_compatibility = plain_compatibility,
     cst_applicability = \<lparr>ca_schema_version = 1, ca_scale = coordination_task_scale.SingleTask,
       ca_decomposability = coordination_decomposability.Whole, ca_verifiability = coordination_verifiability.SelfCheck\<rparr>,
     cst_patterns = [\<lparr>cpt_schema_version = 1, cpt_pattern = ''pattern:review-gate'', cpt_topology = coordination_topology.ReviewGate\<rparr>],
     cst_mode = Single, cst_role_weights = [\<lparr>rw_schema_version = 1, rw_role = ''writer'', rw_weight_basis_points = 10000\<rparr>],
     cst_max_subagents = 1, cst_checkpoint_topology = PerRoute\<rparr>"

definition review_route :: execution_route where
  "review_route = route (Some (seed_patterns ! 2)) example_frame"

lemma review_route_parts:
  "map node_id (nodes review_route) = [''node-'' @ show_nat 0, ''node-'' @ show_nat 1]"
  "\<forall>n\<in>set (nodes review_route). sp_role (role n) = ''writer''"
  "pattern_ref review_route = Some ''pattern:review-gate''"
  by (simp_all add: review_route_def route_def Let_def seed_patterns_def seed_pattern_def example_frame_def frame_def
      seed_node_def example_profile_def numeral_2_eq_2)

lemma single_writer_valid: "coordination_strategy_validate single_writer = Inr ()"
  by (simp add: coordination_strategy_validate_def validate_spec_identity_def compatibility_validate_def blank_option_def
      single_writer_def plain_compatibility_def checked_add_def)

lemma single_writer_patterns: "map cpt_pattern (cst_patterns single_writer) = [''pattern:review-gate'']"
    "cst_patterns single_writer \<noteq> []" "p \<in> set (cst_patterns single_writer) \<longleftrightarrow> p = hd (cst_patterns single_writer)"
    "cpt_pattern (hd (cst_patterns single_writer)) = ''pattern:review-gate''"
  by (simp_all add: single_writer_def)

lemma applied_route_exact_witness:
  "\<exists>a. apply_coordination_strategy single_writer review_route = Inr a \<and> validate_route (ap_route a) = Inr ()
    \<and> length (nodes (ap_route a)) = 1"
proof -
  have "validate_route review_route = Inr ()"
    unfolding review_route_def by (rule seed_route_ok [OF example_frame_valid])
  moreover have "\<forall>n\<in>set (nodes review_route). bm_get (role_weights_of single_writer) (sp_role (role n)) \<noteq> None"
    using review_route_parts(2) by (simp add: role_weights_of_def single_writer_def bm_get_collect)
  then obtain a where a: "apply_coordination_strategy single_writer review_route = Inr a"
    using single_writer_valid review_route_parts(3)
    by (auto simp: apply_coordination_strategy_def single_writer_patterns)
  moreover have "length (nodes review_route) = 2" using review_route_parts(1) by (metis length_map length_Cons list.size(3) numeral_2_eq_2)
  ultimately show ?thesis using applied_route_exact [OF a] by (auto simp: subagent_limit_def single_writer_def)
qed

definition tool_ranking :: selection_strategy where
  "tool_ranking = \<lparr>ss_schema_version = 1, ss_version = ''v1'', ss_scope = ''ws'', ss_content_ref = ''c'', ss_content_digest = ''d'',
     ss_compatibility = plain_compatibility, ss_target = CapabilityTarget,
     ss_weights = [\<lparr>fw_schema_version = 1, fw_feature = VerifiedSuccess, fw_weight_basis_points = 4000\<rparr>,
       \<lparr>fw_schema_version = 1, fw_feature = FailurePenalty, fw_weight_basis_points = 3000\<rparr>,
       \<lparr>fw_schema_version = 1, fw_feature = Compatibility, fw_weight_basis_points = 3000\<rparr>],
     ss_tie_breaker = StableIdentity, ss_fallback = NoSelection, ss_max_results = 1\<rparr>"

definition tool_candidate :: "string \<Rightarrow> selection_candidate" where
  "tool_candidate name = \<lparr>sca_schema_version = 1, sca_reference = name, sca_evidence_key = name, sca_cost_microunits = 0,
     sca_latency_ms = 0, sca_compatible = True, sca_lifecycle_active = True, sca_managed_allowed = True,
     sca_permission_allowed = True, sca_scope_allowed = True\<rparr>"

definition tool_set :: prefiltered_set where
  "tool_set = \<lparr>pf_target = CapabilityTarget, pf_candidates = [tool_candidate ''grep'', tool_candidate ''sed'']\<rparr>"

lemma tool_set_built:
  "from_authorized CapabilityTarget [tool_candidate ''grep'', tool_candidate ''rm'', tool_candidate ''sed''] [''grep'', ''sed''] = Inr tool_set"
  by (simp add: from_authorized_def tool_candidate_def tool_set_def admissible_candidate_def)

lemma tool_ranking_valid: "selection_strategy_validate tool_ranking = Inr ()"
  by (simp add: selection_strategy_validate_def validate_spec_identity_def compatibility_validate_def blank_option_def
      tool_ranking_def plain_compatibility_def checked_add_def)

definition sed_passed :: capability_evidence where
  "sed_passed = \<lparr>ce_schema_version = 1, ce_capability = ''sed'', ce_outcome = ''passed'', ce_reliability = ''verified''\<rparr>"

definition tool_evidence :: selection_evidence where
  "tool_evidence = \<lparr>sev_schema_version = 1, sev_capability = [sed_passed], sev_failures = []\<rparr>"

lemma sed_passed_verified: "is_verified sed_passed" "is_success (ce_outcome sed_passed)" "ce_capability sed_passed = ''sed''"
  by (simp_all add: sed_passed_def is_verified_def is_success_def to_ascii_lowercase_def ascii_lower_def)

lemma sed_succeeds: "0 < verified_success tool_evidence c \<longleftrightarrow> sca_evidence_key c = ''sed''"
  by (auto simp: verified_success_def matching_def tool_evidence_def sed_passed_verified)

lemma only_element: "set ys \<subseteq> {a} \<Longrightarrow> distinct ys \<Longrightarrow> ys \<noteq> [] \<Longrightarrow> ys = [a]"
  by (cases ys; cases "tl ys") auto

lemma selection_exact_witness:
  "\<exists>sel. rank_prefiltered tool_ranking tool_set tool_evidence = Inr sel \<and> rs_ordered sel = [''sed'']"
proof -
  obtain sel where sel: "rank_prefiltered tool_ranking tool_set tool_evidence = Inr sel"
    by (simp add: rank_prefiltered_def tool_ranking_valid Let_def) (simp add: tool_ranking_def tool_set_def tool_evidence_def)
  obtain chosen left :: "(nat \<times> selection_candidate) list" where c: "rs_ordered sel = map (sca_reference \<circ> snd) chosen" "distinct (rs_ordered sel)"
      "snd ` set (chosen @ left)
        = {c \<in> set (pf_candidates tool_set). 0 < verified_success tool_evidence c \<or> ss_fallback tool_ranking = SeedOrder}"
      "left \<noteq> [] \<longrightarrow> length chosen = unat (ss_max_results tool_ranking)"
    using selection_exact [OF tool_set_built sel] by blast
  have limits: "ss_fallback tool_ranking \<noteq> SeedOrder" "unat (ss_max_results tool_ranking) = 1"
    by (simp_all add: tool_ranking_def)
  have sed: "snd ` set (chosen @ left) = {tool_candidate ''sed''}"
    unfolding c(3) sed_succeeds using limits by (auto simp: tool_set_def tool_candidate_def)
  have "chosen \<noteq> []" using c(4) sed limits by (cases left) auto
  have "sca_reference (snd x) = ''sed''" if "x \<in> set chosen" for x
  proof -
    have "snd x \<in> snd ` set (chosen @ left)" using that by simp
    then have "snd x = tool_candidate ''sed''" unfolding sed by simp
    then show ?thesis by (simp add: tool_candidate_def)
  qed
  then have "set (rs_ordered sel) \<subseteq> {''sed''}" unfolding c(1) by auto
  moreover have "rs_ordered sel \<noteq> []" using c(1) \<open>chosen \<noteq> []\<close> by simp
  ultimately have "rs_ordered sel = [''sed'']" using c(2) by (intro only_element)
  with sel show ?thesis by (intro exI [of _ sel] conjI)
qed

end
