(* ===== verification/Remote_Execution.thy ===== *)
theory Remote_Execution
  imports Remote_Plan Ordered_Map "HOL-Library.AList"
begin

text \<open>
  The executor of remote actions (\<open>crates/execution/src/remote.rs\<close>) and its replay ledger
  (\<open>remote_ledger.rs\<close>), with the wire types of \<open>protocol/src/m4.rs\<close> they exchange. The ledger exists
  in memory and on disk; both provide the interface \<open>replay_ledger\<close>. The directory of the ledger on disk is a
  map from file names to entries; what the operating system does with a write is an input of the operation, so
  that torn writes are behaviours of the model. Serialisation (\<open>serde_json\<close>), hashing (\<open>sha2\<close>), the inner
  driver and the clock are parameters.
\<close>

subsection \<open>Grants, leases, receipts\<close>

datatype peer_role = OwnerClient | Executor | Replica

record peer_grant =
  pg_schema_version :: schema_version
  pg_peer :: string
  pg_owner :: string
  pg_roles :: "peer_role list"
  pg_scopes :: "scope list"
  pg_capabilities :: "capability_ref list"
  pg_transport_identity :: string
  pg_authority_epoch :: u64
  pg_grant_version :: u64
  pg_expires_at :: timestamp
  pg_created_by :: string

datatype remote_lease_state = ReservedLease | AcquiredLease | ReleasedLease | ExpiredLease | FencedLease

record remote_lease =
  le_schema_version :: schema_version
  le_lease :: string
  le_dispatch :: string
  le_intent :: action_id
  le_plan_digest :: plan_digest
  le_placement :: string
  le_executor :: string
  le_peer_grant :: string
  le_grant_version :: u64
  le_authority_epoch :: u64
  le_fence :: u64
  le_expires_at :: timestamp
  le_state :: remote_lease_state

datatype receipt_outcome = ReceiptCompleted | ReceiptFailed | ReceiptCancelled | ReceiptUnknown

record driver_receipt =
  dr_schema_version :: schema_version
  dr_receipt :: string
  dr_lease :: string
  dr_dispatch :: string
  dr_intent :: action_id
  dr_plan_digest :: plan_digest
  dr_operation_digest :: schema_digest
  dr_executor :: string
  dr_authority_epoch :: u64
  dr_fence :: u64
  dr_outcome :: receipt_outcome
  dr_result_digest :: "schema_digest option"
  dr_observations :: "string list"
  dr_observed_at :: timestamp

record remote_admission =
  ad_schema_version :: schema_version
  ad_admission :: string
  ad_plan :: remote_placement_plan
  ad_lease :: remote_lease

text \<open>The digests of the objects this component hashes.\<close>

record executor_env =
  xe_digests :: digest_env
  xe_digest_grant :: "peer_grant \<Rightarrow> schema_digest result"
  xe_digest_semantics :: "remote_placement_plan \<Rightarrow> remote_lease \<Rightarrow> schema_digest result"

fun peer_role_rank :: "peer_role \<Rightarrow> nat" where
  "peer_role_rank OwnerClient = 0"
| "peer_role_rank Executor = 1"
| "peer_role_rank Replica = 2"

definition fence_validate :: "u64 \<Rightarrow> unit result" where
  "fence_validate f = ensure (f \<noteq> 0) ''fence token must be non-zero''"

text \<open>\<open>windows(2)\<close> with no pair out of order: the list is strictly increasing.\<close>

definition grant_validate :: "peer_grant \<Rightarrow> unit result" where
  "grant_validate g =
     and_then (ensure (pg_schema_version g \<noteq> 0 \<and> pg_roles g \<noteq> [] \<and> pg_scopes g \<noteq> [] \<and> pg_authority_epoch g \<noteq> 0
       \<and> 0 < pg_expires_at g) ''federated peer grant is incomplete'') (\<lambda>_.
     and_then (required (pg_peer g) ''federated peer'') (\<lambda>_.
     and_then (required (pg_owner g) ''grant owner'') (\<lambda>_.
     and_then (required (pg_transport_identity g) ''transport identity digest'') (\<lambda>_.
     and_then (required (pg_created_by g) ''owner control reference'') (\<lambda>_.
     and_then (grant_version_validate (pg_grant_version g)) (\<lambda>_.
     ensure (sorted_wrt (<) (map peer_role_rank (pg_roles g)) \<and> sorted_wrt (<) (pg_scopes g)
       \<and> sorted_wrt (<) (pg_capabilities g)) ''federated peer grant lists must be sorted and unique''))))))"

definition grant_reference :: "executor_env \<Rightarrow> peer_grant \<Rightarrow> string result" where
  "grant_reference env g = and_then (grant_validate g) (\<lambda>_. xe_digest_grant env g)"

definition placement_reference :: "executor_env \<Rightarrow> remote_placement_plan \<Rightarrow> string result" where
  "placement_reference env p = and_then (placement_validate (xe_digests env) p) (\<lambda>_. Inr (pl_digest p))"

definition lease_validate :: "remote_lease \<Rightarrow> unit result" where
  "lease_validate l =
     and_then (ensure (le_schema_version l \<noteq> 0 \<and> 0 < le_expires_at l) ''remote execution lease is incomplete'') (\<lambda>_.
     and_then (try_all (\<lambda>(v, nm). required v nm)
       [(le_lease l, ''lease''), (le_dispatch l, ''dispatch''), (le_intent l, ''intent''),
        (le_plan_digest l, ''plan digest''), (le_placement l, ''placement''), (le_executor l, ''executor''),
        (le_peer_grant l, ''peer grant'')]) (\<lambda>_.
     and_then (grant_version_validate (le_grant_version l)) (\<lambda>_.
     and_then (ensure (le_authority_epoch l \<noteq> 0) ''lease authority epoch is invalid'') (\<lambda>_.
     fence_validate (le_fence l)))))"

definition receipt_validate :: "driver_receipt \<Rightarrow> unit result" where
  "receipt_validate r =
     and_then (ensure (dr_schema_version r \<noteq> 0 \<and> 0 < dr_observed_at r \<and> dr_observations r \<noteq> [])
       ''remote driver receipt is incomplete'') (\<lambda>_.
     and_then (try_all (\<lambda>(v, nm). required v nm)
       [(dr_receipt r, ''driver receipt''), (dr_lease r, ''lease''), (dr_dispatch r, ''dispatch''),
        (dr_intent r, ''intent''), (dr_plan_digest r, ''plan digest''), (dr_executor r, ''executor'')]) (\<lambda>_.
     and_then (required_digest (dr_operation_digest r) ''operation digest'') (\<lambda>_.
     and_then (ensure (dr_authority_epoch r \<noteq> 0) ''receipt authority epoch is invalid'') (\<lambda>_.
     fence_validate (dr_fence r)))))"

definition admission_validate :: "executor_env \<Rightarrow> remote_admission \<Rightarrow> unit result" where
  "admission_validate env a =
     and_then (ensure (ad_schema_version a \<noteq> 0) ''remote admission schema is invalid'') (\<lambda>_.
     and_then (placement_validate (xe_digests env) (ad_plan a)) (\<lambda>_.
     and_then (lease_validate (ad_lease a)) (\<lambda>_.
     and_then (ensure (le_state (ad_lease a) = AcquiredLease) ''remote admission lease binding is invalid'') (\<lambda>_.
     and_then (placement_reference env (ad_plan a)) (\<lambda>placement.
     and_then (ensure (le_placement (ad_lease a) = placement) ''remote admission lease binding is invalid'') (\<lambda>_.
     required (ad_admission a) ''admission''))))))"

subsection \<open>The replay ledger in memory\<close>

datatype ledger_decision = NewDispatch | PendingDispatch | CompletedDispatch driver_receipt

record ledger_record =
  er_schema_version :: schema_version
  er_dispatch :: string
  er_lease :: string
  er_semantics :: schema_digest
  er_receipt :: "driver_receipt option"

type_synonym ledger_records = "(string, ledger_record) btree_map"

definition record_validate :: "ledger_record \<Rightarrow> unit result" where
  "record_validate r =
     and_then (ensure (er_schema_version r \<noteq> 0 \<and> \<not> blank (er_dispatch r) \<and> \<not> blank (er_lease r)
       \<and> \<not> blank (er_semantics r)) ''executor replay record is incomplete'') (\<lambda>_.
     case er_receipt r of
       None \<Rightarrow> Inr ()
     | Some rc \<Rightarrow> and_then (receipt_validate rc) (\<lambda>_.
         ensure (dr_dispatch rc = er_dispatch r \<and> dr_lease rc = er_lease r)
           ''executor replay receipt does not match its dispatch''))"

definition pending_record :: "string \<Rightarrow> string \<Rightarrow> schema_digest \<Rightarrow> ledger_record" where
  "pending_record d l s = \<lparr>er_schema_version = 1, er_dispatch = d, er_lease = l, er_semantics = s, er_receipt = None\<rparr>"

text \<open>What both ledgers answer about a dispatch they know.\<close>

definition replayed :: "ledger_record \<Rightarrow> string \<Rightarrow> schema_digest \<Rightarrow> ledger_decision result" where
  "replayed r l s =
     (if er_semantics r \<noteq> s \<or> er_lease r \<noteq> l then fails ''dispatch id was replayed with new semantics''
      else Inr (case er_receipt r of None \<Rightarrow> PendingDispatch | Some rc \<Rightarrow> CompletedDispatch rc))"

definition memory_begin ::
  "string \<Rightarrow> string \<Rightarrow> schema_digest \<Rightarrow> ledger_records \<Rightarrow> ledger_decision result \<times> ledger_records" where
  "memory_begin d l s m =
     (case bm_get m d of
        Some r \<Rightarrow> (replayed r l s, m)
      | None \<Rightarrow>
          (case record_validate (pending_record d l s) of
             Inl e \<Rightarrow> (Inl e, m)
           | Inr _ \<Rightarrow> (Inr NewDispatch, bm_insert d (pending_record d l s) m)))"

text \<open>The guards that both ledgers put before a completion; \<open>Inr None\<close> is the repetition of the same receipt.\<close>

definition completable :: "string \<Rightarrow> schema_digest \<Rightarrow> driver_receipt \<Rightarrow> ledger_records \<Rightarrow> ledger_record option result" where
  "completable d s rc m =
     and_then (ok_or (bm_get m d) ''executor completion has no pending dispatch'') (\<lambda>r.
     and_then (ensure (er_semantics r = s) ''executor completion semantics changed'') (\<lambda>_.
     case er_receipt r of
       None \<Rightarrow> Inr (Some r)
     | Some previous \<Rightarrow>
         if previous = rc then Inr None else fails ''executor receipt id has conflicting semantics''))"

text \<open>The receipt is stored before the record is validated against it, as in the code.\<close>

definition memory_complete ::
  "string \<Rightarrow> schema_digest \<Rightarrow> driver_receipt \<Rightarrow> ledger_records \<Rightarrow> unit result \<times> ledger_records" where
  "memory_complete d s rc m =
     (case completable d s rc m of
        Inl e \<Rightarrow> (Inl e, m)
      | Inr None \<Rightarrow> (Inr (), m)
      | Inr (Some r) \<Rightarrow>
          (case receipt_validate rc of
             Inl e \<Rightarrow> (Inl e, m)
           | Inr _ \<Rightarrow> let r' = r\<lparr>er_receipt := Some rc\<rparr> in (record_validate r', bm_insert d r' m)))"

definition receipt_for_lease :: "string \<Rightarrow> ledger_records \<Rightarrow> driver_receipt option" where
  "receipt_for_lease l m = Option.bind (find (\<lambda>r. er_lease r = l) (bm_values m)) er_receipt"

definition receipt_by_id :: "string \<Rightarrow> ledger_records \<Rightarrow> driver_receipt option" where
  "receipt_by_id i m = find (\<lambda>rc. dr_receipt rc = i) (List.map_filter er_receipt (bm_values m))"

definition pending_for_lease :: "string \<Rightarrow> ledger_records \<Rightarrow> bool" where
  "pending_for_lease l m \<longleftrightarrow> (\<exists>r\<in>set (bm_values m). er_lease r = l \<and> er_receipt r = None)"

subsection \<open>The replay ledger on disk\<close>

datatype dir_entry = RegularFile string | OtherEntry

text \<open>
  What the operating system does with the creation of a file: it is written and synced, it cannot be created, or
  the write or sync fails when the first \<open>n\<close> bytes are there. An existing file may be unreadable.
\<close>

datatype write_outcome = Written | CreationFails | WritingFails nat | RereadFails

record ledger_codec =
  lc_encode :: "ledger_record \<Rightarrow> string result"
  lc_decode :: "string \<Rightarrow> ledger_record option"
  lc_digest_dispatch :: "string \<Rightarrow> schema_digest result"

record file_ledger =
  fd_files :: "(string, dir_entry) btree_map"
  fd_records :: ledger_records

definition record_path :: "ledger_codec \<Rightarrow> ledger_record \<Rightarrow> bool \<Rightarrow> string result" where
  "record_path c r completed =
     and_then (lc_digest_dispatch c (er_dispatch r)) (\<lambda>identity.
     and_then (ok_or (strip_prefix ''sha256:'' identity) ''executor replay identity digest is invalid'') (\<lambda>digest.
     Inr (digest @ ''-'' @ (if completed then ''complete'' else ''pending'') @ ''.json'')))"

definition write_new ::
  "write_outcome \<Rightarrow> string \<Rightarrow> string \<Rightarrow> (string, dir_entry) btree_map \<Rightarrow> unit result \<times> (string, dir_entry) btree_map" where
  "write_new io path bytes files =
     (case bm_get files path of
        None \<Rightarrow>
          (case io of
             WritingFails n \<Rightarrow>
               (fails ''executor replay record cannot be persisted'', bm_insert path (RegularFile (take n bytes)) files)
           | CreationFails \<Rightarrow> (fails ''executor replay record cannot be created'', files)
           | _ \<Rightarrow> (Inr (), bm_insert path (RegularFile bytes) files))
      | Some (RegularFile stored) \<Rightarrow>
          (if io = CreationFails then fails ''executor replay record cannot be created''
           else if io = RereadFails then fails ''executor replay record cannot be reread''
           else ensure (stored = bytes) ''executor replay record path has conflicting contents'', files)
      | Some OtherEntry \<Rightarrow> (fails ''executor replay record cannot be reread'', files))"

definition persist ::
  "ledger_codec \<Rightarrow> write_outcome \<Rightarrow> ledger_record \<Rightarrow> (string, dir_entry) btree_map
    \<Rightarrow> unit result \<times> (string, dir_entry) btree_map" where
  "persist c io r files =
     (case and_then (record_validate r) (\<lambda>_. and_then (record_path c r (er_receipt r \<noteq> None)) (\<lambda>path.
             and_then (lc_encode c r) (\<lambda>bytes. Inr (path, bytes)))) of
        Inl e \<Rightarrow> (Inl e, files)
      | Inr (path, bytes) \<Rightarrow> write_new io path bytes files)"

definition file_begin ::
  "ledger_codec \<Rightarrow> write_outcome \<Rightarrow> string \<Rightarrow> string \<Rightarrow> schema_digest \<Rightarrow> file_ledger
    \<Rightarrow> ledger_decision result \<times> file_ledger" where
  "file_begin c io d l s fl =
     (case bm_get (fd_records fl) d of
        Some r \<Rightarrow> (replayed r l s, fl)
      | None \<Rightarrow>
          (case persist c io (pending_record d l s) (fd_files fl) of
             (Inl e, files) \<Rightarrow> (Inl e, fl\<lparr>fd_files := files\<rparr>)
           | (Inr _, files) \<Rightarrow>
               (Inr NewDispatch, \<lparr>fd_files = files, fd_records = bm_insert d (pending_record d l s) (fd_records fl)\<rparr>)))"

definition file_complete ::
  "ledger_codec \<Rightarrow> write_outcome \<Rightarrow> string \<Rightarrow> schema_digest \<Rightarrow> driver_receipt \<Rightarrow> file_ledger
    \<Rightarrow> unit result \<times> file_ledger" where
  "file_complete c io d s rc fl =
     (case completable d s rc (fd_records fl) of
        Inl e \<Rightarrow> (Inl e, fl)
      | Inr None \<Rightarrow> (Inr (), fl)
      | Inr (Some r) \<Rightarrow>
          (let r' = r\<lparr>er_receipt := Some rc\<rparr> in
           case persist c io r' (fd_files fl) of
             (Inl e, files) \<Rightarrow> (Inl e, fl\<lparr>fd_files := files\<rparr>)
           | (Inr _, files) \<Rightarrow> (Inr (), \<lparr>fd_files = files, fd_records = bm_insert d r' (fd_records fl)\<rparr>)))"

text \<open>\<open>Path::extension\<close> of a file name: what follows its last dot, unless nothing precedes that dot.\<close>

definition extension :: "string \<Rightarrow> string option" where
  "extension nm =
     (case dropWhile (\<lambda>ch. ch \<noteq> CHR ''.'') (rev nm) of
        [] \<Rightarrow> None
      | [_] \<Rightarrow> None
      | _ \<Rightarrow> Some (rev (takeWhile (\<lambda>ch. ch \<noteq> CHR ''.'') (rev nm))))"

definition conflicting :: "ledger_record \<Rightarrow> ledger_record \<Rightarrow> bool" where
  "conflicting previous r \<longleftrightarrow> er_semantics previous \<noteq> er_semantics r \<or> er_lease previous \<noteq> er_lease r
     \<or> er_receipt previous \<noteq> None \<and> er_receipt r \<noteq> None \<and> er_receipt previous \<noteq> er_receipt r"

definition load_record :: "ledger_record \<Rightarrow> ledger_records \<Rightarrow> ledger_records result" where
  "load_record r m =
     (case bm_get m (er_dispatch r) of
        Some previous \<Rightarrow>
          if conflicting previous r then fails ''executor replay ledger has conflicting immutable records''
          else if er_receipt previous \<noteq> None then Inr m
          else Inr (bm_insert (er_dispatch r) r m)
      | None \<Rightarrow> Inr (bm_insert (er_dispatch r) r m))"

definition read_entry :: "ledger_codec \<Rightarrow> string \<times> dir_entry \<Rightarrow> ledger_record result" where
  "read_entry c entry =
     (case entry of
        (nm, OtherEntry) \<Rightarrow> fails ''executor replay ledger contains an unexpected entry''
      | (nm, RegularFile bytes) \<Rightarrow>
          and_then (ensure (extension nm = Some ''json'') ''executor replay ledger contains an unexpected entry'') (\<lambda>_.
          and_then (ok_or (lc_decode c bytes) ''executor replay record is malformed'') (\<lambda>r.
          and_then (record_validate r) (\<lambda>_. Inr r))))"

fun load_entries :: "ledger_codec \<Rightarrow> (string \<times> dir_entry) list \<Rightarrow> ledger_records \<Rightarrow> ledger_records result" where
  "load_entries c [] m = Inr m"
| "load_entries c (entry # listing) m =
     and_then (read_entry c entry) (\<lambda>r. and_then (load_record r m) (\<lambda>m'. load_entries c listing m'))"

text \<open>\<open>open\<close>: the listing is the directory in whatever order the operating system gives it.\<close>

definition open_ledger :: "ledger_codec \<Rightarrow> (string \<times> dir_entry) list \<Rightarrow> file_ledger result" where
  "open_ledger c listing =
     and_then (load_entries c listing bm_empty) (\<lambda>m. Inr \<lparr>fd_files = bm_collect listing, fd_records = m\<rparr>)"

subsection \<open>Credentials\<close>

record credential_binding =
  cr_peer :: string
  cr_scope :: scope
  cr_slot :: string
  cr_secret :: string

type_synonym scoped_bindings = "((string \<times> scope \<times> string) \<times> string) list"

fun index_bindings :: "credential_binding list \<Rightarrow> scoped_bindings \<Rightarrow> scoped_bindings result" where
  "index_bindings [] m = Inr m"
| "index_bindings (b # bs) m =
     (if blank (cr_peer b) \<or> blank (cr_scope b) \<or> blank (cr_slot b) \<or> blank (cr_secret b)
         \<or> map_of m (cr_peer b, cr_scope b, cr_slot b) \<noteq> None
      then fails ''executor credential binding is invalid or duplicated''
      else index_bindings bs (((cr_peer b, cr_scope b, cr_slot b), cr_secret b) # m))"

definition scoped_resolver_new :: "credential_binding list \<Rightarrow> scoped_bindings result" where
  "scoped_resolver_new bs =
     (if bs = [] then fails ''executor credential bindings are empty'' else index_bindings bs [])"

definition scoped_resolve ::
  "(string \<Rightarrow> 'secret result) \<Rightarrow> scoped_bindings \<Rightarrow> string \<Rightarrow> scope \<Rightarrow> string \<Rightarrow> 'secret result" where
  "scoped_resolve secrets m peer sc slot =
     and_then (ok_or (map_of m (peer, sc, slot)) ''executor credential slot is outside the peer scope'') secrets"

definition rejecting_resolve :: "string \<Rightarrow> scope \<Rightarrow> string \<Rightarrow> 'secret result" where
  "rejecting_resolve peer sc slot = fails ''executor credential slot is not provisioned''"

subsection \<open>The guarded executor\<close>

record admission_profile =
  xp_schema_version :: schema_version
  xp_peer :: string
  xp_grant :: peer_grant
  xp_profile :: string
  xp_authority_epoch :: u64
  xp_minimum_fence :: u64
  xp_enabled_backends :: "backend_kind set"

definition profile_checked :: "admission_profile \<Rightarrow> unit result" where
  "profile_checked x =
     and_then (grant_validate (xp_grant x)) (\<lambda>_.
     ensure (xp_schema_version x \<noteq> 0 \<and> xp_peer x = pg_peer (xp_grant x) \<and> \<not> blank (xp_profile x)
       \<and> xp_authority_epoch x \<noteq> 0 \<and> xp_minimum_fence x \<noteq> 0 \<and> Executor \<in> set (pg_roles (xp_grant x))
       \<and> xp_enabled_backends x \<noteq> {} \<and> backend_kind.Remote \<notin> xp_enabled_backends x)
       ''executor admission profile is incomplete'')"

definition admit ::
  "executor_env \<Rightarrow> timestamp \<Rightarrow> admission_profile \<Rightarrow> remote_placement_plan \<Rightarrow> remote_lease \<Rightarrow> remote_admission result" where
  "admit env now x p l =
     and_then (placement_validate (xe_digests env) p) (\<lambda>_.
     and_then (lease_validate l) (\<lambda>_.
     and_then (grant_reference env (xp_grant x)) (\<lambda>grant.
     and_then (ensure (pl_executor p = xp_peer x \<and> pl_peer_grant p = grant
         \<and> pl_grant_version p = pg_grant_version (xp_grant x) \<and> pl_authority_epoch p = xp_authority_epoch x
         \<and> pl_executor_profile p = xp_profile x \<and> le_executor l = pl_executor p \<and> le_peer_grant l = pl_peer_grant p
         \<and> le_grant_version l = pl_grant_version p \<and> le_authority_epoch l = pl_authority_epoch p
         \<and> xp_minimum_fence x \<le> le_fence l) ''executor admission rejected the remote plan'') (\<lambda>_.
     and_then (placement_reference env p) (\<lambda>placement.
     and_then (ensure (le_placement l = placement \<and> le_state l = AcquiredLease \<and> now < le_expires_at l
         \<and> op_backend (pl_operation p) \<in> xp_enabled_backends x
         \<and> op_scope (pl_operation p) \<in> set (pg_scopes (xp_grant x))
         \<and> op_capability (pl_operation p) \<in> set (pg_capabilities (xp_grant x)))
         ''executor admission rejected the remote plan'') (\<lambda>_.
     Inr \<lparr>ad_schema_version = 1, ad_admission = le_dispatch l, ad_plan = p, ad_lease = l\<rparr>))))))"

record inner_outcome =
  io_outcome :: receipt_outcome
  io_result_digest :: "schema_digest option"
  io_observations :: "string list"

text \<open>
  \<open>execute\<close> up to the call of the driver, and from its answer on: the ledger is locked in between only inside
  \<open>begin\<close> and \<open>complete\<close>, so two executions interleave at these points.
\<close>

definition start_execution ::
  "executor_env \<Rightarrow> (string \<Rightarrow> scope \<Rightarrow> string \<Rightarrow> 'secret result)
    \<Rightarrow> (string \<Rightarrow> string \<Rightarrow> schema_digest \<Rightarrow> 's \<Rightarrow> ledger_decision result \<times> 's)
    \<Rightarrow> remote_admission \<Rightarrow> 's \<Rightarrow> ('secret option \<times> schema_digest \<times> ledger_decision) result \<times> 's" where
  "start_execution env resolve begin_dispatch a st =
     (case and_then (admission_validate env a) (\<lambda>_.
             and_then (case op_credential_slot (pl_operation (ad_plan a)) of
                 None \<Rightarrow> Inr None
               | Some slot \<Rightarrow> and_then (resolve (pl_executor (ad_plan a)) (op_scope (pl_operation (ad_plan a))) slot)
                   (\<lambda>secret. Inr (Some secret))) (\<lambda>credential.
             and_then (xe_digest_semantics env (ad_plan a) (ad_lease a)) (\<lambda>semantics. Inr (credential, semantics)))) of
        Inl e \<Rightarrow> (Inl e, st)
      | Inr (credential, semantics) \<Rightarrow>
          (case begin_dispatch (le_dispatch (ad_lease a)) (le_lease (ad_lease a)) semantics st of
             (Inl e, st') \<Rightarrow> (Inl e, st')
           | (Inr decision, st') \<Rightarrow> (Inr (credential, semantics, decision), st')))"

definition receipt_of :: "timestamp \<Rightarrow> remote_admission \<Rightarrow> inner_outcome \<Rightarrow> driver_receipt" where
  "receipt_of now a oc =
     \<lparr>dr_schema_version = 1, dr_receipt = ''driver-receipt:'' @ le_dispatch (ad_lease a), dr_lease = le_lease (ad_lease a),
      dr_dispatch = le_dispatch (ad_lease a), dr_intent = le_intent (ad_lease a), dr_plan_digest = le_plan_digest (ad_lease a),
      dr_operation_digest = op_digest (pl_operation (ad_plan a)), dr_executor = pl_executor (ad_plan a),
      dr_authority_epoch = le_authority_epoch (ad_lease a), dr_fence = le_fence (ad_lease a), dr_outcome = io_outcome oc,
      dr_result_digest = io_result_digest oc, dr_observations = io_observations oc, dr_observed_at = now\<rparr>"

definition finish_execution ::
  "(string \<Rightarrow> schema_digest \<Rightarrow> driver_receipt \<Rightarrow> 's \<Rightarrow> unit result \<times> 's)
    \<Rightarrow> timestamp \<Rightarrow> remote_admission \<Rightarrow> schema_digest \<Rightarrow> inner_outcome result \<Rightarrow> 's \<Rightarrow> driver_receipt result \<times> 's" where
  "finish_execution complete_dispatch now a semantics answer st =
     (case and_then answer (\<lambda>oc.
             and_then (ensure (io_observations oc \<noteq> []) ''remote driver returned no bounded observation'') (\<lambda>_.
             and_then (receipt_validate (receipt_of now a oc)) (\<lambda>_. Inr (receipt_of now a oc)))) of
        Inl e \<Rightarrow> (Inl e, st)
      | Inr rc \<Rightarrow>
          (case complete_dispatch (le_dispatch (ad_lease a)) semantics rc st of
             (Inl e, st') \<Rightarrow> (Inl e, st')
           | (Inr _, st') \<Rightarrow> (Inr rc, st')))"

definition execute_remote ::
  "executor_env \<Rightarrow> (string \<Rightarrow> scope \<Rightarrow> string \<Rightarrow> 'secret result)
    \<Rightarrow> (string \<Rightarrow> string \<Rightarrow> schema_digest \<Rightarrow> 's \<Rightarrow> ledger_decision result \<times> 's)
    \<Rightarrow> (string \<Rightarrow> schema_digest \<Rightarrow> driver_receipt \<Rightarrow> 's \<Rightarrow> unit result \<times> 's)
    \<Rightarrow> (remote_operation \<Rightarrow> 'secret option \<Rightarrow> 'd \<Rightarrow> inner_outcome result \<times> 'd)
    \<Rightarrow> timestamp \<Rightarrow> remote_admission \<Rightarrow> 's \<times> 'd \<Rightarrow> driver_receipt result \<times> 's \<times> 'd" where
  "execute_remote env resolve begin_dispatch complete_dispatch driver now a sd =
     (case start_execution env resolve begin_dispatch a (fst sd) of
        (Inl e, st) \<Rightarrow> (Inl e, st, snd sd)
      | (Inr (credential, semantics, CompletedDispatch rc), st) \<Rightarrow> (Inr rc, st, snd sd)
      | (Inr (credential, semantics, PendingDispatch), st) \<Rightarrow>
          (fails ''accepted dispatch has no terminal receipt; probe is required'', st, snd sd)
      | (Inr (credential, semantics, NewDispatch), st) \<Rightarrow>
          (case driver (pl_operation (ad_plan a)) credential (snd sd) of
             (answer, d') \<Rightarrow>
               (case finish_execution complete_dispatch now a semantics answer st of (r, st') \<Rightarrow> (r, st', d'))))"

datatype probe_outcome = ProbeNotDispatched | ProbeCompleted | ProbeFailed | ProbeUnknown

record probe_result =
  pb_schema_version :: schema_version
  pb_lease :: string
  pb_outcome :: probe_outcome
  pb_receipt :: "string option"
  pb_evidence :: "string list"

definition probe_remote :: "string \<Rightarrow> ledger_records \<Rightarrow> probe_result" where
  "probe_remote l m =
     (let rc = receipt_for_lease l m in
      \<lparr>pb_schema_version = 1, pb_lease = l,
       pb_outcome = (case map_option dr_outcome rc of
           Some ReceiptCompleted \<Rightarrow> ProbeCompleted
         | Some ReceiptFailed \<Rightarrow> ProbeFailed
         | Some ReceiptCancelled \<Rightarrow> ProbeFailed
         | Some ReceiptUnknown \<Rightarrow> ProbeUnknown
         | None \<Rightarrow> if pending_for_lease l m then ProbeUnknown else ProbeNotDispatched),
       pb_receipt = map_option dr_receipt rc, pb_evidence = []\<rparr>)"

datatype cancel_outcome = CancelNotDispatched | CancelCancelled | CancelAlreadyCompleted | CancelUnknown

record cancel_result =
  cn_schema_version :: schema_version
  cn_lease :: string
  cn_outcome :: cancel_outcome
  cn_evidence :: "string list"

definition cancel_remote :: "string \<Rightarrow> ledger_records \<Rightarrow> cancel_result" where
  "cancel_remote l m =
     (let rc = receipt_for_lease l m in
      \<lparr>cn_schema_version = 1, cn_lease = l,
       cn_outcome = (if rc \<noteq> None then CancelAlreadyCompleted
         else if pending_for_lease l m then CancelUnknown else CancelNotDispatched),
       cn_evidence = (case rc of None \<Rightarrow> [] | Some r \<Rightarrow> dr_observations r)\<rparr>)"

definition fetch_receipt :: "string \<Rightarrow> ledger_records \<Rightarrow> driver_receipt result" where
  "fetch_receipt i m = ok_or (receipt_by_id i m) ''remote driver receipt is not available''"

subsection \<open>One-shot leases of the authority\<close>

record lease_bindings =
  lb_pending :: "((action_id \<times> plan_digest) \<times> remote_lease) list"
  lb_active :: "(action_id, remote_lease) btree_map"

definition no_bindings :: lease_bindings where
  "no_bindings = \<lparr>lb_pending = [], lb_active = bm_empty\<rparr>"

text \<open>\<open>insert\<close> has replaced the binding by the time its result says that there was one.\<close>

definition bind_lease :: "remote_lease \<Rightarrow> lease_bindings \<Rightarrow> unit result \<times> lease_bindings" where
  "bind_lease l b =
     (case and_then (lease_validate l) (\<lambda>_.
             ensure (le_state l = AcquiredLease) ''only an acquired lease can bind a remote plan'') of
        Inl e \<Rightarrow> (Inl e, b)
      | Inr _ \<Rightarrow>
          (ensure (map_of (lb_pending b) (le_intent l, le_plan_digest l) = None) ''remote lease binding already exists'',
           b\<lparr>lb_pending := AList.update (le_intent l, le_plan_digest l) l (lb_pending b)\<rparr>))"

definition take_lease :: "action_id \<Rightarrow> plan_digest \<Rightarrow> lease_bindings \<Rightarrow> remote_lease result \<times> lease_bindings" where
  "take_lease i d b =
     (case map_of (lb_pending b) (i, d) of
        None \<Rightarrow> (fails ''remote execution has no matching one-shot lease'', b)
      | Some l \<Rightarrow> (Inr l, \<lparr>lb_pending = AList.delete (i, d) (lb_pending b), lb_active = bm_insert i l (lb_active b)\<rparr>))"

definition active_lease :: "action_id \<Rightarrow> lease_bindings \<Rightarrow> remote_lease option" where
  "active_lease i b = bm_get (lb_active b) i"

end
