(* ===== verification/Executor_Recovery.thy ===== *)
theory Executor_Recovery
  imports Remote_Execution
begin

text \<open>
  What the executor guarantees about a dispatch when executions interleave, writes fail and the process is
  restarted: the driver runs at most once, and what the ledger answered before a restart it answers after it.
  \<open>executor_step\<close> cuts an execution at the points where the ledger is not locked; the locale
  \<open>replay_ledger\<close> states what the executor needs of a ledger, and both ledgers provide it.
\<close>

subsection \<open>Interleaved executions\<close>

datatype flight = Ready remote_admission schema_digest | Driven remote_admission schema_digest

fun flight_dispatch :: "flight \<Rightarrow> string" where
  "flight_dispatch (Ready a s) = le_dispatch (ad_lease a)"
| "flight_dispatch (Driven a s) = le_dispatch (ad_lease a)"

fun undriven :: "flight \<Rightarrow> bool" where
  "undriven (Ready a s) = True"
| "undriven (Driven a s) = False"

text \<open>
  The state of the executor: the ledger, the executions under way, and the dispatches the driver was called for,
  in order. A restart loses the executions and keeps what the ledger finds on disk.
\<close>

inductive executor_step ::
  "executor_env \<Rightarrow> (string \<Rightarrow> scope \<Rightarrow> string \<Rightarrow> 'secret result)
    \<Rightarrow> ('io \<Rightarrow> string \<Rightarrow> string \<Rightarrow> schema_digest \<Rightarrow> 's \<Rightarrow> ledger_decision result \<times> 's)
    \<Rightarrow> ('io \<Rightarrow> string \<Rightarrow> schema_digest \<Rightarrow> driver_receipt \<Rightarrow> 's \<Rightarrow> unit result \<times> 's)
    \<Rightarrow> ('s \<Rightarrow> 's \<Rightarrow> bool) \<Rightarrow> 's \<times> flight list \<times> string list \<Rightarrow> 's \<times> flight list \<times> string list \<Rightarrow> bool"
  for env resolve begin_dispatch complete_dispatch restarts where
  step_new: "start_execution env resolve (begin_dispatch io) a st = (Inr (credential, s, NewDispatch), st') \<Longrightarrow>
    executor_step env resolve begin_dispatch complete_dispatch restarts (st, fs, calls) (st', Ready a s # fs, calls)"
| step_answered: "start_execution env resolve (begin_dispatch io) a st = (r, st') \<Longrightarrow>
    \<forall>credential s. r \<noteq> Inr (credential, s, NewDispatch) \<Longrightarrow>
    executor_step env resolve begin_dispatch complete_dispatch restarts (st, fs, calls) (st', fs, calls)"
| step_drive:
    "executor_step env resolve begin_dispatch complete_dispatch restarts
      (st, fs @ Ready a s # gs, calls) (st, fs @ Driven a s # gs, calls @ [le_dispatch (ad_lease a)])"
| step_finish: "finish_execution (complete_dispatch io) now a s answer st = (r, st') \<Longrightarrow>
    executor_step env resolve begin_dispatch complete_dispatch restarts (st, fs @ Driven a s # gs, calls) (st', fs @ gs, calls)"
| step_restart: "restarts st st' \<Longrightarrow>
    executor_step env resolve begin_dispatch complete_dispatch restarts (st, fs, calls) (st', [], calls)"

inductive executor_reach ::
  "executor_env \<Rightarrow> (string \<Rightarrow> scope \<Rightarrow> string \<Rightarrow> 'secret result)
    \<Rightarrow> ('io \<Rightarrow> string \<Rightarrow> string \<Rightarrow> schema_digest \<Rightarrow> 's \<Rightarrow> ledger_decision result \<times> 's)
    \<Rightarrow> ('io \<Rightarrow> string \<Rightarrow> schema_digest \<Rightarrow> driver_receipt \<Rightarrow> 's \<Rightarrow> unit result \<times> 's)
    \<Rightarrow> ('s \<Rightarrow> 's \<Rightarrow> bool) \<Rightarrow> 's \<Rightarrow> 's \<times> flight list \<times> string list \<Rightarrow> bool"
  for env resolve begin_dispatch complete_dispatch restarts st0 where
  reach_start: "executor_reach env resolve begin_dispatch complete_dispatch restarts st0 (st0, [], [])"
| reach_step: "executor_reach env resolve begin_dispatch complete_dispatch restarts st0 x \<Longrightarrow>
    executor_step env resolve begin_dispatch complete_dispatch restarts x y \<Longrightarrow>
    executor_reach env resolve begin_dispatch complete_dispatch restarts st0 y"

lemma start_execution_cases:
  assumes "start_execution env resolve begin_dispatch a st = (r, st')"
  shows "st' = st \<and> (\<exists>e. r = Inl e)
    \<or> (\<exists>s decision. begin_dispatch (le_dispatch (ad_lease a)) (le_lease (ad_lease a)) s st = (decision, st')
        \<and> (case decision of Inl e \<Rightarrow> r = Inl e | Inr d \<Rightarrow> \<exists>credential. r = Inr (credential, s, d)))"
  using assms by (auto simp: start_execution_def split: sum.splits prod.splits)

lemma start_execution_new:
  assumes "start_execution env resolve begin_dispatch a st = (Inr (credential, s, NewDispatch), st')"
  shows "begin_dispatch (le_dispatch (ad_lease a)) (le_lease (ad_lease a)) s st = (Inr NewDispatch, st')"
  using assms by (auto simp: start_execution_def split: sum.splits prod.splits)

lemma finish_execution_cases:
  assumes "finish_execution complete_dispatch now a s answer st = (r, st')"
  shows "st' = st \<or> (\<exists>rc q. complete_dispatch (le_dispatch (ad_lease a)) s rc st = (q, st'))"
  using assms by (auto simp: finish_execution_def split: sum.splits prod.splits)

lemma distinct_moved: "distinct (xs @ ys @ d # zs) \<Longrightarrow> distinct ((xs @ [d]) @ ys @ zs)"
  by auto

subsection \<open>What the executor needs of a ledger\<close>

locale replay_ledger =
  fixes begin_dispatch :: "'io \<Rightarrow> string \<Rightarrow> string \<Rightarrow> schema_digest \<Rightarrow> 's \<Rightarrow> ledger_decision result \<times> 's"
    and complete_dispatch :: "'io \<Rightarrow> string \<Rightarrow> schema_digest \<Rightarrow> driver_receipt \<Rightarrow> 's \<Rightarrow> unit result \<times> 's"
    and restarts :: "'s \<Rightarrow> 's \<Rightarrow> bool"
    and known :: "'s \<Rightarrow> string \<Rightarrow> bool"
    and sound :: "'s \<Rightarrow> bool"
  assumes begin_new: "sound st \<Longrightarrow> begin_dispatch io d l s st = (Inr NewDispatch, st') \<Longrightarrow> \<not> known st d \<and> known st' d"
    and begin_keeps: "sound st \<Longrightarrow> begin_dispatch io d l s st = (r, st') \<Longrightarrow> sound st' \<and> (known st e \<longrightarrow> known st' e)"
    and complete_keeps: "sound st \<Longrightarrow> complete_dispatch io d s rc st = (q, st') \<Longrightarrow> sound st' \<and> (known st e \<longrightarrow> known st' e)"
    and restart_keeps: "sound st \<Longrightarrow> restarts st st' \<Longrightarrow> sound st' \<and> (known st e \<longrightarrow> known st' e)"
begin

definition at_most_once :: "'s \<times> flight list \<times> string list \<Rightarrow> bool" where
  "at_most_once x = (case x of (st, fs, calls) \<Rightarrow> sound st
     \<and> distinct (calls @ map flight_dispatch (filter undriven fs))
     \<and> (\<forall>d\<in>set calls \<union> set (map flight_dispatch fs). known st d))"

lemma start_keeps:
  "sound st \<Longrightarrow> start_execution env resolve (begin_dispatch io) a st = (r, st') \<Longrightarrow> sound st' \<and> (known st e \<longrightarrow> known st' e)"
  using start_execution_cases begin_keeps by metis

lemma start_new:
  assumes "sound st" "start_execution env resolve (begin_dispatch io) a st = (Inr (credential, s, NewDispatch), st')"
  shows "\<not> known st (le_dispatch (ad_lease a)) \<and> known st' (le_dispatch (ad_lease a))"
  using start_execution_new [OF assms(2)] begin_new [OF assms(1)] by metis

lemma finish_keeps:
  "sound st \<Longrightarrow> finish_execution (complete_dispatch io) now a s answer st = (r, st') \<Longrightarrow> sound st' \<and> (known st e \<longrightarrow> known st' e)"
  using finish_execution_cases complete_keeps by metis

lemma step_at_most_once:
  assumes "executor_step env resolve begin_dispatch complete_dispatch restarts x y" and "at_most_once x"
  shows "at_most_once y"
  using assms
proof (induction rule: executor_step.induct)
  case (step_new io a st credential s st' fs calls)
  then have x: "sound st" "distinct (calls @ map flight_dispatch (filter undriven fs))"
      "\<forall>d\<in>set calls \<union> set (map flight_dispatch fs). known st d"
    by (simp_all add: at_most_once_def)
  have new: "\<not> known st (le_dispatch (ad_lease a))" "known st' (le_dispatch (ad_lease a))"
    using start_new [OF x(1) step_new(1)] by simp_all
  have keeps: "sound st'" "\<forall>e. known st e \<longrightarrow> known st' e"
    using start_keeps [OF x(1) step_new(1)] by simp_all
  have "le_dispatch (ad_lease a) \<notin> set calls \<union> set (map flight_dispatch fs)"
    using new(1) x(3) by blast
  then show ?case using x new(2) keeps by (auto simp: at_most_once_def)
next
  case (step_answered io a st r st' fs calls)
  then have x: "sound st" by (simp add: at_most_once_def)
  have "sound st'" "\<forall>e. known st e \<longrightarrow> known st' e"
    using start_keeps [OF x step_answered(1)] by simp_all
  then show ?case using step_answered(3) by (auto simp: at_most_once_def)
next
  case (step_drive st fs a s gs calls)
  let ?ds = "\<lambda>fs. map flight_dispatch (filter undriven fs)"
  have "distinct (calls @ ?ds fs @ le_dispatch (ad_lease a) # ?ds gs)"
    using step_drive
    by (simp only: at_most_once_def prod.case filter_append filter.simps undriven.simps map_append list.map flight_dispatch.simps if_True)
  from distinct_moved [OF this]
  have "distinct ((calls @ [le_dispatch (ad_lease a)]) @ ?ds (fs @ Driven a s # gs))" by simp
  moreover have "sound st" "\<forall>d\<in>set (calls @ [le_dispatch (ad_lease a)]) \<union> set (map flight_dispatch (fs @ Driven a s # gs)). known st d"
    using step_drive by (simp_all add: at_most_once_def image_Un)
  ultimately show ?case by (simp only: at_most_once_def prod.case simp_thms)
next
  case (step_finish io now a s answer st r st' fs gs calls)
  then have x: "sound st" by (simp add: at_most_once_def)
  have "sound st'" "\<forall>e. known st e \<longrightarrow> known st' e"
    using finish_keeps [OF x step_finish(1)] by simp_all
  then show ?case using step_finish(2) by (auto simp: at_most_once_def)
next
  case (step_restart st st' fs calls)
  then have x: "sound st" by (simp add: at_most_once_def)
  have "sound st'" "\<forall>e. known st e \<longrightarrow> known st' e"
    using restart_keeps [OF x step_restart(1)] by simp_all
  then show ?case using step_restart(2) by (auto simp: at_most_once_def)
qed

lemma reach_at_most_once:
  assumes "executor_reach env resolve begin_dispatch complete_dispatch restarts st0 x" and "sound st0"
  shows "at_most_once x"
  using assms
proof (induction rule: executor_reach.induct)
  case reach_start
  then show ?case by (simp add: at_most_once_def)
next
  case (reach_step x y)
  then show ?case using step_at_most_once by blast
qed

lemma driver_called_once:
  assumes "executor_reach env resolve begin_dispatch complete_dispatch restarts st0 (st, fs, calls)" and "sound st0"
  shows "distinct calls \<and> (\<forall>d\<in>set calls. known st d)"
  using reach_at_most_once [OF assms] by (simp add: at_most_once_def)

end

subsection \<open>The ledger in memory\<close>

definition records_know :: "ledger_records \<Rightarrow> string \<Rightarrow> bool" where
  "records_know m d \<longleftrightarrow> bm_get m d \<noteq> None"

text \<open>The process that loses this ledger loses the executor with it, so it has no restart.\<close>

interpretation memory: replay_ledger "\<lambda>(_ :: unit). memory_begin" "\<lambda>_. memory_complete" "\<lambda>_ _. False" records_know "\<lambda>_. True"
  by unfold_locales
    (auto simp: records_know_def memory_begin_def memory_complete_def replayed_def Let_def
      split: option.splits sum.splits if_splits)

subsection \<open>The ledger on disk\<close>

text \<open>What the ledger relies on of \<open>serde_json\<close>: it reads back what it wrote.\<close>

definition faithful_codec :: "ledger_codec \<Rightarrow> bool" where
  "faithful_codec c \<longleftrightarrow> (\<forall>r bytes. lc_encode c r = Inr bytes \<longrightarrow> lc_decode c bytes = Some r)"

definition on_disk :: "ledger_codec \<Rightarrow> (string, dir_entry) btree_map \<Rightarrow> ledger_record \<Rightarrow> bool" where
  "on_disk c files r \<longleftrightarrow> (\<exists>path bytes. bm_get files path = Some (RegularFile bytes) \<and> lc_decode c bytes = Some r)"

definition disk_backed :: "ledger_codec \<Rightarrow> file_ledger \<Rightarrow> bool" where
  "disk_backed c fl \<longleftrightarrow> faithful_codec c \<and> bm_wf (fd_files fl)
     \<and> (\<forall>d r. bm_get (fd_records fl) d = Some r \<longrightarrow> er_dispatch r = d \<and> on_disk c (fd_files fl) r)"

definition reopened :: "ledger_codec \<Rightarrow> file_ledger \<Rightarrow> file_ledger \<Rightarrow> bool" where
  "reopened c fl fl' \<longleftrightarrow> (\<exists>listing. set listing = set (fd_files fl) \<and> distinct (map fst listing)
     \<and> open_ledger c listing = Inr fl')"

text \<open>Writing never touches an existing file.\<close>

lemma write_new_keeps:
  assumes "write_new io path bytes files = (r, files')"
  shows "(\<forall>p e. bm_get files p = Some e \<longrightarrow> bm_get files' p = Some e) \<and> (bm_wf files \<longrightarrow> bm_wf files')
    \<and> (r = Inr () \<longrightarrow> bm_get files' path = Some (RegularFile bytes))"
  using assms
  by (auto simp: write_new_def ensure_def bm_wf_insert split: option.splits write_outcome.splits dir_entry.splits if_splits)

lemma on_disk_mono:
  "\<forall>p e. bm_get files p = Some e \<longrightarrow> bm_get files' p = Some e \<Longrightarrow> on_disk c files r \<Longrightarrow> on_disk c files' r"
  by (auto simp: on_disk_def)

lemma persist_keeps:
  assumes "persist c io r files = (q, files')"
  shows "(\<forall>r'. on_disk c files r' \<longrightarrow> on_disk c files' r') \<and> (bm_wf files \<longrightarrow> bm_wf files')"
proof (cases "files' = files")
  case False
  then obtain path bytes where "write_new io path bytes files = (q, files')"
    using assms by (auto simp: persist_def split: sum.splits)
  note kept = write_new_keeps [OF this]
  then show ?thesis using on_disk_mono [of files files' c] by blast
qed simp

lemma persist_stores:
  assumes "persist c io r files = (Inr (), files')" and "faithful_codec c"
  shows "on_disk c files' r \<and> record_validate r = Inr ()"
proof -
  obtain path bytes where p: "write_new io path bytes files = (Inr (), files')" "lc_encode c r = Inr bytes"
      "record_validate r = Inr ()"
    using assms(1) by (auto simp: persist_def and_then_Inr_iff split: sum.splits)
  then show ?thesis
    using write_new_keeps [OF p(1)] assms(2) by (auto simp: on_disk_def faithful_codec_def)
qed

lemma file_begin_cases:
  assumes "file_begin c io d l s fl = (r, fl')"
  obtains (known) x where "bm_get (fd_records fl) d = Some x" "r = replayed x l s" "fl' = fl"
  | (refused) e files where "bm_get (fd_records fl) d = None" "persist c io (pending_record d l s) (fd_files fl) = (Inl e, files)"
      "r = Inl e" "fl' = fl\<lparr>fd_files := files\<rparr>"
  | (stored) files where "bm_get (fd_records fl) d = None" "persist c io (pending_record d l s) (fd_files fl) = (Inr (), files)"
      "r = Inr NewDispatch" "fl' = \<lparr>fd_files = files, fd_records = bm_insert d (pending_record d l s) (fd_records fl)\<rparr>"
  using assms by (auto simp: file_begin_def split: option.splits prod.splits sum.splits)

lemma completable_Some:
  "completable d s rc m = Inr (Some r) \<Longrightarrow> bm_get m d = Some r \<and> er_semantics r = s \<and> er_receipt r = None"
  by (cases "bm_get m d"; cases "er_receipt (the (bm_get m d))")
    (auto simp: completable_def and_then_Inr_iff split: if_splits)

lemma file_complete_cases:
  assumes "file_complete c io d s rc fl = (q, fl')"
  obtains (settled) "fl' = fl"
  | (refused) r e files where "completable d s rc (fd_records fl) = Inr (Some r)"
      "persist c io (r\<lparr>er_receipt := Some rc\<rparr>) (fd_files fl) = (Inl e, files)" "q = Inl e" "fl' = fl\<lparr>fd_files := files\<rparr>"
  | (stored) r files where "completable d s rc (fd_records fl) = Inr (Some r)"
      "persist c io (r\<lparr>er_receipt := Some rc\<rparr>) (fd_files fl) = (Inr (), files)" "q = Inr ()"
      "fl' = \<lparr>fd_files = files, fd_records = bm_insert d (r\<lparr>er_receipt := Some rc\<rparr>) (fd_records fl)\<rparr>"
proof (cases "completable d s rc (fd_records fl)")
  case (Inr w)
  show thesis
  proof (cases w)
    case (Some r)
    obtain answer files where "persist c io (r\<lparr>er_receipt := Some rc\<rparr>) (fd_files fl) = (answer, files)" by fastforce
    note answer = this
    show thesis
    proof (cases answer)
      case (Inl e)
      then show thesis using assms answer \<open>completable d s rc (fd_records fl) = Inr w\<close> Some
        by (intro refused [of r e files]) (simp_all add: file_complete_def Let_def)
    next
      case (Inr u)
      then show thesis using assms answer \<open>completable d s rc (fd_records fl) = Inr w\<close> Some
        by (intro stored [of r files]) (simp_all add: file_complete_def Let_def)
    qed
  qed (use assms settled Inr in \<open>simp add: file_complete_def\<close>)
qed (use assms settled in \<open>simp add: file_complete_def\<close>)

lemma disk_backed_begin:
  assumes "disk_backed c fl" and "file_begin c io d l s fl = (r, fl')"
  shows "disk_backed c fl'"
  using assms(2)
proof (cases rule: file_begin_cases)
  case (refused e files)
  then show ?thesis using assms(1) persist_keeps [OF refused(2)] by (auto simp: disk_backed_def)
next
  case (stored files)
  then show ?thesis
    using assms(1) persist_keeps [OF stored(2)] persist_stores [OF stored(2)]
    by (auto simp: disk_backed_def pending_record_def)
qed (use assms in simp)

lemma disk_backed_complete:
  assumes "disk_backed c fl" and "file_complete c io d s rc fl = (q, fl')"
  shows "disk_backed c fl'"
  using assms(2)
proof (cases rule: file_complete_cases)
  case (refused r e files)
  then show ?thesis using assms(1) persist_keeps [OF refused(2)] by (auto simp: disk_backed_def)
next
  case (stored r files)
  then show ?thesis
    using assms(1) persist_keeps [OF stored(2)] persist_stores [OF stored(2)] completable_Some [OF stored(1)]
    by (auto simp: disk_backed_def)
qed (use assms in simp)

subsection \<open>Reopening the ledger on disk\<close>

text \<open>What a record and the record loaded in its place agree on.\<close>

definition same_answer :: "ledger_record \<Rightarrow> ledger_record \<Rightarrow> bool" where
  "same_answer r r' \<longleftrightarrow> er_lease r' = er_lease r \<and> er_semantics r' = er_semantics r
     \<and> (er_receipt r \<noteq> None \<longrightarrow> er_receipt r' = er_receipt r)"

lemma same_answer_refl: "same_answer r r"
  by (simp add: same_answer_def)

lemma same_answer_trans: "same_answer a b \<Longrightarrow> same_answer b c \<Longrightarrow> same_answer a c"
  by (auto simp: same_answer_def)

lemma load_record_keeps:
  assumes "load_record x m = Inr m'" and "bm_get m d = Some r"
  shows "\<exists>r'. bm_get m' d = Some r' \<and> same_answer r r'"
  using assms by (auto simp: load_record_def conflicting_def same_answer_def split: option.splits if_splits)

lemma load_record_loads:
  assumes "load_record x m = Inr m'"
  shows "\<exists>r'. bm_get m' (er_dispatch x) = Some r' \<and> same_answer x r'"
  using assms by (auto simp: load_record_def conflicting_def same_answer_def split: option.splits if_splits)

lemma load_record_source:
  assumes "load_record x m = Inr m'" and "bm_get m' d = Some r"
  shows "bm_get m d = Some r \<or> r = x \<and> er_dispatch x = d"
  using assms by (auto simp: load_record_def split: option.splits if_splits)

lemma load_entries_keeps:
  assumes "load_entries c listing m = Inr m'" and "bm_get m d = Some r"
  shows "\<exists>r'. bm_get m' d = Some r' \<and> same_answer r r'"
  using assms
proof (induction listing arbitrary: m r)
  case (Cons entry listing)
  then obtain x m1 where x: "load_record x m = Inr m1" "load_entries c listing m1 = Inr m'"
    by (auto simp: and_then_Inr_iff)
  obtain r1 where r1: "bm_get m1 d = Some r1" "same_answer r r1"
    using load_record_keeps [OF x(1) Cons.prems(2)] by auto
  then show ?case using Cons.IH [OF x(2) r1(1)] same_answer_trans by blast
qed (simp add: same_answer_refl)

lemma load_entries_loads:
  assumes "load_entries c listing m = Inr m'" and "entry \<in> set listing"
  shows "\<exists>x r'. read_entry c entry = Inr x \<and> bm_get m' (er_dispatch x) = Some r' \<and> same_answer x r'"
  using assms
proof (induction listing arbitrary: m)
  case (Cons e listing)
  then obtain x m1 where x: "read_entry c e = Inr x" "load_record x m = Inr m1" "load_entries c listing m1 = Inr m'"
    by (auto simp: and_then_Inr_iff)
  show ?case
  proof (cases "entry = e")
    case True
    obtain r1 where r1: "bm_get m1 (er_dispatch x) = Some r1" "same_answer x r1"
      using load_record_loads [OF x(2)] by auto
    then show ?thesis
      using load_entries_keeps [OF x(3) r1(1)] same_answer_trans x(1) True by blast
  next
    case False
    then show ?thesis using Cons.IH [OF x(3)] Cons.prems(2) by simp
  qed
qed simp

lemma load_entries_source:
  assumes "load_entries c listing m = Inr m'" and "bm_get m' d = Some r"
  shows "bm_get m d = Some r \<or> (\<exists>entry\<in>set listing. read_entry c entry = Inr r \<and> er_dispatch r = d)"
  using assms
proof (induction listing arbitrary: m)
  case (Cons e listing)
  then obtain x m1 where x: "read_entry c e = Inr x" "load_record x m = Inr m1" "load_entries c listing m1 = Inr m'"
    by (auto simp: and_then_Inr_iff)
  from Cons.IH [OF x(3) Cons.prems(2)] show ?case
    using load_record_source [OF x(2)] x(1) by auto
qed simp

lemma read_entry_on_disk:
  "read_entry c (nm, e) = Inr r \<Longrightarrow> \<exists>bytes. e = RegularFile bytes \<and> lc_decode c bytes = Some r \<and> record_validate r = Inr ()"
  by (auto simp: read_entry_def and_then_Inr_iff split: dir_entry.splits)

lemma read_entry_decodes:
  "read_entry c (nm, RegularFile bytes) = Inr x \<Longrightarrow> lc_decode c bytes = Some x"
  by (auto simp: read_entry_def and_then_Inr_iff)

lemma bm_get_member: "bm_wf m \<Longrightarrow> (k, v) \<in> set m \<longleftrightarrow> bm_get m k = Some v"
  using bm.keys_distinct [of m] by (simp add: bm_get_def bm_keys_def)

lemma reopened_facts:
  assumes "disk_backed c fl" and "reopened c fl fl'"
  shows "disk_backed c fl' \<and> (\<forall>d r. bm_get (fd_records fl) d = Some r
    \<longrightarrow> (\<exists>r'. bm_get (fd_records fl') d = Some r' \<and> same_answer r r'))"
proof -
  obtain listing where listing: "set listing = set (fd_files fl)" "distinct (map fst listing)"
      "load_entries c listing bm_empty = Inr (fd_records fl')" "fd_files fl' = bm_collect listing"
    using assms(2) by (auto simp: reopened_def open_ledger_def and_then_Inr_iff)
  have wf: "bm_wf (fd_files fl)" and codec: "faithful_codec c" using assms(1) by (simp_all add: disk_backed_def)
  have member: "(nm, e) \<in> set listing \<longleftrightarrow> bm_get (fd_files fl') nm = Some e" for nm e
    using listing(2) by (simp add: listing(4) bm_get_collect map_of_eq_Some_iff rev_map [symmetric])
  have backed: "er_dispatch r = d \<and> on_disk c (fd_files fl') r" if loaded: "bm_get (fd_records fl') d = Some r" for d r
  proof -
    obtain nm e where "(nm, e) \<in> set listing" "read_entry c (nm, e) = Inr r" "er_dispatch r = d"
      using load_entries_source [OF listing(3) loaded] by auto
    then show ?thesis using read_entry_on_disk [of c nm e r] member by (auto simp: on_disk_def)
  qed
  have kept: "\<exists>r'. bm_get (fd_records fl') d = Some r' \<and> same_answer r r'" if held: "bm_get (fd_records fl) d = Some r" for d r
  proof -
    have "er_dispatch r = d" "on_disk c (fd_files fl) r" using assms(1) held by (simp_all add: disk_backed_def)
    then obtain nm bytes where b: "(nm, RegularFile bytes) \<in> set listing" "lc_decode c bytes = Some r" "er_dispatch r = d"
      unfolding on_disk_def listing(1) bm_get_member [OF wf] by blast
    then show ?thesis
      using load_entries_loads [OF listing(3) b(1)] read_entry_decodes [of c nm bytes] by auto
  qed
  show ?thesis using backed kept codec by (simp add: disk_backed_def listing(4) bm_wf_collect)
qed

interpretation disk: replay_ledger "file_begin c" "file_complete c" "reopened c"
  "\<lambda>fl. records_know (fd_records fl)" "disk_backed c" for c
proof unfold_locales
  fix io d l s st st'
  assume "file_begin c io d l s st = (Inr NewDispatch, st')"
  then show "\<not> records_know (fd_records st) d \<and> records_know (fd_records st') d"
    by (cases rule: file_begin_cases) (auto simp: records_know_def replayed_def split: if_splits option.splits)
next
  fix io d l s st r st' e
  assume st: "disk_backed c st" "file_begin c io d l s st = (r, st')"
  from st(2) have "records_know (fd_records st) e \<longrightarrow> records_know (fd_records st') e"
    by (cases rule: file_begin_cases) (auto simp: records_know_def)
  then show "disk_backed c st' \<and> (records_know (fd_records st) e \<longrightarrow> records_know (fd_records st') e)"
    using disk_backed_begin [OF st] by simp
next
  fix io d s rc st q st' e
  assume st: "disk_backed c st" "file_complete c io d s rc st = (q, st')"
  from st(2) have "records_know (fd_records st) e \<longrightarrow> records_know (fd_records st') e"
    by (cases rule: file_complete_cases) (auto simp: records_know_def)
  then show "disk_backed c st' \<and> (records_know (fd_records st) e \<longrightarrow> records_know (fd_records st') e)"
    using disk_backed_complete [OF st] by simp
next
  fix st st' e
  assume st: "disk_backed c st" "reopened c st st'"
  from reopened_facts [OF st] show "disk_backed c st' \<and> (records_know (fd_records st) e \<longrightarrow> records_know (fd_records st') e)"
    by (auto simp: records_know_def)
qed

subsection \<open>The guarantees\<close>

text \<open>C4: The driver of an executor runs at most once for a dispatch, whatever executions interleave, whichever writes
  of the ledger fail, partially written files included, and however often the process is restarted; and every
  dispatch it ran for is known to the ledger.\<close>

theorem dispatch_at_most_once:
  assumes "disk_backed c fl0"
    and "executor_reach env resolve (file_begin c) (file_complete c) (reopened c) fl0 (fl, fs, calls)"
  shows "distinct calls \<and> (\<forall>d\<in>set calls. bm_get (fd_records fl) d \<noteq> None)"
  using disk.driver_called_once [OF assms(2,1)] by (simp add: records_know_def)

lemma start_replayed:
  assumes "start_execution env resolve (file_begin c io) a fl = (Inr (credential, s, x), fl1)"
    and "bm_get (fd_records fl2) (le_dispatch (ad_lease a)) = Some r"
    and "er_lease r = le_lease (ad_lease a)" and "er_semantics r = s" and "er_receipt r = Some rc"
  shows "start_execution env resolve (file_begin c io') a fl2 = (Inr (credential, s, CompletedDispatch rc), fl2)"
  using assms by (auto simp: start_execution_def file_begin_def replayed_def split: sum.splits prod.splits)

lemma file_begin_pending:
  assumes "file_begin c io d l s fl = (Inr x, fl1)"
  shows "\<exists>r. bm_get (fd_records fl1) d = Some r \<and> er_lease r = l \<and> er_semantics r = s
    \<and> (\<forall>rc. x = CompletedDispatch rc \<longrightarrow> er_receipt r = Some rc)"
  using assms
  by (cases rule: file_begin_cases) (auto simp: replayed_def pending_record_def split: if_splits option.splits)

lemma file_complete_stored:
  assumes "file_complete c io d s rc fl = (Inr (), fl1)"
  shows "\<exists>r r1. bm_get (fd_records fl) d = Some r \<and> bm_get (fd_records fl1) d = Some r1
    \<and> er_lease r1 = er_lease r \<and> er_semantics r1 = s \<and> er_receipt r1 = Some rc"
proof (cases "completable d s rc (fd_records fl)")
  case (Inl e)
  then show ?thesis using assms by (simp add: file_complete_def)
next
  case (Inr w)
  show ?thesis
  proof (cases w)
    case None
    then have "fl1 = fl" using assms Inr by (simp add: file_complete_def)
    then show ?thesis
      using Inr None by (auto simp: completable_def and_then_Inr_iff split: option.splits if_splits)
  next
    case (Some r)
    then have "completable d s rc (fd_records fl) = Inr (Some r)" using Inr by simp
    from completable_Some [OF this] show ?thesis
      using assms Inr Some by (auto simp: file_complete_def Let_def split: prod.splits sum.splits)
  qed
qed

lemma execute_stores:
  assumes "execute_remote env resolve (file_begin c io1) (file_complete c io2) driver now a (fl, d) = (Inr rc, fl1, d1)"
  shows "\<exists>credential s x fl' r. start_execution env resolve (file_begin c io1) a fl = (Inr (credential, s, x), fl')
    \<and> bm_get (fd_records fl1) (le_dispatch (ad_lease a)) = Some r \<and> er_lease r = le_lease (ad_lease a)
    \<and> er_semantics r = s \<and> er_receipt r = Some rc"
proof -
  obtain credential s x fl' where start: "start_execution env resolve (file_begin c io1) a fl = (Inr (credential, s, x), fl')"
    using assms by (auto simp: execute_remote_def split: prod.splits sum.splits)
  then have "file_begin c io1 (le_dispatch (ad_lease a)) (le_lease (ad_lease a)) s fl = (Inr x, fl')"
    by (auto simp: start_execution_def split: sum.splits prod.splits)
  note begun = file_begin_pending [OF this]
  show ?thesis
  proof (cases x)
    case NewDispatch
    then obtain answer where "finish_execution (file_complete c io2) now a s answer fl' = (Inr rc, fl1)"
      using assms start by (auto simp: execute_remote_def split: prod.splits)
    then have "file_complete c io2 (le_dispatch (ad_lease a)) s rc fl' = (Inr (), fl1)"
      by (auto simp: finish_execution_def split: sum.splits prod.splits)
    from file_complete_stored [OF this] show ?thesis using start begun by auto
  next
    case PendingDispatch
    then show ?thesis using assms start by (simp add: execute_remote_def)
  next
    case (CompletedDispatch rc')
    then have "rc' = rc \<and> fl1 = fl'" using assms start by (simp add: execute_remote_def)
    then show ?thesis using start begun CompletedDispatch by auto
  qed
qed

text \<open>C36: An execution that answered with a receipt is repeatable: asked again, in the same process or after a restart
  of the ledger on disk, the executor gives the same receipt without running the driver.\<close>

theorem receipt_survives:
  assumes "disk_backed c fl"
    and "execute_remote env resolve (file_begin c io1) (file_complete c io2) driver now a (fl, d) = (Inr rc, fl1, d1)"
    and "fl2 = fl1 \<or> reopened c fl1 fl2"
  shows "execute_remote env resolve (file_begin c io3) (file_complete c io4) driver' now' a (fl2, d2) = (Inr rc, fl2, d2)"
proof -
  obtain credential s x fl' r where e: "start_execution env resolve (file_begin c io1) a fl = (Inr (credential, s, x), fl')"
      "bm_get (fd_records fl1) (le_dispatch (ad_lease a)) = Some r" "er_lease r = le_lease (ad_lease a)"
      "er_semantics r = s" "er_receipt r = Some rc"
    using execute_stores [OF assms(2)] by blast
  have fl1: "disk_backed c fl1"
  proof -
    have "disk_backed c fl'" using disk.start_keeps [OF assms(1) e(1)] by simp
    then show ?thesis
      using assms(2) e(1) disk.finish_keeps
      by (auto simp: execute_remote_def split: ledger_decision.splits prod.splits)
  qed
  obtain r2 where "bm_get (fd_records fl2) (le_dispatch (ad_lease a)) = Some r2" "same_answer r r2"
    using assms(3) reopened_facts [OF fl1] e(2) same_answer_refl by blast
  then have "start_execution env resolve (file_begin c io3) a fl2 = (Inr (credential, s, CompletedDispatch rc), fl2)"
    using start_replayed [OF e(1)] e(3-5) by (simp add: same_answer_def)
  then show ?thesis by (simp add: execute_remote_def)
qed

text \<open>C37: The ledger on disk refines the one in memory: what it answers without an error, the ledger in memory answers
  on the same records, with the same records afterwards; an error leaves the records as they are.\<close>

theorem disk_refines_memory:
  "(case file_begin c io d l s fl of
      (Inr x, fl') \<Rightarrow> memory_begin d l s (fd_records fl) = (Inr x, fd_records fl')
    | (Inl e, fl') \<Rightarrow> fd_records fl' = fd_records fl)
   \<and> (case file_complete c io d s rc fl of
      (Inr x, fl') \<Rightarrow> memory_complete d s rc (fd_records fl) = (Inr x, fd_records fl')
    | (Inl e, fl') \<Rightarrow> fd_records fl' = fd_records fl)"
proof -
  have persisted: "record_validate r = Inr ()" if "persist c io r files = (Inr u, files')" for r u files files'
    using that by (auto simp: persist_def and_then_Inr_iff split: sum.splits)
  have receipt: "receipt_validate rc = Inr ()" if "record_validate (r\<lparr>er_receipt := Some rc\<rparr>) = Inr ()" for r
    using that by (auto simp: record_validate_def and_then_Inr_iff)
  have "case file_begin c io d l s fl of
      (Inr x, fl') \<Rightarrow> memory_begin d l s (fd_records fl) = (Inr x, fd_records fl')
    | (Inl e, fl') \<Rightarrow> fd_records fl' = fd_records fl"
    using persisted [of "pending_record d l s" "fd_files fl"]
    by (auto simp: file_begin_def memory_begin_def split: option.splits prod.splits sum.splits)
  moreover have "case file_complete c io d s rc fl of
      (Inr x, fl') \<Rightarrow> memory_complete d s rc (fd_records fl) = (Inr x, fd_records fl')
    | (Inl e, fl') \<Rightarrow> fd_records fl' = fd_records fl"
  proof (cases "completable d s rc (fd_records fl)")
    case (Inr w)
    show ?thesis
    proof (cases w)
      case (Some r)
      show ?thesis
        using Inr Some persisted [of "r\<lparr>er_receipt := Some rc\<rparr>" "fd_files fl"] receipt [of r]
        by (auto simp: file_complete_def memory_complete_def Let_def split: prod.splits sum.splits)
    qed (simp add: file_complete_def memory_complete_def Inr)
  qed (simp add: file_complete_def memory_complete_def)
  ultimately show ?thesis by simp
qed

text \<open>A file that was torn while it was written stops the next start of the ledger, with all its receipts.\<close>

theorem torn_write_blocks_restart:
  assumes "(nm, RegularFile bytes) \<in> set listing" and "lc_decode c bytes = None"
  shows "\<not> is_ok (open_ledger c listing)"
proof
  assume "is_ok (open_ledger c listing)"
  then obtain m where "load_entries c listing bm_empty = Inr m"
    by (auto simp: open_ledger_def is_ok_def and_then_def split: sum.splits)
  from load_entries_loads [OF this assms(1)] show False using read_entry_decodes assms(2) by fastforce
qed

text \<open>The error of a second binding comes too late: binding another lease to an action and plan that have one fails,
  but the lease that is then taken for them is the new one, not the one that was bound.\<close>

theorem refused_binding_replaces:
  assumes "map_of (lb_pending b) (le_intent l, le_plan_digest l) = Some bound" and "lease_validate l = Inr ()"
    and "le_state l = AcquiredLease" and "bind_lease l b = (r, b')"
  shows "r = fails ''remote lease binding already exists'' \<and> fst (take_lease (le_intent l) (le_plan_digest l) b') = Inr l"
  using assms by (auto simp: bind_lease_def take_lease_def ensure_def AList.update_conv')

text \<open>An admission stays within what the executor was granted.\<close>

lemma admit_within_grant:
  "admit env now x p l = Inr a \<Longrightarrow> op_scope (pl_operation p) \<in> set (pg_scopes (xp_grant x))
     \<and> op_capability (pl_operation p) \<in> set (pg_capabilities (xp_grant x))
     \<and> op_backend (pl_operation p) \<in> xp_enabled_backends x \<and> now < le_expires_at l \<and> xp_minimum_fence x \<le> le_fence l
     \<and> admission_validate env a = Inr ()"
  by (auto simp: admit_def and_then_Inr_iff admission_validate_def lease_validate_def)

end
