(* ===== verification/Executor_Witnesses.thy ===== *)
theory Executor_Witnesses
  imports Executor_Recovery
begin

text \<open>A concrete executor, its ledger on disk and a dispatch, at which the theorems of \<open>Executor_Recovery\<close> apply.\<close>

definition plain_env :: executor_env where
  "plain_env = \<lparr>xe_digests = \<lparr>digest_operation = \<lambda>_. Inr ''op'', digest_placement = \<lambda>_. Inr ''place''\<rparr>,
     xe_digest_grant = \<lambda>_. Inr ''grant'', xe_digest_semantics = \<lambda>_ _. Inr ''sem''\<rparr>"

definition sample_placement :: remote_placement_plan where
  "sample_placement = RemotePlacementPlan 1 ''exec'' ''grant'' 1 1 ''profile''
     (RemoteOperation 1 backend_kind.File (File file_operation.Read ''notes'' None) ''file'' ''ws'' Observe Internal ''none'' None ''op'')
     ''place''"

definition sample_lease :: remote_lease where
  "sample_lease = \<lparr>le_schema_version = 1, le_lease = ''l1'', le_dispatch = ''d1'', le_intent = ''a1'', le_plan_digest = ''p1'',
     le_placement = ''place'', le_executor = ''exec'', le_peer_grant = ''grant'', le_grant_version = 1, le_authority_epoch = 1,
     le_fence = 1, le_expires_at = 10, le_state = AcquiredLease\<rparr>"

definition sample_admission :: remote_admission where
  "sample_admission = \<lparr>ad_schema_version = 1, ad_admission = ''d1'', ad_plan = sample_placement, ad_lease = sample_lease\<rparr>"

definition sample_outcome :: inner_outcome where
  "sample_outcome = \<lparr>io_outcome = ReceiptCompleted, io_result_digest = None, io_observations = [''read'']\<rparr>"

definition sample_receipt :: driver_receipt where
  "sample_receipt = receipt_of 5 sample_admission sample_outcome"

definition sample_pending :: ledger_record where
  "sample_pending = pending_record ''d1'' ''l1'' ''sem''"

definition sample_completed :: ledger_record where
  "sample_completed = sample_pending\<lparr>er_receipt := Some sample_receipt\<rparr>"

text \<open>A codec of just these two records.\<close>

definition two_record_codec :: ledger_codec where
  "two_record_codec = \<lparr>
     lc_encode = \<lambda>r. if r = sample_pending then Inr ''P'' else if r = sample_completed then Inr ''C'' else fails ''unknown'',
     lc_decode = \<lambda>b. if b = ''P'' then Some sample_pending else if b = ''C'' then Some sample_completed else None,
     lc_digest_dispatch = \<lambda>d. Inr (''sha256:'' @ d)\<rparr>"

definition new_ledger :: file_ledger where
  "new_ledger = \<lparr>fd_files = bm_empty, fd_records = bm_empty\<rparr>"

lemma sample_admitted: "admission_validate plain_env sample_admission = Inr ()"
  by (simp add: and_then_Inr_iff admission_validate_def placement_reference_def placement_validate_def operation_validate_def
      grant_version_validate_def sample_admission_def sample_placement_def sample_lease_def lease_validate_def
      fence_validate_def plain_env_def unsafe_path_def has_drive_prefix_def path_separator_def is_ascii_alphabetic_def
      replace_char_def split_on_plain)

lemma two_records_faithful: "faithful_codec two_record_codec"
  by (auto simp: faithful_codec_def two_record_codec_def split: if_splits)

lemma new_ledger_backed: "disk_backed two_record_codec new_ledger"
  by (simp add: disk_backed_def new_ledger_def two_records_faithful bm.wf_emp)

definition pending_ledger :: file_ledger where
  "pending_ledger = \<lparr>fd_files = [(''d1-pending.json'', RegularFile ''P'')], fd_records = [(''d1'', sample_pending)]\<rparr>"

definition completed_ledger :: file_ledger where
  "completed_ledger = \<lparr>fd_files = [(''d1-complete.json'', RegularFile ''C''), (''d1-pending.json'', RegularFile ''P'')],
     fd_records = [(''d1'', sample_completed)]\<rparr>"

lemma sample_record_valid: "record_validate sample_pending = Inr ()" "record_validate sample_completed = Inr ()"
  "receipt_validate sample_receipt = Inr ()"
  by (simp_all add: and_then_Inr_iff record_validate_def sample_completed_def sample_pending_def pending_record_def sample_receipt_def
      receipt_of_def receipt_validate_def sample_admission_def sample_lease_def sample_placement_def sample_outcome_def
      fence_validate_def)

lemma sample_path: "record_path two_record_codec sample_pending b = Inr (if b then ''d1-complete.json'' else ''d1-pending.json'')"
  by (simp add: record_path_def two_record_codec_def sample_pending_def pending_record_def)

lemma sample_begin:
  "file_begin two_record_codec Written ''d1'' ''l1'' ''sem'' new_ledger = (Inr NewDispatch, pending_ledger)"
  using sample_record_valid(1) sample_path [of False]
  by (simp add: file_begin_def new_ledger_def persist_def write_new_def pending_ledger_def two_record_codec_def
      bm_empty_def sample_pending_def pending_record_def)

lemma sample_complete_path:
  "record_path two_record_codec sample_completed True = Inr ''d1-complete.json''"
  using sample_path [of True] by (simp add: record_path_def sample_completed_def)

lemma sample_finish:
  "file_complete two_record_codec Written ''d1'' ''sem'' sample_receipt pending_ledger = (Inr (), completed_ledger)"
proof -
  have "completable ''d1'' ''sem'' sample_receipt (fd_records pending_ledger) = Inr (Some sample_pending)"
    by (simp add: completable_def pending_ledger_def sample_pending_def pending_record_def)
  moreover have "persist two_record_codec Written sample_completed (fd_files pending_ledger) = (Inr (), fd_files completed_ledger)"
    using sample_record_valid(2) sample_complete_path
    by (simp add: persist_def write_new_def pending_ledger_def completed_ledger_def two_record_codec_def sample_completed_def
        sample_pending_def pending_record_def)
  ultimately show ?thesis
    by (simp add: file_complete_def Let_def sample_completed_def [symmetric])
      (simp add: pending_ledger_def completed_ledger_def)
qed

lemma sample_start:
  "start_execution plain_env (rejecting_resolve :: _ \<Rightarrow> _ \<Rightarrow> _ \<Rightarrow> unit result) (file_begin two_record_codec Written) sample_admission new_ledger
    = (Inr (None, ''sem'', NewDispatch), pending_ledger)"
  using sample_admitted sample_begin
  by (simp add: start_execution_def plain_env_def [THEN arg_cong [where f = xe_digest_semantics]])
    (simp add: sample_admission_def sample_placement_def sample_lease_def)

lemma dispatch_at_most_once_witness:
  "distinct [''d1''] \<and> bm_get (fd_records pending_ledger) ''d1'' \<noteq> None"
proof -
  let ?step = "executor_step plain_env (rejecting_resolve :: _ \<Rightarrow> _ \<Rightarrow> _ \<Rightarrow> unit result) (file_begin two_record_codec)
    (file_complete two_record_codec) (reopened two_record_codec)"
  let ?reach = "executor_reach plain_env (rejecting_resolve :: _ \<Rightarrow> _ \<Rightarrow> _ \<Rightarrow> unit result) (file_begin two_record_codec)
    (file_complete two_record_codec) (reopened two_record_codec) new_ledger"
  have "?step (new_ledger, [], []) (pending_ledger, [Ready sample_admission ''sem''], [])"
    by (rule step_new [where begin_dispatch = "file_begin two_record_codec" and io = Written, OF sample_start])
  then have "?reach (pending_ledger, [Ready sample_admission ''sem''], [])"
    by (rule reach_step [OF reach_start])
  moreover have "?step (pending_ledger, [Ready sample_admission ''sem''], [])
      (pending_ledger, [Driven sample_admission ''sem''], [''d1''])"
    using step_drive [of plain_env rejecting_resolve "file_begin two_record_codec" "file_complete two_record_codec"
        "reopened two_record_codec" pending_ledger "[]" sample_admission "''sem''" "[]" "[]"]
    by (simp add: sample_admission_def sample_lease_def)
  ultimately have "?reach (pending_ledger, [Driven sample_admission ''sem''], [''d1''])"
    by (rule reach_step)
  from dispatch_at_most_once [OF new_ledger_backed this] show ?thesis by simp
qed

definition reading_driver :: "remote_operation \<Rightarrow> unit option \<Rightarrow> nat \<Rightarrow> inner_outcome result \<times> nat" where
  "reading_driver op credential calls = (Inr sample_outcome, Suc calls)"

lemma sample_execution:
  "execute_remote plain_env rejecting_resolve (file_begin two_record_codec Written) (file_complete two_record_codec Written)
     reading_driver 5 sample_admission (new_ledger, 0) = (Inr sample_receipt, completed_ledger, 1)"
proof -
  have "finish_execution (file_complete two_record_codec Written) 5 sample_admission ''sem'' (Inr sample_outcome) pending_ledger
      = (Inr sample_receipt, completed_ledger)"
    using sample_finish sample_record_valid(3)
    by (simp add: finish_execution_def sample_receipt_def [symmetric])
      (simp add: sample_outcome_def sample_admission_def sample_lease_def)
  then show ?thesis using sample_start by (simp add: execute_remote_def reading_driver_def)
qed

lemma receipt_survives_witness:
  "execute_remote plain_env rejecting_resolve (file_begin two_record_codec CreationFails)
     (file_complete two_record_codec CreationFails) reading_driver 9 sample_admission (completed_ledger, 1)
   = (Inr sample_receipt, completed_ledger, 1)"
  by (rule receipt_survives [OF new_ledger_backed sample_execution]) simp

lemma torn_write_blocks_restart_witness:
  "\<not> is_ok (open_ledger two_record_codec [(''d1-pending.json'', RegularFile [])])"
  by (rule torn_write_blocks_restart [of "''d1-pending.json''" "[]"]) (simp_all add: two_record_codec_def)

definition second_lease :: remote_lease where
  "second_lease = sample_lease\<lparr>le_lease := ''l2'', le_dispatch := ''d2''\<rparr>"

lemma refused_binding_replaces_witness:
  "fst (bind_lease second_lease (snd (bind_lease sample_lease no_bindings))) = fails ''remote lease binding already exists''
   \<and> fst (take_lease ''a1'' ''p1'' (snd (bind_lease second_lease (snd (bind_lease sample_lease no_bindings))))) = Inr second_lease"
proof -
  have valid: "lease_validate sample_lease = Inr ()" "lease_validate second_lease = Inr ()"
    by (simp_all add: and_then_Inr_iff lease_validate_def second_lease_def sample_lease_def grant_version_validate_def fence_validate_def)
  let ?b = "snd (bind_lease sample_lease no_bindings)"
  have "map_of (lb_pending ?b) (le_intent second_lease, le_plan_digest second_lease) = Some sample_lease"
    using valid(1) by (simp add: bind_lease_def no_bindings_def second_lease_def sample_lease_def)
  then show ?thesis
    using refused_binding_replaces [of ?b second_lease sample_lease] valid(2)
    by (cases "bind_lease second_lease ?b") (simp add: second_lease_def sample_lease_def)
qed

end
