(* ===== verification/Execution_Plans.thy ===== *)
theory Execution_Plans
  imports Primitives Ordered_Map
begin

text \<open>
  Plans, results and output of actions (\<open>crates/execution/src/planner.rs\<close>, \<open>support.rs\<close>, \<open>sink.rs\<close>): the plan that
  is bound to an intent by its digest, the output buffer with its byte budget, the events an action reports, and
  the register of running actions. The digest (\<open>serde_json\<close> and \<open>sha2\<close>) is a parameter over the fields it
  covers; the processes whose output is collected are outside.
\<close>

subsection \<open>Plans\<close>

record output_budget =
  ob_schema_version :: schema_version
  ob_max_bytes :: u64
  ob_truncate :: bool

definition truncate_at :: "u64 \<Rightarrow> output_budget" where
  "truncate_at n = \<lparr>ob_schema_version = 1, ob_max_bytes = n, ob_truncate = True\<rparr>"

definition strict_budget :: "u64 \<Rightarrow> output_budget" where
  "strict_budget n = \<lparr>ob_schema_version = 1, ob_max_bytes = n, ob_truncate = False\<rparr>"

text \<open>The fields that the digest covers, and what a plan adds to them.\<close>

record plan_material =
  pm_schema_version :: schema_version
  pm_intent :: action_intent
  pm_backend :: backend_kind
  pm_scope :: scope
  pm_rollback_boundary :: rollback_boundary
  pm_budget :: output_budget
  pm_timeout :: duration_ms

record execution_plan = plan_material +
  xpl_digest :: plan_digest
  xpl_approval_ref :: "approval_id option"
  xpl_verify_ref :: "string option"

type_synonym plan_hash = "plan_material \<Rightarrow> plan_digest result"

definition digest_plan :: "plan_hash \<Rightarrow> execution_plan \<Rightarrow> plan_digest result" where
  "digest_plan H p = H (plan_material.truncate p)"

definition validate_digest :: "plan_hash \<Rightarrow> execution_plan \<Rightarrow> unit result" where
  "validate_digest H p = and_then (digest_plan H p) (\<lambda>expected.
     ensure (expected = xpl_digest p) ''execution plan digest no longer matches its contents'')"

definition with_approval :: "approval_id \<Rightarrow> execution_plan \<Rightarrow> execution_plan" where
  "with_approval a p = p\<lparr>xpl_approval_ref := Some a\<rparr>"

primrec backend_matches :: "backend_kind \<Rightarrow> action_parameters \<Rightarrow> bool" where
  "backend_matches k (Shell u1 u2 u3 u4) = (k = backend_kind.Shell)"
| "backend_matches k (File u1 u2 u3) = (k = backend_kind.File)"
| "backend_matches k (Mcp u1 u2 u3 u4 u5 u6 u7) = (k = backend_kind.Mcp)"
| "backend_matches k (Notification u1 u2 u3 u4) = (k = backend_kind.Notification)"
| "backend_matches k (Browser u1) = (k = backend_kind.Browser)"
| "backend_matches k (Computer u1) = (k = backend_kind.Computer)"
| "backend_matches k (Pty u1) = (k = backend_kind.Pty)"
| "backend_matches k (AppApi u1) = (k = backend_kind.AppApi)"
| "backend_matches k (Remote u1) = (k = backend_kind.Remote)"

definition validate_backend_parameters :: "action_intent \<Rightarrow> unit result" where
  "validate_backend_parameters i =
     ensure (backend_matches (backend_hint i) (parameters i)) ''backend and action parameters disagree''"

fun plan_rollback_boundary :: "action_parameters \<Rightarrow> rollback_boundary" where
  "plan_rollback_boundary (File operation _ _) =
     (if operation = file_operation.Write \<or> operation = file_operation.Delete then ''file-content-snapshot'' else ''none'')"
| "plan_rollback_boundary (Notification _ _ _ _) = ''notification-not-retractable''"
| "plan_rollback_boundary (Browser spec) =
     (case br_operation spec of
        Click _ \<Rightarrow> ''browser-effect-not-retractable''
      | Type _ _ \<Rightarrow> ''browser-effect-not-retractable''
      | _ \<Rightarrow> ''none'')"
| "plan_rollback_boundary (Computer spec) =
     (case co_operation spec of ScreenshotAll \<Rightarrow> ''none'' | _ \<Rightarrow> ''computer-effect-not-retractable'')"
| "plan_rollback_boundary (Pty _) = ''process-effect-not-retractable''"
| "plan_rollback_boundary (AppApi spec) =
     (case api_operation spec of ReadApi \<Rightarrow> ''read-only-no-rollback-needed'' | Mutation _ _ _ \<Rightarrow> ''api-mutation-not-retractable'')"
| "plan_rollback_boundary (Remote spec) = op_rollback_boundary (pl_operation (ra_placement spec))"
| "plan_rollback_boundary _ = ''none''"

definition plan_with :: "plan_hash \<Rightarrow> action_intent \<Rightarrow> output_budget \<Rightarrow> duration_ms \<Rightarrow> execution_plan result" where
  "plan_with H i budget timeout =
     and_then (ensure (ob_max_bytes budget \<noteq> 0 \<and> timeout \<noteq> 0) ''execution budget and timeout must be non-zero'') (\<lambda>_.
     and_then (validate_backend_parameters i) (\<lambda>_.
     let p = \<lparr>pm_schema_version = 1, pm_intent = i, pm_backend = backend_hint i, pm_scope = in_scope i,
        pm_rollback_boundary = plan_rollback_boundary (parameters i), pm_budget = budget, pm_timeout = timeout,
        xpl_digest = [], xpl_approval_ref = None, xpl_verify_ref = None\<rparr> in
     and_then (digest_plan H p) (\<lambda>d. Inr (p\<lparr>xpl_digest := d\<rparr>))))"

definition validate_plan_for :: "plan_hash \<Rightarrow> execution_plan \<Rightarrow> backend_kind \<Rightarrow> unit result" where
  "validate_plan_for H p b =
     and_then (validate_digest H p) (\<lambda>_.
     and_then (ensure (pm_backend p = b \<and> backend_hint (pm_intent p) = b \<and> pm_scope p = in_scope (pm_intent p))
       ''execution plan is routed to the wrong backend'') (\<lambda>_.
     validate_backend_parameters (pm_intent p)))"

subsection \<open>Bytes as text\<close>

text \<open>
  \<open>String::from_utf8_lossy\<close>: every maximal prefix of a character that the next byte cannot continue is replaced
  by U+FFFD. \<open>utf8_step\<close> says how many bytes the next step takes and whether they are a character.
\<close>

definition continuation :: "char \<Rightarrow> bool" where
  "continuation c \<longleftrightarrow> 0x80 \<le> byte c \<and> byte c \<le> 0xBF"

definition second_byte :: "nat \<Rightarrow> char \<Rightarrow> bool" where
  "second_byte b c \<longleftrightarrow>
     (if b = 0xE0 then 0xA0 \<le> byte c \<and> byte c \<le> 0xBF
      else if b = 0xED then 0x80 \<le> byte c \<and> byte c \<le> 0x9F
      else if b = 0xF0 then 0x90 \<le> byte c \<and> byte c \<le> 0xBF
      else if b = 0xF4 then 0x80 \<le> byte c \<and> byte c \<le> 0x8F
      else continuation c)"

definition utf8_width :: "nat \<Rightarrow> nat" where
  "utf8_width b =
     (if b < 0x80 then 1 else if 0xC2 \<le> b \<and> b \<le> 0xDF then 2 else if 0xE0 \<le> b \<and> b \<le> 0xEF then 3
      else if 0xF0 \<le> b \<and> b \<le> 0xF4 then 4 else 0)"

definition utf8_step :: "char \<Rightarrow> string \<Rightarrow> nat \<times> bool" where
  "utf8_step c cs =
     (let w = utf8_width (byte c) in
      if w = 1 then (1, True)
      else if w = 0 then (1, False)
      else case cs of
        [] \<Rightarrow> (1, False)
      | d # ds \<Rightarrow>
          if \<not> second_byte (byte c) d then (1, False)
          else if w = 2 then (2, True)
          else case ds of
            [] \<Rightarrow> (2, False)
          | e # es \<Rightarrow>
              if \<not> continuation e then (2, False)
              else if w = 3 then (3, True)
              else case es of
                [] \<Rightarrow> (3, False)
              | f # fs \<Rightarrow> if continuation f then (4, True) else (3, False))"

definition replacement_character :: string where
  "replacement_character = [CHR 0xEF, CHR 0xBF, CHR 0xBD]"

lemma utf8_step_positive: "0 < fst (utf8_step c cs)"
  by (simp add: utf8_step_def Let_def split: list.splits)

function utf8_lossy :: "string \<Rightarrow> string" where
  "utf8_lossy [] = []"
| "utf8_lossy (c # cs) =
     (case utf8_step c cs of (n, ok) \<Rightarrow>
        (if ok then take n (c # cs) else replacement_character) @ utf8_lossy (drop n (c # cs)))"
  by pat_completeness auto

termination
proof (relation "measure length")
  fix c :: char and cs n ok
  assume "(n, ok) = utf8_step c cs"
  then have "0 < n" using utf8_step_positive [of c cs] by (metis fst_conv)
  then show "(drop n (c # cs), c # cs) \<in> measure length" by simp
qed simp

subsection \<open>What an action reports\<close>

datatype effect_status = EffectObserved | EffectCommitted | EffectUnknown

record action_receipt =
  arc_schema_version :: schema_version
  arc_action :: action_id
  arc_content_ref :: "string option"
  arc_content_digest :: "schema_digest option"
  arc_trust :: trust_tier
  arc_effect :: effect_status
  arc_probe_hint :: "string option"

datatype execution_event =
    StartedEvent action_id backend_kind scope
  | OutputDeltaEvent action_id backend_kind scope string bool "string option"
  | CompletedEvent action_id string "action_receipt option"
  | OutcomeUnknownEvent action_id string
  | CancelledEvent action_id string
  | FailedEvent action_id string
  | EvidenceEvent capability_ref string string

datatype action_status = CompletedStatus | FailedStatus | CancelledStatus | UnknownStatus

record file_diff =
  df_schema_version :: schema_version
  df_path :: string
  df_operation :: file_operation
  df_previous_bytes :: u64
  df_next_bytes :: u64
  df_summary :: string

record file_rollback =
  rl_schema_version :: schema_version
  rl_path :: string
  rl_previous :: "string option"
  rl_remove_if_previously_absent :: bool

record action_result =
  ar_schema_version :: schema_version
  ar_result_ref :: string
  ar_status :: action_status
  ar_output_ref :: string
  ar_output :: string
  ar_truncated :: bool
  ar_evidence :: capability_evidence
  ar_diff :: "file_diff option"
  ar_rollback :: "file_rollback option"
  ar_receipt :: "action_receipt option"

text \<open>
  The sink appends an event that its observer lets pass. \<open>EventSink\<close> is the list of what it holds; the observer is
  an argument of the operations that emit.
\<close>

type_synonym event_observer = "execution_event \<Rightarrow> unit result"

definition emit :: "event_observer \<Rightarrow> execution_event \<Rightarrow> execution_event list \<Rightarrow> unit result \<times> execution_event list" where
  "emit ob e es = (case ob e of Inl err \<Rightarrow> (Inl err, es) | Inr _ \<Rightarrow> (Inr (), es @ [e]))"

definition normalized_result ::
  "execution_plan \<Rightarrow> action_status \<Rightarrow> string \<Rightarrow> bool \<Rightarrow> string \<Rightarrow> file_diff option \<Rightarrow> file_rollback option
    \<Rightarrow> action_receipt option \<Rightarrow> action_result" where
  "normalized_result p status out clipped outcome diff rollback receipt =
     \<lparr>ar_schema_version = 1, ar_result_ref = ''action-result:'' @ intent_id (pm_intent p), ar_status = status,
      ar_output_ref = ''action-output:'' @ intent_id (pm_intent p), ar_output = out, ar_truncated = clipped,
      ar_evidence = \<lparr>ce_schema_version = 1, ce_capability = in_capability_ref (pm_intent p), ce_outcome = outcome,
        ce_reliability = ''observed''\<rparr>, ar_diff = diff, ar_rollback = rollback, ar_receipt = receipt\<rparr>"

record bounded_output =
  bo_budget :: output_budget
  bo_bytes :: string
  bo_truncated :: bool

definition output_new :: "output_budget \<Rightarrow> bounded_output" where
  "output_new b = \<lparr>bo_budget = b, bo_bytes = [], bo_truncated = False\<rparr>"

definition output_text :: "bounded_output \<Rightarrow> string" where
  "output_text o' = utf8_lossy (bo_bytes o')"

text \<open>The length of a buffer fits \<open>u64\<close>; \<open>saturating_sub\<close> on it is subtraction of naturals.\<close>

definition output_push ::
  "event_observer \<Rightarrow> execution_plan \<Rightarrow> string option \<Rightarrow> string \<Rightarrow> bounded_output \<times> execution_event list
    \<Rightarrow> unit result \<times> bounded_output \<times> execution_event list" where
  "output_push ob p content bytes oe =
     (case oe of (o', es) \<Rightarrow>
        if bytes = [] then (Inr (), o', es)
        else
          let remaining = unat (ob_max_bytes (bo_budget o')) - length (bo_bytes o') in
          if remaining < length bytes \<and> \<not> ob_truncate (bo_budget o')
          then (fails ''action output exceeded its strict byte budget'', o', es)
          else
            let accepted = take remaining bytes;
                clipped = remaining < length bytes;
                o2 = o'\<lparr>bo_bytes := bo_bytes o' @ accepted, bo_truncated := bo_truncated o' \<or> clipped\<rparr> in
            if accepted \<noteq> [] \<or> clipped
            then (case emit ob (OutputDeltaEvent (intent_id (pm_intent p)) (pm_backend p) (pm_scope p) (utf8_lossy accepted) clipped
                    content) es of (r, es') \<Rightarrow> (r, o2, es'))
            else (Inr (), o2, es))"

definition emit_started :: "event_observer \<Rightarrow> execution_plan \<Rightarrow> execution_event list \<Rightarrow> unit result \<times> execution_event list" where
  "emit_started ob p = emit ob (StartedEvent (intent_id (pm_intent p)) (pm_backend p) (pm_scope p))"

text \<open>A terminal event, then the evidence of the result, then the result.\<close>

definition report ::
  "event_observer \<Rightarrow> execution_event \<Rightarrow> action_result \<Rightarrow> execution_event list \<Rightarrow> action_result result \<times> execution_event list" where
  "report ob e r es =
     (case emit ob e es of
        (Inl err, es1) \<Rightarrow> (Inl err, es1)
      | (Inr _, es1) \<Rightarrow>
          (case emit ob (EvidenceEvent (ce_capability (ar_evidence r)) (ce_outcome (ar_evidence r)) (ce_reliability (ar_evidence r))) es1 of
             (Inl err, es2) \<Rightarrow> (Inl err, es2)
           | (Inr _, es2) \<Rightarrow> (Inr r, es2)))"

definition complete_action ::
  "event_observer \<Rightarrow> execution_plan \<Rightarrow> bounded_output \<Rightarrow> file_diff option \<Rightarrow> file_rollback option \<Rightarrow> execution_event list
    \<Rightarrow> action_result result \<times> execution_event list" where
  "complete_action ob p o' diff rollback =
     (let r = normalized_result p CompletedStatus (output_text o') (bo_truncated o') ''success'' diff rollback None in
      report ob (CompletedEvent (intent_id (pm_intent p)) (ar_result_ref r) None) r)"

definition complete_external ::
  "event_observer \<Rightarrow> execution_plan \<Rightarrow> bounded_output \<Rightarrow> action_receipt \<Rightarrow> execution_event list
    \<Rightarrow> action_result result \<times> execution_event list" where
  "complete_external ob p o' rc =
     (let r = normalized_result p CompletedStatus (output_text o') (bo_truncated o') ''success'' None None (Some rc) in
      report ob (CompletedEvent (intent_id (pm_intent p)) (ar_result_ref r) (Some rc)) r)"

definition outcome_unknown ::
  "event_observer \<Rightarrow> execution_plan \<Rightarrow> bounded_output \<Rightarrow> string \<Rightarrow> execution_event list
    \<Rightarrow> action_result result \<times> execution_event list" where
  "outcome_unknown ob p o' hint =
     (let rc = \<lparr>arc_schema_version = 1, arc_action = intent_id (pm_intent p), arc_content_ref = None, arc_content_digest = None,
        arc_trust = Untrusted, arc_effect = EffectUnknown, arc_probe_hint = Some hint\<rparr>;
        r = normalized_result p UnknownStatus (output_text o') (bo_truncated o') ''unknown'' None None (Some rc) in
      report ob (OutcomeUnknownEvent (intent_id (pm_intent p)) hint) r)"

definition cancelled_action ::
  "event_observer \<Rightarrow> execution_plan \<Rightarrow> bounded_output \<Rightarrow> execution_event list \<Rightarrow> action_result result \<times> execution_event list" where
  "cancelled_action ob p o' =
     (let r = normalized_result p CancelledStatus (output_text o') (bo_truncated o') ''cancelled'' None None None in
      report ob (CancelledEvent (intent_id (pm_intent p)) ''cancelled by execution token'') r)"

text \<open>\<open>failed\<close> ignores an observer that refuses; it gives the error the caller returns.\<close>

definition failed_action :: "event_observer \<Rightarrow> execution_plan \<Rightarrow> execution_event list \<Rightarrow> execution_event list" where
  "failed_action ob p es =
     (let es1 = snd (emit ob (FailedEvent (intent_id (pm_intent p)) (''execution-failure:'' @ intent_id (pm_intent p))) es) in
      snd (emit ob (EvidenceEvent (in_capability_ref (pm_intent p)) ''failure'' ''observed'') es1))"

fun terminal_for :: "action_id \<Rightarrow> execution_event \<Rightarrow> bool" where
  "terminal_for i (CompletedEvent j _ _) = (j = i)"
| "terminal_for i (OutcomeUnknownEvent j _) = (j = i)"
| "terminal_for i (CancelledEvent j _) = (j = i)"
| "terminal_for i (FailedEvent j _) = (j = i)"
| "terminal_for i _ = False"

definition fail_unless_terminal :: "event_observer \<Rightarrow> execution_plan \<Rightarrow> execution_event list \<Rightarrow> execution_event list" where
  "fail_unless_terminal ob p es =
     (if \<exists>e\<in>set es. terminal_for (intent_id (pm_intent p)) e then es else failed_action ob p es)"

subsection \<open>Running actions\<close>

text \<open>The register maps an action to its token; a token is a cell of the store of tokens that are cancelled.\<close>

record active_cancellations =
  cx_actions :: "(action_id, nat) btree_map"
  cx_cancelled :: "nat set"

definition register_action :: "action_id \<Rightarrow> nat \<Rightarrow> active_cancellations \<Rightarrow> unit result \<times> active_cancellations" where
  "register_action a t x =
     (if bm_contains (cx_actions x) a then (fails ''action is already executing'', x)
      else (Inr (), x\<lparr>cx_actions := bm_insert a t (cx_actions x)\<rparr>))"

definition remove_action :: "action_id \<Rightarrow> active_cancellations \<Rightarrow> active_cancellations" where
  "remove_action a x = x\<lparr>cx_actions := bm_remove a (cx_actions x)\<rparr>"

definition cancel_action :: "action_id \<Rightarrow> active_cancellations \<Rightarrow> unit result \<times> active_cancellations" where
  "cancel_action a x =
     (case bm_get (cx_actions x) a of
        None \<Rightarrow> (fails ''action is not currently executing'', x)
      | Some t \<Rightarrow> (Inr (), x\<lparr>cx_cancelled := insert t (cx_cancelled x)\<rparr>))"

end
