(* ===== verification/File_Backend.thy ===== *)
theory File_Backend
  imports Execution_Plans "HOL-Library.Sublist"
begin

text \<open>
  The file and the notification backend and the registry of backends (\<open>crates/execution/src/file.rs\<close>,
  \<open>notification.rs\<close>, \<open>registry.rs\<close>). The file system is the interface \<open>file_world\<close> over a state of the world, in
  which a canonical path is its list of components; the clock and the cancellation token are read at the points
  where the code reads them.
\<close>

subsection \<open>The file system\<close>

type_synonym path = "string list"

record 'w file_os =
  os_canonicalize :: "'w \<Rightarrow> string \<Rightarrow> path result"
  os_requested_exists :: "'w \<Rightarrow> string \<Rightarrow> bool"
  os_is_dir :: "'w \<Rightarrow> path \<Rightarrow> bool"
  os_target_exists :: "'w \<Rightarrow> path \<Rightarrow> bool"
  os_read :: "'w \<Rightarrow> path \<Rightarrow> string result"
  os_write :: "'w \<Rightarrow> path \<Rightarrow> string \<Rightarrow> unit result \<times> 'w"
  os_remove :: "'w \<Rightarrow> path \<Rightarrow> unit result \<times> 'w"
  os_parent :: "string \<Rightarrow> string option"
  os_file_name :: "string \<Rightarrow> string option"
  os_display :: "path \<Rightarrow> string"

text \<open>\<open>map_err(|error| format!("message: {error}"))\<close>\<close>

definition described :: "string \<Rightarrow> 'a result \<Rightarrow> 'a result" where
  "described msg r = (case r of Inl (Error e) \<Rightarrow> fails (msg @ e) | Inr v \<Rightarrow> Inr v)"

record file_backend =
  fb_roots :: "path list"
  fb_budget :: output_budget
  fb_timeout :: duration_ms

definition file_backend_new ::
  "'w file_os \<Rightarrow> 'w \<Rightarrow> string list \<Rightarrow> output_budget \<Rightarrow> duration_ms \<Rightarrow> file_backend result" where
  "file_backend_new os w roots budget timeout =
     (if roots = [] \<or> ob_max_bytes budget = 0 \<or> timeout = 0 then fails ''file backend configuration is incomplete''
      else and_then (try_map (\<lambda>root.
          and_then (described (''failed to resolve file root '' @ root @ '': '') (os_canonicalize os w root)) (\<lambda>path.
          and_then (ensure (os_is_dir os w path) ''file root is not a directory'') (\<lambda>_. Inr path))) roots)
        (\<lambda>paths. Inr \<lparr>fb_roots = paths, fb_budget = budget, fb_timeout = timeout\<rparr>))"

definition resolve_target :: "'w file_os \<Rightarrow> path list \<Rightarrow> 'w \<Rightarrow> string \<Rightarrow> path result" where
  "resolve_target os roots w requested =
     and_then
       (if os_requested_exists os w requested
        then described ''failed to resolve file target: '' (os_canonicalize os w requested)
        else and_then (ok_or (os_parent os requested) ''file target has no parent'') (\<lambda>parent.
             and_then (ok_or (os_file_name os requested) ''file target has no final component'') (\<lambda>nm.
             and_then (described ''failed to resolve file parent: '' (os_canonicalize os w parent)) (\<lambda>path.
             Inr (path @ [nm])))))
       (\<lambda>resolved.
     and_then (ensure (\<exists>root\<in>set roots. prefix root resolved) ''file target is outside allowed roots'') (\<lambda>_.
     Inr resolved))"

text \<open>What the token and the clock show when they are asked.\<close>

record interruption =
  ir_cancelled_before :: bool
  ir_cancelled_start :: bool
  ir_elapsed_start :: nat
  ir_cancelled_commit :: bool
  ir_elapsed_commit :: nat

text \<open>\<open>Some\<close> ends the action with its result; None goes on.\<close>

definition check_interrupt ::
  "event_observer \<Rightarrow> execution_plan \<Rightarrow> bool \<Rightarrow> nat \<Rightarrow> bounded_output \<Rightarrow> execution_event list
    \<Rightarrow> action_result result option \<times> execution_event list" where
  "check_interrupt ob p cancelled elapsed o' es =
     (if cancelled then (case cancelled_action ob p o' es of (r, es') \<Rightarrow> (Some r, es'))
      else if unat (pm_timeout p) \<le> elapsed then (Some (fails ''file action exceeded its timeout''), failed_action ob p es)
      else (None, es))"

fun operation_debug :: "file_operation \<Rightarrow> string" where
  "operation_debug file_operation.Read = ''Read''"
| "operation_debug file_operation.Write = ''Write''"
| "operation_debug file_operation.Delete = ''Delete''"

definition optional_length :: "string option \<Rightarrow> nat" where
  "optional_length b = (case b of None \<Rightarrow> 0 | Some s \<Rightarrow> length s)"

definition change_summary :: "'w file_os \<Rightarrow> file_operation \<Rightarrow> path \<Rightarrow> string option \<Rightarrow> string option \<Rightarrow> string" where
  "change_summary os op target previous content =
     ''file '' @ operation_debug op @ '': '' @ show_nat (optional_length previous) @ '' bytes -> ''
     @ show_nat (optional_length content) @ '' bytes at '' @ os_display os target"

definition file_read ::
  "'w file_os \<Rightarrow> event_observer \<Rightarrow> execution_plan \<Rightarrow> path \<Rightarrow> bounded_output \<Rightarrow> 'w \<Rightarrow> execution_event list
    \<Rightarrow> action_result result \<times> execution_event list" where
  "file_read os ob p target o' w es =
     (case described ''failed to read file: '' (os_read os w target) of
        Inl e \<Rightarrow> (Inl e, failed_action ob p es)
      | Inr bytes \<Rightarrow>
          (case output_push ob p None bytes (o', es) of
             (Inl e, _, es') \<Rightarrow> (Inl e, failed_action ob p es')
           | (Inr _, o2, es') \<Rightarrow> complete_action ob p o2 None None es'))"

text \<open>The effect of a change and its report; the checks before it are in \<open>file_change\<close>.\<close>

definition file_commit ::
  "'w file_os \<Rightarrow> event_observer \<Rightarrow> execution_plan \<Rightarrow> file_operation \<Rightarrow> path \<Rightarrow> string option \<Rightarrow> string option \<Rightarrow> bounded_output
    \<Rightarrow> 'w \<Rightarrow> execution_event list \<Rightarrow> action_result result \<times> 'w \<times> execution_event list" where
  "file_commit os ob p op target previous content o' w es =
     (case (case op of
              file_operation.Write \<Rightarrow>
                (case content of
                   None \<Rightarrow> (fails ''file write content disappeared before execution'', w)
                 | Some bytes \<Rightarrow> apfst (described ''failed to write file: '') (os_write os w target bytes))
            | file_operation.Delete \<Rightarrow> apfst (described ''failed to delete file: '') (os_remove os w target)
            | file_operation.Read \<Rightarrow> (fails ''file operation changed during execution'', w)) of
        (Inl e, w') \<Rightarrow> (Inl e, w', failed_action ob p es)
      | (Inr _, w') \<Rightarrow>
          (case complete_action ob p o'
             (Some \<lparr>df_schema_version = 1, df_path = os_display os target, df_operation = op,
                df_previous_bytes = of_nat (optional_length previous), df_next_bytes = of_nat (optional_length content),
                df_summary = change_summary os op target previous content\<rparr>)
             (Some \<lparr>rl_schema_version = 1, rl_path = os_display os target, rl_previous = previous,
                rl_remove_if_previously_absent = (previous = None)\<rparr>) es of
             (r, es') \<Rightarrow> (r, w', es')))"

definition previous_contents :: "'w file_os \<Rightarrow> 'w \<Rightarrow> path \<Rightarrow> string option result" where
  "previous_contents os w target =
     (if os_target_exists os w target
      then and_then (described ''failed to read existing file: '' (os_read os w target)) (\<lambda>b. Inr (Some b))
      else Inr None)"

definition file_change ::
  "'w file_os \<Rightarrow> plan_hash \<Rightarrow> event_observer \<Rightarrow> execution_plan \<Rightarrow> interruption \<Rightarrow> file_operation \<Rightarrow> path \<Rightarrow> string option
    \<Rightarrow> bounded_output \<Rightarrow> 'w \<Rightarrow> execution_event list \<Rightarrow> action_result result \<times> 'w \<times> execution_event list" where
  "file_change os H ob p ir op target content o' w es =
     (case previous_contents os w target of
        Inl e \<Rightarrow> (Inl e, w, failed_action ob p es)
      | Inr previous \<Rightarrow>
          if op = file_operation.Delete \<and> previous = None
          then (fails ''file delete target does not exist'', w, failed_action ob p es)
          else
            (case output_push ob p None (change_summary os op target previous content) (o', es) of
               (Inl e, _, es1) \<Rightarrow> (Inl e, w, failed_action ob p es1)
             | (Inr _, o2, es1) \<Rightarrow>
                 (case check_interrupt ob p (ir_cancelled_commit ir) (ir_elapsed_commit ir) o2 es1 of
                    (Some r, es2) \<Rightarrow> (r, w, es2)
                  | (None, es2) \<Rightarrow>
                      (case validate_plan_for H p backend_kind.File of
                         Inl e \<Rightarrow> (Inl e, w, es2)
                       | Inr _ \<Rightarrow> file_commit os ob p op target previous content o2 w es2))))"

text \<open>What runs between registering the action and removing it.\<close>

definition file_run ::
  "'w file_os \<Rightarrow> plan_hash \<Rightarrow> event_observer \<Rightarrow> execution_plan \<Rightarrow> interruption \<Rightarrow> file_operation \<Rightarrow> path \<Rightarrow> string option
    \<Rightarrow> 'w \<Rightarrow> execution_event list \<Rightarrow> action_result result \<times> 'w \<times> execution_event list" where
  "file_run os H ob p ir op target content w es =
     (let o' = output_new (pm_budget p) in
      case emit_started ob p es of
        (Inl e, es1) \<Rightarrow> (Inl e, w, es1)
      | (Inr _, es1) \<Rightarrow>
          (case check_interrupt ob p (ir_cancelled_start ir) (ir_elapsed_start ir) o' es1 of
             (Some r, es2) \<Rightarrow> (r, w, es2)
           | (None, es2) \<Rightarrow>
               if op = file_operation.Read then (case file_read os ob p target o' w es2 of (r, es3) \<Rightarrow> (r, w, es3))
               else file_change os H ob p ir op target content o' w es2))"

definition file_arguments :: "execution_plan \<Rightarrow> (file_operation \<times> string \<times> string option) result" where
  "file_arguments p =
     (case parameters (pm_intent p) of
        File op requested content \<Rightarrow>
          and_then (ensure (\<not> ((op = file_operation.Read \<or> op = file_operation.Delete) \<and> content \<noteq> None))
            ''file read/delete cannot carry replacement content'') (\<lambda>_.
          and_then (ensure (\<not> (op = file_operation.Write \<and> content = None)) ''file write requires content'') (\<lambda>_.
          Inr (op, requested, content)))
      | _ \<Rightarrow> fails ''file backend received non-file parameters'')"

text \<open>\<open>execute\<close>, over the world, the register of running actions and the events of the sink.\<close>

definition file_execute ::
  "'w file_os \<Rightarrow> plan_hash \<Rightarrow> event_observer \<Rightarrow> path list \<Rightarrow> nat \<Rightarrow> execution_plan \<Rightarrow> interruption
    \<Rightarrow> 'w \<times> active_cancellations \<times> execution_event list
    \<Rightarrow> action_result result \<times> 'w \<times> active_cancellations \<times> execution_event list" where
  "file_execute os H ob roots token p ir st =
     (case st of (w, x, es) \<Rightarrow>
        (case and_then (validate_plan_for H p backend_kind.File) (\<lambda>_.
                and_then (file_arguments p) (\<lambda>(op, requested, content).
                and_then (resolve_target os roots w requested) (\<lambda>target. Inr (op, target, content)))) of
           Inl e \<Rightarrow> (Inl e, w, x, es)
         | Inr (op, target, content) \<Rightarrow>
             if ir_cancelled_before ir
             then (case cancelled_action ob p (output_new (pm_budget p)) es of (r, es') \<Rightarrow> (r, w, x, es'))
             else
               (case register_action (intent_id (pm_intent p)) token x of
                  (Inl e, x') \<Rightarrow> (Inl e, w, x', es)
                | (Inr _, x') \<Rightarrow>
                    (case file_run os H ob p ir op target content w es of
                       (r, w', es') \<Rightarrow> (r, w', remove_action (intent_id (pm_intent p)) x', es')))))"

subsection \<open>Local notifications\<close>

record local_notification =
  ln_schema_version :: schema_version
  ln_surface :: string
  ln_target :: participant_id
  ln_title :: string
  ln_body_ref :: string
  ln_plan_digest :: plan_digest

definition validate_notification_intent :: "action_intent \<Rightarrow> unit result" where
  "validate_notification_intent i =
     (case parameters i of
        Notification surface target title body \<Rightarrow>
          ensure (in_schema_version i \<noteq> 0 \<and> backend_hint i = backend_kind.Notification \<and> in_action_type i = Deliver
              \<and> in_expected_effect i = expected_effect.Outward \<and> starts_with ''surface:local'' surface \<and> \<not> blank target
              \<and> \<not> blank title \<and> length title \<le> 120 \<and> \<not> has_control title \<and> \<not> blank body)
            ''notification intent must target a bounded local surface with a safe summary ref''
      | _ \<Rightarrow> fails ''notification backend requires notification parameters'')"

definition notification_plan :: "plan_hash \<Rightarrow> output_budget \<Rightarrow> duration_ms \<Rightarrow> action_intent \<Rightarrow> execution_plan result" where
  "notification_plan H budget timeout i = and_then (validate_notification_intent i) (\<lambda>_. plan_with H i budget timeout)"

definition notification_run ::
  "('d \<Rightarrow> local_notification \<Rightarrow> unit result \<times> 'd) \<Rightarrow> event_observer \<Rightarrow> execution_plan \<Rightarrow> bool \<Rightarrow> 'd \<Rightarrow> execution_event list
    \<Rightarrow> action_result result \<times> 'd \<times> execution_event list" where
  "notification_run deliver ob p cancelled d es =
     (case emit_started ob p es of
        (Inl e, es1) \<Rightarrow> (Inl e, d, es1)
      | (Inr _, es1) \<Rightarrow>
          let o' = output_new (pm_budget p) in
          if cancelled then (case cancelled_action ob p o' es1 of (r, es2) \<Rightarrow> (r, d, es2))
          else
            (case parameters (pm_intent p) of
               Notification surface target title body \<Rightarrow>
                 (case deliver d \<lparr>ln_schema_version = 1, ln_surface = surface, ln_target = target, ln_title = title,
                    ln_body_ref = body, ln_plan_digest = xpl_digest p\<rparr> of
                    (Inl e, d') \<Rightarrow> (Inl e, d', es1)
                  | (Inr _, d') \<Rightarrow>
                      (case output_push ob p None (''local notification delivered by ref '' @ body) (o', es1) of
                         (Inl e, _, es2) \<Rightarrow> (Inl e, d', es2)
                       | (Inr _, o2, es2) \<Rightarrow>
                           (case complete_action ob p o2 None None es2 of (r, es3) \<Rightarrow> (r, d', es3))))
             | _ \<Rightarrow> (fails ''notification plan has incompatible parameters'', d, es1)))"

definition notification_execute ::
  "('d \<Rightarrow> local_notification \<Rightarrow> unit result \<times> 'd) \<Rightarrow> plan_hash \<Rightarrow> event_observer \<Rightarrow> nat \<Rightarrow> execution_plan \<Rightarrow> bool
    \<Rightarrow> 'd \<times> active_cancellations \<times> execution_event list
    \<Rightarrow> action_result result \<times> 'd \<times> active_cancellations \<times> execution_event list" where
  "notification_execute deliver H ob token p cancelled st =
     (case st of (d, x, es) \<Rightarrow>
        (case and_then (validate_plan_for H p backend_kind.Notification) (\<lambda>_. validate_notification_intent (pm_intent p)) of
           Inl e \<Rightarrow> (Inl e, d, x, es)
         | Inr _ \<Rightarrow>
             (case register_action (intent_id (pm_intent p)) token x of
                (Inl e, x') \<Rightarrow> (Inl e, d, x', es)
              | (Inr _, x') \<Rightarrow>
                  (case notification_run deliver ob p cancelled d es of
                     (r, d', es') \<Rightarrow> (r, d', remove_action (intent_id (pm_intent p)) x', es')))))"

text \<open>The sink that keeps what it is given.\<close>

definition in_memory_deliver :: "local_notification list \<Rightarrow> local_notification \<Rightarrow> unit result \<times> local_notification list" where
  "in_memory_deliver d n = (Inr (), d @ [n])"

subsection \<open>The registry of backends\<close>

type_synonym 'b backend_registry = "backend_kind \<Rightarrow> 'b option"

text \<open>\<open>insert\<close> has replaced the backend by the time the error is returned.\<close>

definition register_backend :: "backend_kind \<Rightarrow> 'b \<Rightarrow> 'b backend_registry \<Rightarrow> unit result \<times> 'b backend_registry" where
  "register_backend k b m = (ensure (m k = None) ''execution backend kind is already registered'', m(k \<mapsto> b))"

definition find_backend :: "backend_kind \<Rightarrow> 'b backend_registry \<Rightarrow> 'b result" where
  "find_backend k m = ok_or (m k) ''requested execution backend is not registered''"

definition execute_plan ::
  "'b backend_registry \<Rightarrow> ('b \<Rightarrow> execution_plan \<Rightarrow> 's \<Rightarrow> action_result result \<times> 's) \<Rightarrow> execution_plan \<Rightarrow> 's
    \<Rightarrow> action_result result \<times> 's" where
  "execute_plan m run p s =
     (case find_backend (pm_backend p) m of Inl e \<Rightarrow> (Inl e, s) | Inr b \<Rightarrow> run b p s)"

end
