(* ===== verification/Output_Budget.thy ===== *)
theory Output_Budget
  imports Execution_Plans
begin

text \<open>
  What the output buffer of an action holds after any chunks, and what its observers see: the buffer is the head
  of the output within the budget, but the pieces reported on the way are decoded chunk by chunk.
\<close>

fun push_all ::
  "event_observer \<Rightarrow> execution_plan \<Rightarrow> string list \<Rightarrow> bounded_output \<times> execution_event list
    \<Rightarrow> unit result \<times> bounded_output \<times> execution_event list" where
  "push_all ob p [] oe = (Inr (), oe)"
| "push_all ob p (c # cs) oe =
     (case output_push ob p None c oe of
        (Inl e, oe') \<Rightarrow> (Inl e, oe')
      | (Inr _, oe') \<Rightarrow> push_all ob p cs oe')"

definition within_budget :: "string \<Rightarrow> bounded_output \<Rightarrow> bool" where
  "within_budget input o' \<longleftrightarrow> bo_bytes o' = take (unat (ob_max_bytes (bo_budget o'))) input
     \<and> bo_truncated o' = (unat (ob_max_bytes (bo_budget o')) < length input)
     \<and> (bo_truncated o' \<longrightarrow> ob_truncate (bo_budget o'))"

lemma push_within_budget:
  assumes "within_budget input o'" and "output_push ob p c bytes (o', es) = (r, o2, es')" and "r = Inr ()"
  shows "within_budget (input @ bytes) o2 \<and> bo_budget o2 = bo_budget o'"
proof -
  let ?n = "unat (ob_max_bytes (bo_budget o'))"
  have r: "output_push ob p c bytes (o', es) = (Inr (), o2, es')" using assms(2,3) by simp
  consider "bytes = []" "o2 = o'"
    | "bytes \<noteq> []" "\<not> (?n - length (bo_bytes o') < length bytes \<and> \<not> ob_truncate (bo_budget o'))"
      "o2 = o'\<lparr>bo_bytes := bo_bytes o' @ take (?n - length (bo_bytes o')) bytes,
        bo_truncated := bo_truncated o' \<or> ?n - length (bo_bytes o') < length bytes\<rparr>"
    using r by (auto simp: output_push_def Let_def split: if_splits prod.splits)
  then show ?thesis
  proof cases
    case 1
    then show ?thesis using assms(1) by simp
  next
    case 2
    have "?n - length (take ?n input) = ?n - length input" by simp
    then show ?thesis using 2 assms(1) by (auto simp: within_budget_def take_append)
  qed
qed

lemma push_all_within_budget:
  assumes "push_all ob p cs (o', es) = (Inr (), o2, es')" and "within_budget input o'"
  shows "within_budget (input @ concat cs) o2 \<and> bo_budget o2 = bo_budget o'"
  using assms
proof (induction cs arbitrary: o' es input)
  case (Cons c cs)
  obtain r o1 es1 where first: "output_push ob p None c (o', es) = (r, o1, es1)" by (metis prod_cases3)
  then have r: "r = Inr ()" "push_all ob p cs (o1, es1) = (Inr (), o2, es')"
    using Cons.prems(1) by (auto split: sum.splits)
  from push_within_budget [OF Cons.prems(2) first r(1)] Cons.IH [OF r(2), of "input @ c"] show ?case by auto
qed simp

text \<open>C39: Whatever chunks a process writes, a buffer that took them all holds exactly the head of the output that the
  budget allows, says truncated exactly when there was more, and under a strict budget holds all of it.\<close>

theorem output_exact:
  assumes "push_all ob p chunks (output_new b, es) = (Inr (), o', es')"
  shows "bo_bytes o' = take (unat (ob_max_bytes b)) (concat chunks)
    \<and> (bo_truncated o' \<longleftrightarrow> unat (ob_max_bytes b) < length (concat chunks))
    \<and> (ob_truncate b \<or> bo_bytes o' = concat chunks)"
proof -
  have "within_budget [] (output_new b)" by (simp add: within_budget_def output_new_def)
  from push_all_within_budget [OF assms this] show ?thesis
    by (auto simp: within_budget_def output_new_def)
qed

text \<open>ASCII text is decoded as it is.\<close>

lemma utf8_lossy_ascii: "\<forall>c\<in>set s. byte c < 128 \<Longrightarrow> utf8_lossy s = s"
  by (induction s) (auto simp: utf8_step_def utf8_width_def)

definition sample_output_plan :: execution_plan where
  "sample_output_plan = \<lparr>pm_schema_version = 1, pm_intent = read_notes_intent, pm_backend = backend_kind.Shell, pm_scope = ''ws'',
     pm_rollback_boundary = ''none'', pm_budget = truncate_at 8, pm_timeout = 1, xpl_digest = ''d'', xpl_approval_ref = None,
     xpl_verify_ref = None\<rparr>"

definition sample_output :: bounded_output where
  "sample_output = \<lparr>bo_budget = truncate_at 3, bo_bytes = ''abc'', bo_truncated = True\<rparr>"

lemma sample_pushed:
  "push_all (\<lambda>_. Inr ()) sample_output_plan [''ab'', ''cd''] (output_new (truncate_at 3), [])
     = (Inr (), sample_output,
        [OutputDeltaEvent ''a1'' backend_kind.Shell ''ws'' ''ab'' False None,
         OutputDeltaEvent ''a1'' backend_kind.Shell ''ws'' ''c'' True None])"
  by (simp add: output_push_def output_new_def truncate_at_def emit_def sample_output_plan_def read_notes_intent_def
      sample_output_def utf8_step_def utf8_width_def Let_def)

lemma output_exact_witness:
  "bo_bytes sample_output = take 3 (concat [''ab'', ''cd'']) \<and> bo_truncated sample_output"
  using output_exact [OF sample_pushed] by (simp add: truncate_at_def)

text \<open>A character whose bytes arrive in two chunks is intact in the output of the action but is reported to the
  observers as two replacement characters.\<close>

theorem split_character_garbled:
  "push_all (\<lambda>_. Inr ()) sample_output_plan [[CHR 0xC3], [CHR 0xA9]] (output_new (truncate_at 8), [])
     = (Inr (), \<lparr>bo_budget = truncate_at 8, bo_bytes = [CHR 0xC3, CHR 0xA9], bo_truncated = False\<rparr>,
        [OutputDeltaEvent ''a1'' backend_kind.Shell ''ws'' replacement_character False None,
         OutputDeltaEvent ''a1'' backend_kind.Shell ''ws'' replacement_character False None])
   \<and> utf8_lossy [CHR 0xC3, CHR 0xA9] = [CHR 0xC3, CHR 0xA9]"
  by (simp add: output_push_def output_new_def truncate_at_def emit_def sample_output_plan_def read_notes_intent_def
      utf8_step_def utf8_width_def second_byte_def continuation_def Let_def)

end
