(* ===== verification/File_Witnesses.thy ===== *)
theory File_Witnesses
  imports File_Guarantees Output_Budget
begin

text \<open>A concrete write in a concrete file system, at which the theorems of \<open>File_Guarantees\<close> apply.\<close>

definition plain_hash :: plan_hash where
  "plain_hash m = Inr ''digest''"

definition write_intent :: action_intent where
  "write_intent = read_notes_intent\<lparr>in_action_type := Execute, parameters := File file_operation.Write ''ws/a'' (Some ''new'')\<rparr>"

definition write_plan :: execution_plan where
  "write_plan = \<lparr>pm_schema_version = 1, pm_intent = write_intent, pm_backend = backend_kind.File, pm_scope = ''ws:notes'',
     pm_rollback_boundary = ''file-content-snapshot'', pm_budget = truncate_at 100, pm_timeout = 10, xpl_digest = ''digest'',
     xpl_approval_ref = None, xpl_verify_ref = None\<rparr>"

definition old_world :: "path \<Rightarrow> string option" where
  "old_world = Map.empty([''ws'', ''a''] \<mapsto> ''old'')"

definition undisturbed :: interruption where
  "undisturbed = \<lparr>ir_cancelled_before = False, ir_cancelled_start = False, ir_elapsed_start = 0,
     ir_cancelled_commit = False, ir_elapsed_commit = 1\<rparr>"

definition idle :: active_cancellations where
  "idle = \<lparr>cx_actions = bm_empty, cx_cancelled = {}\<rparr>"

lemma write_plan_valid: "validate_plan_for plain_hash write_plan backend_kind.File = Inr ()"
  by (simp add: validate_plan_for_def validate_digest_def digest_plan_def plain_hash_def write_plan_def write_intent_def
      read_notes_intent_def validate_backend_parameters_def)

lemma write_target: "resolve_target map_os [[''ws'']] old_world ''ws/a'' = Inr [''ws'', ''a'']"
  by (simp add: resolve_target_def map_os_def old_world_def described_def)

abbreviation silent_observer :: event_observer where
  "silent_observer \<equiv> \<lambda>_. Inr ()"

definition new_world :: "path \<Rightarrow> string option" where
  "new_world = old_world([''ws'', ''a''] \<mapsto> ''new'')"

lemma silent_emit [simp]: "emit silent_observer e es = (Inr (), es @ [e])"
  by (simp add: emit_def)

lemma silent_push: "ob_truncate (bo_budget o') \<Longrightarrow> \<exists>o2 es'. output_push silent_observer p c b (o', es) = (Inr (), o2, es')"
  by (simp add: output_push_def Let_def)

lemma write_committed:
  "\<exists>res es'. file_commit map_os silent_observer p file_operation.Write [''ws'', ''a''] previous (Some ''new'') o' old_world es
     = (Inr res, new_world, es')"
proof -
  have "os_write map_os old_world [''ws'', ''a''] ''new'' = (Inr (), new_world)" by (simp add: map_os_def new_world_def)
  then show ?thesis
    unfolding file_commit_def complete_action_def report_def Let_def described_def
    by (auto split: prod.split sum.split error.split)
qed

lemma write_changed:
  "\<exists>res es'. file_change map_os plain_hash silent_observer write_plan undisturbed file_operation.Write [''ws'', ''a''] (Some ''new'')
     (output_new (truncate_at 100)) old_world es = (Inr res, new_world, es')"
proof -
  have "previous_contents map_os old_world [''ws'', ''a''] = Inr (Some ''old'')"
    by (simp add: previous_contents_def map_os_def old_world_def described_def)
  moreover have "ob_truncate (bo_budget (output_new (truncate_at 100)))" by (simp add: output_new_def truncate_at_def)
  then obtain o2 es1 where "output_push silent_observer write_plan None
      (change_summary map_os file_operation.Write [''ws'', ''a''] (Some ''old'') (Some ''new'')) (output_new (truncate_at 100), es)
      = (Inr (), o2, es1)"
    using silent_push by blast
  moreover obtain res es2 where "file_commit map_os silent_observer write_plan file_operation.Write [''ws'', ''a''] (Some ''old'')
      (Some ''new'') o2 old_world es1 = (Inr res, new_world, es2)"
    using write_committed by blast
  moreover have "\<not> unat (pm_timeout write_plan) \<le> 1" by (simp add: write_plan_def)
  ultimately show ?thesis
    using write_plan_valid by (simp add: file_change_def check_interrupt_def undisturbed_def)
qed

lemma write_done:
  "\<exists>res x es. file_execute map_os plain_hash silent_observer [[''ws'']] 0 write_plan undisturbed (old_world, idle, [])
     = (Inr res, new_world, x, es)"
proof -
  have "file_arguments write_plan = Inr (file_operation.Write, ''ws/a'', Some ''new'')"
    by (simp add: file_arguments_def write_plan_def write_intent_def)
  moreover obtain res es where "file_run map_os plain_hash silent_observer write_plan undisturbed file_operation.Write [''ws'', ''a'']
      (Some ''new'') old_world [] = (Inr res, new_world, es)"
  proof -
    have budget: "pm_budget write_plan = truncate_at 100" "\<not> unat (pm_timeout write_plan) \<le> 0" by (simp_all add: write_plan_def)
    let ?started = "[StartedEvent (intent_id (pm_intent write_plan)) (pm_backend write_plan) (pm_scope write_plan)]"
    obtain res es where "file_change map_os plain_hash silent_observer write_plan undisturbed file_operation.Write [''ws'', ''a'']
        (Some ''new'') (output_new (truncate_at 100)) old_world ?started = (Inr res, new_world, es)"
      using write_changed by blast
    with budget show thesis
      by (intro that [of res es]) (simp add: file_run_def emit_started_def check_interrupt_def undisturbed_def)
  qed
  moreover have "\<exists>x. register_action (intent_id (pm_intent write_plan)) 0 idle = (Inr (), x)"
    by (simp add: register_action_def idle_def bm_contains_def)
  ultimately show ?thesis
    using write_plan_valid write_target by (auto simp: file_execute_def undisturbed_def)
qed


lemma file_reports_one_end_witness:
  "\<exists>added. snd (snd (snd (file_execute map_os plain_hash silent_observer [[''ws'']] 0 write_plan undisturbed (old_world, idle, []))))
     = [] @ added \<and> length (filter (terminal_for ''a1'') added) = 1"
proof -
  obtain res x es where run: "file_execute map_os plain_hash silent_observer [[''ws'']] 0 write_plan undisturbed (old_world, idle, [])
     = (Inr res, new_world, x, es)"
    using write_done by blast
  have "intent_id (pm_intent write_plan) = ''a1''" by (simp add: write_plan_def write_intent_def read_notes_intent_def)
  with file_reports_one_end [OF _ run] run show ?thesis by simp
qed

end
