(* ===== verification/Communication.thy ===== *)
theory Communication
  imports External_Policy Ordered_Map
begin

text \<open>
  The communication membrane (\<open>crates/communication/src/lib.rs\<close>): channel adapters that normalise input, sessions
  with external participants under a budget, disclosure of categories of content, and observations of devices
  under a grant. The fabric is the record \<open>fabric\<close>; each of its methods is a function of the clock's reading and
  the fabric. A time stamp is an integer whose sums saturate at the bounds of \<open>i64\<close>.
\<close>

subsection \<open>Vocabulary\<close>

datatype modality = TextModality | VoiceModality | ImageModality | VideoModality

datatype carrier = Software | Hardware

fun carrier_ref :: "carrier \<Rightarrow> string" where
  "carrier_ref Software = ''software''"
| "carrier_ref Hardware = ''hardware''"

datatype participant = OwnerParticipant | ExternalParticipant participant_id | RepresentingAgent | ExternalAgentParticipant participant_id

fun participant_id :: "participant \<Rightarrow> participant_id" where
  "participant_id OwnerParticipant = ''owner''"
| "participant_id (ExternalParticipant i) = i"
| "participant_id (ExternalAgentParticipant i) = i"
| "participant_id RepresentingAgent = ''forme-representative''"

fun is_external :: "participant \<Rightarrow> bool" where
  "is_external (ExternalParticipant _) = True"
| "is_external (ExternalAgentParticipant _) = True"
| "is_external _ = False"

record raw_input =
  ri_schema_version :: schema_version
  ri_message_id :: string
  ri_modality :: modality
  ri_content :: string
  ri_session_ref :: "string option"
  ri_received_at :: timestamp

record communication_event =
  ce2_schema_version :: schema_version
  ce2_message_id :: string
  ce2_modality :: modality
  ce2_carrier :: carrier
  ce2_channel_adapter :: string
  ce2_participant :: participant
  ce2_scope :: scope
  ce2_session_ref :: "string option"
  ce2_content :: string
  ce2_received_at :: timestamp

definition event_complete :: "communication_event \<Rightarrow> unit result" where
  "event_complete e = ensure (ce2_schema_version e \<noteq> 0 \<and> \<not> blank (ce2_message_id e) \<and> \<not> blank (ce2_channel_adapter e)
     \<and> \<not> blank (ce2_scope e) \<and> \<not> blank (ce2_content e)) ''communication event is incomplete''"

datatype disclosure_outcome = AnswerOutcome | BlurOutcome | ApproveOutcome | RefuseOutcome

record disclosure_binding =
  db_schema_version :: schema_version
  db_session :: string
  db_participant :: participant_id
  db_purpose :: string
  db_content_ref :: string
  db_category :: string
  db_sensitive :: bool
  db_confirmed :: bool
  db_high_impact :: bool

datatype communication_payload =
    EventReceived modality string string participant_id scope "string option" "string option"
  | CommunicationGranted string string string duration_ms string string
  | SessionOpened string participant_id string duration_ms string
  | SessionTerminated string string
  | DisclosureApplied string disclosure_outcome representation "disclosure_binding option"
  | ObservationRecorded source scope "string option"
  | DeviceRevoked string string

definition event_received :: "communication_event \<Rightarrow> communication_payload" where
  "event_received e = EventReceived (ce2_modality e) (carrier_ref (ce2_carrier e)) (ce2_channel_adapter e)
     (participant_id (ce2_participant e)) (ce2_scope e) (ce2_session_ref e) (Some (''message:'' @ ce2_message_id e))"

subsection \<open>Text channel\<close>

record text_adapter =
  ta_schema_version :: schema_version
  ta_id :: string
  ta_participant :: participant
  ta_scope :: scope
  ta_enabled :: bool

definition raw_malformed :: "raw_input \<Rightarrow> bool" where
  "raw_malformed r \<longleftrightarrow> ri_schema_version r = 0 \<or> ri_modality r \<noteq> TextModality \<or> blank (ri_message_id r) \<or> blank (ri_content r)"

definition text_event :: "string \<Rightarrow> participant \<Rightarrow> scope \<Rightarrow> raw_input \<Rightarrow> communication_event" where
  "text_event adapter who sc r =
     \<lparr>ce2_schema_version = 1, ce2_message_id = ri_message_id r, ce2_modality = ri_modality r, ce2_carrier = Software,
      ce2_channel_adapter = adapter, ce2_participant = who, ce2_scope = sc, ce2_session_ref = ri_session_ref r,
      ce2_content = ri_content r, ce2_received_at = ri_received_at r\<rparr>"

definition text_normalize :: "text_adapter \<Rightarrow> raw_input \<Rightarrow> communication_event result" where
  "text_normalize a r =
     (if \<not> ta_enabled a \<or> ta_schema_version a = 0 \<or> raw_malformed r
      then fails ''text channel input is disabled, malformed, or not text''
      else Inr (text_event (ta_id a) (ta_participant a) (ta_scope a) r))"

subsection \<open>Sessions\<close>

record disclosure_rule =
  dl_schema_version :: schema_version
  dl_category :: string
  dl_outcome :: disclosure_outcome
  dl_high_impact_requires_approval :: bool

datatype representation_rule = AgentOnly | RepresentOwnerWithDisclosure | ConfirmUncertainRepresentation

record disclosure_policy =
  dp_schema_version :: schema_version
  dp_id :: string
  dp_allow :: "disclosure_rule list"
  dp_representation :: representation_rule

record termination_policy =
  tp_schema_version :: schema_version
  tp_max_rounds :: u32
  tp_terminate_on_purpose_drift :: bool
  tp_terminate_on_risk_escalation :: bool

record communication_budget =
  cbg_schema_version :: schema_version
  cbg_max_messages :: u32
  cbg_max_tokens :: u64

record communication_purpose =
  pu_schema_version :: schema_version
  pu_id :: string
  pu_description :: string

record transcript_policy =
  trp_schema_version :: schema_version
  trp_id :: string
  trp_retain :: bool
  trp_candidate_only :: bool

record communication_grant =
  eg_schema_version :: schema_version
  eg_grant_ref :: string
  eg_participant :: participant
  eg_purpose :: communication_purpose
  eg_modality_set :: "modality list"
  eg_disclosure :: disclosure_policy
  eg_termination :: termination_policy
  eg_autonomy_envelope :: autonomy_envelope
  eg_ttl :: duration_ms
  eg_budget :: communication_budget
  eg_transcript_policy :: transcript_policy
  eg_issued_at :: timestamp

datatype session_status = SessionOpen | SessionClosed

record communication_session =
  cse_schema_version :: schema_version
  cse_session_id :: string
  cse_participant :: participant
  cse_purpose :: communication_purpose
  cse_modality_set :: "modality list"
  cse_disclosure_policy :: disclosure_policy
  cse_termination_policy :: termination_policy
  cse_autonomy_envelope :: autonomy_envelope
  cse_ttl :: duration_ms
  cse_budget :: communication_budget
  cse_transcript_policy :: transcript_policy
  cse_opened_at :: timestamp
  cse_expires_at :: timestamp
  cse_rounds :: u32
  cse_messages :: u32
  cse_tokens :: u64
  cse_status :: session_status

record disclosure_request =
  rq_schema_version :: schema_version
  rq_session :: string
  rq_request_ref :: string
  rq_category :: string
  rq_sensitive :: bool
  rq_confirmed :: bool
  rq_high_impact :: bool

record exchange_observation =
  xo_session :: string
  xo_tokens :: u64
  xo_purpose_aligned :: bool
  xo_risk_escalated :: bool

record outbound_message =
  om_schema_version :: schema_version
  om_message_id :: string
  om_session :: string
  om_request_ref :: string
  om_category :: string
  om_content_ref :: string
  om_sensitive :: bool
  om_confirmed :: bool
  om_high_impact :: bool
  om_tokens :: u64
  om_purpose_aligned :: bool
  om_risk_escalated :: bool
  om_requested_at :: timestamp
  om_timeout :: duration_ms
  om_estimated_output_bytes :: u64

text \<open>The counter of sessions is a \<open>u64\<close> in the code; it is taken not to reach \<open>2 ^ 64\<close>.\<close>

record fabric =
  fa_sequence :: nat
  fa_sessions :: "(string, communication_session) btree_map"
  fa_used :: "(string \<times> string) set"
  fa_events :: "communication_payload list"

definition new_fabric :: fabric where
  "new_fabric = \<lparr>fa_sequence = 1, fa_sessions = bm_empty, fa_used = {}, fa_events = []\<rparr>"

definition budget_text :: "communication_budget \<Rightarrow> string" where
  "budget_text b = ''messages='' @ show_nat (unat (cbg_max_messages b)) @ '';tokens='' @ show_nat (unat (cbg_max_tokens b))"

definition duration_as_i64 :: "duration_ms \<Rightarrow> string \<Rightarrow> timestamp result" where
  "duration_as_i64 d msg = (if int (unat d) \<le> i64_max then Inr (int (unat d)) else fails msg)"

definition validate_communication_grant :: "communication_grant \<Rightarrow> unit result" where
  "validate_communication_grant g =
     ensure (eg_schema_version g \<noteq> 0 \<and> \<not> blank (eg_grant_ref g) \<and> \<not> blank (pu_id (eg_purpose g))
       \<and> \<not> blank (pu_description (eg_purpose g)) \<and> eg_modality_set g \<noteq> [] \<and> eg_ttl g \<noteq> 0
       \<and> cbg_max_messages (eg_budget g) \<noteq> 0 \<and> cbg_max_tokens (eg_budget g) \<noteq> 0 \<and> tp_max_rounds (eg_termination g) \<noteq> 0
       \<and> trp_candidate_only (eg_transcript_policy g) \<and> is_external (eg_participant g)
       \<and> safe_header_component (participant_id (eg_participant g)))
       ''external communication grant must be bounded and candidate-only''"

definition session_of_grant :: "string \<Rightarrow> timestamp \<Rightarrow> timestamp \<Rightarrow> communication_grant \<Rightarrow> communication_session" where
  "session_of_grant i now expires g =
     \<lparr>cse_schema_version = 1, cse_session_id = i, cse_participant = eg_participant g, cse_purpose = eg_purpose g,
      cse_modality_set = eg_modality_set g, cse_disclosure_policy = eg_disclosure g, cse_termination_policy = eg_termination g,
      cse_autonomy_envelope = eg_autonomy_envelope g, cse_ttl = eg_ttl g, cse_budget = eg_budget g,
      cse_transcript_policy = eg_transcript_policy g, cse_opened_at = now, cse_expires_at = expires,
      cse_rounds = 0, cse_messages = 0, cse_tokens = 0, cse_status = SessionOpen\<rparr>"

definition session_name :: "nat \<Rightarrow> string" where
  "session_name k = ''communication-session:'' @ show_nat k"

definition grant_expiry :: "timestamp \<Rightarrow> communication_grant \<Rightarrow> timestamp result" where
  "grant_expiry now g =
     and_then (validate_communication_grant g) (\<lambda>_.
     and_then (duration_as_i64 (eg_ttl g) ''communication TTL exceeds timestamp range'') (\<lambda>ttl.
     and_then (ensure (timestamp_add now ttl \<le> tb_expires_at (env_timebox (eg_autonomy_envelope g)))
       ''communication grant exceeds its autonomy envelope'') (\<lambda>_. Inr (timestamp_add now ttl))))"

definition open_session :: "timestamp \<Rightarrow> communication_grant \<Rightarrow> fabric \<Rightarrow> string result \<times> fabric" where
  "open_session reading g f =
     (let now = max reading (eg_issued_at g) in
      case grant_expiry now g of
        Inl e \<Rightarrow> (Inl e, f)
      | Inr expires \<Rightarrow>
          let i = session_name (fa_sequence f) in
          (Inr i, f\<lparr>fa_sequence := fa_sequence f + 1,
             fa_events := fa_events f @
               [CommunicationGranted (eg_grant_ref g) (pu_id (eg_purpose g)) (dp_id (eg_disclosure g)) (eg_ttl g)
                  (budget_text (eg_budget g)) (trp_id (eg_transcript_policy g)),
                SessionOpened i (participant_id (eg_participant g)) (pu_id (eg_purpose g)) (eg_ttl g) (budget_text (eg_budget g))],
             fa_sessions := bm_insert i (session_of_grant i now expires g) (fa_sessions f)\<rparr>))"

definition close_session :: "string \<Rightarrow> communication_session \<Rightarrow> string \<Rightarrow> fabric \<Rightarrow> fabric" where
  "close_session i s reason f =
     f\<lparr>fa_sessions := bm_insert i (s\<lparr>cse_status := SessionClosed\<rparr>) (fa_sessions f),
       fa_events := fa_events f @ [SessionTerminated i reason]\<rparr>"

text \<open>The limits that an exchange or a delivery may have passed, in the order they are looked at.\<close>

definition passed_limit :: "communication_session \<Rightarrow> u32 \<Rightarrow> u32 \<Rightarrow> u64 \<Rightarrow> bool \<Rightarrow> bool \<Rightarrow> string option" where
  "passed_limit s rounds messages tokens aligned escalated =
     (if tp_max_rounds (cse_termination_policy s) < rounds then Some ''round_limit''
      else if cbg_max_messages (cse_budget s) < messages \<or> cbg_max_tokens (cse_budget s) < tokens
      then Some ''budget_exhausted''
      else if \<not> aligned \<and> tp_terminate_on_purpose_drift (cse_termination_policy s) then Some ''purpose_drift''
      else if escalated \<and> tp_terminate_on_risk_escalation (cse_termination_policy s) then Some ''risk_escalation''
      else None)"

record exchange_outcome =
  xc_schema_version :: schema_version
  xc_terminated :: bool
  xc_reason :: "string option"

definition record_exchange :: "timestamp \<Rightarrow> exchange_observation \<Rightarrow> fabric \<Rightarrow> exchange_outcome result \<times> fabric" where
  "record_exchange now ob f =
     (case bm_get (fa_sessions f) (xo_session ob) of
        None \<Rightarrow> (fails ''communication session is not registered'', f)
      | Some s \<Rightarrow>
          if cse_status s \<noteq> SessionOpen then (fails ''communication session is terminated'', f)
          else
            let s' = s\<lparr>cse_rounds := saturating_add (cse_rounds s) 1, cse_messages := saturating_add (cse_messages s) 2,
                  cse_tokens := saturating_add (cse_tokens s) (xo_tokens ob)\<rparr>;
                reason = (if cse_expires_at s' \<le> now then Some ''ttl_expired''
                  else passed_limit s' (cse_rounds s') (cse_messages s') (cse_tokens s') (xo_purpose_aligned ob)
                    (xo_risk_escalated ob)) in
            (Inr \<lparr>xc_schema_version = 1, xc_terminated = (reason \<noteq> None), xc_reason = reason\<rparr>,
             case reason of
               None \<Rightarrow> f\<lparr>fa_sessions := bm_insert (xo_session ob) s' (fa_sessions f)\<rparr>
             | Some why \<Rightarrow> close_session (xo_session ob) s' why f))"

subsection \<open>Disclosure\<close>

definition disclosure_decision :: "communication_session \<Rightarrow> disclosure_request \<Rightarrow> disclosure_outcome" where
  "disclosure_decision s r =
     (case find (\<lambda>rule. dl_category rule = rq_category r \<or> dl_category rule = ''*'') (dp_allow (cse_disclosure_policy s)) of
        None \<Rightarrow> RefuseOutcome
      | Some rule \<Rightarrow>
          if rq_high_impact r \<and> (dl_high_impact_requires_approval rule \<or> \<not> rq_confirmed r
               \<or> dp_representation (cse_disclosure_policy s) = ConfirmUncertainRepresentation)
          then ApproveOutcome
          else if rq_sensitive r \<and> dl_outcome rule = AnswerOutcome then BlurOutcome
          else dl_outcome rule)"

definition disclosure_representation :: "communication_session \<Rightarrow> representation" where
  "disclosure_representation s =
     (if dp_representation (cse_disclosure_policy s) = AgentOnly then AgentVoice else AgentRepresentingOwner)"

definition apply_disclosure :: "timestamp \<Rightarrow> disclosure_request \<Rightarrow> fabric \<Rightarrow> disclosure_outcome \<times> fabric" where
  "apply_disclosure now r f =
     (case bm_get (fa_sessions f) (rq_session r) of
        None \<Rightarrow> (RefuseOutcome, f)
      | Some s \<Rightarrow>
          if \<not> (cse_status s = SessionOpen \<and> now < cse_expires_at s) then (RefuseOutcome, f)
          else if (rq_session r, rq_request_ref r) \<in> fa_used f then (RefuseOutcome, f)
          else
            let outcome = disclosure_decision s r in
            (outcome, f\<lparr>fa_used := insert (rq_session r, rq_request_ref r) (fa_used f),
               fa_events := fa_events f @ [DisclosureApplied (rq_request_ref r) outcome (disclosure_representation s) None]\<rparr>))"

definition end_session :: "string \<Rightarrow> string \<Rightarrow> fabric \<Rightarrow> unit result \<times> fabric" where
  "end_session i reason f =
     (case bm_get (fa_sessions f) i of
        None \<Rightarrow> (fails ''communication session is not registered'', f)
      | Some s \<Rightarrow> (Inr (), if cse_status s = SessionClosed then f else close_session i s reason f))"

subsection \<open>Deliveries\<close>

record delivery_authorization =
  da_outcome :: disclosure_outcome
  da_representation :: representation
  da_purpose :: string
  da_envelope :: autonomy_envelope

definition validate_outbound_message :: "outbound_message \<Rightarrow> unit result" where
  "validate_outbound_message m =
     ensure (om_schema_version m \<noteq> 0 \<and> safe_header_component (om_message_id m) \<and> \<not> blank (om_session m)
       \<and> \<not> blank (om_request_ref m) \<and> \<not> blank (om_category m) \<and> \<not> blank (om_content_ref m) \<and> om_tokens m \<noteq> 0
       \<and> om_timeout m \<noteq> 0 \<and> om_estimated_output_bytes m \<noteq> 0) ''outbound communication message is incomplete''"

definition request_of_message :: "outbound_message \<Rightarrow> disclosure_request" where
  "request_of_message m =
     \<lparr>rq_schema_version = 1, rq_session = om_session m, rq_request_ref = om_request_ref m, rq_category = om_category m,
      rq_sensitive = om_sensitive m, rq_confirmed = om_confirmed m, rq_high_impact = om_high_impact m\<rparr>"

definition binding_of_message :: "communication_session \<Rightarrow> participant \<Rightarrow> outbound_message \<Rightarrow> disclosure_binding" where
  "binding_of_message s who m =
     \<lparr>db_schema_version = 1, db_session = om_session m, db_participant = participant_id who, db_purpose = pu_id (cse_purpose s),
      db_content_ref = om_content_ref m, db_category = om_category m, db_sensitive = om_sensitive m,
      db_confirmed = om_confirmed m, db_high_impact = om_high_impact m\<rparr>"

definition discloses :: "disclosure_outcome \<Rightarrow> bool" where
  "discloses oc \<longleftrightarrow> oc = AnswerOutcome \<or> oc = ApproveOutcome"

text \<open>A delivery that a limit ends charges nothing: the counters are only advanced when the session stays open.\<close>

definition charge_delivery :: "outbound_message \<Rightarrow> communication_session \<Rightarrow> string option \<times> communication_session" where
  "charge_delivery m s =
     (let rounds = saturating_add (cse_rounds s) 1;
          messages = saturating_add (cse_messages s) 1;
          tokens = saturating_add (cse_tokens s) (om_tokens m) in
      case passed_limit s rounds messages tokens (om_purpose_aligned m) (om_risk_escalated m) of
        None \<Rightarrow> (None, s\<lparr>cse_rounds := rounds, cse_messages := messages, cse_tokens := tokens\<rparr>)
      | Some why \<Rightarrow> (Some why, s\<lparr>cse_status := SessionClosed\<rparr>))"

definition authorize_delivery ::
  "timestamp \<Rightarrow> participant \<Rightarrow> outbound_message \<Rightarrow> fabric \<Rightarrow> delivery_authorization result \<times> fabric" where
  "authorize_delivery now who m f =
     (case and_then (validate_outbound_message m) (\<lambda>_.
             and_then (ok_or (bm_get (fa_sessions f) (om_session m)) ''communication session is not registered'') (\<lambda>s.
             and_then (ensure (cse_status s = SessionOpen \<and> cse_participant s = who)
               ''communication delivery participant or session is inactive'') (\<lambda>_. Inr s))) of
        Inl e \<Rightarrow> (Inl e, f)
      | Inr s \<Rightarrow>
          if cse_expires_at s \<le> now
          then (fails ''communication session TTL expired'', close_session (om_session m) s ''ttl_expired'' f)
          else if (om_session m, om_request_ref m) \<in> fa_used f
          then (fails ''communication disclosure request was already consumed'', f)
          else
            let outcome = disclosure_decision s (request_of_message m);
                auth = \<lparr>da_outcome = outcome, da_representation = disclosure_representation s,
                  da_purpose = pu_id (cse_purpose s), da_envelope = cse_autonomy_envelope s\<rparr>;
                applied = DisclosureApplied (om_request_ref m) outcome (disclosure_representation s)
                  (Some (binding_of_message s who m));
                f1 = f\<lparr>fa_used := insert (om_session m, om_request_ref m) (fa_used f)\<rparr> in
            if \<not> discloses outcome then (Inr auth, f1\<lparr>fa_events := fa_events f @ [applied]\<rparr>)
            else
              (case charge_delivery m s of
                 (None, s') \<Rightarrow>
                   (Inr auth, f1\<lparr>fa_sessions := bm_insert (om_session m) s' (fa_sessions f),
                      fa_events := fa_events f @ [applied]\<rparr>)
               | (Some why, s') \<Rightarrow>
                   (fails ''communication delivery exceeded a termination boundary'',
                    f1\<lparr>fa_sessions := bm_insert (om_session m) s' (fa_sessions f),
                       fa_events := fa_events f @ [applied, SessionTerminated (om_session m) why]\<rparr>)))"

definition scope_within :: "scope \<Rightarrow> scope \<Rightarrow> bool" where
  "scope_within child parent \<longleftrightarrow> child = parent
     \<or> (case strip_prefix parent child of
          Some (c # _) \<Rightarrow> c = CHR '':'' \<or> c = CHR ''/''
        | _ \<Rightarrow> False)"

record loopback_adapter =
  lo_schema_version :: schema_version
  lo_id :: string
  lo_participant :: participant
  lo_scope :: scope
  lo_connector :: string
  lo_endpoint :: string
  lo_schema_digest :: schema_digest
  lo_credential_ref :: "string option"
  lo_capability_ref :: capability_ref
  lo_permission :: permission_ref
  lo_enabled :: bool

definition loopback_validate :: "('h) host_env_scheme \<Rightarrow> loopback_adapter \<Rightarrow> unit result" where
  "loopback_validate env a =
     and_then (ok_or (parse_url env (lo_endpoint a)) ''loopback channel endpoint cannot be parsed'') (\<lambda>u.
     ensure (lo_enabled a \<and> lo_schema_version a \<noteq> 0 \<and> \<not> blank (lo_id a) \<and> is_external (lo_participant a)
       \<and> \<not> blank (lo_scope a) \<and> \<not> blank (lo_connector a) \<and> \<not> blank (lo_schema_digest a) \<and> \<not> blank (lo_capability_ref a)
       \<and> \<not> blank (lo_permission a) \<and> safe_header_component (participant_id (lo_participant a))
       \<and> (case lo_credential_ref a of None \<Rightarrow> True | Some r \<Rightarrow> \<not> blank r) \<and> url_scheme u = ''http''
       \<and> (case url_host u of None \<Rightarrow> False | Some host \<Rightarrow> host = ''localhost'' \<or> ip_is_loopback env host)
       \<and> url_username u = [] \<and> url_password u = None \<and> url_query u = None \<and> url_fragment u = None)
       ''project-owned loopback channel configuration is incomplete'')"

definition loopback_new ::
  "('h) host_env_scheme \<Rightarrow> string \<Rightarrow> participant \<Rightarrow> scope \<Rightarrow> string \<Rightarrow> string \<Rightarrow> schema_digest \<Rightarrow> string option
    \<Rightarrow> capability_ref \<Rightarrow> permission_ref \<Rightarrow> loopback_adapter result" where
  "loopback_new env i who sc connector endpoint digest credential capability permission =
     (let a = \<lparr>lo_schema_version = 1, lo_id = i, lo_participant = who, lo_scope = sc, lo_connector = connector,
         lo_endpoint = endpoint, lo_schema_digest = digest, lo_credential_ref = credential, lo_capability_ref = capability,
         lo_permission = permission, lo_enabled = True\<rparr> in
      and_then (loopback_validate env a) (\<lambda>_. Inr a))"

definition loopback_normalize :: "('h) host_env_scheme \<Rightarrow> loopback_adapter \<Rightarrow> raw_input \<Rightarrow> communication_event result" where
  "loopback_normalize env a r =
     and_then (loopback_validate env a) (\<lambda>_.
     if raw_malformed r then fails ''loopback channel input is malformed''
     else Inr (text_event (lo_id a) (lo_participant a) (lo_scope a) r))"

record prepared_delivery =
  pd_schema_version :: schema_version
  pd_session :: string
  pd_message_id :: string
  pd_intent :: action_intent
  pd_envelope :: autonomy_envelope

definition delivery_risk :: "outbound_message \<Rightarrow> disclosure_outcome \<Rightarrow> risk" where
  "delivery_risk m oc = (if om_high_impact m \<or> om_sensitive m \<or> \<not> om_confirmed m \<or> oc = ApproveOutcome then High else Medium)"

definition delivery_intent :: "loopback_adapter \<Rightarrow> delivery_authorization \<Rightarrow> outbound_message \<Rightarrow> action_intent" where
  "delivery_intent a d m =
     \<lparr>in_schema_version = 1, intent_id = ''communication-delivery:'' @ om_message_id m, in_source = Communication,
      in_goal = da_purpose d, backend_hint = backend_kind.AppApi, in_capability_ref = lo_capability_ref a,
      in_action_type = Deliver, in_scope = lo_scope a, risk_hint = delivery_risk m (da_outcome d),
      in_expected_effect = expected_effect.Outward, rollback_expectation = ''external-message-not-retractable'',
      parameters = AppApi \<lparr>api_schema_version = 1, api_connector = lo_connector a, api_endpoint = lo_endpoint a,
        api_schema_digest = lo_schema_digest a, api_credential = lo_credential_ref a,
        api_operation = Mutation Post (Some (Content (om_content_ref m))) (''communication:'' @ om_message_id m),
        api_timeout = om_timeout m, api_participant = Some (participant_id (lo_participant a)),
        api_representation = Some (da_representation d), api_disclosure_request = Some (om_request_ref m)\<rparr>,
      requested_permissions = [lo_permission a], requested_at = om_requested_at m,
      estimated_output_bytes = om_estimated_output_bytes m, estimated_duration = om_timeout m\<rparr>"

definition prepare_delivery ::
  "('h) host_env_scheme \<Rightarrow> timestamp \<Rightarrow> loopback_adapter \<Rightarrow> outbound_message \<Rightarrow> fabric \<Rightarrow> prepared_delivery result \<times> fabric" where
  "prepare_delivery env now a m f =
     (case loopback_validate env a of
        Inl e \<Rightarrow> (Inl e, f)
      | Inr _ \<Rightarrow>
          (case authorize_delivery now (lo_participant a) m f of
             (Inl e, f') \<Rightarrow> (Inl e, f')
           | (Inr d, f') \<Rightarrow>
               (and_then (ensure (discloses (da_outcome d)) ''disclosure policy did not authorize an exact outbound body'') (\<lambda>_.
                and_then (ensure (lo_capability_ref a \<in> set (capabilities (env_capability (da_envelope d)))
                    \<and> lo_permission a \<in> set (permissions (env_capability (da_envelope d)))
                    \<and> Deliver \<in> set (env_action_type (da_envelope d)) \<and> scope_within (lo_scope a) (env_scope (da_envelope d)))
                  ''communication session envelope does not permit connector delivery'') (\<lambda>_.
                Inr \<lparr>pd_schema_version = 1, pd_session = om_session m, pd_message_id = om_message_id m,
                  pd_intent = delivery_intent a d m, pd_envelope = da_envelope d\<rparr>)), f')))"

subsection \<open>Authentication\<close>

datatype auth_principal = OwnerPrincipal string | ExternalPrincipal participant_id | RepresentingPrincipal string

datatype auth_method = LocalSession | TokenAuth | MutualChannel | FederatedPeerAuth

record auth_context =
  au2_schema_version :: schema_version
  au2_principal :: auth_principal
  au2_method :: auth_method
  au2_expires_at :: timestamp

definition local_owner :: "string \<Rightarrow> timestamp \<Rightarrow> auth_context" where
  "local_owner owner expires = \<lparr>au2_schema_version = 1, au2_principal = OwnerPrincipal owner, au2_method = LocalSession,
     au2_expires_at = expires\<rparr>"

definition auth_validate :: "timestamp \<Rightarrow> auth_context \<Rightarrow> unit result" where
  "auth_validate now a =
     and_then (ensure (au2_schema_version a \<noteq> 0 \<and> now < au2_expires_at a) ''authentication context is invalid or expired'') (\<lambda>_.
     case au2_principal a of
       OwnerPrincipal p \<Rightarrow> ensure (\<not> blank p) ''verified principal is empty''
     | RepresentingPrincipal p \<Rightarrow> ensure (\<not> blank p) ''verified principal is empty''
     | ExternalPrincipal p \<Rightarrow> ensure (\<not> blank p) ''external principal is empty'')"

subsection \<open>Devices\<close>

record device_grant =
  dg_schema_version :: schema_version
  dg_grant_ref :: string
  dg_device_id :: string
  dg_modalities :: "modality list"
  dg_purpose :: string
  dg_scope :: scope
  dg_expires_at :: timestamp
  dg_revoked :: bool

record observation_scope =
  os2_schema_version :: schema_version
  os2_scope :: scope
  os2_foreground_only :: bool

record retention_policy =
  rp2_schema_version :: schema_version
  rp2_retain_raw :: bool
  rp2_ttl :: duration_ms

record device_adapter =
  dv_schema_version :: schema_version
  dv_id :: string
  dv_grant :: "device_grant option"
  dv_observation_scope :: observation_scope
  dv_retention :: retention_policy

record device_observation =
  do_schema_version :: schema_version
  do_device_id :: string
  do_foreground :: bool
  do_raw :: raw_input

record authorized_observation =
  ao_schema_version :: schema_version
  ao_event :: communication_event
  ao_observation :: communication_payload
  ao_grant_ref :: string
  ao_raw_retained :: bool
  ao_retention_expires_at :: timestamp

fun modality_debug :: "modality \<Rightarrow> string" where
  "modality_debug TextModality = ''Text''"
| "modality_debug VoiceModality = ''Voice''"
| "modality_debug ImageModality = ''Image''"
| "modality_debug VideoModality = ''Video''"

definition revoke_device :: "device_adapter \<Rightarrow> unit result \<times> device_adapter" where
  "revoke_device a =
     (case dv_grant a of
        None \<Rightarrow> (fails ''device has no grant to revoke'', a)
      | Some g \<Rightarrow> (Inr (), a\<lparr>dv_grant := Some (g\<lparr>dg_revoked := True\<rparr>)\<rparr>))"

definition revoke_with_event :: "string \<Rightarrow> device_adapter \<Rightarrow> communication_payload result \<times> device_adapter" where
  "revoke_with_event lineage a =
     (case dv_grant a of
        None \<Rightarrow> (fails ''device has no grant to revoke'', a)
      | Some g \<Rightarrow> (Inr (DeviceRevoked (''device-grant:'' @ dg_grant_ref g) lineage), snd (revoke_device a)))"

definition device_event :: "device_adapter \<Rightarrow> device_grant \<Rightarrow> string \<Rightarrow> raw_input \<Rightarrow> communication_event" where
  "device_event a g content r =
     \<lparr>ce2_schema_version = 1, ce2_message_id = ri_message_id r, ce2_modality = ri_modality r, ce2_carrier = Hardware,
      ce2_channel_adapter = dv_id a, ce2_participant = OwnerParticipant, ce2_scope = dg_scope g,
      ce2_session_ref = ri_session_ref r, ce2_content = content, ce2_received_at = ri_received_at r\<rparr>"

definition normalize_observation :: "device_adapter \<Rightarrow> device_observation \<Rightarrow> authorized_observation result" where
  "normalize_observation a ob =
     and_then (ok_or (dv_grant a) ''device input has no explicit grant'') (\<lambda>g.
     and_then (ensure (dv_schema_version a \<noteq> 0 \<and> do_schema_version ob \<noteq> 0 \<and> os2_schema_version (dv_observation_scope a) \<noteq> 0
         \<and> rp2_schema_version (dv_retention a) \<noteq> 0 \<and> rp2_ttl (dv_retention a) \<noteq> 0 \<and> \<not> rp2_retain_raw (dv_retention a)
         \<and> do_device_id ob = dg_device_id g \<and> (os2_foreground_only (dv_observation_scope a) \<longrightarrow> do_foreground ob)
         \<and> \<not> dg_revoked g \<and> ri_received_at (do_raw ob) < dg_expires_at g
         \<and> ri_modality (do_raw ob) \<in> set (dg_modalities g) \<and> dg_scope g = os2_scope (dv_observation_scope a))
         ''device observation is outside its active grant or retention boundary'') (\<lambda>_.
     and_then (duration_as_i64 (rp2_ttl (dv_retention a)) ''device retention TTL exceeds timestamp range'') (\<lambda>ttl.
     let e = device_event a g (''authorized '' @ modality_debug (ri_modality (do_raw ob)) @ '' device observation for scope ''
         @ dg_scope g) (do_raw ob) in
     and_then (event_complete e) (\<lambda>_.
     Inr \<lparr>ao_schema_version = 1, ao_event = e, ao_observation = ObservationRecorded Communication (dg_scope g) (Some (dg_grant_ref g)),
       ao_grant_ref = dg_grant_ref g, ao_raw_retained = False,
       ao_retention_expires_at = timestamp_add (ri_received_at (do_raw ob)) ttl\<rparr>))))"

definition into_gateway_parts ::
  "timestamp \<Rightarrow> authorized_observation \<Rightarrow> (communication_event \<times> communication_payload) result" where
  "into_gateway_parts now a =
     and_then (ensure (ao_schema_version a \<noteq> 0 \<and> \<not> blank (ao_grant_ref a) \<and> \<not> ao_raw_retained a
         \<and> ce2_received_at (ao_event a) < ao_retention_expires_at a \<and> now < ao_retention_expires_at a)
       ''device observation retention boundary is invalid or expired'') (\<lambda>_. Inr (ao_event a, ao_observation a))"

definition device_normalize :: "device_adapter \<Rightarrow> raw_input \<Rightarrow> communication_event result" where
  "device_normalize a r =
     and_then (ok_or (dv_grant a) ''device input has no explicit grant'') (\<lambda>g.
     and_then (ensure (\<not> dg_revoked g \<and> ri_received_at r < dg_expires_at g \<and> ri_modality r \<in> set (dg_modalities g)
         \<and> dg_scope g = os2_scope (dv_observation_scope a)) ''device input is outside its active grant'') (\<lambda>_.
     Inr (device_event a g (ri_content r) r)))"

end
