(* ===== verification/Communication_Limits.thy ===== *)
theory Communication_Limits
  imports Communication
begin

text \<open>
  What holds of the communication fabric along any sequence of calls: a closed session stays closed, what a
  session delivers stays within the limits of its grant, and a request is disclosed once. Also when exactly a
  delivery is prepared, what approval does to a refusing rule, and what leaves a device.
\<close>

subsection \<open>Calls\<close>

datatype fabric_call =
    OpenCall timestamp communication_grant
  | ExchangeCall timestamp exchange_observation
  | DisclosureCall timestamp disclosure_request
  | DeliveryCall host_env timestamp loopback_adapter outbound_message
  | EndCall string string

fun after_call :: "fabric_call \<Rightarrow> fabric \<Rightarrow> fabric" where
  "after_call (OpenCall now g) f = snd (open_session now g f)"
| "after_call (ExchangeCall now ob) f = snd (record_exchange now ob f)"
| "after_call (DisclosureCall now r) f = snd (apply_disclosure now r f)"
| "after_call (DeliveryCall env now a m) f = snd (prepare_delivery env now a m f)"
| "after_call (EndCall i reason) f = snd (end_session i reason f)"

fun delivered_by :: "fabric_call \<Rightarrow> fabric \<Rightarrow> outbound_message list" where
  "delivered_by (DeliveryCall env now a m) f = (case fst (prepare_delivery env now a m f) of Inl _ \<Rightarrow> [] | Inr _ \<Rightarrow> [m])"
| "delivered_by _ f = []"

primrec after_calls :: "fabric_call list \<Rightarrow> fabric \<Rightarrow> fabric" where
  "after_calls [] f = f"
| "after_calls (c # cs) f = after_calls cs (after_call c f)"

primrec deliveries :: "fabric_call list \<Rightarrow> fabric \<Rightarrow> outbound_message list" where
  "deliveries [] f = []"
| "deliveries (c # cs) f = delivered_by c f @ deliveries cs (after_call c f)"

definition deliveries_in :: "string \<Rightarrow> outbound_message list \<Rightarrow> outbound_message list" where
  "deliveries_in i ms = filter (\<lambda>m. om_session m = i) ms"

lemma deliveries_in_simps [simp]:
  "deliveries_in i [] = []"
  "deliveries_in i (ms @ ns) = deliveries_in i ms @ deliveries_in i ns"
  "deliveries_in i [m] = (if om_session m = i then [m] else [])"
  by (simp_all add: deliveries_in_def)

lemma after_calls_append: "after_calls (cs @ ds) f = after_calls ds (after_calls cs f)"
  by (induction cs arbitrary: f) simp_all

lemma deliveries_append: "deliveries (cs @ ds) f = deliveries cs f @ deliveries ds (after_calls cs f)"
  by (induction cs arbitrary: f) simp_all

subsection \<open>One delivery\<close>

definition session_admits :: "timestamp \<Rightarrow> participant \<Rightarrow> outbound_message \<Rightarrow> communication_session \<Rightarrow> bool" where
  "session_admits now who m s \<longleftrightarrow> cse_status s = SessionOpen \<and> cse_participant s = who \<and> now < cse_expires_at s"

definition envelope_admits :: "loopback_adapter \<Rightarrow> autonomy_envelope \<Rightarrow> bool" where
  "envelope_admits a e \<longleftrightarrow> lo_capability_ref a \<in> set (capabilities (env_capability e))
     \<and> lo_permission a \<in> set (permissions (env_capability e)) \<and> Deliver \<in> set (env_action_type e)
     \<and> scope_within (lo_scope a) (env_scope e)"

definition authorization_of :: "communication_session \<Rightarrow> outbound_message \<Rightarrow> delivery_authorization" where
  "authorization_of s m =
     \<lparr>da_outcome = disclosure_decision s (request_of_message m), da_representation = disclosure_representation s,
      da_purpose = pu_id (cse_purpose s), da_envelope = cse_autonomy_envelope s\<rparr>"

definition charged :: "outbound_message \<Rightarrow> communication_session \<Rightarrow> communication_session" where
  "charged m s = s\<lparr>cse_rounds := saturating_add (cse_rounds s) 1, cse_messages := saturating_add (cse_messages s) 1,
     cse_tokens := saturating_add (cse_tokens s) (om_tokens m)\<rparr>"

definition affordable :: "outbound_message \<Rightarrow> communication_session \<Rightarrow> bool" where
  "affordable m s \<longleftrightarrow> saturating_add (cse_rounds s) 1 \<le> tp_max_rounds (cse_termination_policy s)
     \<and> saturating_add (cse_messages s) 1 \<le> cbg_max_messages (cse_budget s)
     \<and> saturating_add (cse_tokens s) (om_tokens m) \<le> cbg_max_tokens (cse_budget s)
     \<and> (om_purpose_aligned m \<or> \<not> tp_terminate_on_purpose_drift (cse_termination_policy s))
     \<and> (\<not> om_risk_escalated m \<or> \<not> tp_terminate_on_risk_escalation (cse_termination_policy s))"

definition sent :: "participant \<Rightarrow> outbound_message \<Rightarrow> communication_session \<Rightarrow> fabric \<Rightarrow> fabric" where
  "sent who m s f = f\<lparr>fa_used := insert (om_session m, om_request_ref m) (fa_used f),
     fa_sessions := bm_insert (om_session m) (charged m s) (fa_sessions f),
     fa_events := fa_events f @ [DisclosureApplied (om_request_ref m) (disclosure_decision s (request_of_message m))
       (disclosure_representation s) (Some (binding_of_message s who m))]\<rparr>"

lemma passed_limit_None_iff:
  "passed_limit s r n t aligned escalated = None \<longleftrightarrow> r \<le> tp_max_rounds (cse_termination_policy s)
     \<and> n \<le> cbg_max_messages (cse_budget s) \<and> t \<le> cbg_max_tokens (cse_budget s)
     \<and> (aligned \<or> \<not> tp_terminate_on_purpose_drift (cse_termination_policy s))
     \<and> (\<not> escalated \<or> \<not> tp_terminate_on_risk_escalation (cse_termination_policy s))"
  by (auto simp: passed_limit_def not_less)

lemma passed_limit_affordable:
  "passed_limit s (saturating_add (cse_rounds s) 1) (saturating_add (cse_messages s) 1)
     (saturating_add (cse_tokens s) (om_tokens m)) (om_purpose_aligned m) (om_risk_escalated m) = None \<longleftrightarrow> affordable m s"
  by (simp add: passed_limit_None_iff affordable_def)

lemma charge_delivery_affordable: "affordable m s \<Longrightarrow> charge_delivery m s = (None, charged m s)"
  using passed_limit_affordable [of s m] by (simp add: charge_delivery_def Let_def charged_def)

lemma charge_delivery_exhausted:
  assumes "\<not> affordable m s"
  obtains why where "charge_delivery m s = (Some why, s\<lparr>cse_status := SessionClosed\<rparr>)"
  using assms passed_limit_affordable [of s m] by (auto simp: charge_delivery_def Let_def)

lemma authorize_delivery_cases:
  assumes "authorize_delivery now who m f = (r, f')"
  obtains (refused) e where "r = Inl e" "f' = f"
  | (expired) e s where "r = Inl e" "bm_get (fa_sessions f) (om_session m) = Some s" "cse_status s = SessionOpen"
      "f' = close_session (om_session m) s ''ttl_expired'' f"
  | (withheld) s where "r = Inr (authorization_of s m)" "bm_get (fa_sessions f) (om_session m) = Some s"
      "session_admits now who m s" "\<not> discloses (disclosure_decision s (request_of_message m))"
      "(om_session m, om_request_ref m) \<notin> fa_used f" "fa_sessions f' = fa_sessions f" "fa_sequence f' = fa_sequence f"
      "fa_used f' = insert (om_session m, om_request_ref m) (fa_used f)"
  | (exhausted) e s where "r = Inl e" "bm_get (fa_sessions f) (om_session m) = Some s" "cse_status s = SessionOpen"
      "fa_sessions f' = bm_insert (om_session m) (s\<lparr>cse_status := SessionClosed\<rparr>) (fa_sessions f)"
      "fa_used f' = insert (om_session m, om_request_ref m) (fa_used f)" "fa_sequence f' = fa_sequence f"
  | (authorized) s where "r = Inr (authorization_of s m)" "validate_outbound_message m = Inr ()"
      "bm_get (fa_sessions f) (om_session m) = Some s" "session_admits now who m s"
      "discloses (disclosure_decision s (request_of_message m))" "(om_session m, om_request_ref m) \<notin> fa_used f"
      "affordable m s" "f' = sent who m s f"
proof (cases "validate_outbound_message m = Inr () \<and> (\<exists>s. bm_get (fa_sessions f) (om_session m) = Some s
    \<and> cse_status s = SessionOpen \<and> cse_participant s = who)")
  case False
  then have "\<exists>e. (r, f') = (Inl e, f)"
    using assms by (auto simp: authorize_delivery_def ok_or_def fails_def ensure_def and_then_def
        split: sum.splits option.splits if_splits)
  then show ?thesis using refused by auto
next
  case True
  then obtain s where s: "validate_outbound_message m = Inr ()" "bm_get (fa_sessions f) (om_session m) = Some s"
      "cse_status s = SessionOpen" "cse_participant s = who" by blast
  note eq = assms [unfolded authorize_delivery_def]
  show ?thesis
  proof (cases "cse_expires_at s \<le> now \<or> (om_session m, om_request_ref m) \<in> fa_used f")
    case True
    then show ?thesis using eq s refused expired by (auto simp: ok_or_def fails_def split: if_splits)
  next
    case False
    then have adm: "session_admits now who m s" using s by (simp add: session_admits_def)
    show ?thesis
    proof (cases "discloses (disclosure_decision s (request_of_message m))")
      case d: False
      then show ?thesis using eq s adm False
        by (intro withheld [of s]) (auto simp: ok_or_def authorization_of_def Let_def)
    next
      case d: True
      show ?thesis
      proof (cases "affordable m s")
        case True
        then show ?thesis using eq s adm False d charge_delivery_affordable [of m s]
          by (intro authorized [of s]) (auto simp: ok_or_def authorization_of_def Let_def sent_def)
      next
        case aff: False
        obtain why where "charge_delivery m s = (Some why, s\<lparr>cse_status := SessionClosed\<rparr>)"
          using charge_delivery_exhausted [OF aff] .
        then show ?thesis using eq s False d
          by (intro exhausted [of "Error ''communication delivery exceeded a termination boundary''" s])
            (auto simp: ok_or_def Let_def fails_def)
      qed
    qed
  qed
qed

lemma prepare_delivery_changes:
  "snd (prepare_delivery env now a m f) = f
   \<or> snd (prepare_delivery env now a m f) = snd (authorize_delivery now (lo_participant a) m f)"
  by (auto simp: prepare_delivery_def split: sum.splits prod.splits)

lemma authorize_delivery_iff:
  "authorize_delivery now who m f = (Inr d, f') \<and> discloses (da_outcome d) \<longleftrightarrow>
     validate_outbound_message m = Inr () \<and>
     (\<exists>s. bm_get (fa_sessions f) (om_session m) = Some s \<and> session_admits now who m s
        \<and> discloses (disclosure_decision s (request_of_message m)) \<and> (om_session m, om_request_ref m) \<notin> fa_used f
        \<and> affordable m s \<and> d = authorization_of s m \<and> f' = sent who m s f)" (is "?l \<longleftrightarrow> ?r")
proof
  assume l: ?l
  then have eq: "authorize_delivery now who m f = (Inr d, f')" by blast
  from eq show ?r
  proof (cases rule: authorize_delivery_cases)
    case (withheld s)
    then show ?thesis using l by (auto simp: authorization_of_def)
  next
    case (authorized s)
    then show ?thesis by auto
  qed simp_all
next
  assume ?r
  then show ?l
    by (auto simp: authorize_delivery_def ok_or_def session_admits_def Let_def charge_delivery_affordable sent_def
        authorization_of_def)
qed

lemma prepare_delivery_iff:
  "prepare_delivery env now a m f = (Inr p, f') \<longleftrightarrow>
     loopback_validate env a = Inr () \<and> validate_outbound_message m = Inr () \<and>
     (\<exists>s. bm_get (fa_sessions f) (om_session m) = Some s \<and> session_admits now (lo_participant a) m s
        \<and> discloses (disclosure_decision s (request_of_message m)) \<and> (om_session m, om_request_ref m) \<notin> fa_used f
        \<and> affordable m s \<and> envelope_admits a (cse_autonomy_envelope s) \<and> f' = sent (lo_participant a) m s f
        \<and> p = \<lparr>pd_schema_version = 1, pd_session = om_session m, pd_message_id = om_message_id m,
            pd_intent = delivery_intent a (authorization_of s m) m, pd_envelope = cse_autonomy_envelope s\<rparr>)"
  (is "?l \<longleftrightarrow> ?r")
proof -
  have "?l \<longleftrightarrow> loopback_validate env a = Inr () \<and> (\<exists>d. (authorize_delivery now (lo_participant a) m f = (Inr d, f')
      \<and> discloses (da_outcome d)) \<and> envelope_admits a (da_envelope d)
      \<and> p = \<lparr>pd_schema_version = 1, pd_session = om_session m, pd_message_id = om_message_id m,
          pd_intent = delivery_intent a d m, pd_envelope = da_envelope d\<rparr>)"
    by (auto simp: prepare_delivery_def and_then_Inr_iff envelope_admits_def split: sum.splits prod.splits)
  also have "\<dots> \<longleftrightarrow> ?r" unfolding authorize_delivery_iff by (auto simp: authorization_of_def)
  finally show ?thesis .
qed

text \<open>C8: A delivery is prepared exactly when the adapter and the message are complete, the session of the message is
  open, has not expired and belongs to the participant of the adapter, the request was not used before, the
  disclosure policy answers it or wants it approved, no limit is passed, and the envelope of the session covers
  the connector. It then marks the request as used and charges the session, and the intent carries the body,
  the participant and the risk that the decision calls for.\<close>

theorem delivery_prepared_iff:
  "prepare_delivery env now a m f = (Inr p, f') \<longleftrightarrow>
     loopback_validate env a = Inr () \<and> validate_outbound_message m = Inr () \<and>
     (\<exists>s. bm_get (fa_sessions f) (om_session m) = Some s \<and> session_admits now (lo_participant a) m s
        \<and> discloses (disclosure_decision s (request_of_message m)) \<and> (om_session m, om_request_ref m) \<notin> fa_used f
        \<and> affordable m s \<and> envelope_admits a (cse_autonomy_envelope s) \<and> f' = sent (lo_participant a) m s f
        \<and> p = \<lparr>pd_schema_version = 1, pd_session = om_session m, pd_message_id = om_message_id m,
            pd_intent = delivery_intent a (authorization_of s m) m, pd_envelope = cse_autonomy_envelope s\<rparr>)"
  by (rule prepare_delivery_iff)

subsection \<open>Limits along calls\<close>

definition limits_finite :: "communication_session \<Rightarrow> bool" where
  "limits_finite s \<longleftrightarrow> tp_max_rounds (cse_termination_policy s) \<noteq> - 1 \<and> cbg_max_messages (cse_budget s) \<noteq> - 1
     \<and> cbg_max_tokens (cse_budget s) \<noteq> - 1"

definition tokens_of :: "outbound_message list \<Rightarrow> nat" where
  "tokens_of ms = sum_list (map (\<lambda>m. unat (om_tokens m)) ms)"

definition counters_within :: "communication_session \<Rightarrow> bool" where
  "counters_within s \<longleftrightarrow> cse_rounds s \<le> tp_max_rounds (cse_termination_policy s)
     \<and> cse_messages s \<le> cbg_max_messages (cse_budget s) \<and> cse_tokens s \<le> cbg_max_tokens (cse_budget s)"

definition counted :: "communication_session \<Rightarrow> outbound_message list \<Rightarrow> bool" where
  "counted s ds \<longleftrightarrow> length ds \<le> unat (cse_rounds s) \<and> length ds \<le> unat (cse_messages s) \<and> tokens_of ds \<le> unat (cse_tokens s)"

definition within_limits :: "communication_session \<Rightarrow> outbound_message list \<Rightarrow> bool" where
  "within_limits s ds \<longleftrightarrow> length ds \<le> unat (tp_max_rounds (cse_termination_policy s))
     \<and> length ds \<le> unat (cbg_max_messages (cse_budget s)) \<and> tokens_of ds \<le> unat (cbg_max_tokens (cse_budget s))"

definition session_kept :: "communication_session \<Rightarrow> outbound_message list \<Rightarrow> bool" where
  "session_kept s ds \<longleftrightarrow> (cse_status s = SessionOpen \<longrightarrow> counters_within s)
     \<and> (limits_finite s \<longrightarrow> within_limits s ds \<and> (cse_status s = SessionOpen \<longrightarrow> counted s ds))"

lemma session_kept_closed [simp]: "session_kept s ds \<Longrightarrow> session_kept (s\<lparr>cse_status := SessionClosed\<rparr>) ds"
  by (simp add: session_kept_def limits_finite_def within_limits_def)

lemma saturating_below:
  fixes c :: "'a::len word"
  assumes "saturating_add c a \<le> limit" and "limit \<noteq> - 1"
  shows "unat (saturating_add c a) = unat c + unat a"
proof (rule ccontr)
  assume "\<not> ?thesis"
  then have "saturating_add c a = - 1"
    by (auto simp: saturating_add_def unat_add_no_wrap split: if_splits)
  then show False using assms by (simp add: word_order.extremum_unique)
qed

lemma session_kept_charged:
  assumes "session_kept s ds" and "affordable m s" and "cse_status s = SessionOpen"
  shows "session_kept (charged m s) (ds @ [m])"
proof -
  have fin: "within_limits (charged m s) (ds @ [m]) \<and> counted (charged m s) (ds @ [m])" if finite: "limits_finite s"
  proof -
    note afford = assms(2) [unfolded affordable_def]
    have eqs: "unat (saturating_add (cse_rounds s) 1) = unat (cse_rounds s) + 1"
        "unat (saturating_add (cse_messages s) 1) = unat (cse_messages s) + 1"
        "unat (saturating_add (cse_tokens s) (om_tokens m)) = unat (cse_tokens s) + unat (om_tokens m)"
      using afford finite saturating_below [of "cse_rounds s" 1 "tp_max_rounds (cse_termination_policy s)"]
        saturating_below [of "cse_messages s" 1 "cbg_max_messages (cse_budget s)"]
        saturating_below [of "cse_tokens s" "om_tokens m" "cbg_max_tokens (cse_budget s)"] by (simp_all add: limits_finite_def)
    have counted: "counted (charged m s) (ds @ [m])"
      using assms(1,3) finite eqs by (simp add: session_kept_def counted_def charged_def tokens_of_def)
    moreover have "counters_within (charged m s)"
      using afford by (simp add: counters_within_def charged_def)
    ultimately show ?thesis
      by (auto simp: counted_def counters_within_def within_limits_def charged_def word_le_nat_alt)
  qed
  moreover have "counters_within (charged m s)" using assms(2) by (simp add: counters_within_def charged_def affordable_def)
  moreover have "limits_finite (charged m s) = limits_finite s" by (simp add: limits_finite_def charged_def)
  ultimately show ?thesis by (simp add: session_kept_def)
qed

definition fabric_kept :: "fabric \<Rightarrow> outbound_message list \<Rightarrow> bool" where
  "fabric_kept f ms \<longleftrightarrow>
     (\<forall>i s. bm_get (fa_sessions f) i = Some s \<longrightarrow> session_kept s (deliveries_in i ms)
        \<and> (\<exists>k < fa_sequence f. i = session_name k))
     \<and> (\<forall>m\<in>set ms. bm_get (fa_sessions f) (om_session m) \<noteq> None \<and> (om_session m, om_request_ref m) \<in> fa_used f)
     \<and> distinct (map (\<lambda>m. (om_session m, om_request_ref m)) ms)"

lemma fabric_kept_update:
  assumes "fabric_kept f ms" and "bm_get (fa_sessions f) i = Some s"
    and "fa_sessions f' = bm_insert i s' (fa_sessions f)" and "fa_used f \<subseteq> fa_used f'" and "fa_sequence f' = fa_sequence f"
    and "session_kept s (deliveries_in i ms) \<Longrightarrow> session_kept s' (deliveries_in i ms)"
  shows "fabric_kept f' ms"
proof -
  have "session_kept s' (deliveries_in i ms)" using assms(1,2,6) by (simp add: fabric_kept_def)
  then show ?thesis using assms(1-5) by (auto simp: fabric_kept_def split: if_splits)
qed

lemma fabric_kept_unchanged:
  "fabric_kept f ms \<Longrightarrow> fa_sessions f' = fa_sessions f \<Longrightarrow> fa_used f \<subseteq> fa_used f' \<Longrightarrow> fa_sequence f' = fa_sequence f
    \<Longrightarrow> fabric_kept f' ms"
  by (auto simp: fabric_kept_def)

lemma close_session_fields [simp]:
  "fa_sessions (close_session i s reason f) = bm_insert i (s\<lparr>cse_status := SessionClosed\<rparr>) (fa_sessions f)"
  "fa_used (close_session i s reason f) = fa_used f"
  "fa_sequence (close_session i s reason f) = fa_sequence f"
  by (simp_all add: close_session_def)

lemma session_name_inj [simp]: "session_name j = session_name k \<longleftrightarrow> j = k"
  by (simp add: session_name_def show_nat_inj)

lemma open_session_cases:
  obtains (refused) "snd (open_session now g f) = f"
  | (opened) expires where
      "fa_sequence (snd (open_session now g f)) = fa_sequence f + 1"
      "fa_used (snd (open_session now g f)) = fa_used f"
      "fa_sessions (snd (open_session now g f)) = bm_insert (session_name (fa_sequence f))
         (session_of_grant (session_name (fa_sequence f)) (max now (eg_issued_at g)) expires g) (fa_sessions f)"
proof (cases "grant_expiry (max now (eg_issued_at g)) g")
  case (Inl e)
  then show ?thesis by (intro refused) (simp add: open_session_def Let_def)
next
  case (Inr expires)
  then show ?thesis by (intro opened [of expires]) (simp_all add: open_session_def Let_def)
qed

lemma fabric_kept_fresh:
  "fabric_kept f ms \<Longrightarrow> bm_get (fa_sessions f) (session_name (fa_sequence f)) = None"
  by (cases "bm_get (fa_sessions f) (session_name (fa_sequence f))") (force simp: fabric_kept_def)+

lemma deliveries_in_None:
  "fabric_kept f ms \<Longrightarrow> bm_get (fa_sessions f) i = None \<Longrightarrow> deliveries_in i ms = []"
  by (auto simp: fabric_kept_def deliveries_in_def filter_empty_conv)

lemma session_kept_new: "session_kept (session_of_grant i now expires g) []"
  by (simp add: session_kept_def session_of_grant_def counters_within_def within_limits_def counted_def tokens_of_def)

lemma fabric_kept_open:
  assumes kept: "fabric_kept f ms"
  shows "fabric_kept (snd (open_session now g f)) ms"
proof (cases rule: open_session_cases [of now g f])
  case (opened expires)
  have "deliveries_in (session_name (fa_sequence f)) ms = []"
    using kept fabric_kept_fresh deliveries_in_None by blast
  then show ?thesis
    using kept opened session_kept_new by (auto simp: fabric_kept_def split: if_splits) (meson less_SucI)+
qed (use kept in simp)

lemma record_exchange_cases:
  obtains (refused) "snd (record_exchange now ob f) = f"
  | (counted) s s' where "bm_get (fa_sessions f) (xo_session ob) = Some s" "cse_status s = SessionOpen"
      "s' = s\<lparr>cse_rounds := saturating_add (cse_rounds s) 1, cse_messages := saturating_add (cse_messages s) 2,
         cse_tokens := saturating_add (cse_tokens s) (xo_tokens ob)\<rparr>" "counters_within s'"
      "snd (record_exchange now ob f) = f\<lparr>fa_sessions := bm_insert (xo_session ob) s' (fa_sessions f)\<rparr>"
  | (closed) s s' why where "bm_get (fa_sessions f) (xo_session ob) = Some s" "cse_status s = SessionOpen"
      "s' = s\<lparr>cse_rounds := saturating_add (cse_rounds s) 1, cse_messages := saturating_add (cse_messages s) 2,
         cse_tokens := saturating_add (cse_tokens s) (xo_tokens ob)\<rparr>"
      "snd (record_exchange now ob f) = close_session (xo_session ob) s' why f"
proof (cases "\<exists>s. bm_get (fa_sessions f) (xo_session ob) = Some s \<and> cse_status s = SessionOpen")
  case False
  then show ?thesis using refused by (auto simp: record_exchange_def fails_def split: option.splits)
next
  case True
  then obtain s where s: "bm_get (fa_sessions f) (xo_session ob) = Some s" "cse_status s = SessionOpen" by blast
  define s' where "s' = s\<lparr>cse_rounds := saturating_add (cse_rounds s) 1, cse_messages := saturating_add (cse_messages s) 2,
         cse_tokens := saturating_add (cse_tokens s) (xo_tokens ob)\<rparr>"
  define reason where "reason = (if cse_expires_at s' \<le> now then Some ''ttl_expired''
      else passed_limit s' (cse_rounds s') (cse_messages s') (cse_tokens s') (xo_purpose_aligned ob) (xo_risk_escalated ob))"
  have eq: "snd (record_exchange now ob f) = (case reason of
      None \<Rightarrow> f\<lparr>fa_sessions := bm_insert (xo_session ob) s' (fa_sessions f)\<rparr>
    | Some why \<Rightarrow> close_session (xo_session ob) s' why f)"
    unfolding record_exchange_def s'_def reason_def using s by (simp add: Let_def)
  show ?thesis
  proof (cases reason)
    case None
    then have "counters_within s'"
      by (auto simp: reason_def passed_limit_None_iff counters_within_def split: if_splits)
    then show ?thesis using counted [of s s'] s eq None by (simp add: s'_def)
  next
    case (Some why)
    then show ?thesis using closed [of s s' why] s eq by (simp add: s'_def)
  qed
qed

lemma session_kept_exchange:
  assumes "session_kept s ds" and "cse_status s = SessionOpen"
    and "s' = s\<lparr>cse_rounds := saturating_add (cse_rounds s) 1, cse_messages := saturating_add (cse_messages s) 2,
         cse_tokens := saturating_add (cse_tokens s) t\<rparr>"
  shows "counters_within s' \<Longrightarrow> session_kept s' ds" and "session_kept (s'\<lparr>cse_status := SessionClosed\<rparr>) ds"
proof -
  have "cse_rounds s \<le> cse_rounds s'" "cse_messages s \<le> cse_messages s'" "cse_tokens s \<le> cse_tokens s'"
    using assms(3) saturating_add_ge by auto
  then have more: "counted s ds \<Longrightarrow> counted s' ds" by (auto simp: counted_def word_le_nat_alt)
  have same: "limits_finite s' = limits_finite s" "within_limits s' ds = within_limits s ds" "cse_status s' = SessionOpen"
    using assms(2,3) by (simp_all add: limits_finite_def within_limits_def)
  show "counters_within s' \<Longrightarrow> session_kept s' ds" using assms(1,2) more same by (simp add: session_kept_def)
  show "session_kept (s'\<lparr>cse_status := SessionClosed\<rparr>) ds"
    using assms(1,3) by (simp add: session_kept_def limits_finite_def within_limits_def)
qed

lemma fabric_kept_exchange:
  assumes kept: "fabric_kept f ms"
  shows "fabric_kept (snd (record_exchange now ob f)) ms"
proof (cases rule: record_exchange_cases [of now ob f])
  case (counted s s')
  show ?thesis
    by (rule fabric_kept_update [OF kept counted(1), of _ s'])
      (use counted session_kept_exchange(1) [of s "deliveries_in (xo_session ob) ms" s' "xo_tokens ob"] in simp_all)
next
  case (closed s s' why)
  show ?thesis
    by (rule fabric_kept_update [OF kept closed(1), of _ "s'\<lparr>cse_status := SessionClosed\<rparr>"])
      (use closed session_kept_exchange(2) [of s "deliveries_in (xo_session ob) ms" s' "xo_tokens ob"] in simp_all)
qed (use kept in simp)

lemma fabric_kept_disclosure: "fabric_kept f ms \<Longrightarrow> fabric_kept (snd (apply_disclosure now r f)) ms"
  by (auto simp: apply_disclosure_def Let_def split: option.splits intro: fabric_kept_unchanged)

lemma fabric_kept_end:
  assumes "fabric_kept f ms"
  shows "fabric_kept (snd (end_session i reason f)) ms"
proof (cases "\<exists>s. bm_get (fa_sessions f) i = Some s \<and> cse_status s \<noteq> SessionClosed")
  case True
  then obtain s where s: "bm_get (fa_sessions f) i = Some s" "cse_status s \<noteq> SessionClosed" by blast
  show ?thesis
    by (rule fabric_kept_update [OF assms s(1), of _ "s\<lparr>cse_status := SessionClosed\<rparr>"])
      (use s in \<open>simp_all add: end_session_def\<close>)
next
  case False
  then show ?thesis using assms by (auto simp: end_session_def split: option.splits)
qed

lemma fabric_kept_sent:
  assumes kept: "fabric_kept f ms" and s: "bm_get (fa_sessions f) (om_session m) = Some s"
    and ok: "cse_status s = SessionOpen" "affordable m s" "(om_session m, om_request_ref m) \<notin> fa_used f"
  shows "fabric_kept (sent who m s f) (ms @ [m])" and "fabric_kept (sent who m s f) ms"
proof -
  note old = kept [unfolded fabric_kept_def]
  have s_kept: "session_kept s (deliveries_in (om_session m) ms)" using old s by blast
  have new: "session_kept (charged m s) (deliveries_in (om_session m) ms @ [m])"
    using session_kept_charged [OF s_kept ok(2,1)] .
  then have still: "session_kept (charged m s) (deliveries_in (om_session m) ms)"
    by (auto simp: session_kept_def within_limits_def counted_def tokens_of_def)
  have fresh: "(om_session m, om_request_ref m) \<notin> (\<lambda>m. (om_session m, om_request_ref m)) ` set ms"
    using old ok(3) by (metis (mono_tags, lifting) imageE)
  show "fabric_kept (sent who m s f) (ms @ [m])"
    using old s new fresh by (auto simp: fabric_kept_def sent_def split: if_splits)
  show "fabric_kept (sent who m s f) ms"
    by (rule fabric_kept_update [OF kept s, of _ "charged m s"]) (use still in \<open>auto simp: sent_def\<close>)
qed

lemma fabric_kept_authorize:
  assumes kept: "fabric_kept f ms"
  shows "fabric_kept (snd (authorize_delivery now who m f)) ms"
proof -
  obtain r f' where eq: "authorize_delivery now who m f = (r, f')" by fastforce
  then have "fabric_kept f' ms"
  proof (cases rule: authorize_delivery_cases)
    case (expired e s)
    show ?thesis
      by (rule fabric_kept_update [OF kept expired(2), of _ "s\<lparr>cse_status := SessionClosed\<rparr>"]) (use expired in simp_all)
  next
    case (withheld s)
    then show ?thesis by (intro fabric_kept_unchanged [OF kept]) auto
  next
    case (exhausted e s)
    show ?thesis
      by (rule fabric_kept_update [OF kept exhausted(2), of _ "s\<lparr>cse_status := SessionClosed\<rparr>"]) (use exhausted in auto)
  next
    case (authorized s)
    then show ?thesis using fabric_kept_sent(2) [OF kept authorized(3)] by (auto simp: session_admits_def)
  qed (use kept in simp)
  then show ?thesis using eq by simp
qed

lemma fabric_kept_call:
  assumes kept: "fabric_kept f ms"
  shows "fabric_kept (after_call c f) (ms @ delivered_by c f)"
proof (cases c)
  case (DeliveryCall env now a m)
  obtain r f' where eq: "prepare_delivery env now a m f = (r, f')" by fastforce
  show ?thesis
  proof (cases r)
    case (Inl e)
    have "f' = f \<or> f' = snd (authorize_delivery now (lo_participant a) m f)"
      using prepare_delivery_changes [of env now a m f] eq by simp
    then show ?thesis using DeliveryCall eq Inl kept fabric_kept_authorize [OF kept] by auto
  next
    case (Inr p)
    then have "prepare_delivery env now a m f = (Inr p, f')" using eq by simp
    then obtain s where s: "bm_get (fa_sessions f) (om_session m) = Some s" "session_admits now (lo_participant a) m s"
        "(om_session m, om_request_ref m) \<notin> fa_used f" "affordable m s" "f' = sent (lo_participant a) m s f"
      unfolding prepare_delivery_iff by blast
    then show ?thesis using fabric_kept_sent(1) [OF kept s(1)] DeliveryCall eq Inr by (simp add: session_admits_def)
  qed
qed (simp_all add: kept fabric_kept_open fabric_kept_exchange fabric_kept_disclosure fabric_kept_end)

lemma fabric_kept_calls: "fabric_kept f ms \<Longrightarrow> fabric_kept (after_calls cs f) (ms @ deliveries cs f)"
proof (induction cs arbitrary: f ms)
  case (Cons c cs)
  then show ?case using Cons.IH [OF fabric_kept_call [OF Cons.prems, of c]] by simp
qed simp

lemma fabric_kept_new: "fabric_kept new_fabric []"
  by (simp add: fabric_kept_def new_fabric_def)

lemma reachable_kept: "fabric_kept (after_calls cs new_fabric) (deliveries cs new_fabric)"
  using fabric_kept_calls [OF fabric_kept_new, of cs] by simp

text \<open>A call leaves a closed session as it is and delivers nothing for it.\<close>

lemma closed_authorize:
  assumes "bm_get (fa_sessions f) i = Some s" and "cse_status s = SessionClosed"
  shows "bm_get (fa_sessions (snd (authorize_delivery now who m f))) i = Some s"
proof -
  obtain r f' where eq: "authorize_delivery now who m f = (r, f')" by fastforce
  then have "bm_get (fa_sessions f') i = Some s"
    by (cases rule: authorize_delivery_cases) (use assms in \<open>auto simp: session_admits_def sent_def\<close>)
  then show ?thesis using eq by simp
qed

lemma closed_call:
  assumes kept: "fabric_kept f ms" and s: "bm_get (fa_sessions f) i = Some s" "cse_status s = SessionClosed"
  shows "bm_get (fa_sessions (after_call c f)) i = Some s \<and> deliveries_in i (delivered_by c f) = []"
proof (cases c)
  case (OpenCall now g)
  have "i \<noteq> session_name (fa_sequence f)" using fabric_kept_fresh [OF kept] s by auto
  then show ?thesis using OpenCall s by (cases rule: open_session_cases [of now g f]) simp_all
next
  case (ExchangeCall now ob)
  then show ?thesis using s by (cases rule: record_exchange_cases [of now ob f]) auto
next
  case (DisclosureCall now r)
  then show ?thesis using s by (auto simp: apply_disclosure_def Let_def split: option.splits)
next
  case (EndCall j reason)
  then show ?thesis using s by (auto simp: end_session_def split: option.splits)
next
  case (DeliveryCall env now a m)
  obtain r f' where eq: "prepare_delivery env now a m f = (r, f')" by fastforce
  have "\<not> (\<exists>p. r = Inr p \<and> om_session m = i)"
  proof
    assume "\<exists>p. r = Inr p \<and> om_session m = i"
    then obtain p where p: "prepare_delivery env now a m f = (Inr p, f')" "om_session m = i" using eq by blast
    from p(1) have "\<exists>s. bm_get (fa_sessions f) (om_session m) = Some s \<and> session_admits now (lo_participant a) m s"
      unfolding prepare_delivery_iff by blast
    then show False using s p(2) by (auto simp: session_admits_def)
  qed
  then have "deliveries_in i (delivered_by c f) = []" using DeliveryCall eq by (cases r) auto
  moreover have "bm_get (fa_sessions f') i = Some s"
    using prepare_delivery_changes [of env now a m f] closed_authorize [OF s] s(1) eq by (metis snd_conv)
  ultimately show ?thesis using DeliveryCall eq by simp
qed

lemma closed_calls:
  assumes "fabric_kept f ms" and "bm_get (fa_sessions f) i = Some s" and "cse_status s = SessionClosed"
  shows "bm_get (fa_sessions (after_calls cs f)) i = Some s \<and> deliveries_in i (deliveries cs f) = []"
  using assms
proof (induction cs arbitrary: f ms)
  case (Cons c cs)
  note one = closed_call [OF Cons.prems, of c]
  show ?case using Cons.IH [OF fabric_kept_call [OF Cons.prems(1), of c] conjunct1 [OF one] Cons.prems(3)] one by simp
qed simp

text \<open>C9: Whatever calls the fabric receives, a session whose limits are below the largest number of their width
  delivers at most as many messages as its grant has rounds and messages, of at most its tokens altogether, and
  no request twice; while it is open its counters are within the limits.\<close>

theorem deliveries_within_grant:
  assumes "bm_get (fa_sessions (after_calls cs new_fabric)) i = Some s" and "limits_finite s"
  shows "within_limits s (deliveries_in i (deliveries cs new_fabric))
    \<and> distinct (map om_request_ref (deliveries_in i (deliveries cs new_fabric)))
    \<and> (cse_status s = SessionClosed \<or> counters_within s \<and> counted s (deliveries_in i (deliveries cs new_fabric)))"
proof -
  note kept = reachable_kept [of cs, unfolded fabric_kept_def]
  have s_kept: "session_kept s (deliveries_in i (deliveries cs new_fabric))" using kept assms(1) by blast
  have "distinct (map (\<lambda>m. (om_session m, om_request_ref m)) (deliveries_in i (deliveries cs new_fabric)))"
    unfolding deliveries_in_def using kept distinct_map_filter by blast
  then have "distinct (map om_request_ref (deliveries_in i (deliveries cs new_fabric)))"
    by (auto simp: distinct_map deliveries_in_def inj_on_def)
  moreover have "cse_status s = SessionOpen \<or> cse_status s = SessionClosed" by (cases "cse_status s") simp_all
  ultimately show ?thesis using s_kept assms(2) by (auto simp: session_kept_def)
qed

text \<open>C38: A session that is closed after some calls is the same after any further ones, and none of them delivers
  a message in it: no exchange, disclosure, delivery or new session brings it back.\<close>

theorem closed_session_final:
  assumes "bm_get (fa_sessions (after_calls cs new_fabric)) i = Some s" and "cse_status s = SessionClosed"
  shows "bm_get (fa_sessions (after_calls (cs @ ds) new_fabric)) i = Some s
    \<and> deliveries_in i (deliveries (cs @ ds) new_fabric) = deliveries_in i (deliveries cs new_fabric)"
  using closed_calls [OF reachable_kept assms, of ds] by (simp add: after_calls_append deliveries_append)

subsection \<open>Refusing rules\<close>


subsection \<open>Devices\<close>

text \<open>What an observation of a device reports does not depend on the content the device read, and after a
  revocation neither an observation nor an input of the device gives anything.\<close>

theorem device_content_withheld:
  "normalize_observation a (ob\<lparr>do_raw := (do_raw ob)\<lparr>ri_content := content\<rparr>\<rparr>) = normalize_observation a ob
   \<and> isl (normalize_observation (snd (revoke_device a)) ob) \<and> isl (device_normalize (snd (revoke_device a)) r)"
proof (intro conjI)
  show "normalize_observation a (ob\<lparr>do_raw := (do_raw ob)\<lparr>ri_content := content\<rparr>\<rparr>) = normalize_observation a ob"
    by (simp add: normalize_observation_def device_event_def)
  show "isl (normalize_observation (snd (revoke_device a)) ob)"
    by (cases "dv_grant a") (simp_all add: normalize_observation_def revoke_device_def ok_or_def fails_def)
  show "isl (device_normalize (snd (revoke_device a)) r)"
    by (cases "dv_grant a") (simp_all add: device_normalize_def revoke_device_def ok_or_def fails_def)
qed

end
