(* ===== verification/Communication_Witnesses.thy ===== *)
theory Communication_Witnesses
  imports Communication_Limits
begin

text \<open>A session with one peer and two deliveries, at which the theorems of \<open>Communication_Limits\<close> apply.\<close>

definition meeting_envelope :: autonomy_envelope where
  "meeting_envelope = \<lparr>env_schema_version = 1, env_scope = ''chat'',
     env_capability = \<lparr>cs_schema_version = 1, capabilities = [''send''], permissions = [''outward'']\<rparr>,
     env_action_type = [Deliver], env_risk_limit = High, env_approval_rule = approval_rule.Allow, env_budget = ''units:1'',
     env_timebox = \<lparr>tb_schema_version = 1, tb_starts_at = 0, tb_expires_at = 100, tb_max_turns = 1\<rparr>,
     env_rollback = \<lparr>rb_schema_version = 1, rb_required = False, rb_boundary = None\<rparr>\<rparr>"

definition meeting_grant :: communication_grant where
  "meeting_grant = \<lparr>eg_schema_version = 1, eg_grant_ref = ''g'', eg_participant = ExternalParticipant ''peer'',
     eg_purpose = \<lparr>pu_schema_version = 1, pu_id = ''p'', pu_description = ''meet''\<rparr>, eg_modality_set = [TextModality],
     eg_disclosure = \<lparr>dp_schema_version = 1, dp_id = ''d'',
       dp_allow = [\<lparr>dl_schema_version = 1, dl_category = ''secret'', dl_outcome = RefuseOutcome, dl_high_impact_requires_approval = True\<rparr>,
         \<lparr>dl_schema_version = 1, dl_category = ''*'', dl_outcome = AnswerOutcome, dl_high_impact_requires_approval = True\<rparr>],
       dp_representation = AgentOnly\<rparr>,
     eg_termination = \<lparr>tp_schema_version = 1, tp_max_rounds = 5, tp_terminate_on_purpose_drift = True,
       tp_terminate_on_risk_escalation = True\<rparr>,
     eg_autonomy_envelope = meeting_envelope, eg_ttl = 50,
     eg_budget = \<lparr>cbg_schema_version = 1, cbg_max_messages = 2, cbg_max_tokens = 10\<rparr>,
     eg_transcript_policy = \<lparr>trp_schema_version = 1, trp_id = ''t'', trp_retain = False, trp_candidate_only = True\<rparr>,
     eg_issued_at = 0\<rparr>"

definition chat_host :: host_env where
  "chat_host = \<lparr>digest_operation = (\<lambda>_. Inr ''o''), digest_placement = (\<lambda>_. Inr ''p''),
     parse_url = (\<lambda>_. Some \<lparr>url_scheme = ''http'', url_host = Some ''localhost'', url_port_or_default = Some 80, url_username = [],
       url_password = None, url_path = ''/'', url_query = None, url_fragment = None, url_origin = ''o''\<rparr>),
     ip_is_loopback = (\<lambda>_. False)\<rparr>"

definition chat_adapter :: loopback_adapter where
  "chat_adapter = \<lparr>lo_schema_version = 1, lo_id = ''lo'', lo_participant = ExternalParticipant ''peer'', lo_scope = ''chat'',
     lo_connector = ''c'', lo_endpoint = ''e'', lo_schema_digest = ''s'', lo_credential_ref = None, lo_capability_ref = ''send'',
     lo_permission = ''outward'', lo_enabled = True\<rparr>"

definition greeting :: outbound_message where
  "greeting = \<lparr>om_schema_version = 1, om_message_id = ''m'', om_session = session_name 1, om_request_ref = ''r'',
     om_category = ''news'', om_content_ref = ''body'', om_sensitive = False, om_confirmed = True, om_high_impact = False,
     om_tokens = 4, om_purpose_aligned = True, om_risk_escalated = False, om_requested_at = 1, om_timeout = 5,
     om_estimated_output_bytes = 1\<rparr>"

definition meeting_session :: communication_session where
  "meeting_session = session_of_grant (session_name 1) 0 50 meeting_grant"

definition meeting :: "fabric_call list" where
  "meeting = [OpenCall 0 meeting_grant, DeliveryCall chat_host 1 chat_adapter greeting]"

lemma grant_accepted: "grant_expiry 0 meeting_grant = Inr 50"
  by code_simp

lemma adapter_accepted: "loopback_validate chat_host chat_adapter = Inr ()"
  by code_simp

lemma greeting_complete: "validate_outbound_message greeting = Inr ()"
  by code_simp

lemma greeting_decision: "disclosure_decision meeting_session (request_of_message greeting) = AnswerOutcome"
  by code_simp

lemma greeting_affordable: "affordable greeting meeting_session"
  by (simp add: affordable_def greeting_def meeting_session_def session_of_grant_def meeting_grant_def saturating_add_def)

lemma greeting_admitted:
  "session_admits 1 (ExternalParticipant ''peer'') greeting meeting_session"
  "envelope_admits chat_adapter (cse_autonomy_envelope meeting_session)"
  by code_simp+

lemma small_word: "unat w + 1 < 2 ^ LENGTH('a) \<Longrightarrow> w \<noteq> - 1" for w :: "'a::len word"
  by (auto simp: unat_max_word)

lemma meeting_values: "tp_max_rounds (cse_termination_policy (charged greeting meeting_session)) = 5"
  "cse_budget (charged greeting meeting_session) = \<lparr>cbg_schema_version = 1, cbg_max_messages = 2, cbg_max_tokens = 10\<rparr>"
  by (simp_all add: charged_def meeting_session_def session_of_grant_def meeting_grant_def)

lemma meeting_limits: "limits_finite (charged greeting meeting_session)"
  unfolding limits_finite_def meeting_values communication_budget.simps
  by (intro conjI small_word) simp_all

definition opened_fabric :: fabric where
  "opened_fabric = after_call (OpenCall 0 meeting_grant) new_fabric"

lemma opened:
  "fa_sessions opened_fabric = [(session_name 1, meeting_session)]" "fa_used opened_fabric = {}"
  "fa_sequence opened_fabric = 2"
proof -
  have "max 0 (eg_issued_at meeting_grant) = 0" by (simp add: meeting_grant_def)
  then show "fa_sessions opened_fabric = [(session_name 1, meeting_session)]" "fa_used opened_fabric = {}"
      "fa_sequence opened_fabric = 2"
    using grant_accepted
    by (simp_all add: opened_fabric_def open_session_def new_fabric_def meeting_session_def bm_empty_def Let_def)
qed

lemma greeting_names: "om_session greeting = session_name 1" "om_request_ref greeting = ''r''"
  by (simp_all add: greeting_def)

lemma greeting_delivered:
  "\<exists>p. prepare_delivery chat_host 1 chat_adapter greeting opened_fabric
     = (Inr p, sent (ExternalParticipant ''peer'') greeting meeting_session opened_fabric)"
  unfolding prepare_delivery_iff
  using adapter_accepted greeting_complete greeting_decision greeting_affordable greeting_admitted opened greeting_names
  by (auto simp: discloses_def chat_adapter_def)

lemma meeting_result:
  "bm_get (fa_sessions (after_calls meeting new_fabric)) (session_name 1) = Some (charged greeting meeting_session)"
  "deliveries meeting new_fabric = [greeting]"
  using greeting_delivered greeting_names
  by (auto simp: meeting_def opened_fabric_def [symmetric] sent_def simp del: after_call.simps(1))

theorem deliveries_within_grant_witness:
  "deliveries_in (session_name 1) (deliveries meeting new_fabric) = [greeting]
   \<and> within_limits (charged greeting meeting_session) (deliveries_in (session_name 1) (deliveries meeting new_fabric))"
  using deliveries_within_grant [OF meeting_result(1) meeting_limits]
  by (simp add: meeting_result(2) greeting_names)

definition ended_meeting :: "fabric_call list" where
  "ended_meeting = meeting @ [EndCall (session_name 1) ''over'']"

lemma ended_result:
  "bm_get (fa_sessions (after_calls ended_meeting new_fabric)) (session_name 1)
     = Some (charged greeting meeting_session\<lparr>cse_status := SessionClosed\<rparr>)"
proof -
  have "cse_status (charged greeting meeting_session) = SessionOpen"
    by (simp add: charged_def meeting_session_def session_of_grant_def)
  then show ?thesis
    unfolding ended_meeting_def after_calls_append by (simp add: end_session_def meeting_result(1) del: One_nat_def)
qed

theorem closed_session_final_witness:
  "deliveries_in (session_name 1) (deliveries (ended_meeting @ [DeliveryCall chat_host 2 chat_adapter
      (greeting\<lparr>om_request_ref := ''again''\<rparr>)]) new_fabric)
   = deliveries_in (session_name 1) (deliveries ended_meeting new_fabric)"
  using closed_session_final [OF ended_result, of "[DeliveryCall chat_host 2 chat_adapter (greeting\<lparr>om_request_ref := ''again''\<rparr>)]"]
  by simp


end
