(* ===== verification/Memory_Records.thy ===== *)
theory Memory_Records
  imports Complex_Main Event_Rows
begin

text \<open>
  The records of memory and the strings in which the log keeps them (\<open>crates/memory/src/lib.rs\<close>): scopes, nodes,
  edges, candidates, attributes of the user, and intentions. A confidence, weight or activation is an \<open>f32\<close> that
  memory copies and asks whether it is finite; it is an optional rational, None standing for what is not finite.
  The log keeps a scope and the parts of an intention in one string each, with the separator escaped; the lemmas
  at the end say when they come back as they were.
\<close>

subsection \<open>Strings\<close>

text \<open>\<open>str::replace\<close> with a pattern that is not empty: from the left, without overlap.\<close>

function replace_all :: "string \<Rightarrow> string \<Rightarrow> string \<Rightarrow> string" where
  "replace_all pat rep [] = []"
| "replace_all pat rep (c # cs) =
     (case strip_prefix pat (c # cs) of
        Some rest \<Rightarrow> if pat = [] then c # cs else rep @ replace_all pat rep rest
      | None \<Rightarrow> c # replace_all pat rep cs)"
  by pat_completeness auto

termination
  by (relation "measure (\<lambda>(pat, rep, s). length s)") (auto dest: arg_cong [of _ _ length] simp: Cons_eq_append_conv)

fun split_once :: "char \<Rightarrow> string \<Rightarrow> (string \<times> string) option" where
  "split_once sep [] = None"
| "split_once sep (c # cs) =
     (if c = sep then Some ([], cs) else map_option (\<lambda>(a, b). (c # a, b)) (split_once sep cs))"

fun splitn :: "nat \<Rightarrow> char \<Rightarrow> string \<Rightarrow> string list" where
  "splitn 0 sep s = []"
| "splitn (Suc 0) sep s = [s]"
| "splitn (Suc (Suc n)) sep s =
     (case split_once sep s of None \<Rightarrow> [s] | Some (a, b) \<Rightarrow> a # splitn (Suc n) sep b)"

text \<open>Printing and parsing of \<open>i64\<close>.\<close>

definition show_int :: "int \<Rightarrow> string" where
  "show_int i = (if i < 0 then CHR ''-'' # show_nat (nat (- i)) else show_nat (nat i))"

definition parse_i64 :: "string \<Rightarrow> int option" where
  "parse_i64 s =
     (let negative = (s \<noteq> [] \<and> hd s = CHR ''-'');
          ds = (if s \<noteq> [] \<and> (hd s = CHR ''-'' \<or> hd s = CHR ''+'') then tl s else s)
      in if ds = [] then None
         else case digits_value 0 ds of
           None \<Rightarrow> None
         | Some n \<Rightarrow>
             let i = (if negative then - int n else int n)
             in if - (2 ^ 63) \<le> i \<and> i < 2 ^ 63 then Some i else None)"

definition escape_component :: "string \<Rightarrow> string" where
  "escape_component v = replace_all ''|'' ''%7C'' (replace_all ''%'' ''%25'' v)"

definition unescape_component :: "string \<Rightarrow> string" where
  "unescape_component v = replace_all ''%25'' ''%'' (replace_all ''%7C'' ''|'' v)"

subsection \<open>Scopes\<close>

datatype time_slice = SessionSlice | DailySlice | LongTermSlice

fun slice_str :: "time_slice \<Rightarrow> string" where
  "slice_str SessionSlice = ''session''"
| "slice_str DailySlice = ''daily''"
| "slice_str LongTermSlice = ''long-term''"

definition slice_parse :: "string \<Rightarrow> time_slice option" where
  "slice_parse v =
     (if v = ''session'' then Some SessionSlice else if v = ''daily'' then Some DailySlice
      else if v = ''long-term'' then Some LongTermSlice else None)"

record memory_scope =
  sc_schema_version :: schema_version
  sc_slice :: time_slice
  sc_workspace :: "string option"
  sc_scope :: scope

definition event_scope :: "memory_scope \<Rightarrow> scope" where
  "event_scope m =
     ''memory|'' @ slice_str (sc_slice m) @ ''|''
     @ escape_component (case sc_workspace m of None \<Rightarrow> [] | Some w \<Rightarrow> w) @ ''|'' @ escape_component (sc_scope m)"

definition from_event_scope :: "scope \<Rightarrow> memory_scope" where
  "from_event_scope s =
     (let legacy = \<lparr>sc_schema_version = 1, sc_slice = DailySlice, sc_workspace = None, sc_scope = s\<rparr> in
      case splitn 4 CHR ''|'' s of
        [h, sl, w, label] \<Rightarrow>
          if h = ''memory''
          then (case slice_parse sl of
              None \<Rightarrow> legacy
            | Some t \<Rightarrow>
                let w' = unescape_component w in
                \<lparr>sc_schema_version = 1, sc_slice = t, sc_workspace = (if w' = [] then None else Some w'),
                 sc_scope = unescape_component label\<rparr>)
          else legacy
      | _ \<Rightarrow> legacy)"

fun slice_rank :: "time_slice \<Rightarrow> nat" where
  "slice_rank SessionSlice = 1"
| "slice_rank DailySlice = 2"
| "slice_rank LongTermSlice = 3"

definition memory_scope_contains :: "memory_scope \<Rightarrow> memory_scope \<Rightarrow> bool" where
  "memory_scope_contains requester target \<longleftrightarrow>
     sc_workspace requester = sc_workspace target \<and> slice_rank (sc_slice target) \<le> slice_rank (sc_slice requester)
     \<and> (sc_scope requester = sc_scope target
       \<or> (case strip_prefix (sc_scope requester) (sc_scope target) of
            Some (c # _) \<Rightarrow> c = CHR '':'' \<or> c = CHR ''/''
          | _ \<Rightarrow> False))"

subsection \<open>Nodes and edges\<close>

type_synonym f32 = "rat option"

definition is_finite :: "f32 \<Rightarrow> bool" where
  "is_finite x \<longleftrightarrow> x \<noteq> None"

datatype node_kind = EventNode | EpisodicNode | ReflectionNode | FactNode | AttributeNode | GoalNode | CognitiveObjectNode

fun node_kind_str :: "node_kind \<Rightarrow> string" where
  "node_kind_str EventNode = ''event''"
| "node_kind_str EpisodicNode = ''episodic''"
| "node_kind_str ReflectionNode = ''reflection''"
| "node_kind_str FactNode = ''fact''"
| "node_kind_str AttributeNode = ''attribute''"
| "node_kind_str GoalNode = ''goal''"
| "node_kind_str CognitiveObjectNode = ''cognitive-object-ref''"

definition node_kind_parse :: "string \<Rightarrow> node_kind" where
  "node_kind_parse v =
     (if v = ''event'' then EventNode else if v = ''episodic'' then EpisodicNode
      else if v = ''reflection'' then ReflectionNode else if v = ''attribute'' then AttributeNode
      else if v = ''goal'' then GoalNode else if v = ''cognitive-object-ref'' then CognitiveObjectNode else FactNode)"

record memory_node =
  mn_schema_version :: schema_version
  mn_id :: string
  mn_kind :: node_kind
  mn_content_ref :: string
  mn_tier :: stability_tier
  mn_confidence :: f32
  mn_scope :: memory_scope
  mn_resting_activation :: f32
  mn_recency :: timestamp
  mn_provenance :: provenance

datatype edge_kind = TemporalEdge | CausalEdge | AssociationEdge | ContradictsEdge | PartOfEdge | RefinesEdge

fun edge_kind_str :: "edge_kind \<Rightarrow> string" where
  "edge_kind_str TemporalEdge = ''temporal''"
| "edge_kind_str CausalEdge = ''causal''"
| "edge_kind_str AssociationEdge = ''association''"
| "edge_kind_str ContradictsEdge = ''contradicts''"
| "edge_kind_str PartOfEdge = ''part-of''"
| "edge_kind_str RefinesEdge = ''refines''"

definition edge_kind_parse :: "string \<Rightarrow> edge_kind" where
  "edge_kind_parse v =
     (if v = ''temporal'' then TemporalEdge else if v = ''causal'' then CausalEdge
      else if v = ''contradicts'' then ContradictsEdge else if v = ''part-of'' then PartOfEdge
      else if v = ''refines'' then RefinesEdge else AssociationEdge)"

record memory_edge =
  ml_schema_version :: schema_version
  ml_id :: string
  ml_from :: string
  ml_to :: string
  ml_kind :: edge_kind
  ml_weight :: f32
  ml_provenance :: provenance

definition settled_tier :: "stability_tier \<Rightarrow> bool" where
  "settled_tier t \<longleftrightarrow> t = Fixed \<or> t = ConstitutionalTier \<or> t = Stable"

definition validate_node :: "memory_node \<Rightarrow> unit result" where
  "validate_node n =
     and_then (ensure (mn_schema_version n \<noteq> 0 \<and> sc_schema_version (mn_scope n) \<noteq> 0 \<and> \<not> blank (mn_id n)
       \<and> \<not> blank (mn_content_ref n) \<and> \<not> blank (sc_scope (mn_scope n)) \<and> is_finite (mn_confidence n)
       \<and> is_finite (mn_resting_activation n)) ''memory node is incomplete or non-finite'') (\<lambda>_.
     ensure (\<not> (prov_trust_tier (mn_provenance n) = Untrusted \<and> settled_tier (mn_tier n)))
       ''untrusted content cannot enter a stable memory tier'')"

definition validate_memory_edge :: "memory_edge \<Rightarrow> unit result" where
  "validate_memory_edge e =
     and_then (ensure (ml_schema_version e \<noteq> 0 \<and> \<not> blank (ml_id e) \<and> \<not> blank (ml_from e) \<and> \<not> blank (ml_to e)
       \<and> ml_from e \<noteq> ml_to e \<and> is_finite (ml_weight e)) ''memory edge is incomplete or non-finite'') (\<lambda>_.
     ensure (prov_trust_tier (ml_provenance e) \<noteq> Untrusted) ''untrusted content cannot modify memory graph structure'')"

subsection \<open>Candidates\<close>

datatype candidate_state = CandidateStep | PromotedStep | RejectedStep | DowngradedStep | DecayedStep

record candidate_spec =
  ks_schema_version :: schema_version
  ks_id :: string
  ks_target :: string
  ks_evidence_refs :: "string list"
  ks_confidence :: f32
  ks_provenance :: provenance
  ks_target_tier :: stability_tier

text \<open>The field \<open>update\<close> holds the schema version of the candidate only.\<close>

record candidate_record =
  cd_update :: schema_version
  cd_spec :: candidate_spec
  cd_state :: candidate_state
  cd_decided_by :: "actor option"

definition validate_candidate_spec :: "candidate_spec \<Rightarrow> unit result" where
  "validate_candidate_spec c =
     and_then (ensure (ks_schema_version c \<noteq> 0 \<and> \<not> blank (ks_id c) \<and> \<not> blank (ks_target c) \<and> is_finite (ks_confidence c))
       ''candidate is incomplete or non-finite'') (\<lambda>_.
     ensure (\<not> (prov_trust_tier (ks_provenance c) = Untrusted \<and> settled_tier (ks_target_tier c)))
       ''untrusted candidate cannot target a stable tier'')"

fun valid_candidate_transition :: "candidate_state \<Rightarrow> candidate_state \<Rightarrow> bool" where
  "valid_candidate_transition CandidateStep to = (to \<noteq> CandidateStep)"
| "valid_candidate_transition PromotedStep to = (to = DowngradedStep)"
| "valid_candidate_transition DowngradedStep to = (to = PromotedStep \<or> to = DecayedStep)"
| "valid_candidate_transition _ to = False"

datatype evidence_priority = ProcessEvidence | ImportedEvidence

record user_attribute_candidate =
  uc_schema_version :: schema_version
  uc_candidate_id :: string
  uc_attribute :: string
  uc_value :: string
  uc_evidence :: "string list"
  uc_confidence :: f32
  uc_first_observed_at :: timestamp
  uc_last_updated_at :: timestamp
  uc_stability :: stability_tier
  uc_scope :: scope
  uc_conflicts :: "string list"
  uc_feedback :: "string list"
  uc_provenance :: provenance
  uc_evidence_priority :: evidence_priority

record user_model_attribute =
  ua_schema_version :: schema_version
  ua_attribute :: string
  ua_value :: string
  ua_evidence :: "string list"
  ua_confidence :: f32
  ua_stability :: stability_tier
  ua_scope :: scope
  ua_first_observed_at :: timestamp
  ua_last_updated_at :: timestamp
  ua_conflicts :: "string list"
  ua_feedback :: "string list"
  ua_provenance :: provenance

definition validate_user_candidate :: "user_attribute_candidate \<Rightarrow> unit result" where
  "validate_user_candidate c =
     and_then (ensure (uc_schema_version c \<noteq> 0 \<and> \<not> blank (uc_candidate_id c) \<and> \<not> blank (uc_attribute c) \<and> \<not> blank (uc_value c)
       \<and> \<not> blank (uc_scope c) \<and> uc_evidence c \<noteq> [] \<and> uc_first_observed_at c \<le> uc_last_updated_at c
       \<and> is_finite (uc_confidence c)) ''user attribute candidate is incomplete'') (\<lambda>_.
     and_then (ensure (\<not> (uc_evidence_priority c = ImportedEvidence \<and> settled_tier (uc_stability c)))
       ''imported evidence cannot target a stable user attribute'') (\<lambda>_.
     ensure (\<not> (prov_trust_tier (uc_provenance c) = Untrusted \<and> settled_tier (uc_stability c)))
       ''untrusted evidence cannot target a stable user attribute''))"

definition attribute_of :: "user_attribute_candidate \<Rightarrow> user_model_attribute" where
  "attribute_of c =
     \<lparr>ua_schema_version = uc_schema_version c, ua_attribute = uc_attribute c, ua_value = uc_value c,
      ua_evidence = uc_evidence c, ua_confidence = uc_confidence c, ua_stability = uc_stability c, ua_scope = uc_scope c,
      ua_first_observed_at = uc_first_observed_at c, ua_last_updated_at = uc_last_updated_at c,
      ua_conflicts = uc_conflicts c, ua_feedback = uc_feedback c, ua_provenance = uc_provenance c\<rparr>"

record imported_evidence =
  ih_schema_version :: schema_version
  ih_source :: string
  ih_low_weight :: bool
  ih_bootstrap_only :: bool
  ih_provenance :: provenance

subsection \<open>Intentions\<close>

datatype intention_trigger = AtTime timestamp | OnEvent event_kind | OnCondition string

datatype intention_source = Commitment | DeferredProposal | SelfGenerated

datatype intention_state = PendingIntention | FiredIntention | DoneIntention | ExpiredIntention | CancelledIntention

datatype intention_outcome = FiredOutcome | DoneOutcome | ExpiredOutcome | CancelledOutcome

record prospective_intention =
  pi_schema_version :: schema_version
  pi_id :: string
  pi_source :: intention_source
  pi_trigger :: intention_trigger
  pi_state :: intention_state
  pi_seed :: string
  pi_provenance :: provenance
  pi_expires_at :: "timestamp option"

record schedule_binding =
  sb_schema_version :: schema_version
  sb_session :: session_id
  sb_envelope :: autonomy_envelope
  sb_budget :: string

record schedule_command =
  sd_schema_version :: schema_version
  sd_intention :: prospective_intention
  sd_session :: session_id
  sd_envelope :: autonomy_envelope
  sd_budget :: string

definition command_binding :: "schedule_command \<Rightarrow> schedule_binding" where
  "command_binding c = \<lparr>sb_schema_version = sd_schema_version c, sb_session = sd_session c, sb_envelope = sd_envelope c,
     sb_budget = sd_budget c\<rparr>"

definition binding_validate :: "schedule_binding \<Rightarrow> unit result" where
  "binding_validate b =
     (let e = sb_envelope b in
      ensure (sb_schema_version b \<noteq> 0 \<and> \<not> blank (sb_session b) \<and> env_schema_version e \<noteq> 0 \<and> \<not> blank (env_scope e)
        \<and> cs_schema_version (env_capability e) \<noteq> 0 \<and> tb_schema_version (env_timebox e) \<noteq> 0
        \<and> rb_schema_version (env_rollback e) \<noteq> 0 \<and> tb_max_turns (env_timebox e) \<noteq> 0
        \<and> tb_starts_at (env_timebox e) \<le> tb_expires_at (env_timebox e) \<and> \<not> blank (sb_budget b))
        ''schedule binding is incomplete'')"

text \<open>The check of \<open>protocol/src/control.rs\<close>, before that of memory.\<close>

definition protocol_intention_validate :: "prospective_intention \<Rightarrow> unit result" where
  "protocol_intention_validate i =
     ensure (pi_schema_version i \<noteq> 0 \<and> \<not> blank (pi_id i) \<and> \<not> blank (pi_seed i) \<and> pi_state i = PendingIntention
       \<and> (case pi_expires_at i of None \<Rightarrow> True | Some t \<Rightarrow> 0 < t)
       \<and> (case pi_trigger i of OnCondition r \<Rightarrow> \<not> blank r | _ \<Rightarrow> True)) ''prospective intention is incomplete''"

definition command_validate :: "schedule_command \<Rightarrow> unit result" where
  "command_validate c =
     and_then (ensure (sd_schema_version c \<noteq> 0) ''schedule command is not versioned'') (\<lambda>_.
     and_then (protocol_intention_validate (sd_intention c)) (\<lambda>_.
     and_then (binding_validate (command_binding c)) (\<lambda>_.
     ensure (case pi_expires_at (sd_intention c) of None \<Rightarrow> True | Some t \<Rightarrow> t \<le> tb_expires_at (env_timebox (sd_envelope c)))
       ''intention expiry exceeds its autonomy timebox'')))"

definition validate_intention :: "prospective_intention \<Rightarrow> unit result" where
  "validate_intention i =
     and_then (ensure (pi_schema_version i \<noteq> 0 \<and> \<not> blank (pi_id i) \<and> \<not> blank (pi_seed i) \<and> pi_state i = PendingIntention)
       ''prospective intention is incomplete'') (\<lambda>_.
     case (pi_trigger i, pi_expires_at i) of
       (AtTime t, Some expires) \<Rightarrow> ensure (t < expires) ''intention expires before it is due''
     | _ \<Rightarrow> Inr ())"

definition same_intention_definition :: "prospective_intention \<Rightarrow> prospective_intention \<Rightarrow> bool" where
  "same_intention_definition a b \<longleftrightarrow> pi_schema_version a = pi_schema_version b \<and> pi_id a = pi_id b \<and> pi_source a = pi_source b
     \<and> pi_trigger a = pi_trigger b \<and> pi_seed a = pi_seed b \<and> pi_provenance a = pi_provenance b
     \<and> pi_expires_at a = pi_expires_at b"

fun intention_state_of :: "intention_outcome \<Rightarrow> intention_state" where
  "intention_state_of FiredOutcome = FiredIntention"
| "intention_state_of DoneOutcome = DoneIntention"
| "intention_state_of ExpiredOutcome = ExpiredIntention"
| "intention_state_of CancelledOutcome = CancelledIntention"

fun valid_intention_transition :: "intention_state \<Rightarrow> intention_state \<Rightarrow> bool" where
  "valid_intention_transition PendingIntention to = (to = FiredIntention \<or> to = ExpiredIntention \<or> to = CancelledIntention)"
| "valid_intention_transition FiredIntention to = (to \<noteq> PendingIntention)"
| "valid_intention_transition _ to = False"

fun trigger_ref :: "intention_trigger \<Rightarrow> string" where
  "trigger_ref (AtTime t) = ''at:'' @ show_int t"
| "trigger_ref (OnEvent k) = ''event:'' @ as_str k"
| "trigger_ref (OnCondition c) = ''condition:'' @ c"

definition trigger_from_ref :: "string \<Rightarrow> intention_trigger" where
  "trigger_from_ref v =
     (case Option.bind (strip_prefix ''at:'' v) parse_i64 of
        Some t \<Rightarrow> AtTime t
      | None \<Rightarrow>
          (case Option.bind (strip_prefix ''event:'' v) (\<lambda>k. case kind_from_str k of Inr kind \<Rightarrow> Some kind | Inl _ \<Rightarrow> None) of
             Some kind \<Rightarrow> OnEvent kind
           | None \<Rightarrow> OnCondition (case strip_prefix ''condition:'' v of Some c \<Rightarrow> c | None \<Rightarrow> v)))"

definition intention_storage_ref :: "prospective_intention \<Rightarrow> string" where
  "intention_storage_ref i =
     trigger_ref (pi_trigger i) @ ''|seed='' @ escape_component (pi_seed i) @ ''|expires=''
     @ (case pi_expires_at i of None \<Rightarrow> [] | Some t \<Rightarrow> show_int t)"

definition trigger_from_storage :: "string \<Rightarrow> intention_trigger" where
  "trigger_from_storage v = trigger_from_ref (hd (split_on CHR ''|'' v))"

fun find_field :: "string \<Rightarrow> string list \<Rightarrow> string option" where
  "find_field pre [] = None"
| "find_field pre (f # fs) = (case strip_prefix pre f of Some v \<Rightarrow> Some v | None \<Rightarrow> find_field pre fs)"

definition seed_from_storage :: "string \<Rightarrow> string" where
  "seed_from_storage v =
     (case find_field ''seed='' (split_on CHR ''|'' v) of
        None \<Rightarrow> ''recovered-from-legacy-event''
      | Some s \<Rightarrow> unescape_component s)"

definition expiry_from_storage :: "string \<Rightarrow> timestamp option" where
  "expiry_from_storage v =
     (case find_field ''expires='' (split_on CHR ''|'' v) of
        None \<Rightarrow> None
      | Some s \<Rightarrow> if s = [] then None else parse_i64 s)"

definition intention_lease :: "event_id \<Rightarrow> timestamp \<Rightarrow> string \<Rightarrow> string" where
  "intention_lease generation until i =
     ''intention-lease|'' @ escape_component generation @ ''|'' @ show_int until @ ''|'' @ escape_component i"

definition parse_intention_lease :: "string \<Rightarrow> (string \<times> timestamp) option" where
  "parse_intention_lease v =
     (case strip_prefix ''intention-lease|'' v of
        Some rest \<Rightarrow>
          (case split_on CHR ''|'' rest of
             [_, until, i] \<Rightarrow> map_option (\<lambda>t. (unescape_component i, t)) (parse_i64 until)
           | _ \<Rightarrow> None)
      | None \<Rightarrow>
          (case strip_prefix ''intention-lease:'' v of
             None \<Rightarrow> None
           | Some rest \<Rightarrow>
               (case split_once CHR '':'' rest of
                  None \<Rightarrow> None
                | Some (until, i) \<Rightarrow> map_option (\<lambda>t. (i, t)) (parse_i64 until))))"

subsection \<open>What comes back\<close>

lemma strip_prefix_Cons_None: "p \<noteq> c \<Longrightarrow> strip_prefix (p # ps) (c # cs) = None"
  by simp

lemma replace_all_char: "replace_all [p] rep s = concat (map (\<lambda>c. if c = p then rep else [c]) s)"
  by (induction s) auto

lemma replace_all_match: "pat \<noteq> [] \<Longrightarrow> replace_all pat rep (pat @ s) = rep @ replace_all pat rep s"
  by (cases pat) simp_all

lemma replace_all_skip: "p \<noteq> c \<Longrightarrow> replace_all (p # ps) rep (c # s) = c # replace_all (p # ps) rep s"
  by simp

fun escaped_char :: "char \<Rightarrow> string" where
  "escaped_char c = (if c = CHR ''%'' then ''%25'' else if c = CHR ''|'' then ''%7C'' else [c])"

lemma escape_component_chars: "escape_component s = concat (map escaped_char s)"
  by (induction s) (simp_all add: escape_component_def replace_all_char)

lemma escaped_no_bar [simp]: "CHR ''|'' \<notin> set (escape_component s)"
  by (induction s) (auto simp: escape_component_chars)

lemma unescape_first:
  "replace_all ''%7C'' ''|'' (escape_component s) = concat (map (\<lambda>c. if c = CHR ''%'' then ''%25'' else [c]) s)"
  by (induction s) (simp_all add: escape_component_chars)

lemma unescape_second: "replace_all ''%25'' ''%'' (concat (map (\<lambda>c. if c = CHR ''%'' then ''%25'' else [c]) s)) = s"
  by (induction s) simp_all

lemma unescape_escape [simp]: "unescape_component (escape_component s) = s"
  by (simp add: unescape_component_def unescape_first unescape_second)

lemma escape_component_Nil [simp]: "escape_component [] = []"
  by (simp add: escape_component_chars)

lemma unescape_component_Nil [simp]: "unescape_component [] = []"
  using unescape_escape [of "[]"] by simp

lemma escape_component_inj: "escape_component s = escape_component t \<longleftrightarrow> s = t"
  by (metis unescape_escape)

lemma parse_i64_show_int:
  assumes "- (2 ^ 63) \<le> i" "i < 2 ^ 63"
  shows "parse_i64 (show_int i) = Some i"
proof (cases "i < 0")
  case True
  then show ?thesis using assms digits_value_show_nat [of "nat (- i)"] show_nat_digits [of "nat (- i)"]
    by (simp add: parse_i64_def show_int_def Let_def)
next
  case False
  obtain c cs where c: "show_nat (nat i) = c # cs" "48 \<le> byte c"
    using show_nat_digits [of "nat i"] by (cases "show_nat (nat i)") auto
  then have "c \<noteq> CHR ''-''" "c \<noteq> CHR ''+''" by auto
  then show ?thesis using False assms c digits_value_show_nat [of "nat i"]
    by (simp add: parse_i64_def show_int_def Let_def)
qed

lemma show_int_no_bar [simp]: "CHR ''|'' \<notin> set (show_int i)"
proof -
  have "CHR ''|'' \<notin> set (show_nat n)" for n
  proof
    assume "CHR ''|'' \<in> set (show_nat n)"
    then have "byte (CHR ''|'') \<le> 57" using show_nat_digits [of n] by blast
    then show False by simp
  qed
  then show ?thesis by (simp add: show_int_def)
qed

lemma show_int_not_Nil [simp]: "show_int i \<noteq> []"
  using show_nat_digits by (simp add: show_int_def)

lemma split_once_field: "sep \<notin> set a \<Longrightarrow> split_once sep (a @ sep # b) = Some (a, b)"
  by (induction a) auto

lemma slice_parse_str [simp]: "slice_parse (slice_str t) = Some t"
  by (cases t) (simp_all add: slice_parse_def)

lemma slice_str_no_bar [simp]: "CHR ''|'' \<notin> set (slice_str t)"
  by (cases t) simp_all

lemma node_kind_parse_str [simp]: "node_kind_parse (node_kind_str k) = k"
  by (cases k) (simp_all add: node_kind_parse_def)

lemma edge_kind_parse_str [simp]: "edge_kind_parse (edge_kind_str k) = k"
  by (cases k) (simp_all add: edge_kind_parse_def)

lemma splitn_scope:
  "splitn 4 CHR ''|'' (''memory|'' @ slice_str t @ ''|'' @ escape_component w @ ''|'' @ label)
     = [''memory'', slice_str t, escape_component w, label]"
proof -
  have four: "splitn 4 = splitn (Suc (Suc (Suc (Suc 0))))" by (simp add: numeral_eq_Suc)
  show ?thesis
    unfolding four
    using split_once_field [of "CHR ''|''" "''memory''" "slice_str t @ ''|'' @ escape_component w @ ''|'' @ label"]
      split_once_field [of "CHR ''|''" "slice_str t" "escape_component w @ ''|'' @ label"]
      split_once_field [of "CHR ''|''" "escape_component w" label]
    by simp
qed

lemma from_event_scope_event_scope:
  assumes "sc_schema_version m = 1" and "sc_workspace m \<noteq> Some []"
  shows "from_event_scope (event_scope m) = m"
proof -
  obtain v t w sc where m: "m = \<lparr>sc_schema_version = v, sc_slice = t, sc_workspace = w, sc_scope = sc\<rparr>" by (cases m)
  show ?thesis
    using assms unfolding m event_scope_def from_event_scope_def memory_scope.simps splitn_scope Let_def
    by (cases w) simp_all
qed

text \<open>A trigger comes back when its time is an \<open>i64\<close> and its condition has no separator, which is not escaped.\<close>

definition is_timestamp :: "timestamp \<Rightarrow> bool" where
  "is_timestamp t \<longleftrightarrow> - (2 ^ 63) \<le> t \<and> t < 2 ^ 63"

fun plain_trigger :: "intention_trigger \<Rightarrow> bool" where
  "plain_trigger (AtTime t) = is_timestamp t"
| "plain_trigger (OnEvent k) = True"
| "plain_trigger (OnCondition c) = (CHR ''|'' \<notin> set c)"

lemma event_kind_names_plain: "list_all (\<lambda>(k, name). CHR ''|'' \<notin> set name) event_kind_table"
  by (simp add: event_kind_table_def)

lemma as_str_no_bar [simp]: "CHR ''|'' \<notin> set (as_str k)"
  using event_kind_names_plain as_str_in_table [of k] by (auto simp: list_all_iff)

lemma trigger_from_ref_trigger_ref: "plain_trigger t \<Longrightarrow> trigger_from_ref (trigger_ref t) = t"
  by (cases t) (simp_all add: trigger_from_ref_def parse_i64_show_int is_timestamp_def)

lemma trigger_ref_no_bar: "plain_trigger t \<Longrightarrow> CHR ''|'' \<notin> set (trigger_ref t)"
  by (cases t) simp_all

lemma storage_fields:
  assumes "plain_trigger (pi_trigger i)"
  shows "split_on CHR ''|'' (intention_storage_ref i)
    = [trigger_ref (pi_trigger i), ''seed='' @ escape_component (pi_seed i),
       ''expires='' @ (case pi_expires_at i of None \<Rightarrow> [] | Some t \<Rightarrow> show_int t)]"
proof -
  have last: "CHR ''|'' \<notin> set (''expires='' @ (case pi_expires_at i of None \<Rightarrow> [] | Some t \<Rightarrow> show_int t))"
    by (simp split: option.splits)
  have "split_on CHR ''|'' ((''seed='' @ escape_component (pi_seed i)) @ CHR ''|'' #
      (''expires='' @ (case pi_expires_at i of None \<Rightarrow> [] | Some t \<Rightarrow> show_int t)))
    = [''seed='' @ escape_component (pi_seed i), ''expires='' @ (case pi_expires_at i of None \<Rightarrow> [] | Some t \<Rightarrow> show_int t)]"
    by (subst split_on_append_sep) (use last split_on_plain in simp_all)
  then have "split_on CHR ''|'' (trigger_ref (pi_trigger i) @ CHR ''|'' # (''seed='' @ escape_component (pi_seed i)) @ CHR ''|'' #
      (''expires='' @ (case pi_expires_at i of None \<Rightarrow> [] | Some t \<Rightarrow> show_int t)))
    = [trigger_ref (pi_trigger i), ''seed='' @ escape_component (pi_seed i),
       ''expires='' @ (case pi_expires_at i of None \<Rightarrow> [] | Some t \<Rightarrow> show_int t)]"
    using split_on_append_sep [OF trigger_ref_no_bar [OF assms]] by simp
  then show ?thesis by (simp add: intention_storage_ref_def)
qed

lemma trigger_ref_fields: "strip_prefix ''seed='' (trigger_ref t) = None" "strip_prefix ''expires='' (trigger_ref t) = None"
  by (cases t; simp)+

lemma storage_back:
  assumes "plain_trigger (pi_trigger i)" and "pred_option is_timestamp (pi_expires_at i)"
  shows "trigger_from_storage (intention_storage_ref i) = pi_trigger i"
    and "seed_from_storage (intention_storage_ref i) = pi_seed i"
    and "expiry_from_storage (intention_storage_ref i) = pi_expires_at i"
proof -
  note fs = storage_fields [OF assms(1)]
  show "trigger_from_storage (intention_storage_ref i) = pi_trigger i"
    by (simp add: trigger_from_storage_def fs trigger_from_ref_trigger_ref [OF assms(1)])
  show "seed_from_storage (intention_storage_ref i) = pi_seed i"
    by (simp add: seed_from_storage_def fs trigger_ref_fields)
  show "expiry_from_storage (intention_storage_ref i) = pi_expires_at i"
    using assms(2)
    by (cases "pi_expires_at i") (simp_all add: expiry_from_storage_def fs trigger_ref_fields parse_i64_show_int is_timestamp_def)
qed

lemma lease_fields:
  "split_on CHR ''|'' (escape_component g @ ''|'' @ show_int t @ ''|'' @ escape_component i)
     = [escape_component g, show_int t, escape_component i]"
proof -
  have "split_on CHR ''|'' (show_int t @ CHR ''|'' # escape_component i) = [show_int t, escape_component i]"
    by (subst split_on_append_sep) (simp_all add: split_on_plain)
  then have "split_on CHR ''|'' (escape_component g @ CHR ''|'' # show_int t @ CHR ''|'' # escape_component i)
      = [escape_component g, show_int t, escape_component i]"
    by (subst split_on_append_sep) simp_all
  then show ?thesis by simp
qed

lemma parse_intention_lease_back: "is_timestamp t \<Longrightarrow> parse_intention_lease (intention_lease g t i) = Some (i, t)"
  using lease_fields [of g t i]
  by (simp add: parse_intention_lease_def intention_lease_def parse_i64_show_int is_timestamp_def)

text \<open>The key under which the store remembers a lease: the generation that is claimed and the intention.\<close>

lemma lease_key_of_lease:
  "lease_key (intention_lease g t i) = Some (''intention_lease'', escape_component g @ ''|'' @ escape_component i)"
  using lease_fields [of g t i] by (simp add: lease_key_def intention_lease_def)

lemma lease_key_inj:
  "lease_key (intention_lease g t i) = lease_key (intention_lease h u j) \<longleftrightarrow> g = h \<and> i = j"
proof
  assume "lease_key (intention_lease g t i) = lease_key (intention_lease h u j)"
  then have eq: "escape_component g @ CHR ''|'' # escape_component i = escape_component h @ CHR ''|'' # escape_component j"
    by (simp add: lease_key_of_lease)
  have "split_once CHR ''|'' (escape_component g @ CHR ''|'' # escape_component i)
      = split_once CHR ''|'' (escape_component h @ CHR ''|'' # escape_component j)"
    by (simp only: eq)
  then show "g = h \<and> i = j"
    using split_once_field [OF escaped_no_bar, of g "escape_component i"]
      split_once_field [OF escaped_no_bar, of h "escape_component j"] by (simp add: escape_component_inj)
qed (simp add: lease_key_of_lease)

end
