(* ===== verification/Memory_Core.thy ===== *)
theory Memory_Core
  imports Memory_Records Ordered_Map
begin

text \<open>
  Memory over the event log (\<open>crates/memory/src/lib.rs\<close>, \<open>EventSourcedMemory\<close>): every operation appends an event and
  then changes the state in memory; opening reads the events of the run and folds them. The store is the argument
  \<open>ap\<close>, its \<open>append\<close> over some state; the clock is the reading at each append. An operation takes and returns the
  instance and the store. The mutex makes the operations of one instance atomic; several instances may share a
  store. Sequence numbers are \<open>u64\<close> that are taken not to overflow.
\<close>

subsection \<open>Events and state\<close>

datatype memory_payload =
    NodeAppended string string string stability_tier f32 scope f32 timestamp
  | EdgeAppended string string string string f32
  | CandidateMade string string "string list" f32 provenance stability_tier "bytes option"
  | CandidateMoved string candidate_state decision_actor string
  | UserCandidateMade string string string "string list" f32 timestamp timestamp stability_tier scope "string list" "string list"
  | HistoryImported string
  | IntentionMade string intention_source string "schedule_binding option"
  | MaintenanceApplied string
  | IntentionResolved string intention_outcome

record memory_event =
  mv_id :: event_id
  mv_schema_version :: schema_version
  mv_payload :: memory_payload
  mv_provenance :: provenance
  mv_ts :: timestamp

record intention_record =
  ir_intention :: prospective_intention
  ir_schedule :: "schedule_binding option"
  ir_lease_until :: "timestamp option"
  ir_generation :: event_id

datatype activation_shape = AssociationShape | ChangeShape | PressureShape | GapShape | TensionShape

record memory_state =
  my_nodes :: "(string, memory_node) btree_map"
  my_node_events :: "(string, event_id) btree_map"
  my_edges :: "(string, memory_edge) btree_map"
  my_candidates :: "(string, candidate_record) btree_map"
  my_intentions :: "(string, intention_record) btree_map"
  my_user_candidates :: "(string, user_attribute_candidate) btree_map"
  my_attributes :: "string \<times> scope \<Rightarrow> user_model_attribute option"
  my_imported :: "imported_evidence list"
  my_capability_updates :: "(string, bytes) btree_map"
  my_seed :: "(string list \<times> activation_shape) option"

definition memory_empty :: memory_state where
  "memory_empty = \<lparr>my_nodes = bm_empty, my_node_events = bm_empty, my_edges = bm_empty, my_candidates = bm_empty,
     my_intentions = bm_empty, my_user_candidates = bm_empty, my_attributes = Map.empty, my_imported = [],
     my_capability_updates = bm_empty, my_seed = None\<rparr>"

definition bm_update :: "'k::linorder \<Rightarrow> ('v \<Rightarrow> 'v) \<Rightarrow> ('k, 'v) btree_map \<Rightarrow> ('k, 'v) btree_map" where
  "bm_update k f m = (case bm_get m k of None \<Rightarrow> m | Some v \<Rightarrow> bm_insert k (f v) m)"

text \<open>Only evidence of the process makes an attribute of the user.\<close>

definition promote_user_candidate :: "string \<Rightarrow> memory_state \<Rightarrow> memory_state" where
  "promote_user_candidate i s =
     (case bm_get (my_user_candidates s) i of
        None \<Rightarrow> s
      | Some c \<Rightarrow>
          if uc_evidence_priority c \<noteq> ProcessEvidence then s
          else s\<lparr>my_attributes := (my_attributes s)((uc_attribute c, uc_scope c) \<mapsto> attribute_of c)\<rparr>)"

definition demote_user_candidate :: "string \<Rightarrow> memory_state \<Rightarrow> memory_state" where
  "demote_user_candidate i s =
     (case bm_get (my_user_candidates s) i of
        None \<Rightarrow> s
      | Some c \<Rightarrow> s\<lparr>my_attributes := (my_attributes s)((uc_attribute c, uc_scope c) := None)\<rparr>)"

definition moved_attributes :: "candidate_state \<Rightarrow> string \<Rightarrow> memory_state \<Rightarrow> memory_state" where
  "moved_attributes to i s =
     (if to = PromotedStep then promote_user_candidate i s
      else if to = DowngradedStep \<or> to = DecayedStep then demote_user_candidate i s else s)"

definition settle_intention :: "intention_outcome \<Rightarrow> event_id \<Rightarrow> intention_record \<Rightarrow> intention_record" where
  "settle_intention oc e r =
     r\<lparr>ir_intention := (ir_intention r)\<lparr>pi_state := intention_state_of oc\<rparr>,
       ir_lease_until := (if intention_state_of oc \<noteq> FiredIntention then None else ir_lease_until r), ir_generation := e\<rparr>"

definition lease_intention :: "timestamp \<Rightarrow> event_id \<Rightarrow> intention_record \<Rightarrow> intention_record" where
  "lease_intention t e r = r\<lparr>ir_lease_until := Some t, ir_generation := e\<rparr>"

subsection \<open>Folding the log\<close>

fun fold_payload :: "event_id \<Rightarrow> schema_version \<Rightarrow> provenance \<Rightarrow> memory_payload \<Rightarrow> memory_state \<Rightarrow> memory_state" where
  "fold_payload e v p (NodeAppended i k content tier conf sc rest recency) s =
     s\<lparr>my_node_events := bm_insert i e (my_node_events s),
       my_nodes := bm_insert i \<lparr>mn_schema_version = v, mn_id = i, mn_kind = node_kind_parse k, mn_content_ref = content,
         mn_tier = tier, mn_confidence = conf, mn_scope = from_event_scope sc, mn_resting_activation = rest,
         mn_recency = recency, mn_provenance = p\<rparr> (my_nodes s)\<rparr>"
| "fold_payload e v p (EdgeAppended i a b k w) s =
     s\<lparr>my_edges := bm_insert i \<lparr>ml_schema_version = v, ml_id = i, ml_from = a, ml_to = b, ml_kind = edge_kind_parse k,
         ml_weight = w, ml_provenance = p\<rparr> (my_edges s)\<rparr>"
| "fold_payload e v p (CandidateMade i target ev conf prov tier update) s =
     s\<lparr>my_capability_updates := (case update of None \<Rightarrow> my_capability_updates s
         | Some u \<Rightarrow> bm_insert i u (my_capability_updates s)),
       my_candidates := bm_insert i \<lparr>cd_update = v, cd_spec = \<lparr>ks_schema_version = v, ks_id = i, ks_target = target,
         ks_evidence_refs = ev, ks_confidence = conf, ks_provenance = prov, ks_target_tier = tier\<rparr>,
         cd_state = CandidateStep, cd_decided_by = None\<rparr> (my_candidates s)\<rparr>"
| "fold_payload e v p (CandidateMoved i to by reason) s =
     moved_attributes to i (s\<lparr>my_candidates := bm_update i (\<lambda>r. r\<lparr>cd_state := to\<rparr>) (my_candidates s)\<rparr>)"
| "fold_payload e v p (UserCandidateMade i attribute val ev conf first latest tier sc conflicts feedback) s =
     s\<lparr>my_user_candidates := bm_insert i \<lparr>uc_schema_version = v, uc_candidate_id = i, uc_attribute = attribute,
         uc_value = val, uc_evidence = ev, uc_confidence = conf, uc_first_observed_at = first, uc_last_updated_at = latest,
         uc_stability = tier, uc_scope = sc, uc_conflicts = conflicts, uc_feedback = feedback, uc_provenance = p,
         uc_evidence_priority = ProcessEvidence\<rparr> (my_user_candidates s)\<rparr>"
| "fold_payload e v p (HistoryImported src) s =
     s\<lparr>my_imported := my_imported s @ [\<lparr>ih_schema_version = v, ih_source = src, ih_low_weight = True,
         ih_bootstrap_only = True, ih_provenance = p\<rparr>]\<rparr>"
| "fold_payload e v p (IntentionMade i src trigger schedule) s =
     s\<lparr>my_intentions := bm_insert i \<lparr>ir_intention = \<lparr>pi_schema_version = v, pi_id = i, pi_source = src,
         pi_trigger = trigger_from_storage trigger, pi_state = PendingIntention, pi_seed = seed_from_storage trigger,
         pi_provenance = p, pi_expires_at = expiry_from_storage trigger\<rparr>, ir_schedule = schedule, ir_lease_until = None,
         ir_generation = e\<rparr> (my_intentions s)\<rparr>"
| "fold_payload e v p (MaintenanceApplied deltas) s =
     (case parse_intention_lease deltas of
        None \<Rightarrow> s
      | Some (i, t) \<Rightarrow> s\<lparr>my_intentions := bm_update i (lease_intention t e) (my_intentions s)\<rparr>)"
| "fold_payload e v p (IntentionResolved i oc) s =
     s\<lparr>my_intentions := bm_update i (settle_intention oc e) (my_intentions s)\<rparr>"

definition fold_memory_event :: "memory_event \<Rightarrow> memory_state \<Rightarrow> memory_state" where
  "fold_memory_event e = fold_payload (mv_id e) (mv_schema_version e) (mv_provenance e) (mv_payload e)"

definition fold_memory :: "memory_event list \<Rightarrow> memory_state" where
  "fold_memory es = fold fold_memory_event es memory_empty"

subsection \<open>Instances\<close>

record memory_instance =
  mi_run :: run_id
  mi_name :: string
  mi_sequence :: nat
  mi_candidate_sequence :: nat
  mi_state :: memory_state

definition next_candidate_sequence :: "run_id \<Rightarrow> memory_state \<Rightarrow> nat" where
  "next_candidate_sequence run s =
     (let known = List.map_filter (\<lambda>i. map_option unat
          (Option.bind (strip_prefix (''candidate:'' @ run @ '':'') i) parse_u64)) (bm_keys (my_candidates s)) in
      (case known of [] \<Rightarrow> length (my_candidates s) | k # ks \<Rightarrow> fold max ks k) + 1)"

text \<open>The events of the run are numbered from one, without gaps.\<close>

definition memory_open :: "run_id \<Rightarrow> string \<Rightarrow> memory_event list \<Rightarrow> memory_instance result" where
  "memory_open run nm es =
     (if blank run then fails ''memory aggregate run is empty''
      else Inr \<lparr>mi_run = run, mi_name = nm, mi_sequence = length es + 1,
        mi_candidate_sequence = next_candidate_sequence run (fold_memory es), mi_state = fold_memory es\<rparr>)"

type_synonym 's memory_append = "memory_event \<Rightarrow> 's \<Rightarrow> event_id result \<times> 's"

definition next_event :: "(nat \<Rightarrow> timestamp) \<Rightarrow> provenance \<Rightarrow> memory_payload \<Rightarrow> memory_instance \<Rightarrow> memory_event" where
  "next_event clock p pl m =
     \<lparr>mv_id = ''memory-event:'' @ mi_run m @ '':'' @ mi_name m @ '':'' @ show_nat (mi_sequence m), mv_schema_version = 1,
      mv_payload = pl, mv_provenance = p, mv_ts = clock (mi_sequence m)\<rparr>"

text \<open>\<open>append_payload_once\<close>: the id the store answers with, and whether it is the one that was asked for.\<close>

definition append_once ::
  "'s memory_append \<Rightarrow> (nat \<Rightarrow> timestamp) \<Rightarrow> provenance \<Rightarrow> memory_payload \<Rightarrow> memory_instance \<times> 's
    \<Rightarrow> (event_id \<times> bool) result \<times> memory_instance \<times> 's" where
  "append_once ap clock p pl ms =
     (case ms of (m, st) \<Rightarrow>
        (case ap (next_event clock p pl m) st of
           (r, st') \<Rightarrow> (and_then r (\<lambda>i. Inr (i, i = mv_id (next_event clock p pl m))), m\<lparr>mi_sequence := mi_sequence m + 1\<rparr>, st')))"

text \<open>Append, and when the store took it, change the state.\<close>

definition record_payload ::
  "'s memory_append \<Rightarrow> (nat \<Rightarrow> timestamp) \<Rightarrow> provenance \<Rightarrow> memory_payload \<Rightarrow> (event_id \<Rightarrow> memory_state \<Rightarrow> memory_state)
    \<Rightarrow> memory_instance \<times> 's \<Rightarrow> event_id result \<times> memory_instance \<times> 's" where
  "record_payload ap clock p pl change ms =
     (case append_once ap clock p pl ms of
        (Inl e, ms') \<Rightarrow> (Inl e, ms')
      | (Inr (i, fresh), (m', st')) \<Rightarrow> (Inr i, m'\<lparr>mi_state := change i (mi_state m')\<rparr>, st'))"

definition system_provenance :: provenance where
  "system_provenance = \<lparr>prov_source = source.Internal, prov_actor = System, prov_trust_tier = VerifiedProcess, prov_caused_by = None\<rparr>"

subsection \<open>The graph\<close>

definition add_node ::
  "'s memory_append \<Rightarrow> (nat \<Rightarrow> timestamp) \<Rightarrow> memory_node \<Rightarrow> memory_instance \<times> 's \<Rightarrow> string result \<times> memory_instance \<times> 's" where
  "add_node ap clock n ms =
     (case validate_node n of
        Inl e \<Rightarrow> (Inl e, ms)
      | Inr _ \<Rightarrow>
          (case bm_get (my_nodes (mi_state (fst ms))) (mn_id n) of
             Some known \<Rightarrow> (if known = n then Inr (mn_id n) else fails ''memory node id collision'', ms)
           | None \<Rightarrow>
               apfst (\<lambda>r. and_then r (\<lambda>_. Inr (mn_id n)))
                 (record_payload ap clock (mn_provenance n)
                   (NodeAppended (mn_id n) (node_kind_str (mn_kind n)) (mn_content_ref n) (mn_tier n) (mn_confidence n)
                     (event_scope (mn_scope n)) (mn_resting_activation n) (mn_recency n))
                   (\<lambda>e s. s\<lparr>my_node_events := bm_insert (mn_id n) e (my_node_events s),
                      my_nodes := bm_insert (mn_id n) n (my_nodes s)\<rparr>) ms)))"

definition add_edge ::
  "'s memory_append \<Rightarrow> (nat \<Rightarrow> timestamp) \<Rightarrow> memory_edge \<Rightarrow> memory_instance \<times> 's \<Rightarrow> string result \<times> memory_instance \<times> 's" where
  "add_edge ap clock d ms =
     (case and_then (validate_memory_edge d) (\<lambda>_.
             ensure (bm_contains (my_nodes (mi_state (fst ms))) (ml_from d) \<and> bm_contains (my_nodes (mi_state (fst ms))) (ml_to d))
               ''memory edge references an unknown node'') of
        Inl e \<Rightarrow> (Inl e, ms)
      | Inr _ \<Rightarrow>
          (case bm_get (my_edges (mi_state (fst ms))) (ml_id d) of
             Some known \<Rightarrow> (if known = d then Inr (ml_id d) else fails ''memory edge id collision'', ms)
           | None \<Rightarrow>
               apfst (\<lambda>r. and_then r (\<lambda>_. Inr (ml_id d)))
                 (record_payload ap clock (ml_provenance d)
                   (EdgeAppended (ml_id d) (ml_from d) (ml_to d) (edge_kind_str (ml_kind d)) (ml_weight d))
                   (\<lambda>e s. s\<lparr>my_edges := bm_insert (ml_id d) d (my_edges s)\<rparr>) ms)))"

definition seed_nodes :: "string list \<Rightarrow> activation_shape \<Rightarrow> memory_state \<Rightarrow> memory_state" where
  "seed_nodes seeds shape s =
     (let valid = filter (bm_contains (my_nodes s)) seeds in
      s\<lparr>my_seed := (if valid = [] then None else Some (valid, shape))\<rparr>)"

record graph_query =
  gq_schema_version :: schema_version
  gq_scope :: "memory_scope option"
  gq_kind :: "node_kind option"
  gq_content_contains :: "string option"

definition query_nodes :: "graph_query \<Rightarrow> memory_state \<Rightarrow> memory_node list" where
  "query_nodes q s =
     (if gq_schema_version q = 0 then []
      else filter (\<lambda>n. (case gq_scope q of None \<Rightarrow> True | Some sc \<Rightarrow> mn_scope n = sc)
        \<and> (case gq_kind q of None \<Rightarrow> True | Some k \<Rightarrow> mn_kind n = k)
        \<and> (case gq_content_contains q of None \<Rightarrow> True | Some w \<Rightarrow> contains_str w (mn_content_ref n))) (bm_values (my_nodes s)))"

subsection \<open>Candidates\<close>

definition reserve_candidate_id :: "memory_instance \<Rightarrow> string \<times> memory_instance" where
  "reserve_candidate_id m =
     (''candidate:'' @ mi_run m @ '':'' @ show_nat (mi_candidate_sequence m),
      m\<lparr>mi_candidate_sequence := mi_candidate_sequence m + 1\<rparr>)"

definition create_candidate_locked ::
  "'s memory_append \<Rightarrow> (nat \<Rightarrow> timestamp) \<Rightarrow> candidate_spec \<Rightarrow> memory_instance \<times> 's \<Rightarrow> string result \<times> memory_instance \<times> 's" where
  "create_candidate_locked ap clock c ms =
     (case bm_get (my_candidates (mi_state (fst ms))) (ks_id c) of
        Some known \<Rightarrow> (if cd_spec known = c then Inr (ks_id c) else fails ''candidate id collision'', ms)
      | None \<Rightarrow>
          apfst (\<lambda>r. and_then r (\<lambda>_. Inr (ks_id c)))
            (record_payload ap clock (ks_provenance c)
              (CandidateMade (ks_id c) (ks_target c) (ks_evidence_refs c) (ks_confidence c) (ks_provenance c) (ks_target_tier c) None)
              (\<lambda>e s. s\<lparr>my_candidates := bm_insert (ks_id c) \<lparr>cd_update = ks_schema_version c, cd_spec = c,
                 cd_state = CandidateStep, cd_decided_by = None\<rparr> (my_candidates s)\<rparr>) ms))"

definition create_candidate_spec ::
  "'s memory_append \<Rightarrow> (nat \<Rightarrow> timestamp) \<Rightarrow> candidate_spec \<Rightarrow> memory_instance \<times> 's \<Rightarrow> string result \<times> memory_instance \<times> 's" where
  "create_candidate_spec ap clock c ms =
     (case validate_candidate_spec c of Inl e \<Rightarrow> (Inl e, ms) | Inr _ \<Rightarrow> create_candidate_locked ap clock c ms)"

definition create_candidate ::
  "'s memory_append \<Rightarrow> (nat \<Rightarrow> timestamp) \<Rightarrow> schema_version \<Rightarrow> memory_instance \<times> 's \<Rightarrow> string result \<times> memory_instance \<times> 's" where
  "create_candidate ap clock v ms =
     (if v = 0 then (fails ''candidate update is not versioned'', ms)
      else case reserve_candidate_id (fst ms) of
        (i, m) \<Rightarrow> create_candidate_spec ap clock
          \<lparr>ks_schema_version = v, ks_id = i, ks_target = ''candidate:unspecified'', ks_evidence_refs = [], ks_confidence = Some 0,
           ks_provenance = system_provenance, ks_target_tier = Ephemeral\<rparr> (m, snd ms))"

definition user_candidate_spec :: "user_attribute_candidate \<Rightarrow> candidate_spec" where
  "user_candidate_spec c =
     \<lparr>ks_schema_version = uc_schema_version c, ks_id = uc_candidate_id c,
      ks_target = ''user-attribute:'' @ uc_attribute c @ '':'' @ uc_scope c, ks_evidence_refs = uc_evidence c,
      ks_confidence = uc_confidence c, ks_provenance = uc_provenance c, ks_target_tier = uc_stability c\<rparr>"

definition create_user_candidate ::
  "'s memory_append \<Rightarrow> (nat \<Rightarrow> timestamp) \<Rightarrow> user_attribute_candidate \<Rightarrow> memory_instance \<times> 's
    \<Rightarrow> string result \<times> memory_instance \<times> 's" where
  "create_user_candidate ap clock c ms =
     (case validate_user_candidate c of
        Inl e \<Rightarrow> (Inl e, ms)
      | Inr _ \<Rightarrow>
          (case bm_get (my_user_candidates (mi_state (fst ms))) (uc_candidate_id c) of
             Some known \<Rightarrow> (if known = c then Inr (uc_candidate_id c) else fails ''user candidate id collision'', ms)
           | None \<Rightarrow>
               (case record_payload ap clock (uc_provenance c)
                   (UserCandidateMade (uc_candidate_id c) (uc_attribute c) (uc_value c) (uc_evidence c) (uc_confidence c)
                     (uc_first_observed_at c) (uc_last_updated_at c) (uc_stability c) (uc_scope c) (uc_conflicts c) (uc_feedback c))
                   (\<lambda>e s. s\<lparr>my_user_candidates := bm_insert (uc_candidate_id c) c (my_user_candidates s)\<rparr>) ms of
                  (Inl e, ms') \<Rightarrow> (Inl e, ms')
                | (Inr _, ms') \<Rightarrow> create_candidate_locked ap clock (user_candidate_spec c) ms')))"

record topic_candidate =
  tc_schema_version :: schema_version
  tc_id :: string
  tc_topic :: string
  tc_scope :: memory_scope
  tc_summary :: string
  tc_evidence :: "string list"
  tc_confidence :: f32
  tc_provenance :: provenance

definition create_topic_candidate ::
  "'s memory_append \<Rightarrow> (nat \<Rightarrow> timestamp) \<Rightarrow> topic_candidate \<Rightarrow> memory_instance \<times> 's \<Rightarrow> string result \<times> memory_instance \<times> 's" where
  "create_topic_candidate ap clock c ms =
     (if tc_schema_version c = 0 \<or> blank (tc_id c) \<or> blank (tc_topic c) \<or> sc_schema_version (tc_scope c) = 0
         \<or> blank (sc_scope (tc_scope c)) \<or> blank (tc_summary c) \<or> tc_evidence c = [] \<or> \<not> is_finite (tc_confidence c)
      then (fails ''topic memory candidate is incomplete'', ms)
      else create_candidate_spec ap clock
        \<lparr>ks_schema_version = tc_schema_version c, ks_id = tc_id c,
         ks_target = ''topic-summary:'' @ sc_scope (tc_scope c) @ '':'' @ tc_topic c, ks_evidence_refs = tc_evidence c,
         ks_confidence = tc_confidence c, ks_provenance = tc_provenance c, ks_target_tier = Working\<rparr> ms)"

definition import_historical ::
  "'s memory_append \<Rightarrow> (nat \<Rightarrow> timestamp) \<Rightarrow> imported_evidence \<Rightarrow> memory_instance \<times> 's \<Rightarrow> unit result \<times> memory_instance \<times> 's" where
  "import_historical ap clock v ms =
     (if ih_schema_version v = 0 \<or> blank (ih_source v) \<or> \<not> ih_low_weight v \<or> \<not> ih_bootstrap_only v
      then (fails ''historical evidence must be versioned, low-weight, and bootstrap-only'', ms)
      else if \<exists>known\<in>set (my_imported (mi_state (fst ms))). ih_source known = ih_source v then (Inr (), ms)
      else apfst (\<lambda>r. and_then r (\<lambda>_. Inr ()))
        (record_payload ap clock (ih_provenance v) (HistoryImported (ih_source v))
          (\<lambda>e s. s\<lparr>my_imported := my_imported s @ [v]\<rparr>) ms))"

fun candidate_state_debug :: "candidate_state \<Rightarrow> string" where
  "candidate_state_debug CandidateStep = ''Candidate''"
| "candidate_state_debug PromotedStep = ''Promoted''"
| "candidate_state_debug RejectedStep = ''Rejected''"
| "candidate_state_debug DowngradedStep = ''Downgraded''"
| "candidate_state_debug DecayedStep = ''Decayed''"

definition transition_allowed :: "string \<Rightarrow> candidate_state \<Rightarrow> actor \<Rightarrow> memory_state \<Rightarrow> candidate_state result" where
  "transition_allowed i to by s =
     and_then (ok_or (bm_get (my_candidates s) i) ''candidate is not registered'') (\<lambda>r.
     if cd_state r = to then Inr (cd_state r)
     else and_then (ensure (valid_candidate_transition (cd_state r) to) ''candidate transition is not allowed'') (\<lambda>_.
     and_then (ensure (\<not> (to = PromotedStep \<and> by \<noteq> Owner)) ''M0 stable promotion requires an authenticated owner decision'') (\<lambda>_.
     Inr (cd_state r))))"

definition transition_candidate ::
  "'s memory_append \<Rightarrow> (nat \<Rightarrow> timestamp) \<Rightarrow> string \<Rightarrow> candidate_state \<Rightarrow> actor \<Rightarrow> memory_instance \<times> 's
    \<Rightarrow> unit result \<times> memory_instance \<times> 's" where
  "transition_candidate ap clock i to by ms =
     (case transition_allowed i to by (mi_state (fst ms)) of
        Inl e \<Rightarrow> (Inl e, ms)
      | Inr current \<Rightarrow>
          if current = to then (Inr (), ms)
          else apfst (\<lambda>r. and_then r (\<lambda>_. Inr ()))
            (record_payload ap clock system_provenance
              (CandidateMoved i to (if by = Owner then User else Auto)
                (''candidate transition '' @ candidate_state_debug current @ '' -> '' @ candidate_state_debug to))
              (\<lambda>e s. moved_attributes to i
                 (s\<lparr>my_candidates := bm_update i (\<lambda>r. r\<lparr>cd_state := to, cd_decided_by := Some by\<rparr>) (my_candidates s)\<rparr>)) ms))"

record candidate_filter =
  cf_schema_version :: schema_version
  cf_state :: "candidate_state option"
  cf_target_prefix :: "string option"

definition list_candidates :: "candidate_filter \<Rightarrow> memory_state \<Rightarrow> schema_version list" where
  "list_candidates q s =
     (if cf_schema_version q = 0 then []
      else map cd_update (filter (\<lambda>r. (case cf_state q of None \<Rightarrow> True | Some t \<Rightarrow> cd_state r = t)
        \<and> (case cf_target_prefix q of None \<Rightarrow> True | Some w \<Rightarrow> starts_with w (ks_target (cd_spec r))))
        (bm_values (my_candidates s))))"

subsection \<open>Intentions\<close>

definition record_intention ::
  "'s memory_append \<Rightarrow> (nat \<Rightarrow> timestamp) \<Rightarrow> prospective_intention \<Rightarrow> schedule_binding option \<Rightarrow> memory_instance \<times> 's
    \<Rightarrow> string result \<times> memory_instance \<times> 's" where
  "record_intention ap clock i schedule ms =
     apfst (\<lambda>r. and_then r (\<lambda>_. Inr (pi_id i)))
       (record_payload ap clock (pi_provenance i) (IntentionMade (pi_id i) (pi_source i) (intention_storage_ref i) schedule)
         (\<lambda>e s. s\<lparr>my_intentions := bm_insert (pi_id i) \<lparr>ir_intention = i, ir_schedule = schedule, ir_lease_until = None,
            ir_generation = e\<rparr> (my_intentions s)\<rparr>) ms)"

definition create_intention ::
  "'s memory_append \<Rightarrow> (nat \<Rightarrow> timestamp) \<Rightarrow> prospective_intention \<Rightarrow> memory_instance \<times> 's \<Rightarrow> string result \<times> memory_instance \<times> 's" where
  "create_intention ap clock i ms =
     (case validate_intention i of
        Inl e \<Rightarrow> (Inl e, ms)
      | Inr _ \<Rightarrow>
          (case bm_get (my_intentions (mi_state (fst ms))) (pi_id i) of
             Some known \<Rightarrow> (if ir_intention known = i then Inr (pi_id i) else fails ''intention id collision'', ms)
           | None \<Rightarrow> record_intention ap clock i None ms))"

definition create_schedule ::
  "'s memory_append \<Rightarrow> (nat \<Rightarrow> timestamp) \<Rightarrow> schedule_command \<Rightarrow> memory_instance \<times> 's \<Rightarrow> string result \<times> memory_instance \<times> 's" where
  "create_schedule ap clock c ms =
     (case and_then (command_validate c) (\<lambda>_. validate_intention (sd_intention c)) of
        Inl e \<Rightarrow> (Inl e, ms)
      | Inr _ \<Rightarrow>
          (case bm_get (my_intentions (mi_state (fst ms))) (pi_id (sd_intention c)) of
             Some known \<Rightarrow>
               (if same_intention_definition (ir_intention known) (sd_intention c) \<and> ir_schedule known = Some (command_binding c)
                then Inr (pi_id (sd_intention c)) else fails ''intention id collision'', ms)
           | None \<Rightarrow> record_intention ap clock (sd_intention c) (Some (command_binding c)) ms))"

record claimed_intention =
  ci_schema_version :: schema_version
  ci_intention :: prospective_intention
  ci_schedule :: "schedule_binding option"
  ci_lease_until :: timestamp
  ci_claim_event :: event_id

definition lease_over :: "timestamp \<Rightarrow> intention_record \<Rightarrow> bool" where
  "lease_over now r \<longleftrightarrow> (case ir_lease_until r of None \<Rightarrow> True | Some t \<Rightarrow> t \<le> now)"

definition due_now :: "timestamp \<Rightarrow> intention_record \<Rightarrow> bool" where
  "due_now now r \<longleftrightarrow>
     (case pi_state (ir_intention r) of
        PendingIntention \<Rightarrow> (case pi_trigger (ir_intention r) of AtTime t \<Rightarrow> t \<le> now | _ \<Rightarrow> False) \<and> lease_over now r
      | FiredIntention \<Rightarrow> lease_over now r
      | _ \<Rightarrow> False)"

definition set_intention :: "string \<Rightarrow> (intention_record \<Rightarrow> intention_record) \<Rightarrow> memory_state \<Rightarrow> memory_state" where
  "set_intention i f s = s\<lparr>my_intentions := bm_update i f (my_intentions s)\<rparr>"

text \<open>Resolving in the log and, when it took the event, in the state.\<close>

definition settle ::
  "'s memory_append \<Rightarrow> (nat \<Rightarrow> timestamp) \<Rightarrow> string \<Rightarrow> intention_outcome \<Rightarrow> memory_instance \<times> 's
    \<Rightarrow> event_id result \<times> memory_instance \<times> 's" where
  "settle ap clock i oc =
     record_payload ap clock system_provenance (IntentionResolved i oc) (\<lambda>e. set_intention i (settle_intention oc e))"

text \<open>A lease and then the firing; the lease counts only when the store answers with the event that was asked for.\<close>

definition lease_and_fire ::
  "'s memory_append \<Rightarrow> (nat \<Rightarrow> timestamp) \<Rightarrow> timestamp \<Rightarrow> string \<Rightarrow> intention_record \<Rightarrow> memory_instance \<times> 's
    \<Rightarrow> claimed_intention option \<times> memory_instance \<times> 's" where
  "lease_and_fire ap clock until i r ms =
     (case append_once ap clock system_provenance (MaintenanceApplied (intention_lease (ir_generation r) until i)) ms of
        (Inl e, ms1) \<Rightarrow> (None, ms1)
      | (Inr (lease, fresh), (m1, st1)) \<Rightarrow>
          if \<not> fresh then (None, m1, st1)
          else
            (case settle ap clock i FiredOutcome
                (m1\<lparr>mi_state := set_intention i (lease_intention until lease) (mi_state m1)\<rparr>, st1) of
               (Inl e, ms2) \<Rightarrow> (None, ms2)
             | (Inr claim, ms2) \<Rightarrow>
                 (Some \<lparr>ci_schema_version = 1, ci_intention = (ir_intention r)\<lparr>pi_state := FiredIntention\<rparr>,
                    ci_schedule = ir_schedule r, ci_lease_until = until, ci_claim_event = claim\<rparr>, ms2)))"

definition claim_one ::
  "'s memory_append \<Rightarrow> (nat \<Rightarrow> timestamp) \<Rightarrow> timestamp \<Rightarrow> int \<Rightarrow> bool option \<Rightarrow> string \<Rightarrow> memory_instance \<times> 's
    \<Rightarrow> claimed_intention option \<times> memory_instance \<times> 's" where
  "claim_one ap clock now lease_ms scheduled i ms =
     (case bm_get (my_intentions (mi_state (fst ms))) i of
        None \<Rightarrow> (None, ms)
      | Some r \<Rightarrow>
          if (case scheduled of None \<Rightarrow> False | Some wanted \<Rightarrow> wanted \<noteq> (ir_schedule r \<noteq> None)) then (None, ms)
          else if pi_state (ir_intention r) \<in> {DoneIntention, ExpiredIntention, CancelledIntention} then (None, ms)
          else if (case pi_expires_at (ir_intention r) of None \<Rightarrow> False | Some t \<Rightarrow> t \<le> now)
          then (None, snd (settle ap clock i ExpiredOutcome ms))
          else if \<not> due_now now r then (None, ms)
          else lease_and_fire ap clock (timestamp_add now lease_ms) i r ms)"

text \<open>The loop over the known intentions; no limit stands for \<open>usize::MAX\<close>.\<close>

fun claim_loop ::
  "'s memory_append \<Rightarrow> (nat \<Rightarrow> timestamp) \<Rightarrow> timestamp \<Rightarrow> int \<Rightarrow> bool option \<Rightarrow> nat option \<Rightarrow> string list \<Rightarrow> claimed_intention list
    \<Rightarrow> memory_instance \<times> 's \<Rightarrow> claimed_intention list \<times> memory_instance \<times> 's" where
  "claim_loop ap clock now lease_ms scheduled limit [] claimed ms = (claimed, ms)"
| "claim_loop ap clock now lease_ms scheduled limit (i # is) claimed ms =
     (if (case limit of None \<Rightarrow> False | Some n \<Rightarrow> n \<le> length claimed) then (claimed, ms)
      else case claim_one ap clock now lease_ms scheduled i ms of
        (c, ms') \<Rightarrow> claim_loop ap clock now lease_ms scheduled limit is
          (case c of None \<Rightarrow> claimed | Some x \<Rightarrow> claimed @ [x]) ms')"

definition claim_due_matching ::
  "'s memory_append \<Rightarrow> (nat \<Rightarrow> timestamp) \<Rightarrow> timestamp \<Rightarrow> int \<Rightarrow> bool option \<Rightarrow> nat option \<Rightarrow> memory_instance \<times> 's
    \<Rightarrow> claimed_intention list \<times> memory_instance \<times> 's" where
  "claim_due_matching ap clock now lease_ms scheduled limit ms =
     (if lease_ms \<le> 0 \<or> limit = Some 0 then ([], ms)
      else claim_loop ap clock now lease_ms scheduled limit (bm_keys (my_intentions (mi_state (fst ms)))) [] ms)"

definition claim_due ::
  "'s memory_append \<Rightarrow> (nat \<Rightarrow> timestamp) \<Rightarrow> timestamp \<Rightarrow> int \<Rightarrow> memory_instance \<times> 's
    \<Rightarrow> claimed_intention list \<times> memory_instance \<times> 's" where
  "claim_due ap clock now lease_ms = claim_due_matching ap clock now lease_ms None None"

definition claim_due_unscheduled ::
  "'s memory_append \<Rightarrow> (nat \<Rightarrow> timestamp) \<Rightarrow> timestamp \<Rightarrow> int \<Rightarrow> memory_instance \<times> 's
    \<Rightarrow> claimed_intention list \<times> memory_instance \<times> 's" where
  "claim_due_unscheduled ap clock now lease_ms = claim_due_matching ap clock now lease_ms (Some False) None"

definition claim_due_scheduled ::
  "'s memory_append \<Rightarrow> (nat \<Rightarrow> timestamp) \<Rightarrow> timestamp \<Rightarrow> int \<Rightarrow> nat \<Rightarrow> memory_instance \<times> 's
    \<Rightarrow> claimed_intention list \<times> memory_instance \<times> 's" where
  "claim_due_scheduled ap clock now lease_ms n = claim_due_matching ap clock now lease_ms (Some True) (Some n)"

definition resolve_intention ::
  "'s memory_append \<Rightarrow> (nat \<Rightarrow> timestamp) \<Rightarrow> string \<Rightarrow> intention_outcome \<Rightarrow> memory_instance \<times> 's
    \<Rightarrow> unit result \<times> memory_instance \<times> 's" where
  "resolve_intention ap clock i oc ms =
     (case bm_get (my_intentions (mi_state (fst ms))) i of
        None \<Rightarrow> (fails ''intention is not registered'', ms)
      | Some r \<Rightarrow>
          if pi_state (ir_intention r) = intention_state_of oc then (Inr (), ms)
          else if \<not> valid_intention_transition (pi_state (ir_intention r)) (intention_state_of oc)
          then (fails ''intention transition is not allowed'', ms)
          else apfst (\<lambda>r. and_then r (\<lambda>_. Inr ())) (settle ap clock i oc ms))"

record scheduled_record =
  sr_schema_version :: schema_version
  sr_command :: schedule_command
  sr_lease_until :: "timestamp option"

definition schedule_command_of :: "prospective_intention \<Rightarrow> schedule_binding \<Rightarrow> schedule_command" where
  "schedule_command_of i b = \<lparr>sd_schema_version = sb_schema_version b, sd_intention = i, sd_session = sb_session b,
     sd_envelope = sb_envelope b, sd_budget = sb_budget b\<rparr>"

definition list_scheduled :: "memory_state \<Rightarrow> scheduled_record list" where
  "list_scheduled s =
     List.map_filter (\<lambda>r. map_option (\<lambda>b. \<lparr>sr_schema_version = 1, sr_command = schedule_command_of (ir_intention r) b,
       sr_lease_until = ir_lease_until r\<rparr>) (ir_schedule r)) (bm_values (my_intentions s))"

subsection \<open>Reading\<close>

record memory_ref =
  mr_schema_version :: schema_version
  mr_node :: string
  mr_content_ref :: string
  mr_tier :: stability_tier
  mr_scope :: memory_scope
  mr_recency :: timestamp

definition node_ref :: "memory_node \<Rightarrow> memory_ref" where
  "node_ref n = \<lparr>mr_schema_version = 1, mr_node = mn_id n, mr_content_ref = mn_content_ref n, mr_tier = mn_tier n,
     mr_scope = mn_scope n, mr_recency = mn_recency n\<rparr>"

record scoped_query =
  sq_schema_version :: schema_version
  sq_requester :: memory_scope
  sq_target :: memory_scope
  sq_query :: string
  sq_limit :: nat

definition cue_matches :: "memory_scope \<Rightarrow> string \<Rightarrow> memory_node \<Rightarrow> bool" where
  "cue_matches sc q n \<longleftrightarrow> mn_scope n = sc \<and> (q = [] \<or> contains_str q (mn_content_ref n))"

text \<open>\<open>sort_by_key(Reverse(recency))\<close> is stable: the most recent first, equal ones in the order they had.\<close>

definition most_recent_first :: "memory_node list \<Rightarrow> memory_node list" where
  "most_recent_first ns = sort_key (\<lambda>n. - mn_recency n) ns"

definition search_scoped :: "scoped_query \<Rightarrow> memory_state \<Rightarrow> (memory_ref \<times> provenance) list result" where
  "search_scoped q s =
     and_then (ensure (sq_schema_version q \<noteq> 0 \<and> sc_schema_version (sq_requester q) \<noteq> 0 \<and> sc_schema_version (sq_target q) \<noteq> 0
       \<and> sq_limit q \<noteq> 0 \<and> \<not> blank (sc_scope (sq_requester q)) \<and> \<not> blank (sc_scope (sq_target q)))
       ''scoped memory query is incomplete'') (\<lambda>_.
     and_then (ensure (memory_scope_contains (sq_requester q) (sq_target q))
       ''scoped memory query cannot cross its requester boundary'') (\<lambda>_.
     Inr (map (\<lambda>n. (node_ref n, mn_provenance n)) (take (min (sq_limit q) 32)
       (most_recent_first (filter (cue_matches (sq_target q) (sq_query q)) (bm_values (my_nodes s))))))))"

definition recall_nodes :: "schema_version \<Rightarrow> memory_scope \<Rightarrow> string \<Rightarrow> nat \<Rightarrow> memory_state \<Rightarrow> memory_ref list" where
  "recall_nodes v sc q k s =
     (if v = 0 \<or> k = 0 then []
      else map node_ref (take k (most_recent_first (filter (cue_matches sc q) (bm_values (my_nodes s))))))"

definition timeline :: "schema_version \<Rightarrow> memory_scope \<Rightarrow> timestamp \<Rightarrow> timestamp \<Rightarrow> memory_state \<Rightarrow> (memory_node \<times> timestamp) list" where
  "timeline v sc starts ends s =
     (if v = 0 \<or> ends < starts then []
      else map (\<lambda>n. (n, mn_recency n))
        (filter (\<lambda>n. mn_scope n = sc \<and> starts \<le> mn_recency n \<and> mn_recency n \<le> ends) (bm_values (my_nodes s))))"

record scope_summary =
  su_schema_version :: schema_version
  su_scope :: scope
  su_text :: string
  su_source_refs :: "event_id list"
  su_raw_event_count :: nat
  su_is_raw_dump :: bool
  su_provenance :: provenance

definition summarize_scope :: "memory_scope \<Rightarrow> memory_state \<Rightarrow> scope_summary" where
  "summarize_scope sc s =
     (let ns = filter (\<lambda>n. mn_scope n = sc) (bm_values (my_nodes s)) in
      \<lparr>su_schema_version = 1, su_scope = sc_scope sc,
       su_text = show_nat (length ns) @ '' bounded memory records are available in this scope'',
       su_source_refs = List.map_filter (\<lambda>n. bm_get (my_node_events s) (mn_id n)) ns, su_raw_event_count = length ns,
       su_is_raw_dump = False, su_provenance = system_provenance\<rparr>)"

definition user_candidates_in_scope :: "scope \<Rightarrow> memory_state \<Rightarrow> user_attribute_candidate list" where
  "user_candidates_in_scope sc s = filter (\<lambda>c. uc_scope c = sc) (bm_values (my_user_candidates s))"

end
