(* ===== verification/Memory_Rebuild.thy ===== *)
theory Memory_Rebuild
  imports Memory_Core
begin

text \<open>
  The store of memory as an interface, and what its laws give: after any calls, folding the log gives the state of
  the instance, except for what the log does not keep.
\<close>

subsection \<open>The store\<close>

definition event_lease :: "memory_event \<Rightarrow> (string \<times> string) option" where
  "event_lease e = (case mv_payload e of MaintenanceApplied deltas \<Rightarrow> lease_key deltas | _ \<Rightarrow> None)"

text \<open>
  What \<open>append\<close> of the event store promises (\<open>append_spec\<close> of \<open>Event_Log_Refinement\<close>, on the events of one run): an
  event is appended when neither its id nor its lease is known, an event that is known by one of them is answered
  with the id of the known one, and an error changes nothing.
\<close>

definition known_as :: "memory_event \<Rightarrow> memory_event \<Rightarrow> bool" where
  "known_as e old \<longleftrightarrow> mv_id old = mv_id e \<or> event_lease e \<noteq> None \<and> event_lease old = event_lease e"

locale memory_store =
  fixes append :: "'s memory_append" and log_of :: "'s \<Rightarrow> memory_event list"
  assumes append_error: "append e st = (Inl err, st') \<Longrightarrow> log_of st' = log_of st"
    and append_answer: "append e st = (Inr i, st') \<Longrightarrow>
      (i = mv_id e \<and> \<not> list_ex (known_as e) (log_of st) \<and> log_of st' = log_of st @ [e])
      \<or> (log_of st' = log_of st \<and> list_ex (\<lambda>old. mv_id old = i \<and> known_as e old) (log_of st))"

text \<open>The event store restricted to the events of memory: the known event must be the same event or request.\<close>

definition log_append :: "memory_event list memory_append" where
  "log_append e es =
     (case find (\<lambda>old. mv_id old = mv_id e) es of
        Some old \<Rightarrow> (if old = e then Inr (mv_id e) else fails ''event idempotency collision'', es)
      | None \<Rightarrow>
          (case (if event_lease e = None then None else find (\<lambda>old. event_lease old = event_lease e) es) of
             Some old \<Rightarrow>
               (if mv_payload old = mv_payload e \<and> mv_schema_version old = mv_schema_version e \<and> mv_provenance old = mv_provenance e
                then Inr (mv_id old) else fails ''existing request semantics differ'', es)
           | None \<Rightarrow> (Inr (mv_id e), es @ [e])))"

lemma find_SomeD: "find P xs = Some x \<Longrightarrow> x \<in> set xs \<and> P x"
  by (auto simp: find_Some_iff)

lemma find_NoneD: "find P xs = None \<Longrightarrow> \<forall>x\<in>set xs. \<not> P x"
  by (auto simp: find_None_iff)

interpretation list_log: memory_store log_append "\<lambda>es. es"
proof
  fix e err st st'
  show "log_append e st = (Inl err, st') \<Longrightarrow> st' = st"
    by (auto simp: log_append_def split: option.splits if_splits)
next
  fix e i st st'
  assume "log_append e st = (Inr i, st')"
  then show "(i = mv_id e \<and> \<not> list_ex (known_as e) st \<and> st' = st @ [e])
      \<or> (st' = st \<and> list_ex (\<lambda>old. mv_id old = i \<and> known_as e old) st)"
    unfolding log_append_def list_ex_iff known_as_def
    by (cases "event_lease e") (auto split: option.splits if_splits dest!: find_SomeD find_NoneD)
qed

subsection \<open>What the log does not keep\<close>

definition map_values :: "('v \<Rightarrow> 'w) \<Rightarrow> ('k \<times> 'v) list \<Rightarrow> ('k \<times> 'w) list" where
  "map_values f m = map (\<lambda>(k, v). (k, f v)) m"

lemma map_values_insert: "map_values f (bm_insert k v m) = bm_insert k (f v) (map_values f m)"
  by (induction m) (auto simp: map_values_def)

lemma map_values_get: "bm_get (map_values f m) k = map_option f (bm_get m k)"
  by (induction m) (auto simp: map_values_def)

lemma map_values_update: "(\<And>v. f (g v) = h (f v)) \<Longrightarrow> map_values f (bm_update k g m) = bm_update k h (map_values f m)"
  by (auto simp: bm_update_def map_values_get map_values_insert split: option.splits)

definition undecided :: "candidate_record \<Rightarrow> candidate_record" where
  "undecided r = r\<lparr>cd_decided_by := None\<rparr>"

text \<open>Who decided on a candidate and the seeds of the activation are not in the log.\<close>

definition forget :: "memory_state \<Rightarrow> memory_state" where
  "forget s = s\<lparr>my_candidates := map_values undecided (my_candidates s), my_seed := None\<rparr>"

lemma forget_fields [simp]:
  "my_nodes (forget s) = my_nodes s" "my_node_events (forget s) = my_node_events s" "my_edges (forget s) = my_edges s"
  "my_candidates (forget s) = map_values undecided (my_candidates s)" "my_intentions (forget s) = my_intentions s"
  "my_user_candidates (forget s) = my_user_candidates s" "my_attributes (forget s) = my_attributes s"
  "my_imported (forget s) = my_imported s" "my_capability_updates (forget s) = my_capability_updates s"
  "my_seed (forget s) = None"
  by (simp_all add: forget_def)

definition id_of :: "run_id \<Rightarrow> string \<Rightarrow> nat \<Rightarrow> event_id" where
  "id_of run nm k = ''memory-event:'' @ run @ '':'' @ nm @ '':'' @ show_nat k"

lemma id_of_inj [simp]: "id_of run nm j = id_of run nm k \<longleftrightarrow> j = k"
  by (simp add: id_of_def show_nat_inj)

lemma next_event_fields [simp]:
  "mv_id (next_event clock p pl m) = id_of (mi_run m) (mi_name m) (mi_sequence m)"
  "mv_schema_version (next_event clock p pl m) = 1" "mv_payload (next_event clock p pl m) = pl"
  "mv_provenance (next_event clock p pl m) = p"
  by (simp_all add: next_event_def id_of_def)

text \<open>The ids the instance will ask for are not in the log.\<close>

definition ids_ahead :: "memory_instance \<Rightarrow> memory_event list \<Rightarrow> bool" where
  "ids_ahead m es \<longleftrightarrow> (\<forall>e\<in>set es. \<forall>k\<ge>mi_sequence m. mv_id e \<noteq> id_of (mi_run m) (mi_name m) k)"

definition rebuilt :: "memory_instance \<Rightarrow> memory_event list \<Rightarrow> bool" where
  "rebuilt m es \<longleftrightarrow> ids_ahead m es \<and> fold_memory es = forget (mi_state m)"

lemma fold_memory_snoc: "fold_memory (es @ [e]) = fold_memory_event e (fold_memory es)"
  by (simp add: fold_memory_def)

lemma ids_ahead_later: "ids_ahead m es \<Longrightarrow> ids_ahead (m\<lparr>mi_sequence := Suc (mi_sequence m)\<rparr>) es"
  by (simp add: ids_ahead_def)

lemma ids_ahead_snoc:
  "ids_ahead m es \<Longrightarrow> ids_ahead (m\<lparr>mi_sequence := Suc (mi_sequence m)\<rparr>) (es @ [next_event clock p pl m])"
  by (auto simp: ids_ahead_def)

lemma ids_ahead_state [simp]: "ids_ahead (m\<lparr>mi_state := s\<rparr>) es = ids_ahead m es"
  by (simp add: ids_ahead_def)

lemma ids_ahead_candidate [simp]: "ids_ahead (m\<lparr>mi_candidate_sequence := k\<rparr>) es = ids_ahead m es"
  by (simp add: ids_ahead_def)

context memory_store
begin

lemma append_once_cases:
  assumes "append_once append clock p pl (m, st) = (r, m', st')" and "ids_ahead m (log_of st)"
  obtains (refused) e where "r = Inl e" "log_of st' = log_of st" "m' = m\<lparr>mi_sequence := mi_sequence m + 1\<rparr>"
  | (appended) "r = Inr (mv_id (next_event clock p pl m), True)" "log_of st' = log_of st @ [next_event clock p pl m]"
      "m' = m\<lparr>mi_sequence := mi_sequence m + 1\<rparr>" "\<not> list_ex (known_as (next_event clock p pl m)) (log_of st)"
  | (known) i where "r = Inr (i, False)" "log_of st' = log_of st" "m' = m\<lparr>mi_sequence := mi_sequence m + 1\<rparr>"
      "event_lease (next_event clock p pl m) \<noteq> None"
proof -
  obtain q st2 where ap: "append (next_event clock p pl m) st = (q, st2)" by fastforce
  then have eq: "r = and_then q (\<lambda>i. Inr (i, i = mv_id (next_event clock p pl m)))" "m' = m\<lparr>mi_sequence := mi_sequence m + 1\<rparr>"
      "st' = st2"
    using assms(1) by (simp_all add: append_once_def)
  show thesis
  proof (cases q)
    case (Inl e)
    then show thesis using refused eq append_error ap by auto
  next
    case (Inr i)
    have new: "mv_id old \<noteq> mv_id (next_event clock p pl m)" if "old \<in> set (log_of st)" for old
      using assms(2) that by (auto simp: ids_ahead_def)
    from append_answer [OF ap [unfolded Inr]] show thesis
    proof
      assume "i = mv_id (next_event clock p pl m) \<and> \<not> list_ex (known_as (next_event clock p pl m)) (log_of st)
          \<and> log_of st2 = log_of st @ [next_event clock p pl m]"
      then show thesis using appended eq Inr by simp
    next
      assume old: "log_of st2 = log_of st
          \<and> list_ex (\<lambda>old. mv_id old = i \<and> known_as (next_event clock p pl m) old) (log_of st)"
      then obtain x where "x \<in> set (log_of st)" "mv_id x = i" "known_as (next_event clock p pl m) x"
        by (auto simp: list_ex_iff)
      then show thesis using known [of i] eq Inr new [of x] old by (auto simp: known_as_def)
    qed
  qed
qed

lemma record_payload_rebuilt:
  assumes "rebuilt m (log_of st)" and "event_lease (next_event clock p pl m) = None"
    and "forget (change (id_of (mi_run m) (mi_name m) (mi_sequence m)) (mi_state m))
      = fold_payload (id_of (mi_run m) (mi_name m) (mi_sequence m)) 1 p pl (forget (mi_state m))"
    and "record_payload append clock p pl change (m, st) = (r, m', st')"
  shows "rebuilt m' (log_of st')"
proof -
  obtain q m1 st1 where once: "append_once append clock p pl (m, st) = (q, m1, st1)" by (metis prod_cases3)
  have ahead: "ids_ahead m (log_of st)" using assms(1) by (simp add: rebuilt_def)
  from once ahead show ?thesis
  proof (cases rule: append_once_cases)
    case (refused e)
    then show ?thesis using assms(1,4) once by (auto simp: record_payload_def rebuilt_def ids_ahead_later)
  next
    case appended
    then have "m' = m1\<lparr>mi_state := change (id_of (mi_run m) (mi_name m) (mi_sequence m)) (mi_state m)\<rparr>" "st' = st1"
      using assms(4) once by (simp_all add: record_payload_def)
    then show ?thesis using appended assms(1,3) ids_ahead_snoc [OF ahead]
      by (simp add: rebuilt_def fold_memory_snoc fold_memory_event_def)
  next
    case (known i)
    then show ?thesis using assms(2) by simp
  qed
qed

end

subsection \<open>Calls\<close>

datatype memory_call =
    AddNodeCall memory_node
  | AddEdgeCall memory_edge
  | SeedCall "string list" activation_shape
  | CandidateCall candidate_spec
  | NewCandidateCall schema_version
  | UserCandidateCall user_attribute_candidate
  | TopicCall topic_candidate
  | ImportCall imported_evidence
  | TransitionCall string candidate_state actor
  | IntentionCall prospective_intention
  | ScheduleCall schedule_command
  | ClaimCall timestamp int "bool option" "nat option"
  | ResolveCall string intention_outcome

fun after_memory_call ::
  "'s memory_append \<Rightarrow> (nat \<Rightarrow> timestamp) \<Rightarrow> memory_call \<Rightarrow> memory_instance \<times> 's \<Rightarrow> memory_instance \<times> 's" where
  "after_memory_call ap clock (AddNodeCall n) ms = snd (add_node ap clock n ms)"
| "after_memory_call ap clock (AddEdgeCall d) ms = snd (add_edge ap clock d ms)"
| "after_memory_call ap clock (SeedCall seeds shape) ms = (fst ms\<lparr>mi_state := seed_nodes seeds shape (mi_state (fst ms))\<rparr>, snd ms)"
| "after_memory_call ap clock (CandidateCall c) ms = snd (create_candidate_spec ap clock c ms)"
| "after_memory_call ap clock (NewCandidateCall v) ms = snd (create_candidate ap clock v ms)"
| "after_memory_call ap clock (UserCandidateCall c) ms = snd (create_user_candidate ap clock c ms)"
| "after_memory_call ap clock (TopicCall c) ms = snd (create_topic_candidate ap clock c ms)"
| "after_memory_call ap clock (ImportCall v) ms = snd (import_historical ap clock v ms)"
| "after_memory_call ap clock (TransitionCall i to by) ms = snd (transition_candidate ap clock i to by ms)"
| "after_memory_call ap clock (IntentionCall i) ms = snd (create_intention ap clock i ms)"
| "after_memory_call ap clock (ScheduleCall c) ms = snd (create_schedule ap clock c ms)"
| "after_memory_call ap clock (ClaimCall now lease_ms scheduled limit) ms = snd (claim_due_matching ap clock now lease_ms scheduled limit ms)"
| "after_memory_call ap clock (ResolveCall i oc) ms = snd (resolve_intention ap clock i oc ms)"

primrec after_memory_calls ::
  "'s memory_append \<Rightarrow> (nat \<Rightarrow> timestamp) \<Rightarrow> memory_call list \<Rightarrow> memory_instance \<times> 's \<Rightarrow> memory_instance \<times> 's" where
  "after_memory_calls ap clock [] ms = ms"
| "after_memory_calls ap clock (c # cs) ms = after_memory_calls ap clock cs (after_memory_call ap clock c ms)"

text \<open>The arguments that the log can hold: of the first schema version, with a workspace that is not the empty string,
  conditions without the separator, and user candidates from the process.\<close>

definition plain_intention :: "prospective_intention \<Rightarrow> bool" where
  "plain_intention i \<longleftrightarrow> pi_schema_version i = 1 \<and> plain_trigger (pi_trigger i) \<and> pred_option is_timestamp (pi_expires_at i)"

fun plain_call :: "memory_call \<Rightarrow> bool" where
  "plain_call (AddNodeCall n) = (mn_schema_version n = 1 \<and> sc_schema_version (mn_scope n) = 1 \<and> sc_workspace (mn_scope n) \<noteq> Some [])"
| "plain_call (AddEdgeCall d) = (ml_schema_version d = 1)"
| "plain_call (CandidateCall c) = (ks_schema_version c = 1)"
| "plain_call (NewCandidateCall v) = (v = 1)"
| "plain_call (UserCandidateCall c) = (uc_schema_version c = 1 \<and> uc_evidence_priority c = ProcessEvidence)"
| "plain_call (TopicCall c) = (tc_schema_version c = 1)"
| "plain_call (ImportCall v) = (ih_schema_version v = 1)"
| "plain_call (IntentionCall i) = plain_intention i"
| "plain_call (ScheduleCall c) = plain_intention (sd_intention c)"
| "plain_call _ = True"

lemma validate_intention_pending: "validate_intention i = Inr () \<Longrightarrow> pi_state i = PendingIntention"
  by (auto simp: validate_intention_def and_then_Inr_iff)

lemma is_timestamp_add: "is_timestamp (timestamp_add a b)"
  by (simp add: is_timestamp_def timestamp_add_def i64_max_def)

lemma moved_attributes_forget:
  "forget (moved_attributes to i s) = moved_attributes to i (forget s)"
  by (simp add: moved_attributes_def promote_user_candidate_def demote_user_candidate_def forget_def split: option.splits)

lemma set_intention_forget: "forget (set_intention i f s) = set_intention i f (forget s)"
  by (simp add: set_intention_def forget_def)

text \<open>The records that folding makes are those that were recorded.\<close>

lemma node_back:
  assumes "mn_schema_version n = 1" and "sc_schema_version (mn_scope n) = 1" and "sc_workspace (mn_scope n) \<noteq> Some []"
  shows "fold_payload e 1 (mn_provenance n) (NodeAppended (mn_id n) (node_kind_str (mn_kind n)) (mn_content_ref n) (mn_tier n)
      (mn_confidence n) (event_scope (mn_scope n)) (mn_resting_activation n) (mn_recency n)) s
    = s\<lparr>my_node_events := bm_insert (mn_id n) e (my_node_events s), my_nodes := bm_insert (mn_id n) n (my_nodes s)\<rparr>"
  using assms from_event_scope_event_scope [of "mn_scope n"] by (cases n) simp

lemma edge_back:
  assumes "ml_schema_version d = 1"
  shows "fold_payload e 1 (ml_provenance d) (EdgeAppended (ml_id d) (ml_from d) (ml_to d) (edge_kind_str (ml_kind d)) (ml_weight d)) s
    = s\<lparr>my_edges := bm_insert (ml_id d) d (my_edges s)\<rparr>"
  using assms by (cases d) simp

lemma candidate_back:
  assumes "ks_schema_version c = 1"
  shows "fold_payload e 1 p (CandidateMade (ks_id c) (ks_target c) (ks_evidence_refs c) (ks_confidence c) (ks_provenance c)
      (ks_target_tier c) None) s
    = s\<lparr>my_candidates := bm_insert (ks_id c) \<lparr>cd_update = ks_schema_version c, cd_spec = c, cd_state = CandidateStep,
         cd_decided_by = None\<rparr> (my_candidates s)\<rparr>"
  using assms by (cases c) simp

lemma user_candidate_back:
  assumes "uc_schema_version c = 1" and "uc_evidence_priority c = ProcessEvidence"
  shows "fold_payload e 1 (uc_provenance c) (UserCandidateMade (uc_candidate_id c) (uc_attribute c) (uc_value c) (uc_evidence c)
      (uc_confidence c) (uc_first_observed_at c) (uc_last_updated_at c) (uc_stability c) (uc_scope c) (uc_conflicts c)
      (uc_feedback c)) s
    = s\<lparr>my_user_candidates := bm_insert (uc_candidate_id c) c (my_user_candidates s)\<rparr>"
  using assms by (cases c) simp

lemma import_back:
  assumes "ih_schema_version v = 1" and "ih_low_weight v" and "ih_bootstrap_only v"
  shows "fold_payload e 1 (ih_provenance v) (HistoryImported (ih_source v)) s = s\<lparr>my_imported := my_imported s @ [v]\<rparr>"
  using assms by (cases v) simp

lemma intention_back:
  assumes "plain_intention i" and "pi_state i = PendingIntention"
  shows "fold_payload e 1 (pi_provenance i) (IntentionMade (pi_id i) (pi_source i) (intention_storage_ref i) schedule) s
    = s\<lparr>my_intentions := bm_insert (pi_id i) \<lparr>ir_intention = i, ir_schedule = schedule, ir_lease_until = None,
         ir_generation = e\<rparr> (my_intentions s)\<rparr>"
  using assms storage_back [of i] by (cases i) (simp add: plain_intention_def)

lemma moved_back:
  "fold_payload e v p (CandidateMoved i to by reason) s
    = moved_attributes to i (s\<lparr>my_candidates := bm_update i (\<lambda>r. r\<lparr>cd_state := to\<rparr>) (my_candidates s)\<rparr>)"
  by simp

lemma settled_back: "fold_payload e v p (IntentionResolved i oc) s = set_intention i (settle_intention oc e) s"
  by (simp add: set_intention_def)

lemma leased_back:
  assumes "is_timestamp t"
  shows "fold_payload e v p (MaintenanceApplied (intention_lease g t i)) s = set_intention i (lease_intention t e) s"
  using parse_intention_lease_back [OF assms, of g i] by (simp add: set_intention_def)

declare fold_payload.simps [simp del]

lemma forget_updates:
  "forget (s\<lparr>my_nodes := a\<rparr>) = forget s\<lparr>my_nodes := a\<rparr>" "forget (s\<lparr>my_node_events := b\<rparr>) = forget s\<lparr>my_node_events := b\<rparr>"
  "forget (s\<lparr>my_edges := c\<rparr>) = forget s\<lparr>my_edges := c\<rparr>" "forget (s\<lparr>my_intentions := d\<rparr>) = forget s\<lparr>my_intentions := d\<rparr>"
  "forget (s\<lparr>my_user_candidates := u\<rparr>) = forget s\<lparr>my_user_candidates := u\<rparr>"
  "forget (s\<lparr>my_imported := v\<rparr>) = forget s\<lparr>my_imported := v\<rparr>" "forget (s\<lparr>my_seed := w\<rparr>) = forget s"
  "forget (s\<lparr>my_candidates := x\<rparr>) = forget s\<lparr>my_candidates := map_values undecided x\<rparr>"
  by (simp_all add: forget_def)

lemma undecided_new [simp]: "undecided \<lparr>cd_update = v, cd_spec = c, cd_state = t, cd_decided_by = None\<rparr>
    = \<lparr>cd_update = v, cd_spec = c, cd_state = t, cd_decided_by = None\<rparr>"
  by (simp add: undecided_def)

lemma seed_forget: "forget (seed_nodes seeds shape s) = forget s"
  by (simp add: seed_nodes_def Let_def forget_updates)

context memory_store
begin

lemma recorded_rebuilt:
  assumes "rebuilt (fst ms) (log_of (snd ms))" and "\<And>m. event_lease (next_event clock p pl m) = None"
    and "\<And>e. forget (change e (mi_state (fst ms))) = fold_payload e 1 p pl (forget (mi_state (fst ms)))"
  shows "rebuilt (fst (snd (record_payload append clock p pl change ms))) (log_of (snd (snd (record_payload append clock p pl change ms))))"
proof -
  obtain r m' st' where eq: "record_payload append clock p pl change (fst ms, snd ms) = (r, m', st')" by (metis prod_cases3)
  show ?thesis using record_payload_rebuilt [OF assms(1,2,3) eq] eq by simp
qed

lemma rebuilt_add_node:
  assumes "rebuilt (fst ms) (log_of (snd ms))" and "plain_call (AddNodeCall n)"
  shows "rebuilt (fst (snd (add_node append clock n ms))) (log_of (snd (snd (add_node append clock n ms))))"
  unfolding add_node_def
  using assms by (auto split: sum.splits option.splits intro!: recorded_rebuilt simp: event_lease_def node_back [unfolded One_nat_def] forget_updates)

lemma rebuilt_add_edge:
  assumes "rebuilt (fst ms) (log_of (snd ms))" and "plain_call (AddEdgeCall d)"
  shows "rebuilt (fst (snd (add_edge append clock d ms))) (log_of (snd (snd (add_edge append clock d ms))))"
  unfolding add_edge_def
  using assms by (auto split: sum.splits option.splits intro!: recorded_rebuilt simp: event_lease_def edge_back [unfolded One_nat_def] forget_updates)

lemma rebuilt_candidate_locked:
  assumes "rebuilt (fst ms) (log_of (snd ms))" and "ks_schema_version c = 1"
  shows "rebuilt (fst (snd (create_candidate_locked append clock c ms))) (log_of (snd (snd (create_candidate_locked append clock c ms))))"
  unfolding create_candidate_locked_def
  using assms by (auto split: sum.splits option.splits intro!: recorded_rebuilt simp: event_lease_def candidate_back [unfolded One_nat_def] forget_updates map_values_insert)

lemma rebuilt_candidate:
  assumes "rebuilt (fst ms) (log_of (snd ms))" and "ks_schema_version c = 1"
  shows "rebuilt (fst (snd (create_candidate_spec append clock c ms))) (log_of (snd (snd (create_candidate_spec append clock c ms))))"
  using assms rebuilt_candidate_locked by (simp add: create_candidate_spec_def split: sum.splits)

lemma rebuilt_import:
  assumes "rebuilt (fst ms) (log_of (snd ms))" and "ih_schema_version v = 1"
  shows "rebuilt (fst (snd (import_historical append clock v ms))) (log_of (snd (snd (import_historical append clock v ms))))"
  unfolding import_historical_def
  using assms by (auto split: sum.splits option.splits intro!: recorded_rebuilt simp: event_lease_def import_back [unfolded One_nat_def] forget_updates)

lemma rebuilt_transition:
  assumes "rebuilt (fst ms) (log_of (snd ms))"
  shows "rebuilt (fst (snd (transition_candidate append clock i to by ms))) (log_of (snd (snd (transition_candidate append clock i to by ms))))"
proof -
  have "map_values undecided (bm_update i (\<lambda>r. r\<lparr>cd_state := to, cd_decided_by := Some by\<rparr>) cs)
      = bm_update i (\<lambda>r. r\<lparr>cd_state := to\<rparr>) (map_values undecided cs)" for cs :: "(string \<times> candidate_record) list"
    by (rule map_values_update) (simp add: undecided_def)
  then show ?thesis
    unfolding transition_candidate_def
    using assms
    by (auto split: sum.splits intro!: recorded_rebuilt simp: event_lease_def moved_attributes_forget forget_updates moved_back)
qed

lemma rebuilt_user_candidate:
  assumes "rebuilt (fst ms) (log_of (snd ms))" and "plain_call (UserCandidateCall c)"
  shows "rebuilt (fst (snd (create_user_candidate append clock c ms))) (log_of (snd (snd (create_user_candidate append clock c ms))))"
proof -
  let ?pl = "UserCandidateMade (uc_candidate_id c) (uc_attribute c) (uc_value c) (uc_evidence c) (uc_confidence c)
      (uc_first_observed_at c) (uc_last_updated_at c) (uc_stability c) (uc_scope c) (uc_conflicts c) (uc_feedback c)"
  let ?step = "record_payload append clock (uc_provenance c) ?pl
      (\<lambda>e s. s\<lparr>my_user_candidates := bm_insert (uc_candidate_id c) c (my_user_candidates s)\<rparr>) ms"
  have "rebuilt (fst (snd ?step)) (log_of (snd (snd ?step)))"
    using assms by (intro recorded_rebuilt)
      (simp_all add: event_lease_def user_candidate_back [unfolded One_nat_def] forget_updates)
  then show ?thesis
    using assms rebuilt_candidate_locked [of "snd ?step" "user_candidate_spec c" clock]
    by (auto simp: create_user_candidate_def user_candidate_spec_def split: sum.splits option.splits prod.splits)
qed

lemma rebuilt_intention_record:
  assumes "rebuilt (fst ms) (log_of (snd ms))" and "plain_intention i \<and> pi_state i = PendingIntention"
  shows "rebuilt (fst (snd (record_intention append clock i schedule ms))) (log_of (snd (snd (record_intention append clock i schedule ms))))"
  unfolding record_intention_def
  using assms by (auto split: sum.splits option.splits intro!: recorded_rebuilt simp: event_lease_def intention_back [unfolded One_nat_def] forget_updates)

lemma rebuilt_intention:
  assumes "rebuilt (fst ms) (log_of (snd ms))" and "plain_intention i"
  shows "rebuilt (fst (snd (create_intention append clock i ms))) (log_of (snd (snd (create_intention append clock i ms))))"
  using assms rebuilt_intention_record validate_intention_pending
  by (auto simp: create_intention_def split: sum.splits option.splits)

lemma rebuilt_schedule:
  assumes "rebuilt (fst ms) (log_of (snd ms))" and "plain_intention (sd_intention c)"
  shows "rebuilt (fst (snd (create_schedule append clock c ms))) (log_of (snd (snd (create_schedule append clock c ms))))"
  using assms rebuilt_intention_record validate_intention_pending
  by (auto simp: create_schedule_def and_then_Inr_iff split: sum.splits option.splits)

lemma rebuilt_settle:
  assumes "rebuilt (fst ms) (log_of (snd ms))"
  shows "rebuilt (fst (snd (settle append clock i oc ms))) (log_of (snd (snd (settle append clock i oc ms))))"
  unfolding settle_def using assms
  by (intro recorded_rebuilt) (simp_all add: event_lease_def set_intention_forget settled_back)

lemma rebuilt_resolve:
  assumes "rebuilt (fst ms) (log_of (snd ms))"
  shows "rebuilt (fst (snd (resolve_intention append clock i oc ms))) (log_of (snd (snd (resolve_intention append clock i oc ms))))"
  using assms rebuilt_settle by (auto simp: resolve_intention_def split: option.splits)

lemma lease_event_rebuilt:
  assumes "rebuilt m (log_of st)" and "is_timestamp t"
    and "append_once append clock p (MaintenanceApplied (intention_lease g t i)) (m, st) = (r, m', st')"
  shows "case r of Inr (e, True) \<Rightarrow> rebuilt (m'\<lparr>mi_state := set_intention i (lease_intention t e) (mi_state m')\<rparr>) (log_of st')
    | _ \<Rightarrow> rebuilt m' (log_of st')"
proof -
  have ahead: "ids_ahead m (log_of st)" using assms(1) by (simp add: rebuilt_def)
  from assms(3) ahead show ?thesis
  proof (cases rule: append_once_cases)
    case (refused e)
    then show ?thesis using assms(1) by (simp add: rebuilt_def ids_ahead_later)
  next
    case appended
    then show ?thesis using assms(1) ids_ahead_snoc [OF ahead]
      by (simp add: rebuilt_def fold_memory_snoc fold_memory_event_def leased_back [OF assms(2)] set_intention_forget)
  next
    case (known i)
    then show ?thesis using assms(1) by (simp add: rebuilt_def ids_ahead_later)
  qed
qed

lemma rebuilt_lease_and_fire:
  assumes "rebuilt (fst ms) (log_of (snd ms))" and "is_timestamp t"
  shows "rebuilt (fst (snd (lease_and_fire append clock t i r ms))) (log_of (snd (snd (lease_and_fire append clock t i r ms))))"
proof -
  obtain q m1 st1 where once: "append_once append clock system_provenance
      (MaintenanceApplied (intention_lease (ir_generation r) t i)) (fst ms, snd ms) = (q, m1, st1)"
    by (metis prod_cases3)
  note leased = lease_event_rebuilt [OF assms once]
  have fired: "rebuilt (fst (snd (settle append clock i FiredOutcome (m, st1)))) (log_of (snd (snd (settle append clock i FiredOutcome (m, st1)))))"
    if "rebuilt m (log_of st1)" for m
    using rebuilt_settle [of "(m, st1)"] that by simp
  have fired': "rebuilt m2 (log_of st2)"
    if "rebuilt m (log_of st1)" "settle append clock i FiredOutcome (m, st1) = (x, m2, st2)" for m x m2 st2
    using fired [OF that(1)] that(2) by simp
  show ?thesis
    using leased once by (auto dest: fired' simp: lease_and_fire_def split: sum.splits prod.splits if_splits bool.splits)
qed

lemma rebuilt_claim_one:
  assumes "rebuilt (fst ms) (log_of (snd ms))"
  shows "rebuilt (fst (snd (claim_one append clock now lease_ms scheduled i ms)))
    (log_of (snd (snd (claim_one append clock now lease_ms scheduled i ms))))"
proof (cases "bm_get (my_intentions (mi_state (fst ms))) i")
  case None
  then show ?thesis using assms by (simp add: claim_one_def)
next
  case (Some r)
  then show ?thesis
    using assms rebuilt_settle [OF assms] rebuilt_lease_and_fire [OF assms is_timestamp_add]
    by (simp add: claim_one_def)
qed

lemma rebuilt_claim_loop:
  assumes "rebuilt (fst ms) (log_of (snd ms))"
  shows "rebuilt (fst (snd (claim_loop append clock now lease_ms scheduled limit is claimed ms)))
    (log_of (snd (snd (claim_loop append clock now lease_ms scheduled limit is claimed ms))))"
  using assms
proof (induction "is" arbitrary: claimed ms)
  case (Cons i js)
  obtain c ms' where one: "claim_one append clock now lease_ms scheduled i ms = (c, ms')" by (metis surj_pair)
  have "rebuilt (fst ms') (log_of (snd ms'))"
    using rebuilt_claim_one [OF Cons.prems, of clock now lease_ms scheduled i] one by simp
  then show ?case using Cons one by simp
qed simp

lemma rebuilt_claim:
  assumes "rebuilt (fst ms) (log_of (snd ms))"
  shows "rebuilt (fst (snd (claim_due_matching append clock now lease_ms scheduled limit ms)))
    (log_of (snd (snd (claim_due_matching append clock now lease_ms scheduled limit ms))))"
  using assms rebuilt_claim_loop by (simp add: claim_due_matching_def)

lemma rebuilt_new_candidate:
  assumes "rebuilt (fst ms) (log_of (snd ms))" and "v = 1"
  shows "rebuilt (fst (snd (create_candidate append clock v ms))) (log_of (snd (snd (create_candidate append clock v ms))))"
proof -
  obtain i m where res: "reserve_candidate_id (fst ms) = (i, m)" by fastforce
  then have "rebuilt m (log_of (snd ms))" using assms(1) by (auto simp: reserve_candidate_id_def rebuilt_def)
  then show ?thesis using assms(1,2) res by (simp add: create_candidate_def rebuilt_candidate)
qed

lemma rebuilt_topic:
  assumes "rebuilt (fst ms) (log_of (snd ms))" and "tc_schema_version c = 1"
  shows "rebuilt (fst (snd (create_topic_candidate append clock c ms))) (log_of (snd (snd (create_topic_candidate append clock c ms))))"
  using assms by (simp add: create_topic_candidate_def rebuilt_candidate)

lemma rebuilt_call:
  assumes "rebuilt (fst ms) (log_of (snd ms))" and "plain_call c"
  shows "rebuilt (fst (after_memory_call append clock c ms)) (log_of (snd (after_memory_call append clock c ms)))"
proof (cases c)
  case (SeedCall seeds shape)
  then show ?thesis using assms by (simp add: rebuilt_def seed_forget)
qed (use assms in \<open>simp_all add: rebuilt_add_node rebuilt_add_edge rebuilt_candidate rebuilt_new_candidate rebuilt_user_candidate
    rebuilt_topic rebuilt_import rebuilt_transition rebuilt_intention rebuilt_schedule rebuilt_claim rebuilt_resolve\<close>)

lemma rebuilt_calls:
  assumes "rebuilt (fst ms) (log_of (snd ms))" and "list_all plain_call cs"
  shows "rebuilt (fst (after_memory_calls append clock cs ms)) (log_of (snd (after_memory_calls append clock cs ms)))"
  using assms by (induction cs arbitrary: ms) (simp_all add: rebuilt_call)

end

lemma undecided_step: "map_values undecided (bm_update i (\<lambda>r. r\<lparr>cd_state := to\<rparr>) m)
    = bm_update i (\<lambda>r. r\<lparr>cd_state := to\<rparr>) (map_values undecided m)"
  by (rule map_values_update) (simp add: undecided_def)

lemma forget_update_bytes: "forget (s\<lparr>my_capability_updates := b\<rparr>) = forget s\<lparr>my_capability_updates := b\<rparr>"
  by (simp add: forget_def)

lemma fold_payload_forgotten:
  assumes "forget s = s"
  shows "forget (fold_payload e v p pl s) = fold_payload e v p pl s"
proof -
  have known: "map_values undecided (my_candidates s) = my_candidates s"
    by (metis assms forget_fields(4))
  show ?thesis
    by (cases pl) (auto simp: fold_payload.simps moved_attributes_forget forget_updates forget_update_bytes map_values_insert
      undecided_step assms known split: option.splits)
qed

lemma fold_memory_forgotten: "forget (fold_memory es) = fold_memory es"
proof (induction es rule: rev_induct)
  case Nil
  show ?case by (simp add: fold_memory_def memory_empty_def forget_def map_values_def bm_empty_def)
next
  case (snoc e es)
  then show ?case by (simp add: fold_memory_snoc fold_memory_event_def fold_payload_forgotten)
qed

lemma memory_open_Inr: "memory_open run nm es = Inr m \<Longrightarrow> mi_state m = fold_memory es"
  by (auto simp: memory_open_def split: if_splits)

end
