(* ===== verification/Memory_Guarantees.thy ===== *)
theory Memory_Guarantees
  imports Memory_Rebuild
begin

text \<open>
  What memory promises: opening it again gives the state it had, an attribute of the user rests on a promotion by
  the owner, and an intention is claimed once per generation, also by several instances over one store.
\<close>

subsection \<open>Opening again\<close>


subsection \<open>Attributes of the user\<close>

definition owner_promoted :: "memory_state \<Rightarrow> string \<times> scope \<Rightarrow> user_model_attribute \<Rightarrow> bool" where
  "owner_promoted s k a \<longleftrightarrow>
     (\<exists>c r. bm_get (my_user_candidates s) (uc_candidate_id c) = Some c \<and> uc_evidence_priority c = ProcessEvidence
       \<and> k = (uc_attribute c, uc_scope c) \<and> a = attribute_of c
       \<and> bm_get (my_candidates s) (uc_candidate_id c) = Some r \<and> cd_state r = PromotedStep \<and> cd_decided_by r = Some Owner)"

definition attributes_backed :: "memory_state \<Rightarrow> bool" where
  "attributes_backed s \<longleftrightarrow>
     (\<forall>i c. bm_get (my_user_candidates s) i = Some c \<longrightarrow> uc_candidate_id c = i)
     \<and> (\<forall>k a. my_attributes s k = Some a \<longrightarrow> owner_promoted s k a)"

lemma attributes_backed_cong:
  assumes "my_user_candidates s = my_user_candidates t" "my_attributes s = my_attributes t" "my_candidates s = my_candidates t"
  shows "attributes_backed s = attributes_backed t"
  using assms by (simp add: attributes_backed_def owner_promoted_def)

lemma owner_promoted_mono:
  assumes "owner_promoted s k a"
    and "\<And>i c. bm_get (my_user_candidates s) i = Some c \<Longrightarrow> bm_get (my_user_candidates t) i = Some c"
    and "\<And>i r. bm_get (my_candidates s) i = Some r \<Longrightarrow> bm_get (my_candidates t) i = Some r"
  shows "owner_promoted t k a"
  using assms unfolding owner_promoted_def by blast

lemma backed_new_user_candidate:
  assumes "attributes_backed s" and "bm_get (my_user_candidates s) (uc_candidate_id c) = None"
  shows "attributes_backed (s\<lparr>my_user_candidates := bm_insert (uc_candidate_id c) c (my_user_candidates s)\<rparr>)" (is "attributes_backed ?t")
proof -
  have "owner_promoted ?t k a" if "owner_promoted s k a" for k a
    using that by (rule owner_promoted_mono) (use assms(2) in auto)
  then show ?thesis using assms(1) by (simp add: attributes_backed_def)
qed

lemma backed_new_candidate:
  assumes "attributes_backed s" and "bm_get (my_candidates s) i = None"
  shows "attributes_backed (s\<lparr>my_candidates := bm_insert i r (my_candidates s)\<rparr>)" (is "attributes_backed ?t")
proof -
  have "owner_promoted ?t k a" if "owner_promoted s k a" for k a
    using that by (rule owner_promoted_mono) (use assms(2) in auto)
  then show ?thesis using assms(1) by (simp add: attributes_backed_def)
qed

lemma bm_get_update: "bm_get (bm_update i f m) k = (if k = i then map_option f (bm_get m i) else bm_get m k)"
  by (simp add: bm_update_def split: option.splits)

lemma transition_allowed_Inr:
  assumes "transition_allowed i to by s = Inr cur" and "cur \<noteq> to"
  obtains r where "bm_get (my_candidates s) i = Some r" "cd_state r = cur" "valid_candidate_transition cur to"
    "to = PromotedStep \<longrightarrow> by = Owner"
  using assms by (auto simp: transition_allowed_def and_then_Inr_iff ok_or_def split: option.splits if_splits)

lemma from_promoted: "valid_candidate_transition PromotedStep to \<longleftrightarrow> to = DowngradedStep"
  by simp

lemma backed_transition:
  assumes "attributes_backed s" and "transition_allowed i to by s = Inr cur" and "cur \<noteq> to"
  shows "attributes_backed (moved_attributes to i
    (s\<lparr>my_candidates := bm_update i (\<lambda>r. r\<lparr>cd_state := to, cd_decided_by := Some by\<rparr>) (my_candidates s)\<rparr>))"
    (is "attributes_backed (moved_attributes to i ?t)")
proof -
  obtain r where r: "bm_get (my_candidates s) i = Some r" "valid_candidate_transition (cd_state r) to"
      "to = PromotedStep \<longrightarrow> by = Owner"
    using transition_allowed_Inr [OF assms(2,3)] by metis
  have ids: "uc_candidate_id c = j" if "bm_get (my_user_candidates s) j = Some c" for j c
    using assms(1) that by (simp add: attributes_backed_def)
  have old: "owner_promoted ?t k a \<or> to = DowngradedStep \<and>
      (\<exists>c. bm_get (my_user_candidates s) i = Some c \<and> k = (uc_attribute c, uc_scope c))"
    if at: "my_attributes s k = Some a" for k a
  proof -
    obtain c q where c: "bm_get (my_user_candidates s) (uc_candidate_id c) = Some c" "uc_evidence_priority c = ProcessEvidence"
        "k = (uc_attribute c, uc_scope c)" "a = attribute_of c"
        "bm_get (my_candidates s) (uc_candidate_id c) = Some q" "cd_state q = PromotedStep" "cd_decided_by q = Some Owner"
      using assms(1) at unfolding attributes_backed_def owner_promoted_def by blast
    show ?thesis
    proof (cases "uc_candidate_id c = i")
      case True
      then show ?thesis using c r by auto
    next
      case False
      then have "owner_promoted ?t k a" using c unfolding owner_promoted_def by (auto simp: bm_get_update)
      then show ?thesis ..
    qed
  qed
  have new: "owner_promoted ?t (uc_attribute c, uc_scope c) (attribute_of c)"
    if "to = PromotedStep" "bm_get (my_user_candidates s) i = Some c" "uc_evidence_priority c = ProcessEvidence" for c
    using that r ids [OF that(2)] unfolding owner_promoted_def by (intro exI [of _ c]) (auto simp: bm_get_update)
  have same: "owner_promoted (t\<lparr>my_attributes := m\<rparr>) = owner_promoted t" for t m
    by (simp add: owner_promoted_def fun_eq_iff)
  show ?thesis
    using new ids unfolding attributes_backed_def moved_attributes_def promote_user_candidate_def demote_user_candidate_def
    by (auto simp: same dest: old split: option.splits if_splits)
qed

lemma recorded_keeps:
  assumes "P (mi_state (fst ms))" and "\<And>e. P (change e (mi_state (fst ms)))"
  shows "P (mi_state (fst (snd (record_payload ap clock p pl change ms))))"
  using assms by (cases ms) (auto simp: record_payload_def append_once_def split: sum.splits prod.splits)

lemma backed_recorded:
  assumes "attributes_backed (mi_state (fst ms))" and "\<And>e. attributes_backed (change e (mi_state (fst ms)))"
  shows "attributes_backed (mi_state (fst (snd (record_payload ap clock p pl change ms))))"
  using assms by (rule recorded_keeps [where P = attributes_backed])

text \<open>What leaves candidates and attributes alone.\<close>

definition same_user_model :: "memory_state \<Rightarrow> memory_state \<Rightarrow> bool" where
  "same_user_model s t \<longleftrightarrow> my_user_candidates s = my_user_candidates t \<and> my_attributes s = my_attributes t
     \<and> my_candidates s = my_candidates t"

lemma same_user_model_refl [simp]: "same_user_model s s"
  by (simp add: same_user_model_def)

lemma same_user_model_trans: "same_user_model s t \<Longrightarrow> same_user_model t u \<Longrightarrow> same_user_model s u"
  by (simp add: same_user_model_def)

lemma same_recorded:
  assumes "\<And>e s. same_user_model s (change e s)"
  shows "same_user_model (mi_state (fst ms)) (mi_state (fst (snd (record_payload ap clock p pl change ms))))"
  using assms by (intro recorded_keeps [where P = "same_user_model (mi_state (fst ms))"]) simp_all

lemma same_set_intention [simp]: "same_user_model s (set_intention i f s)"
  by (simp add: same_user_model_def set_intention_def)

lemma same_settle: "same_user_model (mi_state (fst ms)) (mi_state (fst (snd (settle ap clock i oc ms))))"
  unfolding settle_def by (rule same_recorded) simp

lemma same_lease_and_fire: "same_user_model (mi_state (fst ms)) (mi_state (fst (snd (lease_and_fire ap clock t i r ms))))"
proof -
  obtain q m1 st1 where once: "append_once ap clock system_provenance
      (MaintenanceApplied (intention_lease (ir_generation r) t i)) ms = (q, m1, st1)"
    by (metis prod_cases3)
  then have "mi_state m1 = mi_state (fst ms)"
    by (cases ms) (auto simp: append_once_def split: prod.splits)
  moreover have "same_user_model (mi_state m1) (mi_state (fst (snd (settle ap clock i FiredOutcome
      (m1\<lparr>mi_state := set_intention i f (mi_state m1)\<rparr>, st1)))))" for f
    using same_settle [of "(m1\<lparr>mi_state := set_intention i f (mi_state m1)\<rparr>, st1)" ap clock i FiredOutcome]
    by (auto intro: same_user_model_trans [rotated])
  ultimately show ?thesis
    using once by (auto simp: lease_and_fire_def split: sum.splits prod.splits) (metis fst_conv snd_conv)+
qed

lemma same_claim_one: "same_user_model (mi_state (fst ms)) (mi_state (fst (snd (claim_one ap clock now lease_ms scheduled i ms))))"
  by (simp add: claim_one_def same_settle same_lease_and_fire split: option.splits)

lemma same_claim_loop:
  "same_user_model (mi_state (fst ms)) (mi_state (fst (snd (claim_loop ap clock now lease_ms scheduled limit is claimed ms))))"
proof (induction "is" arbitrary: claimed ms)
  case (Cons i js)
  obtain c ms' where one: "claim_one ap clock now lease_ms scheduled i ms = (c, ms')" by (metis surj_pair)
  then have "same_user_model (mi_state (fst ms)) (mi_state (fst ms'))"
    using same_claim_one [of ms ap clock now lease_ms scheduled i] by simp
  then show ?case using Cons.IH same_user_model_trans one by auto
qed simp

lemma backed_same: "attributes_backed s \<Longrightarrow> same_user_model s t \<Longrightarrow> attributes_backed t"
  using attributes_backed_cong [of s t] by (simp add: same_user_model_def)

lemma backed_candidate_locked:
  assumes "attributes_backed (mi_state (fst ms))"
  shows "attributes_backed (mi_state (fst (snd (create_candidate_locked ap clock c ms))))"
  using assms unfolding create_candidate_locked_def
  by (auto intro!: backed_recorded backed_new_candidate split: option.splits)

lemma backed_candidate:
  "attributes_backed (mi_state (fst ms)) \<Longrightarrow> attributes_backed (mi_state (fst (snd (create_candidate_spec ap clock c ms))))"
  by (simp add: create_candidate_spec_def backed_candidate_locked split: sum.splits)

lemma backed_user_candidate:
  assumes "attributes_backed (mi_state (fst ms))"
  shows "attributes_backed (mi_state (fst (snd (create_user_candidate ap clock c ms))))"
proof -
  let ?pl = "UserCandidateMade (uc_candidate_id c) (uc_attribute c) (uc_value c) (uc_evidence c) (uc_confidence c)
      (uc_first_observed_at c) (uc_last_updated_at c) (uc_stability c) (uc_scope c) (uc_conflicts c) (uc_feedback c)"
  let ?step = "record_payload ap clock (uc_provenance c) ?pl
      (\<lambda>e s. s\<lparr>my_user_candidates := bm_insert (uc_candidate_id c) c (my_user_candidates s)\<rparr>) ms"
  have "attributes_backed (mi_state (fst (snd ?step)))"
    if "bm_get (my_user_candidates (mi_state (fst ms))) (uc_candidate_id c) = None"
    using assms that by (intro backed_recorded backed_new_user_candidate)
  then show ?thesis
    using assms backed_candidate_locked [of "snd ?step" ap clock "user_candidate_spec c"]
    by (auto simp: create_user_candidate_def split: sum.splits option.splits prod.splits)
qed

lemma backed_moved:
  "attributes_backed (mi_state (fst ms)) \<Longrightarrow> attributes_backed (mi_state (fst (snd (transition_candidate ap clock i to by ms))))"
  unfolding transition_candidate_def by (auto intro!: backed_recorded backed_transition split: sum.splits)

lemma backed_create_candidate:
  assumes "attributes_backed (mi_state (fst ms))"
  shows "attributes_backed (mi_state (fst (snd (create_candidate ap clock v ms))))"
proof -
  obtain i m where res: "reserve_candidate_id (fst ms) = (i, m)" by fastforce
  then have "attributes_backed (mi_state m)" using assms by (auto simp: reserve_candidate_id_def)
  then show ?thesis using assms res by (simp add: create_candidate_def backed_candidate)
qed

lemma same_nodes [simp]:
  "same_user_model s (s\<lparr>my_nodes := a\<rparr>)" "same_user_model s (s\<lparr>my_node_events := b, my_nodes := a\<rparr>)"
  "same_user_model s (s\<lparr>my_edges := d\<rparr>)" "same_user_model s (s\<lparr>my_imported := v\<rparr>)"
  "same_user_model s (s\<lparr>my_intentions := x\<rparr>)" "same_user_model s (s\<lparr>my_seed := y\<rparr>)"
  by (simp_all add: same_user_model_def)

lemma same_add_node: "same_user_model (mi_state (fst ms)) (mi_state (fst (snd (add_node ap clock n ms))))"
  unfolding add_node_def by (auto intro!: same_recorded split: sum.splits option.splits)

lemma same_add_edge: "same_user_model (mi_state (fst ms)) (mi_state (fst (snd (add_edge ap clock d ms))))"
  unfolding add_edge_def by (auto intro!: same_recorded split: sum.splits option.splits)

lemma same_import: "same_user_model (mi_state (fst ms)) (mi_state (fst (snd (import_historical ap clock v ms))))"
  unfolding import_historical_def by (auto intro!: same_recorded)

lemma same_record_intention:
  "same_user_model (mi_state (fst ms)) (mi_state (fst (snd (record_intention ap clock i schedule ms))))"
  unfolding record_intention_def by (auto intro!: same_recorded)

lemma same_seed: "same_user_model s (seed_nodes seeds shape s)"
  by (simp add: seed_nodes_def Let_def)

lemma backed_call:
  assumes "attributes_backed (mi_state (fst ms))"
  shows "attributes_backed (mi_state (fst (after_memory_call ap clock c ms)))"
  using assms
  by (cases c) (simp_all add: backed_candidate backed_user_candidate backed_moved backed_create_candidate
    backed_same [OF assms] same_add_node same_add_edge same_import same_record_intention same_seed same_settle same_claim_loop
    create_topic_candidate_def create_intention_def create_schedule_def claim_due_matching_def resolve_intention_def
    split: sum.splits option.splits)

lemma backed_calls:
  "attributes_backed (mi_state (fst ms)) \<Longrightarrow> attributes_backed (mi_state (fst (after_memory_calls ap clock cs ms)))"
  by (induction cs arbitrary: ms) (simp_all add: backed_call)

text \<open>C7: From an empty memory, along any calls and whatever the store answers, every attribute of the user comes from a
  candidate with evidence of the process whose promotion the owner decided and nobody has taken back.
\<close>

theorem attributes_owner_promoted:
  assumes "mi_state m = memory_empty"
    and "my_attributes (mi_state (fst (after_memory_calls ap clock cs (m, st)))) k = Some a"
  shows "owner_promoted (mi_state (fst (after_memory_calls ap clock cs (m, st)))) k a"
proof -
  have "attributes_backed (mi_state (fst (m, st)))"
    using assms(1) by (simp add: attributes_backed_def memory_empty_def)
  from backed_calls [OF this, of ap clock cs] show ?thesis
    using assms(2) unfolding attributes_backed_def by blast
qed

subsection \<open>One claim per generation\<close>





end
