(* ===== verification/Memory_Witnesses.thy ===== *)
theory Memory_Witnesses
  imports Memory_Guarantees
begin

text \<open>
  Memory at work over the list of its events: the witnesses of its properties, and two runs in which it does not do
  what it should.
\<close>

definition owner_provenance :: provenance where
  "owner_provenance = \<lparr>prov_source = source.Internal, prov_actor = Owner, prov_trust_tier = VerifiedProcess, prov_caused_by = None\<rparr>"

definition reminder :: prospective_intention where
  "reminder = \<lparr>pi_schema_version = 1, pi_id = ''i'', pi_source = Commitment, pi_trigger = AtTime 5, pi_state = PendingIntention,
     pi_seed = ''s'', pi_provenance = owner_provenance, pi_expires_at = None\<rparr>"

definition instance_of :: "string \<Rightarrow> memory_event list \<Rightarrow> memory_instance" where
  "instance_of nm es = (case memory_open ''r'' nm es of Inr m \<Rightarrow> m | Inl _ \<Rightarrow>
     \<lparr>mi_run = [], mi_name = [], mi_sequence = 0, mi_candidate_sequence = 0, mi_state = memory_empty\<rparr>)"

definition clock0 :: "nat \<Rightarrow> timestamp" where
  "clock0 n = 0"

definition reminder_made :: "memory_instance \<times> memory_event list" where
  "reminder_made = after_memory_call log_append clock0 (IntentionCall reminder) (instance_of ''a'' [], [])"

definition reminder_cancelled :: "memory_instance \<times> memory_event list" where
  "reminder_cancelled = snd (resolve_intention log_append clock0 ''i'' CancelledOutcome reminder_made)"

definition late_instance :: memory_instance where
  "late_instance = instance_of ''b'' (snd reminder_made)"

lemma instance_opens: "memory_open ''r'' nm es = Inr (instance_of nm es)"
proof -
  have "\<not> blank ''r''" by code_simp
  then show ?thesis by (simp add: instance_of_def memory_open_def)
qed






definition observed :: "evidence_priority \<Rightarrow> user_attribute_candidate" where
  "observed priority = \<lparr>uc_schema_version = 1, uc_candidate_id = ''c'', uc_attribute = ''tone'', uc_value = ''dry'',
     uc_evidence = [''e''], uc_confidence = Some 1, uc_first_observed_at = 0, uc_last_updated_at = 1, uc_stability = Working,
     uc_scope = ''w'', uc_conflicts = [], uc_feedback = [], uc_provenance = owner_provenance, uc_evidence_priority = priority\<rparr>"

definition promotion_calls :: "evidence_priority \<Rightarrow> memory_call list" where
  "promotion_calls priority = [UserCandidateCall (observed priority), TransitionCall ''c'' PromotedStep Owner]"

definition promoted :: "evidence_priority \<Rightarrow> memory_instance \<times> memory_event list" where
  "promoted priority = after_memory_calls log_append clock0 (promotion_calls priority) (instance_of ''a'' [], [])"

lemma promoted_attribute:
  "my_attributes (mi_state (fst (promoted ProcessEvidence))) (''tone'', ''w'') = Some (attribute_of (observed ProcessEvidence))"
  by code_simp

lemma attributes_owner_promoted_witness:
  "owner_promoted (mi_state (fst (promoted ProcessEvidence))) (''tone'', ''w'') (attribute_of (observed ProcessEvidence))"
proof -
  have "mi_state (instance_of ''a'' []) = memory_empty"
    using instance_opens [of "''a''" "[]"] by (simp add: memory_open_Inr fold_memory_def)
  then show ?thesis
    unfolding promoted_def
    by (rule attributes_owner_promoted) (rule promoted_attribute [unfolded promoted_def])
qed





subsection \<open>What memory does not do\<close>

text \<open>
  Imported evidence does not make an attribute of the user when its candidate is promoted, but the log does not keep
  the priority of the evidence: after opening again, the attribute is there.
\<close>

lemma imported_evidence_becomes_attribute:
  "my_attributes (mi_state (fst (promoted ImportedEvidence))) (''tone'', ''w'') = None
   \<and> my_attributes (mi_state (instance_of ''b'' (snd (promoted ImportedEvidence)))) (''tone'', ''w'')
     = Some (attribute_of (observed ProcessEvidence))"
  by code_simp

text \<open>
  An instance does not read what others append: it fires an intention that another instance cancelled before.
\<close>

lemma cancelled_elsewhere_fires:
  "fst (resolve_intention log_append clock0 ''i'' CancelledOutcome reminder_made) = Inr ()
   \<and> map ci_intention (fst (claim_due log_append clock0 10 100 (late_instance, snd reminder_cancelled)))
     = [reminder\<lparr>pi_state := FiredIntention\<rparr>]"
  by code_simp

text \<open>The condition of a trigger is not escaped: a condition with a separator changes the seed of its intention.\<close>

definition conditional :: prospective_intention where
  "conditional = reminder\<lparr>pi_trigger := OnCondition ''x|seed=y''\<rparr>"

lemma condition_changes_seed:
  "seed_from_storage (intention_storage_ref conditional) = ''y'' \<and> pi_seed conditional = ''s''
   \<and> trigger_from_storage (intention_storage_ref conditional) = OnCondition ''x''"
  by code_simp

end
