(* ===== verification/Spec2Isabelle.thy ===== *)
theory Spec2Isabelle
  imports Approval Capabilities Route_Runtime Event_Log_Witnesses
    Context_Witnesses Loop_Witnesses Strategy_Witnesses
    Executor_Witnesses File_Witnesses Communication_Witnesses Memory_Witnesses
begin

text \<open>
  A model of the kernel of the forme agent runtime (the Rust workspace under src/crates) and the theorems
  that make its parts correct.

  \<^bold>\<open>The program.\<close> The agent proposes actions; the policy engine (crates/policy) decides whether an action
  may run, the approval broker (crates/approval) binds an owner's decision to one exact plan, the capability
  registry (crates/capabilities) says which tools a run may see, the coordination kernel
  (crates/coordination) frames goals, lays out routes of subtasks and runs them under a budget, and the event
  store (crates/store) records what happened as an append-only log from which every other view is derived.
  The loop engine (crates/loop) runs one turn after another: it has a context built from rules, history,
  memory, skills, tools and slices (crates/context), sends it to a model provider (crates/models) and turns
  the reply into a final answer, a tool proposal or a handoff, within the budget of the run; a compactor
  shortens the history from the log when the context grows. Versioned strategies (protocol/src/m3_b.rs)
  narrow the loop, rank the capabilities, pick the nodes of routes and scaffold weaker models. Approved actions
  run on execution backends (crates/execution): a planner binds their digest, a guarded executor dispatches
  remote ones at most once, and the file backend changes files it can restore. Channels to people and devices
  (crates/communication) disclose what a grant allows. Memory (crates/memory) is folded from the log.
  The vocabulary they exchange is crates/protocol.

  \<^bold>\<open>Reading the model.\<close> A struct is a record, an enum a datatype, a newtype of a string the type of strings; a
  string is the list of its UTF-8 bytes, so length and order are those of Rust. Counters that the code adds
  to with a width in mind are words (\<open>u32\<close>, \<open>u64\<close>) or naturals with the bound of the code written out. A
  \<open>Result\<close> is \<open>error + 'a\<close> (\<open>Forme_Prelude\<close>); every early return is a branch, and an operation on a state
  returns the state, unchanged where the code returns early or rolls back. A \<open>BTreeMap\<close> is a sorted
  association list (\<open>Ordered_Map\<close>, which states the interface as a locale and interprets it). Code outside
  the repository is a parameter: URL and IP parsing, SHA-256 over canonical JSON, \<open>serde_json\<close> (a codec, of
  which the store relies on decoding what was encoded), upcasting functions, the full-text engine, clocks.

  \<^bold>\<open>The theories.\<close>
  \<^item> \<open>Forme_Prelude\<close>, \<open>Rust_Strings\<close>, \<open>Ordered_Map\<close>: errors and results, machine integers, trimming and
    splitting, printing of numbers, ordered maps.
  \<^item> \<open>Primitives\<close>: the vocabulary of protocol/src/primitives.rs; \<open>Remote_Plan\<close>: remote operations and
    placements (protocol/src/m4.rs).
  \<^item> \<open>Containment\<close>: \<open>scope_contains\<close> and \<open>path_within\<close> (policy/src/lib.rs); \<open>External_Policy\<close>: the limits of
    browser, computer, PTY and App API actions; \<open>Policy\<close>: layered rules, the execution recheck of every
    backend, delegated envelopes, evaluation and merge.
  \<^item> \<open>Approval\<close>: the broker as a state machine over its calls (approval/src/lib.rs).
  \<^item> \<open>Capabilities\<close>: the registry (capabilities/src/registry.rs).
  \<^item> \<open>Coordination\<close>, \<open>Budget_Ledger\<close>, \<open>Route_Graph\<close>, \<open>Route_Runtime\<close>: goal frames and plans, the seed library,
    reservations, the check of routes with Kahn's algorithm, and the runtime of a route
    (coordination/src/lib.rs).
  \<^item> \<open>Byte_Encoding\<close>, \<open>Event_Kinds\<close>, \<open>Strategy_Facts\<close>, \<open>Events\<close>: length-prefixed encodings and the checksum
    (store/src/checksum.rs), the event kinds, the facts of strategy evolution (protocol/src/m3_a.rs) and the
    events (protocol/src/event.rs).
  \<^item> \<open>Schema_Upcast\<close> (store/src/schema.rs), \<open>Projections\<close> (store/src/projection.rs, replay.rs), \<open>Event_Rows\<close>,
    \<open>Evolution_Catalog\<close>, \<open>Event_Log\<close>, \<open>Event_Replay\<close> (store/src/sqlite.rs, cursor.rs): the tables as a record,
    appending, reading, replaying, rebuilding, searching. \<open>Event_Log_Refinement\<close> says what the tables mean (a
    list of events) and proves that appending refines appending to that list; \<open>Event_Log_Witnesses\<close> has a
    concrete store.
  \<^item> \<open>Context_Build\<close>, \<open>Compaction\<close> (context/src/lib.rs), \<open>Models\<close> (models/src), \<open>Loop_Engine\<close> (loop/src): the
    builder, the compactors over the log (a locale of stores that can read a run, interpreted on the cursor),
    providers (a locale, interpreted on the HTTP and the scripted one), and the loop over any builder and
    provider (a locale, interpreted on the same two). \<open>loop_step\<close> and \<open>governed\<close> are the steps a harness may
    take with a run. \<open>Context_Witnesses\<close> and \<open>Loop_Witnesses\<close> have concrete runs.
  \<^item> \<open>Strategy_Specs\<close> (protocol/src/m3_b.rs), \<open>Coordination_Strategy\<close>, \<open>Selection\<close> (m3_b.rs of coordination and
    capabilities): strategies, their registries (a locale with four interpretations), and their use;
    \<open>Strategy_Witnesses\<close> has concrete ones.
  \<^item> \<open>Execution_Plans\<close> (execution/src/planner.rs, support.rs, sink.rs), \<open>Output_Budget\<close>: plans, the output buffer and
    what an action reports. \<open>Remote_Execution\<close> (remote.rs, remote_ledger.rs): the executor and its two ledgers, the one
    on disk as files that a crash may tear; \<open>Executor_Recovery\<close>: interleaved executions, failing writes and restarts
    as a step relation. \<open>File_Backend\<close> (file.rs, notification.rs, registry.rs): the backends over an interface of the
    file system; \<open>File_Guarantees\<close>: what they may change. \<open>Executor_Witnesses\<close> and \<open>File_Witnesses\<close> have concrete runs.
  \<^item> \<open>Communication\<close> (communication/src/lib.rs): adapters, sessions, disclosure, deliveries and devices;
    \<open>Communication_Limits\<close> and \<open>Communication_Witnesses\<close>: their guarantees along any calls.
  \<^item> \<open>Memory_Records\<close>, \<open>Memory_Core\<close> (memory/src/lib.rs, protocol/src/control.rs): the records of memory, the strings the
    log keeps them in, every operation of an instance and the fold of the log. \<open>Memory_Rebuild\<close> states the store as a
    locale; \<open>Memory_Guarantees\<close> and \<open>Memory_Witnesses\<close> say what survives opening again and what does not.

  \<^bold>\<open>What is shown.\<close> Policy: an action is allowed exactly when the recheck, the envelopes and the rules admit
  it, a narrower context never admits more, merging layers changes nothing, and containment of paths is the
  prefix order, except for the relative paths of \<open>path_within_relative_escape\<close>. Approval: every authorised
  action is backed by a grant that agrees with it, one-shot grants are used once, nothing is replayed.
  Capabilities: resolution and replacement are exact. Coordination: plans select the trusted resources, the
  route check accepts exactly the acyclic well-formed routes, budgets are conserved in every reachable
  runtime, dependencies are respected, attempts are bounded, and running routes can progress. Event store:
  rows are numbered without gaps per run, duplicates are recognised by content, the expected version decides
  races, caches and index are those of the log, reading gives the log back, and promoted strategies have
  passed an evaluation. Context: a build gives exactly the sources that fit, in layer order, within budget and
  labelled with their trust; compaction ends, keeps the lineage and does not fire again; the estimate is
  conservative. Loop: budgets are kept along every governed run, strategies only narrow, requests are typed,
  and two deviations: a tool without output ends the run, and data reaches the model inside an instruction.
  Strategies: applying and ranking select exactly the best that is allowed. Execution: a dispatch is driven at most
  once and its receipt survives restarts, the ledgers agree, a file change stays below the allowed roots and can be
  undone, output is cut exactly at its budget. Communication: deliveries stay within the grant and closed sessions
  stay closed, but high impact overrides a refusal. Memory: opening again gives the state back, for arguments the log
  can hold; an intention is claimed once per generation; attributes of the user need the owner.

  \<^bold>\<open>Termination.\<close> There is no fuel: the loops that are not structural (trimming, Kahn's algorithm, the walks in
  the upcaster graph) have a measure, and the loop of the cursor is unrolled, because it goes round at most
  twice. Reading a whole run (\<open>collect_cursor\<close>) is a partial function, proved to return on a represented log.

  \<^bold>\<open>Not modelled.\<close> Process, file, network and browser access of the backends and the model client, gateway,
  command line and MCP clients; serialisation; lock poisoning; SQLite errors other than violated constraints.
  The harness, gateway, cognition and configuration crates, and the federation and ecosystem tables of the store
  and its sync protocol, are not modelled either.
\<close>

end
